(* ===== verification/Prelude.thy ===== *)
theory Prelude
  imports Complex_Main "HOL-Library.AList" "HOL-Library.List_Lexorder" "HOL-Library.Char_ord"
    "HOL-Library.Product_Lexorder"
begin

text \<open>
  Shared vocabulary of the development: the Python values the packages exchange (text, dates,
  aware timestamps, insertion-ordered dictionaries, raised exceptions), the generic lemmas on
  them, and the two interfaces several components implement: a machine that keeps an invariant,
  and a sink that processes each message once.

  Text is a \<^typ>\<open>string\<close> of UTF-8 bytes: byte order and Python's code point order agree on
  UTF-8, so \<open>sorted\<close> on text is the lexicographic \<open>sort\<close> of these lists.  A \<open>date\<close> is its
  proleptic ordinal, a \<open>timedelta\<close> a number of microseconds.  Messages of exceptions are
  replaced by short ASCII tags that name the failed check.
\<close>

named_theorems dict_simps \<open>lookups after dictionary updates\<close>
named_theorems guard_simps \<open>success of a chain of validation guards\<close>

section \<open>Exceptions and results\<close>

datatype py_error =
    ValueError string
  | TypeError string
  | KeyError string
  | ArithmeticError string
  | InvalidStateTransition string
  | HysteresisInputConflict
  | HotStateIdempotencyConflict
  | SnapshotIdempotencyConflict
  | StaleSnapshotPublication
  | SnapshotCommitFailure
  | EventNotFoundError
  | EventIdentityConflictError
  | IdempotencyConflictError
  | ConcurrentEventWriteError
  | SimulatedCommitFailure
  | RuntimeError string
  | FixtureContractError string
  | KiwoomConnectionError string
  | KiwoomConnectionLost string
  | NormalizationError string
  | ReconnectNotDue

type_synonym 'a result = "py_error + 'a"

text \<open>
  A \<open>__post_init__\<close> (or the opening of a function) is a sequence of guards, each of which raises
  when it fails.  The first failing guard decides the exception.
\<close>

fun validate :: "(bool \<times> py_error) list \<Rightarrow> 'a \<Rightarrow> 'a result" where
  "validate [] x = Inr x"
| "validate ((ok, e) # gs) x = (if ok then validate gs x else Inl e)"

lemma validate_Inr_iff [guard_simps]:
  "validate gs x = Inr y \<longleftrightarrow> y = x \<and> (\<forall>g\<in>set gs. fst g)"
  by (induction gs x rule: validate.induct) auto

lemma validate_Inl_mem: "validate gs x = Inl e \<Longrightarrow> (False, e) \<in> set gs"
  by (induction gs x rule: validate.induct) (auto split: if_splits)

definition bind_result :: "'a result \<Rightarrow> ('a \<Rightarrow> 'b result) \<Rightarrow> 'b result" where
  "bind_result r f = (case r of Inl e \<Rightarrow> Inl e | Inr x \<Rightarrow> f x)"

lemma bind_result_simps [simp]:
  "bind_result (Inl e) f = Inl e" "bind_result (Inr x) f = f x"
  by (simp_all add: bind_result_def)

lemma bind_result_Inr_iff:
  "bind_result r f = Inr y \<longleftrightarrow> (\<exists>x. r = Inr x \<and> f x = Inr y)"
  by (cases r) auto

text \<open>A loop that applies a fallible body to each element stops at the first exception.\<close>

fun map_result :: "('a \<Rightarrow> 'b result) \<Rightarrow> 'a list \<Rightarrow> 'b list result" where
  "map_result f [] = Inr []"
| "map_result f (x # xs) =
     bind_result (f x) (\<lambda>y. bind_result (map_result f xs) (\<lambda>ys. Inr (y # ys)))"

lemma map_result_Inr_list_all2:
  "map_result f xs = Inr ys \<longleftrightarrow> list_all2 (\<lambda>x y. f x = Inr y) xs ys"
  by (induction xs arbitrary: ys)
    (auto simp: bind_result_Inr_iff list_all2_Cons1)

lemma pred_option_code [code]: "pred_option P None = True" "pred_option P (Some x) = P x"
  by simp_all

section \<open>Text, dates and timestamps\<close>

text \<open>
  \<open>str.strip() == ""\<close>: every character is white space.  The one-byte white space of Python and
  its multi-byte characters (U+0085, U+00A0, U+1680, U+2000 to U+200A, U+2028, U+2029, U+202F,
  U+205F, U+3000) in UTF-8.
\<close>

definition ascii_space :: "nat \<Rightarrow> bool" where
  "ascii_space n \<longleftrightarrow> (9 \<le> n \<and> n \<le> 13) \<or> (28 \<le> n \<and> n \<le> 32)"

fun blank_bytes :: "nat list \<Rightarrow> bool" where
  "blank_bytes [] = True"
| "blank_bytes (a # bs) =
     (if ascii_space a then blank_bytes bs
      else (case bs of
          [] \<Rightarrow> False
        | b # cs \<Rightarrow>
            if a = 194 \<and> (b = 133 \<or> b = 160) then blank_bytes cs
            else (case cs of
                [] \<Rightarrow> False
              | c # ds \<Rightarrow>
                  if (a = 225 \<and> b = 154 \<and> c = 128)
                     \<or> (a = 226 \<and> b = 128 \<and> (128 \<le> c \<and> c \<le> 138 \<or> c = 168 \<or> c = 169 \<or> c = 175))
                     \<or> (a = 226 \<and> b = 129 \<and> c = 159)
                     \<or> (a = 227 \<and> b = 128 \<and> c = 128)
                  then blank_bytes ds else False)))"

definition blank :: "string \<Rightarrow> bool" where
  "blank s = blank_bytes (map (\<lambda>c. of_char c :: nat) s)"

type_synonym date = int
type_synonym timedelta = int

text \<open>
  A \<open>datetime\<close> is naive, or aware with its instant in UTC microseconds and its offset.  Aware
  values compare by their instant.
\<close>

datatype datetime = Naive int | Aware int int

fun is_aware :: "datetime \<Rightarrow> bool" where
  "is_aware (Naive _) = False"
| "is_aware (Aware _ _) = True"

fun instant :: "datetime \<Rightarrow> int" where
  "instant (Naive t) = t"
| "instant (Aware t _) = t"

definition shift :: "datetime \<Rightarrow> timedelta \<Rightarrow> datetime" where
  "shift t d = (case t of Naive x \<Rightarrow> Naive (x + d) | Aware x z \<Rightarrow> Aware (x + d) z)"

lemma instant_shift [simp]: "instant (shift t d) = instant t + d"
  by (cases t) (simp_all add: shift_def)

lemma is_aware_shift [simp]: "is_aware (shift t d) = is_aware t"
  by (cases t) (simp_all add: shift_def)

text \<open>\<open>max\<close> of two aware timestamps: Python keeps the first of two equal ones.\<close>

definition later :: "datetime \<Rightarrow> datetime \<Rightarrow> datetime" where
  "later a b = (if instant a < instant b then b else a)"

lemma instant_later [simp]: "instant (later a b) = max (instant a) (instant b)"
  by (simp add: later_def)

lemma is_aware_later [simp]: "is_aware a \<Longrightarrow> is_aware b \<Longrightarrow> is_aware (later a b)"
  by (simp add: later_def)

text \<open>The decimal digits of a number, as in an f-string.\<close>

fun digits_of :: "nat \<Rightarrow> string" where
  "digits_of n = (if n < 10 then [char_of (48 + n)] else digits_of (n div 10) @ [char_of (48 + n mod 10)])"

declare digits_of.simps [simp del]

section \<open>Dictionaries and sets\<close>

text \<open>
  A \<open>dict\<close> is an association list in insertion order: an assignment to a present key keeps its
  position, a new key goes to the end, exactly as \<^const>\<open>AList.update\<close> does.
\<close>

type_synonym ('k, 'v) dict = "('k \<times> 'v) list"

abbreviation dget :: "('k, 'v) dict \<Rightarrow> 'k \<Rightarrow> 'v option" where
  "dget d k \<equiv> map_of d k"

abbreviation dset :: "'k \<Rightarrow> 'v \<Rightarrow> ('k, 'v) dict \<Rightarrow> ('k, 'v) dict" where
  "dset k v d \<equiv> AList.update k v d"

abbreviation ddel :: "'k \<Rightarrow> ('k, 'v) dict \<Rightarrow> ('k, 'v) dict" where
  "ddel k d \<equiv> AList.delete k d"

abbreviation dkeys :: "('k, 'v) dict \<Rightarrow> 'k list" where
  "dkeys d \<equiv> map fst d"

lemma dget_dset [simp, dict_simps]: "dget (dset k v d) k' = (if k' = k then Some v else dget d k')"
  by (simp add: update_conv)

lemma dget_ddel [simp, dict_simps]: "dget (ddel k d) k' = (if k' = k then None else dget d k')"
  by (simp add: delete_conv)

lemma set_dkeys_dset [simp]: "fst ` set (dset k v d) = insert k (fst ` set d)"
  by (induction d) auto

lemma distinct_dkeys_dset [simp]: "distinct (dkeys d) \<Longrightarrow> distinct (dkeys (dset k v d))"
  by (rule distinct_update)

lemma set_dset_distinct:
  "distinct (dkeys d) \<Longrightarrow> set (dset k v d) = insert (k, v) {e \<in> set d. fst e \<noteq> k}"
  by (induction d) (auto simp: image_iff)

lemma dset_values_subset: "snd ` set (dset k v d) \<subseteq> insert v (snd ` set d)"
  by (induction d) auto

lemma length_dset_le: "length (dset k v d) \<le> Suc (length d)"
  by (induction d) auto

lemma sort_key_Nil_iff [simp]: "sort_key f xs = [] \<longleftrightarrow> xs = []"
  by (metis length_0_conv length_sort)

text \<open>\<open>sorted(set(xs))\<close>.\<close>

definition sorted_set :: "'a::linorder list \<Rightarrow> 'a list" where
  "sorted_set xs = sort (remdups xs)"

lemma set_sorted_set [simp]: "set (sorted_set xs) = set xs"
  by (simp add: sorted_set_def)

lemma distinct_sorted_set [simp]: "distinct (sorted_set xs)"
  by (simp add: sorted_set_def)

lemma sorted_sorted_set [simp]: "sorted (sorted_set xs)"
  by (simp add: sorted_set_def)

lemma sorted_set_id_iff: "sorted_set xs = xs \<longleftrightarrow> sorted xs \<and> distinct xs"
proof
  assume "sorted_set xs = xs"
  then show "sorted xs \<and> distinct xs" using sorted_sorted_set [of xs] distinct_sorted_set [of xs] by simp
next
  assume "sorted xs \<and> distinct xs"
  then show "sorted_set xs = xs" by (intro sorted_distinct_set_unique) simp_all
qed

lemma sorted_set_cong: "set xs = set ys \<Longrightarrow> sorted_set xs = sorted_set ys"
  by (rule sorted_distinct_set_unique) simp_all

lemma length_filter_mono:
  "(\<And>x. x \<in> set xs \<Longrightarrow> P x \<Longrightarrow> Q x) \<Longrightarrow> length (filter P xs) \<le> length (filter Q xs)"
  by (induction xs) (auto intro: le_SucI)

text \<open>\<open>sorted(d)\<close> on a dictionary and the values in key order.\<close>

definition sorted_values :: "('k::linorder, 'v) dict \<Rightarrow> 'v list" where
  "sorted_values d = List.map_filter (dget d) (sort (dkeys d))"

lemma set_map_filter_dget: "set (List.map_filter (dget d) ks) = {v. \<exists>k\<in>set ks. dget d k = Some v}"
  by (induction ks) (auto simp: List.map_filter_simps split: option.splits)

lemma set_sorted_values: "set (sorted_values d) = {v. \<exists>k. dget d k = Some v}"
proof -
  have "k \<in> fst ` set d" if "dget d k = Some v" for k v
    using map_of_SomeD [OF that] by (force simp: image_iff)
  then show ?thesis by (auto simp: sorted_values_def set_map_filter_dget)
qed

lemma map_map_filter_dget:
  assumes "\<And>k v. dget d k = Some v \<Longrightarrow> f v = k" and "\<And>k. k \<in> set ks \<Longrightarrow> dget d k \<noteq> None"
  shows "map f (List.map_filter (dget d) ks) = ks"
  using assms(2) by (induction ks) (auto simp: List.map_filter_simps assms(1) split: option.splits)

lemma map_sorted_values:
  assumes "\<And>k v. dget d k = Some v \<Longrightarrow> f v = k"
  shows "map f (sorted_values d) = sort (dkeys d)"
  unfolding sorted_values_def
  by (rule map_map_filter_dget [OF assms]) (auto simp: map_of_eq_None_iff)

text \<open>A loop that enters values under their keys and refuses a key that is already there.\<close>

fun insert_distinct ::
  "('v \<Rightarrow> 'k) \<Rightarrow> py_error \<Rightarrow> ('k, 'v) dict \<Rightarrow> 'v list \<Rightarrow> ('k, 'v) dict result" where
  "insert_distinct f e d [] = Inr d"
| "insert_distinct f e d (x # xs) =
     (if dget d (f x) \<noteq> None then Inl e else insert_distinct f e (dset (f x) x d) xs)"

lemma insert_distinct_Inr:
  assumes "distinct (map f xs)" and "\<And>x. x \<in> set xs \<Longrightarrow> dget d (f x) = None"
  shows "\<exists>d'. insert_distinct f e d xs = Inr d'
    \<and> (\<forall>x\<in>set xs. dget d' (f x) = Some x) \<and> (\<forall>k. k \<notin> f ` set xs \<longrightarrow> dget d' k = dget d k)"
  using assms
proof (induction xs arbitrary: d)
  case (Cons x xs)
  have "distinct (map f xs)" using Cons.prems(1) by simp
  moreover have "dget (dset (f x) x d) (f y) = None" if "y \<in> set xs" for y
    using Cons.prems that by (auto simp: image_iff)
  ultimately obtain d' where d': "insert_distinct f e (dset (f x) x d) xs = Inr d'"
      "\<forall>y\<in>set xs. dget d' (f y) = Some y"
      "\<forall>k. k \<notin> f ` set xs \<longrightarrow> dget d' k = dget (dset (f x) x d) k"
    using Cons.IH [of "dset (f x) x d"] by blast
  with Cons.prems show ?case by auto
qed simp

text \<open>Entering the values of a dictionary in key order restores every lookup.\<close>

lemma insert_distinct_sorted_values:
  assumes "distinct (dkeys d)" and keyed: "\<And>k v. dget d k = Some v \<Longrightarrow> f v = k"
  shows "\<exists>d'. insert_distinct f e [] (sorted_values d) = Inr d' \<and> dget d' = dget d"
proof -
  have "distinct (map f (sorted_values d))"
    using assms(1) by (simp add: map_sorted_values [OF keyed])
  from insert_distinct_Inr [OF this, of "[]" e] obtain d'
    where d': "insert_distinct f e [] (sorted_values d) = Inr d'"
      "\<And>x. x \<in> set (sorted_values d) \<Longrightarrow> dget d' (f x) = Some x"
      "\<And>k. k \<notin> f ` set (sorted_values d) \<Longrightarrow> dget d' k = None" by auto
  have "dget d' k = dget d k" for k
  proof (cases "dget d k")
    case None
    then have "k \<notin> f ` set (sorted_values d)"
      using keyed by (auto simp: set_sorted_values)
    with None d'(3) show ?thesis by simp
  next
    case (Some v)
    then have "v \<in> set (sorted_values d)" by (auto simp: set_sorted_values)
    with d'(2) keyed [OF Some] Some show ?thesis by fastforce
  qed
  with d'(1) show ?thesis by blast
qed

section \<open>JSON values and hashes\<close>

text \<open>
  The values the program dumps as JSON text, with ISO dates and timestamps and decimal texts kept as
  what they denote.  \<open>json.dumps(sort_keys=True)\<close> writes the canonical form, and reading it back
  gives the canonical form: objects with their keys sorted.
\<close>

datatype json =
    JNull
  | JBool bool
  | JInt int
  | JNum rat
  | JStr string
  | JTime datetime
  | JDate date
  | JList "json list"
  | JObj "(string \<times> json) list"

primrec canonical :: "json \<Rightarrow> json" where
  "canonical JNull = JNull"
| "canonical (JBool b) = JBool b"
| "canonical (JInt n) = JInt n"
| "canonical (JNum q) = JNum q"
| "canonical (JStr s) = JStr s"
| "canonical (JTime t) = JTime t"
| "canonical (JDate d) = JDate d"
| "canonical (JList xs) = JList (map canonical xs)"
| "canonical (JObj fs) = JObj (sort_key fst (map (map_prod id canonical) fs))"

fun json_opt :: "('a \<Rightarrow> json) \<Rightarrow> 'a option \<Rightarrow> json" where
  "json_opt f None = JNull"
| "json_opt f (Some x) = f x"

text \<open>
  SHA-256 is a parameter \<open>H\<close> of every definition that hashes.  It is applied to the text
  \<open>json.dumps\<close> gives for a value, or to a plain text.
\<close>

datatype hash_input = Dump json | Plain string

type_synonym hash = "hash_input \<Rightarrow> string"

definition json_hash :: "hash \<Rightarrow> json \<Rightarrow> string" where
  "json_hash H v = H (Dump (canonical v))"

section \<open>Machines that keep an invariant\<close>

text \<open>
  A stateful operation takes the state and a command and gives the next state with a value or an
  exception.  A caller that catches an exception goes on from the state the operation left.
\<close>

type_synonym ('s, 'c, 'r) step = "'s \<Rightarrow> 'c \<Rightarrow> 's \<times> 'r result"

definition run :: "('s, 'c, 'r) step \<Rightarrow> 's \<Rightarrow> 'c list \<Rightarrow> 's" where
  "run step = foldl (\<lambda>s c. fst (step s c))"

lemma run_simps [simp]:
  "run step s [] = s" "run step s (c # cs) = run step (fst (step s c)) cs"
  by (simp_all add: run_def)

lemma run_append [simp]: "run step s (cs @ ds) = run step (run step s cs) ds"
  by (simp add: run_def)

locale invariant_machine =
  fixes step :: "('s, 'c, 'r) step" and inv :: "'s \<Rightarrow> bool"
  assumes step_inv: "inv s \<Longrightarrow> inv (fst (step s c))"
begin

lemma run_inv: "inv s \<Longrightarrow> inv (run step s cs)"
  by (induction cs arbitrary: s) (simp_all add: step_inv)

end

text \<open>
  An idempotent sink remembers, under the key of each processed message, its fingerprint.  A
  message it has seen changes nothing; a different message under a seen key is an exception.
\<close>

locale idempotent_sink = invariant_machine step inv
  for step :: "('s, 'c, 'r) step" and inv :: "'s \<Rightarrow> bool" +
  fixes key :: "'c \<Rightarrow> 'k" and fp :: "'c \<Rightarrow> 'f" and seen :: "'s \<Rightarrow> 'k \<Rightarrow> 'f option"
  assumes seen_mono: "inv s \<Longrightarrow> seen s k = Some f \<Longrightarrow> seen (fst (step s c)) k = Some f"
    and seen_records: "inv s \<Longrightarrow> snd (step s c) = Inr r \<Longrightarrow>
      seen (fst (step s c)) (key c) = Some (fp c)"
    and seen_replay: "inv s \<Longrightarrow> seen s (key c) = Some (fp c) \<Longrightarrow> fst (step s c) = s"
    and seen_conflict: "inv s \<Longrightarrow> seen s (key c) = Some f \<Longrightarrow> f \<noteq> fp c \<Longrightarrow>
      fst (step s c) = s \<and> (\<exists>e. snd (step s c) = Inl e)"
begin

lemma run_seen_mono: "inv s \<Longrightarrow> seen s k = Some f \<Longrightarrow> seen (run step s cs) k = Some f"
  by (induction cs arbitrary: s) (simp_all add: seen_mono step_inv)

lemma seen_after_run:
  assumes "inv s" and "snd (step s c) = Inr r"
  shows "seen (run step (fst (step s c)) cs) (key c) = Some (fp c)"
  using assms by (simp add: run_seen_mono seen_records step_inv)

lemma redelivery_no_effect:
  assumes "inv s" and "snd (step s c) = Inr r"
  shows "fst (step (run step (fst (step s c)) cs) c) = run step (fst (step s c)) cs"
  using assms by (simp add: seen_replay seen_after_run run_inv step_inv)

lemma reused_key_rejected:
  assumes "inv s" and "snd (step s c) = Inr r" and "key c' = key c" and "fp c' \<noteq> fp c"
  shows "fst (step (run step (fst (step s c)) cs) c') = run step (fst (step s c)) cs
    \<and> (\<exists>e. snd (step (run step (fst (step s c)) cs) c') = Inl e)"
  using assms seen_after_run [OF assms(1,2), of cs]
  by (intro seen_conflict) (auto simp: run_inv step_inv)

end

text \<open>A receipted sink also returns, for a message it has seen, the result of the first time.\<close>

locale receipted_sink = idempotent_sink step inv key fp seen
  for step :: "('s, 'c, 'r) step" and inv key fp seen +
  fixes receipt :: "'s \<Rightarrow> 'k \<Rightarrow> 'r option"
  assumes receipt_mono: "inv s \<Longrightarrow> receipt s k = Some r \<Longrightarrow> receipt (fst (step s c)) k = Some r"
    and receipt_records: "inv s \<Longrightarrow> snd (step s c) = Inr r \<Longrightarrow>
      receipt (fst (step s c)) (key c) = Some r"
    and receipt_replay: "inv s \<Longrightarrow> seen s (key c) = Some (fp c) \<Longrightarrow>
      receipt s (key c) = Some r \<Longrightarrow> snd (step s c) = Inr r"
begin

lemma run_receipt_mono: "inv s \<Longrightarrow> receipt s k = Some r \<Longrightarrow> receipt (run step s cs) k = Some r"
  by (induction cs arbitrary: s) (simp_all add: receipt_mono step_inv)

lemma redelivery_same_result:
  assumes "inv s" and "snd (step s c) = Inr r"
  shows "step (run step (fst (step s c)) cs) c = (run step (fst (step s c)) cs, Inr r)"
proof -
  let ?t = "run step (fst (step s c)) cs"
  have "inv ?t" using assms by (simp add: run_inv step_inv)
  moreover have "seen ?t (key c) = Some (fp c)" using assms by (rule seen_after_run)
  moreover have "receipt ?t (key c) = Some r"
    using assms by (simp add: run_receipt_mono receipt_records step_inv)
  ultimately show ?thesis by (simp add: prod_eq_iff seen_replay receipt_replay)
qed

end

end
