(* ===== verification/Decimal_Context.thy ===== *)
theory Decimal_Context
  imports Prelude
begin

text \<open>
  Python's \<open>decimal\<close> arithmetic as the calculations use it: a finite \<open>Decimal\<close> is a rational
  number, and every operation under a context of precision \<open>p\<close> gives the exact result rounded to
  \<open>p\<close> significant digits, half to even.  The bounds on the exponent (values from ten to the
  millionth upwards or down) are not modelled.  The theory proves the laws of rounding the
  calculations rest on and states them as the interface \<open>decimal_rounding\<close>.
\<close>

section \<open>Decimal values\<close>

text \<open>\<open>Decimal.is_finite\<close>: infinities and NaN are one value, which every constructor refuses.\<close>

datatype decimal = Fin rat | NonFinite

fun is_finite :: "decimal \<Rightarrow> bool" where
  "is_finite (Fin _) = True"
| "is_finite NonFinite = False"

fun dval :: "decimal \<Rightarrow> rat" where
  "dval (Fin x) = x"
| "dval NonFinite = 0"

section \<open>Rounding to a number of significant digits\<close>

fun digits10 :: "nat \<Rightarrow> nat" where
  "digits10 n = (if n < 10 then 1 else Suc (digits10 (n div 10)))"

declare digits10.simps [simp del]

text \<open>The adjusted exponent: the power of ten of the most significant digit.\<close>

definition adjusted :: "rat \<Rightarrow> int" where
  "adjusted x =
     (let (n, d) = quotient_of \<bar>x\<bar>;
          k = int (digits10 (nat n)) - int (digits10 (nat d))
      in if 10 powi k \<le> \<bar>x\<bar> then k else k - 1)"

definition round_half_even :: "rat \<Rightarrow> int" where
  "round_half_even x =
     (let f = \<lfloor>x\<rfloor>; r = x - of_int f
      in if r < 1 / 2 then f else if 1 / 2 < r then f + 1
         else if even f then f else f + 1)"

definition dround :: "nat \<Rightarrow> rat \<Rightarrow> rat" where
  "dround p x =
     (if x = 0 then 0
      else let q = 10 powi (int p - 1 - adjusted x)
           in of_int (round_half_even (x * q)) / q)"

text \<open>\<open>Decimal.next_plus\<close> of a positive number: the next one above it with \<open>p\<close> digits.\<close>

definition next_plus :: "nat \<Rightarrow> rat \<Rightarrow> rat" where
  "next_plus p x =
     (let q = 10 powi (int p - 1 - adjusted x) in of_int (\<lfloor>x * q\<rfloor> + 1) / q)"

text \<open>\<open>sum(xs, start=Decimal(0))\<close> rounds after each addition.\<close>

definition dsum :: "(rat \<Rightarrow> rat) \<Rightarrow> rat list \<Rightarrow> rat" where
  "dsum rnd xs = foldl (\<lambda>a x. rnd (a + x)) 0 xs"

subsection \<open>The adjusted exponent\<close>

lemma digits10_bounds: "0 < n \<Longrightarrow> 10 ^ (digits10 n - 1) \<le> n \<and> n < 10 ^ digits10 n"
proof (induction n rule: digits10.induct)
  case (1 n)
  show ?case
  proof (cases "n < 10")
    case True
    with "1.prems" show ?thesis by (simp add: digits10.simps)
  next
    case False
    let ?m = "n div 10"
    from False have "0 < ?m" by simp
    with "1.IH" [OF False] have IH: "10 ^ (digits10 ?m - 1) \<le> ?m" "?m < 10 ^ digits10 ?m"
      by simp_all
    have pos: "0 < digits10 ?m" by (simp add: digits10.simps [of ?m])
    have "(10::nat) ^ digits10 ?m = 10 * 10 ^ (digits10 ?m - 1)"
      using pos by (simp add: power_eq_if)
    then have "10 ^ digits10 ?m \<le> n" using IH(1) by simp
    moreover have "n < 10 * 10 ^ digits10 ?m" using IH(2) by simp
    ultimately show ?thesis using False by (simp add: digits10.simps [of n])
  qed
qed

lemma digits10_pos [simp]: "0 < digits10 n"
  by (simp add: digits10.simps [of n])

lemma of_nat_digits10_bounds:
  assumes "0 < n"
  shows "(10::rat) powi (int (digits10 n) - 1) \<le> of_nat n"
    and "of_nat n < (10::rat) powi (int (digits10 n))"
proof -
  have "of_nat (10 ^ (digits10 n - 1)) \<le> (of_nat n :: rat)"
    using digits10_bounds [OF assms] by (simp only: of_nat_le_iff)
  then show "(10::rat) powi (int (digits10 n) - 1) \<le> of_nat n"
    by (simp add: Suc_leI of_nat_diff [symmetric] flip: power_int_of_nat)
  have "of_nat n < (of_nat (10 ^ digits10 n) :: rat)"
    using digits10_bounds [OF assms] by (simp only: of_nat_less_iff)
  then show "of_nat n < (10::rat) powi (int (digits10 n))"
    by (simp flip: power_int_of_nat)
qed

lemma adjusted_bounds:
  assumes "x \<noteq> 0"
  shows "10 powi adjusted x \<le> \<bar>x\<bar>" and "\<bar>x\<bar> < 10 powi (adjusted x + 1)"
proof -
  obtain n d where q: "quotient_of \<bar>x\<bar> = (n, d)" by (cases "quotient_of \<bar>x\<bar>")
  have d: "0 < d" using quotient_of_denom_pos [OF q] .
  have x: "\<bar>x\<bar> = of_int n / of_int d" using quotient_of_div [OF q] .
  with assms d have n: "0 < n"
    by (metis of_int_0_less_iff zero_less_abs_iff zero_less_divide_iff order_less_asym)
  define a where "a = int (digits10 (nat n))"
  define b where "b = int (digits10 (nat d))"
  have na: "(10::rat) powi (a - 1) \<le> of_int n" "of_int n < (10::rat) powi a"
    using of_nat_digits10_bounds [of "nat n"] n by (simp_all add: a_def)
  have db: "(10::rat) powi (b - 1) \<le> of_int d" "of_int d < (10::rat) powi b"
    using of_nat_digits10_bounds [of "nat d"] d by (simp_all add: b_def)
  have "(10::rat) powi (a - b - 1) * of_int d \<le> of_int n"
  proof -
    have "(10::rat) powi (a - b - 1) * of_int d \<le> 10 powi (a - b - 1) * 10 powi b"
      using db by (intro mult_left_mono) simp_all
    also have "\<dots> = 10 powi (a - 1)" by (simp flip: power_int_add)
    finally show ?thesis using na by simp
  qed
  then have lo: "10 powi (a - b - 1) \<le> \<bar>x\<bar>" using d by (simp add: x pos_le_divide_eq)
  have "of_int n < (10::rat) powi (a - b + 1) * of_int d"
  proof -
    have "(10::rat) powi a = 10 powi (a - b + 1) * 10 powi (b - 1)" by (simp flip: power_int_add)
    also have "\<dots> \<le> 10 powi (a - b + 1) * of_int d"
      using db by (intro mult_left_mono) simp_all
    finally show ?thesis using na by simp
  qed
  then have hi: "\<bar>x\<bar> < 10 powi (a - b + 1)" using d by (simp add: x pos_divide_less_eq)
  have adj: "adjusted x = (if 10 powi (a - b) \<le> \<bar>x\<bar> then a - b else a - b - 1)"
    by (simp add: adjusted_def q a_def b_def)
  show "10 powi adjusted x \<le> \<bar>x\<bar>" and "\<bar>x\<bar> < 10 powi (adjusted x + 1)"
    using lo hi by (auto simp: adj)
qed

lemma ten_powi_pos [simp]: "0 < (10::rat) powi k"
  by simp

lemma ten_powi_less_iff: "(10::rat) powi a < 10 powi b \<longleftrightarrow> a < b"
proof
  assume less: "(10::rat) powi a < 10 powi b"
  show "a < b"
  proof (rule ccontr)
    assume "\<not> a < b"
    then have "(10::rat) powi b \<le> 10 powi a" by (intro power_int_increasing) simp_all
    with less show False by simp
  qed
qed (simp add: power_int_strict_increasing)

lemma ten_powi_le_iff: "(10::rat) powi a \<le> 10 powi b \<longleftrightarrow> a \<le> b"
  using ten_powi_less_iff [of b a] by (simp add: not_less [symmetric])

lemma ten_powi_add: "(10::rat) powi a * 10 powi b = 10 powi (a + b)"
  by (simp add: power_int_add)

lemma ten_powi_int: "0 \<le> k \<Longrightarrow> (10::rat) powi k = of_int (10 ^ nat k)"
  by (simp add: power_int_def)

lemma adjusted_unique:
  assumes "10 powi k \<le> \<bar>x\<bar>" and "\<bar>x\<bar> < 10 powi (k + 1)"
  shows "adjusted x = k"
proof -
  have "x \<noteq> 0" using assms(1) by (metis abs_zero not_le ten_powi_pos)
  note b = adjusted_bounds [OF this]
  have "(10::rat) powi k < 10 powi (adjusted x + 1)" using assms(1) b(2) by linarith
  moreover have "(10::rat) powi adjusted x < 10 powi (k + 1)" using assms(2) b(1) by linarith
  ultimately show ?thesis by (simp add: ten_powi_less_iff)
qed

lemma adjusted_minus [simp]: "adjusted (- x) = adjusted x"
  by (simp add: adjusted_def)

subsection \<open>Rounding half to even\<close>

lemma round_half_even_bounds: "\<lfloor>x\<rfloor> \<le> round_half_even x" "round_half_even x \<le> \<lfloor>x\<rfloor> + 1"
  by (simp_all add: round_half_even_def Let_def)

lemma round_half_even_of_int [simp]: "round_half_even (of_int n) = n"
  by (simp add: round_half_even_def)

lemma round_half_even_mono: "x \<le> y \<Longrightarrow> round_half_even x \<le> round_half_even y"
proof (cases "\<lfloor>x\<rfloor> = \<lfloor>y\<rfloor>")
  case True
  assume "x \<le> y"
  with True show ?thesis by (auto simp: round_half_even_def Let_def)
next
  case False
  assume "x \<le> y"
  with False have "\<lfloor>x\<rfloor> + 1 \<le> \<lfloor>y\<rfloor>" using floor_mono [of x y] by simp
  then show ?thesis using round_half_even_bounds(2) [of x] round_half_even_bounds(1) [of y]
    by linarith
qed

lemma round_half_even_minus [simp]: "round_half_even (- x) = - round_half_even x"
proof (cases "x \<in> \<int>")
  case True
  then obtain n where "x = of_int n" by (rule Ints_cases)
  then show ?thesis by (metis of_int_minus round_half_even_of_int)
next
  case False
  have "\<lceil>x\<rceil> = \<lfloor>x\<rfloor> + 1" using False by (simp add: ceiling_altdef)
      (metis Ints_of_int of_int_floor_le)
  then have "\<lfloor>- x\<rfloor> = - \<lfloor>x\<rfloor> - 1" by (simp add: floor_minus)
  then show ?thesis by (auto simp: round_half_even_def Let_def)
qed

subsection \<open>The laws of rounding\<close>

lemma dround_zero [simp]: "dround p 0 = 0"
  by (simp add: dround_def)

lemma dround_minus [simp]: "dround p (- x) = - dround p x"
  by (simp add: dround_def Let_def)

text \<open>A number is representable with \<open>p\<close> digits.\<close>

definition representable :: "nat \<Rightarrow> rat \<Rightarrow> bool" where
  "representable p y \<longleftrightarrow> (\<exists>m e. y = of_int m * 10 powi e \<and> \<bar>m\<bar> < 10 ^ p)"

lemma dround_representable:
  assumes "representable p y"
  shows "dround p y = y"
proof (cases "y = 0")
  case False
  from assms obtain m e where y: "y = of_int m * 10 powi e" and m: "\<bar>m\<bar> < 10 ^ p"
    by (auto simp: representable_def)
  have "of_int \<bar>m\<bar> < (of_int (10 ^ p) :: rat)" using m by (simp only: of_int_less_iff)
  then have "\<bar>y\<bar> < 10 powi int p * 10 powi e"
    by (simp add: y abs_mult power_int_of_nat)
  also have "\<dots> = 10 powi (int p + e)" by (simp add: power_int_add)
  finally have "(10::rat) powi adjusted y < 10 powi (int p + e)"
    using adjusted_bounds(1) [OF False] by linarith
  then have nonneg: "0 \<le> int p - 1 - adjusted y + e" by (simp add: ten_powi_less_iff)
  let ?q = "(10::rat) powi (int p - 1 - adjusted y)"
  have "y * ?q = of_int m * 10 powi (int p - 1 - adjusted y + e)"
    by (simp add: y power_int_add)
  also have "\<dots> = of_int (m * 10 ^ nat (int p - 1 - adjusted y + e))"
    using ten_powi_int [OF nonneg] by simp
  finally have "y * ?q = of_int (m * 10 ^ nat (int p - 1 - adjusted y + e))" .
  then have "of_int (round_half_even (y * ?q)) = y * ?q" by (metis round_half_even_of_int)
  with False show ?thesis by (simp add: dround_def Let_def)
qed simp

lemma representable_le:
  assumes "\<bar>m\<bar> \<le> 10 ^ p" and "0 < p"
  shows "representable p (of_int m * 10 powi e)"
proof (cases "\<bar>m\<bar> = 10 ^ p")
  case True
  then have "m = sgn m * 10 ^ p" by (metis sgn_mult_abs)
  then have "of_int m = of_int (sgn m) * (10::rat) ^ p"
    by (metis of_int_mult of_int_numeral of_int_power)
  then have "of_int m * 10 powi e = of_int (sgn m) * (10 powi int p * (10::rat) powi e)"
    by simp
  then have "of_int m * 10 powi e = of_int (sgn m) * (10::rat) powi (int p + e)"
    by (simp only: ten_powi_add)
  moreover have "\<bar>sgn m\<bar> < (10::int) ^ p" using assms(2) by (simp add: abs_sgn_eq)
  ultimately show ?thesis unfolding representable_def by blast
next
  case False
  with assms(1) show ?thesis by (auto simp: representable_def)
qed

lemma dround_pos_bounds:
  assumes "0 < x" and "0 < p"
  shows "10 powi adjusted x \<le> dround p x" and "dround p x \<le> 10 powi (adjusted x + 1)"
proof -
  let ?q = "(10::rat) powi (int p - 1 - adjusted x)"
  have x0: "x \<noteq> 0" and ax: "\<bar>x\<bar> = x" using assms(1) by simp_all
  have p1: "10 powi (int p - 1) = (of_int (10 ^ (p - 1)) :: rat)"
    using assms(2) ten_powi_int [of "int p - 1"] by (simp add: nat_diff_distrib)
  have "of_int (10 ^ (p - 1)) = 10 powi adjusted x * ?q"
    by (simp only: p1 [symmetric]) (simp flip: power_int_add)
  also have "\<dots> \<le> x * ?q"
    using adjusted_bounds(1) [OF x0] unfolding ax by (intro mult_right_mono) simp_all
  finally have "of_int (10 ^ (p - 1)) \<le> x * ?q" .
  then have lo: "10 ^ (p - 1) \<le> round_half_even (x * ?q)"
    using round_half_even_mono round_half_even_of_int by metis
  have "x * ?q \<le> 10 powi (adjusted x + 1) * ?q"
    using adjusted_bounds(2) [OF x0] unfolding ax by (intro mult_right_mono) simp_all
  also have "\<dots> = 10 powi int p" by (simp add: ten_powi_add)
  finally have "x * ?q \<le> of_int (10 ^ p)" by (simp add: power_int_of_nat)
  then have hi: "round_half_even (x * ?q) \<le> 10 ^ p"
    using round_half_even_mono round_half_even_of_int by metis
  have d: "dround p x = of_int (round_half_even (x * ?q)) / ?q"
    using x0 by (simp add: dround_def Let_def)
  have "10 powi adjusted x = of_int (10 ^ (p - 1)) / ?q"
    by (simp only: p1 [symmetric] eq_divide_eq) (simp add: ten_powi_add)
  also have "\<dots> \<le> dround p x"
    unfolding d using lo by (intro divide_right_mono) (simp_all only: of_int_le_iff less_imp_le ten_powi_pos)
  finally show "10 powi adjusted x \<le> dround p x" .
  have "dround p x \<le> of_int (10 ^ p) / ?q"
    unfolding d using hi by (intro divide_right_mono) (simp_all only: of_int_le_iff less_imp_le ten_powi_pos)
  also have "\<dots> = 10 powi (adjusted x + 1)" by (simp add: divide_eq_eq ten_powi_add)
  finally show "dround p x \<le> 10 powi (adjusted x + 1)" .
qed

lemma dround_pos: "0 < x \<Longrightarrow> 0 < p \<Longrightarrow> 0 < dround p x"
  using dround_pos_bounds(1) [of x p] ten_powi_pos [of "adjusted x"] by linarith

lemma representable_dround: "0 < p \<Longrightarrow> representable p (dround p x)"
proof -
  assume p: "0 < p"
  have pos: "representable p (dround p x)" if x: "0 < x" for x
  proof -
    define k where "k = int p - 1 - adjusted x"
    define m where "m = round_half_even (x * 10 powi k)"
    have d: "dround p x = of_int m / 10 powi k"
      using x by (simp add: dround_def m_def k_def Let_def)
    then have y: "dround p x = of_int m * 10 powi (- k)"
      by (simp add: power_int_minus divide_inverse)
    have "of_int m = dround p x * 10 powi k" by (simp add: d)
    also have "\<dots> \<le> 10 powi (adjusted x + 1) * 10 powi k"
      using dround_pos_bounds(2) [OF x p] by (intro mult_right_mono) simp_all
    also have "\<dots> = of_int (10 ^ p)" by (simp add: ten_powi_add k_def)
    finally have m_le: "m \<le> 10 ^ p" by (simp only: of_int_le_iff)
    have m_pos: "0 < m" using dround_pos [OF x p] unfolding d
      by (auto simp: zero_less_divide_iff dest: less_trans [OF ten_powi_pos])
    show ?thesis unfolding y using m_le m_pos p by (intro representable_le) simp_all
  qed
  have minus: "representable p (- y)" if "representable p y" for y
    using that unfolding representable_def
    by (metis abs_minus_cancel mult_minus_left of_int_minus)
  show ?thesis
  proof (cases "x < 0")
    case True
    then have "representable p (- dround p (- x))" by (intro minus pos) simp
    then show ?thesis by simp
  next
    case False
    then show ?thesis using pos [of x] by (cases "x = 0") (auto simp: representable_def)
  qed
qed

lemma dround_pos_mono:
  assumes "0 < x" "x \<le> y" "0 < p"
  shows "dround p x \<le> dround p y"
proof (cases "adjusted x = adjusted y")
  case True
  let ?q = "(10::rat) powi (int p - 1 - adjusted y)"
  have "x * ?q \<le> y * ?q" using assms(2) by (intro mult_right_mono) simp_all
  then have "round_half_even (x * ?q) \<le> round_half_even (y * ?q)" by (rule round_half_even_mono)
  then have "of_int (round_half_even (x * ?q)) / ?q \<le> of_int (round_half_even (y * ?q)) / ?q"
    by (intro divide_right_mono) simp_all
  then show ?thesis using assms True by (simp add: dround_def Let_def)
next
  case False
  have y: "0 < y" using assms by simp
  have "(10::rat) powi adjusted x < 10 powi (adjusted y + 1)"
    using adjusted_bounds(1) [of x] adjusted_bounds(2) [of y] assms(1,2) by simp
  with False have "adjusted x + 1 \<le> adjusted y" by (simp add: ten_powi_less_iff)
  then have "(10::rat) powi (adjusted x + 1) \<le> 10 powi adjusted y" by (simp add: ten_powi_le_iff)
  then show ?thesis
    using dround_pos_bounds(2) [OF assms(1,3)] dround_pos_bounds(1) [OF y assms(3)] by linarith
qed

lemma dround_mono: "0 < p \<Longrightarrow> x \<le> y \<Longrightarrow> dround p x \<le> dround p y"
proof -
  assume p: "0 < p" and le: "x \<le> y"
  have nonneg: "0 \<le> dround p z" if "0 \<le> z" for z
    using that dround_pos [OF _ p, of z] by (cases "z = 0") auto
  consider "0 < x" | "x \<le> 0" "0 \<le> y" | "y < 0" by linarith
  then show ?thesis
  proof cases
    case 1
    then show ?thesis using dround_pos_mono [OF _ le p] by simp
  next
    case 2
    then show ?thesis using nonneg [of "- x"] nonneg [of y] by simp
  next
    case 3
    then show ?thesis using dround_pos_mono [of "- y" "- x" p] le p by simp
  qed
qed

lemma dround_one: "0 < p \<Longrightarrow> dround p 1 = 1"
proof (rule dround_representable)
  assume "0 < p"
  then have "\<bar>1\<bar> < (10::int) ^ p" by simp
  then show "representable p 1"
    unfolding representable_def by (metis mult_1 of_int_1 power_int_0_right)
qed

lemma next_plus_props:
  assumes "0 < x" and "0 < p"
  shows "representable p (next_plus p x)" and "next_plus p x \<le> 10 powi (adjusted x + 1)"
    and "0 < next_plus p x"
proof -
  define k where "k = int p - 1 - adjusted x"
  define m where "m = \<lfloor>x * 10 powi k\<rfloor> + 1"
  have "next_plus p x = of_int m / 10 powi k"
    by (simp add: next_plus_def Let_def m_def k_def)
  then have n: "next_plus p x = of_int m * 10 powi (- k)"
    by (simp add: power_int_minus divide_inverse)
  have "x * 10 powi k < 10 powi (adjusted x + 1) * 10 powi k"
    using adjusted_bounds(2) [of x] assms(1) by (intro mult_strict_right_mono) simp_all
  also have "\<dots> = of_int (10 ^ p)" by (simp add: ten_powi_add k_def)
  finally have "\<lfloor>x * 10 powi k\<rfloor> < 10 ^ p" by (simp only: floor_less_iff)
  then have hi: "m \<le> 10 ^ p" by (simp add: m_def)
  have "0 < x * 10 powi k" using assms(1) by simp
  then have lo: "0 < m" by (simp add: m_def add_pos_nonneg less_imp_le)
  show "representable p (next_plus p x)"
    unfolding n using lo hi assms(2) by (intro representable_le) simp_all
  have "next_plus p x \<le> of_int (10 ^ p) * 10 powi (- k)"
    unfolding n using hi by (intro mult_right_mono) (simp_all only: of_int_le_iff less_imp_le ten_powi_pos)
  also have "\<dots> = 10 powi int p * 10 powi (- k)" by simp
  also have "\<dots> = 10 powi (adjusted x + 1)" by (simp only: ten_powi_add) (simp add: k_def)
  finally show "next_plus p x \<le> 10 powi (adjusted x + 1)" .
  show "0 < next_plus p x" unfolding n using lo by simp
qed

text \<open>
  A number with \<open>p\<close> digits that is not too small lies on a fixed decimal grid, and sums on the
  grid are exact in a wide enough context.
\<close>

definition on_grid :: "int \<Rightarrow> rat \<Rightarrow> bool" where
  "on_grid k x \<longleftrightarrow> x * 10 powi k \<in> \<int>"

lemma on_grid_add: "on_grid k x \<Longrightarrow> on_grid k y \<Longrightarrow> on_grid k (x + y)"
  by (simp add: on_grid_def distrib_right)

lemma on_grid_diff: "on_grid k x \<Longrightarrow> on_grid k y \<Longrightarrow> on_grid k (x - y)"
  by (simp add: on_grid_def left_diff_distrib)

lemma on_grid_int: "0 \<le> k \<Longrightarrow> on_grid k (of_int n)"
  by (simp add: on_grid_def ten_powi_int)

lemma on_grid_representable:
  assumes "on_grid k x" and "\<bar>x\<bar> < 10 powi (int p - k)"
  shows "representable p x"
proof -
  from assms(1) obtain m where m: "x * 10 powi k = of_int m"
    by (auto simp: on_grid_def elim: Ints_cases)
  then have x: "x = of_int m * 10 powi (- k)"
    by (simp add: power_int_minus field_simps)
  have "of_int \<bar>m\<bar> = \<bar>x\<bar> * 10 powi k" by (simp add: abs_mult flip: m)
  also have "\<dots> < 10 powi (int p - k) * 10 powi k"
    using assms(2) by (intro mult_strict_right_mono) simp_all
  also have "\<dots> = of_int (10 ^ p)" by (simp add: ten_powi_add)
  finally have "\<bar>m\<bar> < 10 ^ p" by (simp only: of_int_less_iff)
  with x show ?thesis unfolding representable_def by blast
qed

lemma dround_fixed_on_grid:
  assumes "dround p x = x" and "10 powi (int p - 1 - k) \<le> x"
  shows "on_grid k x"
proof -
  have pos: "0 < x" using assms(2) ten_powi_pos less_le_trans by blast
  let ?a = "int p - 1 - adjusted x"
  have "x * 10 powi ?a = of_int (round_half_even (x * 10 powi ?a))"
  proof -
    have "x = of_int (round_half_even (x * 10 powi ?a)) / 10 powi ?a"
      using assms(1) pos by (simp add: dround_def Let_def)
    then show ?thesis by (metis nonzero_eq_divide_eq ten_powi_pos less_irrefl)
  qed
  moreover have "(10::rat) powi (int p - 1 - k) < 10 powi (adjusted x + 1)"
    using assms(2) adjusted_bounds(2) [of x] pos by simp
  then have "0 \<le> k - ?a" by (simp add: ten_powi_less_iff)
  moreover have "x * 10 powi k = x * 10 powi ?a * 10 powi (k - ?a)"
    by (simp only: mult.assoc ten_powi_add) simp
  ultimately show ?thesis
    unfolding on_grid_def by (metis Ints_mult Ints_of_int ten_powi_int)
qed

subsection \<open>Evaluation\<close>

text \<open>
  Numbers with two decimals are exact in every context the program uses, and a number whose
  leading digit is known rounds by one division.
\<close>

lemma dround_two_decimals:
  assumes "x * 100 \<in> \<int>" and "\<bar>x\<bar> < 10 ^ 26" and "28 \<le> p"
  shows "dround p x = x"
proof (rule dround_representable, rule on_grid_representable)
  show "on_grid 2 x" using assms(1) by (simp add: on_grid_def)
  have "(10::rat) ^ 26 = 10 powi 26" by (simp add: power_int_def)
  also have "\<dots> \<le> 10 powi (int p - 2)" using assms(3) ten_powi_le_iff [of 26 "int p - 2"] by simp
  finally show "\<bar>x\<bar> < 10 powi (int p - 2)" using assms(2) by simp
qed

lemma round_half_even_nearest:
  assumes "\<bar>x - of_int m\<bar> < 1 / 2"
  shows "round_half_even x = m"
proof (cases "of_int m \<le> x")
  case True
  then have "\<lfloor>x\<rfloor> = m" using assms by (intro floor_unique) auto
  with assms show ?thesis by (simp add: round_half_even_def abs_if split: if_splits)
next
  case False
  then have "\<lfloor>x\<rfloor> = m - 1" using assms by (intro floor_unique) auto
  with assms False show ?thesis by (simp add: round_half_even_def abs_if split: if_splits)
qed

lemma dround_nearest:
  assumes "10 powi k \<le> x" and "x < 10 powi (k + 1)" and "\<bar>x * 10 powi (int p - 1 - k) - of_int m\<bar> < 1 / 2"
  shows "dround p x = of_int m / 10 powi (int p - 1 - k)"
proof -
  have "0 < x" using assms(1) ten_powi_pos less_le_trans by blast
  moreover from this have "adjusted x = k" using assms by (intro adjusted_unique) simp_all
  ultimately show ?thesis using round_half_even_nearest [OF assms(3)] by (simp add: dround_def Let_def)
qed

section \<open>The interface to the calculations\<close>

locale decimal_rounding =
  fixes rnd :: "rat \<Rightarrow> rat"
  assumes rnd_mono: "x \<le> y \<Longrightarrow> rnd x \<le> rnd y"
    and rnd_idem: "rnd (rnd x) = rnd x"
    and rnd_zero: "rnd 0 = 0"
    and rnd_one: "rnd 1 = 1"
    and rnd_pos: "0 < x \<Longrightarrow> 0 < rnd x"
begin

lemma rnd_nonneg: "0 \<le> x \<Longrightarrow> 0 \<le> rnd x"
  using rnd_mono [of 0 x] by (simp add: rnd_zero)

lemma rnd_le_one: "x \<le> 1 \<Longrightarrow> rnd x \<le> 1"
  using rnd_mono [of x 1] by (simp add: rnd_one)

lemma fold_rnd_fixed: "rnd a = a \<Longrightarrow> rnd (foldl (\<lambda>a x. rnd (a + x)) a xs) = foldl (\<lambda>a x. rnd (a + x)) a xs"
  by (induction xs arbitrary: a) (simp_all add: rnd_idem)

lemma dsum_fixed: "rnd (dsum rnd xs) = dsum rnd xs"
  unfolding dsum_def by (rule fold_rnd_fixed) (rule rnd_zero)

lemma fold_rnd_ge:
  "rnd a = a \<Longrightarrow> \<forall>x\<in>set xs. 0 \<le> x \<Longrightarrow> a \<le> foldl (\<lambda>a x. rnd (a + x)) a xs"
proof (induction xs arbitrary: a)
  case (Cons x xs)
  have "a \<le> rnd (a + x)" using rnd_mono [of a "a + x"] Cons.prems by simp
  also have "\<dots> \<le> foldl (\<lambda>a x. rnd (a + x)) (rnd (a + x)) xs"
    using Cons.prems by (intro Cons.IH) (simp_all add: rnd_idem)
  finally show ?case by simp
qed simp

lemma dsum_nonneg: "\<forall>x\<in>set xs. 0 \<le> x \<Longrightarrow> 0 \<le> dsum rnd xs"
  unfolding dsum_def using fold_rnd_ge [of 0 xs] by (simp add: rnd_zero)

lemma dsum_pos: "xs \<noteq> [] \<Longrightarrow> \<forall>x\<in>set xs. 0 < x \<Longrightarrow> 0 < dsum rnd xs"
proof -
  assume "xs \<noteq> []" and pos: "\<forall>x\<in>set xs. 0 < x"
  then obtain y ys where xs: "xs = y # ys" by (cases xs) auto
  have "0 < rnd y" using pos by (simp add: xs rnd_pos)
  also have "\<dots> \<le> foldl (\<lambda>a x. rnd (a + x)) (rnd y) ys"
    using pos by (intro fold_rnd_ge) (auto simp: xs rnd_idem intro: less_imp_le)
  finally show ?thesis by (simp add: dsum_def xs)
qed

text \<open>Dropping non-negative summands never raises a rounded sum, and the ratio stays below one.\<close>

lemma fold_rnd_filter_le:
  "a \<le> b \<Longrightarrow> rnd a = a \<Longrightarrow> \<forall>x\<in>set xs. 0 \<le> f x \<Longrightarrow>
   foldl (\<lambda>a x. rnd (a + x)) a (map f (filter P xs)) \<le> foldl (\<lambda>a x. rnd (a + x)) b (map f xs)"
proof (induction xs arbitrary: a b)
  case (Cons x xs)
  have keep: "rnd (a + f x) \<le> rnd (b + f x)" using Cons.prems by (intro rnd_mono) simp
  have drop: "a \<le> rnd (b + f x)" using rnd_mono [of a "b + f x"] Cons.prems by simp
  show ?case using Cons.prems keep drop by (auto intro!: Cons.IH simp: rnd_idem)
qed simp

lemma dsum_filter_le:
  "\<forall>x\<in>set xs. 0 \<le> f x \<Longrightarrow> dsum rnd (map f (filter P xs)) \<le> dsum rnd (map f xs)"
  unfolding dsum_def by (rule fold_rnd_filter_le) (simp_all add: rnd_zero)

lemma dsum_ratio_unit:
  assumes "\<forall>x\<in>set xs. 0 \<le> f x"
  shows "0 \<le> rnd (dsum rnd (map f (filter P xs)) / dsum rnd (map f xs))"
    and "rnd (dsum rnd (map f (filter P xs)) / dsum rnd (map f xs)) \<le> 1"
proof -
  have num: "0 \<le> dsum rnd (map f (filter P xs))" using assms by (intro dsum_nonneg) auto
  have den: "0 \<le> dsum rnd (map f xs)" using assms by (intro dsum_nonneg) auto
  show "0 \<le> rnd (dsum rnd (map f (filter P xs)) / dsum rnd (map f xs))"
    using num den by (intro rnd_nonneg divide_nonneg_nonneg)
  show "rnd (dsum rnd (map f (filter P xs)) / dsum rnd (map f xs)) \<le> 1"
    using num den dsum_filter_le [OF assms, of P]
    by (intro rnd_le_one) (auto simp: divide_le_eq_1)
qed

lemma ratio_unit:
  assumes "n \<le> (d :: nat)"
  shows "0 \<le> rnd (of_nat n / of_nat d)" and "rnd (of_nat n / of_nat d) \<le> 1"
  using assms by (auto intro!: rnd_nonneg rnd_le_one simp: divide_le_eq_1)

end

lemma dround_decimal_rounding: "0 < p \<Longrightarrow> decimal_rounding (dround p)"
  by unfold_locales
    (simp_all add: dround_mono dround_representable representable_dround dround_one dround_pos)

interpretation prec28: decimal_rounding "dround 28"
  by (rule dround_decimal_rounding) simp

interpretation prec50: decimal_rounding "dround 50"
  by (rule dround_decimal_rounding) simp

interpretation prec60: decimal_rounding "dround 60"
  by (rule dround_decimal_rounding) simp

interpretation prec120: decimal_rounding "dround 120"
  by (rule dround_decimal_rounding) simp

end
