(* ===== verification/Domain_Models.thy ===== *)
theory Domain_Models
  imports Decimal_Context
begin

text \<open>
  The value objects of \<open>packages/domain/models.py\<close> and \<open>packages/domain/coverage.py\<close>: theme
  membership, stock reference data, market observations and coverage.  A record holds the raw
  arguments of the Python constructor and \<open>_init\<close> is its \<open>__post_init__\<close>: it gives the object
  back or the exception.  The main result is that the point-in-time selection of a membership
  never looks into the future.
\<close>

section \<open>Enumerations\<close>

datatype membership_role = CORE | RELATED

datatype data_status = PREOPEN | LIVE | DELAYED | DEGRADED | STATUS_CLOSED

datatype quality_flag =
    PARTIAL_COVERAGE | FLAG_INSUFFICIENT_COVERAGE | STALE_MARKET_DATA | FREE_FLOAT_UNAVAILABLE
  | PROVISIONAL_BASELINE | FLAG_MEMBERSHIP_VERSION_MISMATCH | SOURCE_DEGRADED
  | REFERENCE_PRICE_UNAVAILABLE | MARKET_PRICE_UNAVAILABLE | FLAG_TRADING_HALTED
  | FLAG_CORPORATE_ACTION_UNRESOLVED | FLAG_INSUFFICIENT_OBSERVATIONS | FLAG_ZERO_BASELINE
  | POINT_IN_TIME_VIOLATION

fun flag_value :: "quality_flag \<Rightarrow> string" where
  "flag_value PARTIAL_COVERAGE = ''PARTIAL_COVERAGE''"
| "flag_value FLAG_INSUFFICIENT_COVERAGE = ''INSUFFICIENT_COVERAGE''"
| "flag_value STALE_MARKET_DATA = ''STALE_MARKET_DATA''"
| "flag_value FREE_FLOAT_UNAVAILABLE = ''FREE_FLOAT_UNAVAILABLE''"
| "flag_value PROVISIONAL_BASELINE = ''PROVISIONAL_BASELINE''"
| "flag_value FLAG_MEMBERSHIP_VERSION_MISMATCH = ''MEMBERSHIP_VERSION_MISMATCH''"
| "flag_value SOURCE_DEGRADED = ''SOURCE_DEGRADED''"
| "flag_value REFERENCE_PRICE_UNAVAILABLE = ''REFERENCE_PRICE_UNAVAILABLE''"
| "flag_value MARKET_PRICE_UNAVAILABLE = ''MARKET_PRICE_UNAVAILABLE''"
| "flag_value FLAG_TRADING_HALTED = ''TRADING_HALTED''"
| "flag_value FLAG_CORPORATE_ACTION_UNRESOLVED = ''CORPORATE_ACTION_UNRESOLVED''"
| "flag_value FLAG_INSUFFICIENT_OBSERVATIONS = ''INSUFFICIENT_OBSERVATIONS''"
| "flag_value FLAG_ZERO_BASELINE = ''ZERO_BASELINE''"
| "flag_value POINT_IN_TIME_VIOLATION = ''POINT_IN_TIME_VIOLATION''"

datatype unavailable_reason =
    EMPTY_MEMBERSHIP | INSUFFICIENT_COVERAGE | MISSING_REFERENCE_DATA | MISSING_MARKET_DATA
  | TRADING_HALTED | CORPORATE_ACTION_UNRESOLVED | INSUFFICIENT_OBSERVATIONS | ZERO_BASELINE
  | NO_PRIOR_ATTENTION_INTERVAL | NO_CURRENT_ATTENTION_INTERVAL | MEMBERSHIP_HISTORY_UNAVAILABLE
  | MEMBERSHIP_VERSION_MISMATCH | INCOMPLETE_ATTENTION_HISTORY

fun reason_value :: "unavailable_reason \<Rightarrow> string" where
  "reason_value EMPTY_MEMBERSHIP = ''EMPTY_MEMBERSHIP''"
| "reason_value INSUFFICIENT_COVERAGE = ''INSUFFICIENT_COVERAGE''"
| "reason_value MISSING_REFERENCE_DATA = ''MISSING_REFERENCE_DATA''"
| "reason_value MISSING_MARKET_DATA = ''MISSING_MARKET_DATA''"
| "reason_value TRADING_HALTED = ''TRADING_HALTED''"
| "reason_value CORPORATE_ACTION_UNRESOLVED = ''CORPORATE_ACTION_UNRESOLVED''"
| "reason_value INSUFFICIENT_OBSERVATIONS = ''INSUFFICIENT_OBSERVATIONS''"
| "reason_value ZERO_BASELINE = ''ZERO_BASELINE''"
| "reason_value NO_PRIOR_ATTENTION_INTERVAL = ''NO_PRIOR_ATTENTION_INTERVAL''"
| "reason_value NO_CURRENT_ATTENTION_INTERVAL = ''NO_CURRENT_ATTENTION_INTERVAL''"
| "reason_value MEMBERSHIP_HISTORY_UNAVAILABLE = ''MEMBERSHIP_HISTORY_UNAVAILABLE''"
| "reason_value MEMBERSHIP_VERSION_MISMATCH = ''MEMBERSHIP_VERSION_MISMATCH''"
| "reason_value INCOMPLETE_ATTENTION_HISTORY = ''INCOMPLETE_ATTENTION_HISTORY''"

section \<open>Theme membership\<close>

record theme_member =
  tm_stock_id :: string
  tm_role :: membership_role

definition theme_member_init :: "theme_member \<Rightarrow> theme_member result" where
  "theme_member_init m = validate [(tm_stock_id m \<noteq> [], ValueError ''stock_id'')] m"

record theme_membership_snapshot =
  ms_theme_id :: string
  ms_version :: string
  ms_effective_from :: date
  ms_known_at :: datetime
  ms_members :: "theme_member list"

definition theme_membership_snapshot_init ::
  "theme_membership_snapshot \<Rightarrow> theme_membership_snapshot result" where
  "theme_membership_snapshot_init s = validate
     [(ms_theme_id s \<noteq> [], ValueError ''theme_id''),
      (ms_version s \<noteq> [], ValueError ''version''),
      (is_aware (ms_known_at s), ValueError ''known_at''),
      (distinct (map tm_stock_id (ms_members s)), ValueError ''duplicate stock_id'')] s"

definition membership_contains :: "theme_membership_snapshot \<Rightarrow> string \<Rightarrow> bool" where
  "membership_contains s stock_id = (\<exists>m\<in>set (ms_members s). tm_stock_id m = stock_id)"

definition membership_eligible ::
  "string \<Rightarrow> date \<Rightarrow> datetime \<Rightarrow> theme_membership_snapshot \<Rightarrow> bool" where
  "membership_eligible theme_id market_date decision_at s \<longleftrightarrow>
     ms_theme_id s = theme_id \<and> ms_effective_from s \<le> market_date
     \<and> instant (ms_known_at s) \<le> instant decision_at"

definition membership_key :: "theme_membership_snapshot \<Rightarrow> date \<times> int" where
  "membership_key s = (ms_effective_from s, instant (ms_known_at s))"

definition membership_sort_key :: "theme_membership_snapshot \<Rightarrow> date \<times> int \<times> string" where
  "membership_sort_key s = (ms_effective_from s, instant (ms_known_at s), ms_version s)"

definition select_membership_snapshot ::
  "theme_membership_snapshot list \<Rightarrow> string \<Rightarrow> date \<Rightarrow> datetime
    \<Rightarrow> theme_membership_snapshot option result" where
  "select_membership_snapshot snapshots theme_id market_date decision_at =
     (if \<not> is_aware decision_at then Inl (ValueError ''decision_at'')
      else let eligible = sort_key membership_sort_key
                 (filter (membership_eligible theme_id market_date decision_at) snapshots)
           in if eligible = [] then Inr None
              else let selected = last eligible
                   in if 1 < length (filter (\<lambda>s. membership_key s = membership_key selected) eligible)
                      then Inl (ValueError ''ambiguous membership'')
                      else Inr (Some selected))"

section \<open>Reference data and observations\<close>

record stock_reference =
  sr_stock_id :: string
  sr_effective_for :: date
  sr_known_at :: datetime
  sr_previous_adjusted_close :: "decimal option"
  sr_listed_shares :: "int option"
  sr_free_float_ratio :: "decimal option"
  sr_free_float_validated :: bool
  sr_version :: string
  sr_corporate_action_resolved :: bool

definition stock_reference_init :: "stock_reference \<Rightarrow> stock_reference result" where
  "stock_reference_init r = validate
     [(sr_stock_id r \<noteq> [], ValueError ''stock_id''),
      (sr_version r \<noteq> [], ValueError ''version''),
      (is_aware (sr_known_at r), ValueError ''known_at''),
      (pred_option is_finite (sr_previous_adjusted_close r), ValueError ''previous_adjusted_close finite''),
      (pred_option (\<lambda>d. 0 \<le> dval d) (sr_previous_adjusted_close r), ValueError ''previous_adjusted_close''),
      (pred_option (\<lambda>n. 0 \<le> n) (sr_listed_shares r), ValueError ''listed_shares''),
      (pred_option is_finite (sr_free_float_ratio r), ValueError ''free_float_ratio finite''),
      (pred_option (\<lambda>d. 0 \<le> dval d \<and> dval d \<le> 1) (sr_free_float_ratio r), ValueError ''free_float_ratio'')] r"

definition adjusted_return_reference ::
  "stock_reference \<Rightarrow> date \<Rightarrow> datetime \<Rightarrow> rat option" where
  "adjusted_return_reference r market_date as_of =
     (if sr_effective_for r \<noteq> market_date \<or> instant as_of < instant (sr_known_at r)
         \<or> \<not> sr_corporate_action_resolved r
      then None
      else case sr_previous_adjusted_close r of
          None \<Rightarrow> None
        | Some d \<Rightarrow> if dval d \<le> 0 then None else Some (dval d))"

text \<open>The two products are taken in the default context of 28 digits.\<close>

definition free_float_market_cap ::
  "stock_reference \<Rightarrow> date \<Rightarrow> datetime \<Rightarrow> rat option" where
  "free_float_market_cap r market_date as_of =
     (case adjusted_return_reference r market_date as_of of
        None \<Rightarrow> None
      | Some previous_close \<Rightarrow>
          (case (sr_listed_shares r, sr_free_float_ratio r) of
             (Some shares, Some ratio) \<Rightarrow>
               if shares \<le> 0 \<or> dval ratio \<le> 0 \<or> \<not> sr_free_float_validated r then None
               else Some (dround 28 (dround 28 (previous_close * of_int shares) * dval ratio))
           | _ \<Rightarrow> None))"

record stock_market_observation =
  so_stock_id :: string
  so_market_date :: date
  so_observed_at :: datetime
  so_current_price :: "decimal option"
  so_cumulative_trading_value :: "decimal option"
  so_fresh :: bool
  so_trading_halted :: bool
  so_corporate_action_unresolved :: bool

definition stock_market_observation_init ::
  "stock_market_observation \<Rightarrow> stock_market_observation result" where
  "stock_market_observation_init x = validate
     [(so_stock_id x \<noteq> [], ValueError ''stock_id''),
      (is_aware (so_observed_at x), ValueError ''observed_at''),
      (pred_option is_finite (so_current_price x), ValueError ''current_price finite''),
      (pred_option (\<lambda>d. 0 \<le> dval d) (so_current_price x), ValueError ''current_price''),
      (pred_option is_finite (so_cumulative_trading_value x), ValueError ''cumulative_trading_value finite''),
      (pred_option (\<lambda>d. 0 \<le> dval d) (so_cumulative_trading_value x), ValueError ''cumulative_trading_value'')] x"

text \<open>A \<open>time\<close> of day is its number of microseconds since midnight.\<close>

record stock_trading_value_observation =
  sv_stock_id :: string
  sv_market_date :: date
  sv_observed_at :: datetime
  sv_time_bucket :: int
  sv_cumulative_trading_value :: "decimal option"
  sv_comparable :: bool
  sv_fresh :: bool
  sv_trading_halted :: bool
  sv_corporate_action_unresolved :: bool

definition stock_trading_value_observation_init ::
  "stock_trading_value_observation \<Rightarrow> stock_trading_value_observation result" where
  "stock_trading_value_observation_init x = validate
     [(sv_stock_id x \<noteq> [], ValueError ''stock_id''),
      (is_aware (sv_observed_at x), ValueError ''observed_at''),
      (sv_time_bucket x mod 60000000 = 0, ValueError ''time_bucket''),
      (pred_option is_finite (sv_cumulative_trading_value x), ValueError ''cumulative_trading_value finite''),
      (pred_option (\<lambda>d. 0 \<le> dval d) (sv_cumulative_trading_value x), ValueError ''cumulative_trading_value'')] x"

section \<open>Coverage\<close>

datatype coverage_status = SUFFICIENT | PARTIAL | INSUFFICIENT

record coverage_part =
  cp_observed_count :: int
  cp_total_count :: int
  cp_count_ratio :: "rat option"
  cp_observed_weight_ratio :: "decimal option"

definition coverage_ratio :: "int \<Rightarrow> int \<Rightarrow> rat option" where
  "coverage_ratio numerator denominator =
     (if denominator = 0 then None
      else Some (dround 50 (of_int numerator / of_int denominator)))"

definition coverage_part_init :: "coverage_part \<Rightarrow> coverage_part result" where
  "coverage_part_init c = validate
     [(\<not> (cp_observed_count c < 0 \<or> cp_total_count c < 0), ValueError ''count negative''),
      (cp_observed_count c \<le> cp_total_count c, ValueError ''observed_count''),
      (cp_count_ratio c = coverage_ratio (cp_observed_count c) (cp_total_count c), ValueError ''count_ratio''),
      (pred_option is_finite (cp_observed_weight_ratio c), ValueError ''observed_weight_ratio finite''),
      (pred_option (\<lambda>d. 0 \<le> dval d \<and> dval d \<le> 1) (cp_observed_weight_ratio c), ValueError ''observed_weight_ratio'')] c"

definition coverage_from_counts :: "int \<Rightarrow> int \<Rightarrow> decimal option \<Rightarrow> coverage_part result" where
  "coverage_from_counts observed_count total_count observed_weight_ratio =
     coverage_part_init
       \<lparr>cp_observed_count = observed_count, cp_total_count = total_count,
        cp_count_ratio = coverage_ratio observed_count total_count,
        cp_observed_weight_ratio = observed_weight_ratio\<rparr>"

record coverage =
  cov_status :: coverage_status
  cov_core :: coverage_part
  cov_related :: coverage_part

section \<open>Properties\<close>

text \<open>A membership without members, for the examples.\<close>

definition sample_membership :: "string \<Rightarrow> date \<Rightarrow> int \<Rightarrow> theme_membership_snapshot" where
  "sample_membership v d t =
     \<lparr>ms_theme_id = ''t'', ms_version = v, ms_effective_from = d, ms_known_at = Aware t 0,
      ms_members = []\<rparr>"

lemma last_sort_key_max:
  assumes "x \<in> set xs"
  shows "f x \<le> f (last (sort_key f xs))"
proof -
  have ne: "sort_key f xs \<noteq> []" using assms by (metis empty_iff set_empty set_sort)
  have "sorted (map f (butlast (sort_key f xs)) @ [f (last (sort_key f xs))])"
    using ne sorted_sort_key [of f xs] by (metis append_butlast_last_id map_append list.simps(8,9))
  then have "\<forall>y\<in>set (butlast (sort_key f xs)). f y \<le> f (last (sort_key f xs))"
    by (auto simp: sorted_append)
  moreover have "x \<in> set (butlast (sort_key f xs) @ [last (sort_key f xs)])"
    using assms ne by simp
  ultimately show ?thesis by auto
qed

lemma length_filter_sort_key: "length (filter P (sort_key f xs)) = length (filter P xs)"
  by (simp add: filter_sort)

lemma length_filter_one:
  assumes "x \<in> set xs" "P x" "\<not> 1 < length (filter P xs)" "y \<in> set xs" "P y"
  shows "y = x"
proof -
  obtain z where "filter P xs = [z]"
    using assms(1-3) by (cases "filter P xs") (auto simp: filter_empty_conv)
  then have "\<And>u. u \<in> set xs \<and> P u \<longleftrightarrow> u = z"
    by (metis mem_Collect_eq set_filter list.set_intros(1) set_ConsD empty_iff list.set(1))
  with assms show ?thesis by metis
qed

lemma membership_key_mono:
  "membership_sort_key t \<le> membership_sort_key s \<Longrightarrow> membership_key t \<le> membership_key s"
  by (auto simp: membership_key_def membership_sort_key_def less_eq_prod_simp)

lemma select_membership_cases:
  assumes "select_membership_snapshot snapshots theme_id market_date decision_at = Inr (Some s)"
  defines "E \<equiv> filter (membership_eligible theme_id market_date decision_at) snapshots"
  shows "is_aware decision_at" and "s \<in> set E"
    and "\<And>t. t \<in> set E \<Longrightarrow> membership_sort_key t \<le> membership_sort_key s"
    and "\<And>t. t \<in> set E \<Longrightarrow> membership_key t = membership_key s \<Longrightarrow> t = s"
proof -
  let ?S = "sort_key membership_sort_key E"
  from assms(1) have aware: "is_aware decision_at" and ne: "?S \<noteq> []" and s: "s = last ?S"
    and one: "\<not> 1 < length (filter (\<lambda>t. membership_key t = membership_key s) ?S)"
    by (auto simp: select_membership_snapshot_def E_def Let_def split: if_splits)
  show "is_aware decision_at" by fact
  show sE: "s \<in> set E" using last_in_set [OF ne] unfolding s set_sort .
  show "membership_sort_key t \<le> membership_sort_key s" if "t \<in> set E" for t
    using last_sort_key_max [OF that, of membership_sort_key] by (simp add: s)
  show "t = s" if "t \<in> set E" "membership_key t = membership_key s" for t
    using length_filter_one [OF sE _ _ that(1), of "\<lambda>t. membership_key t = membership_key s"]
      one that(2) by (simp add: length_filter_sort_key)
qed

text \<open>
  C2. Point-in-time safety of the membership selection: the selected snapshot is one of the given
  ones, belongs to the theme, was effective on the market date and known at the decision time; no
  other snapshot that was effective and known then is later, and none shares its effective date
  and knowledge time.
\<close>

theorem select_membership_point_in_time:
  assumes "select_membership_snapshot snapshots theme_id market_date decision_at = Inr (Some s)"
  shows "s \<in> set snapshots \<and> ms_theme_id s = theme_id \<and> ms_effective_from s \<le> market_date
    \<and> instant (ms_known_at s) \<le> instant decision_at
    \<and> (\<forall>t\<in>set snapshots. membership_eligible theme_id market_date decision_at t \<longrightarrow>
         membership_key t \<le> membership_key s \<and> (membership_key t = membership_key s \<longrightarrow> t = s))"
proof -
  note sel = select_membership_cases [OF assms]
  from sel show ?thesis by (auto simp: membership_eligible_def dest: membership_key_mono)
qed

theorem select_membership_point_in_time_witness:
  "select_membership_snapshot
     [sample_membership ''1'' 5 10, sample_membership ''2'' 7 20, sample_membership ''3'' 7 99]
     ''t'' 8 (Aware 50 0) = Inr (Some (sample_membership ''2'' 7 20))
   \<and> sample_membership ''2'' 7 20
        \<in> set [sample_membership ''1'' 5 10, sample_membership ''2'' 7 20, sample_membership ''3'' 7 99]"
proof -
  have sel: "select_membership_snapshot
     [sample_membership ''1'' 5 10, sample_membership ''2'' 7 20, sample_membership ''3'' 7 99]
     ''t'' 8 (Aware 50 0) = Inr (Some (sample_membership ''2'' 7 20))"
    by code_simp
  from select_membership_point_in_time [OF sel] sel show ?thesis by simp
qed

text \<open>
  When the selection gives an answer at all, no answer means that no snapshot of the theme was
  effective and known, and the ambiguity exception means that two eligible snapshots tie on the
  latest effective date and knowledge time.
\<close>

theorem select_membership_complete:
  "(select_membership_snapshot snapshots theme_id market_date decision_at = Inr None
      \<longleftrightarrow> is_aware decision_at
        \<and> filter (membership_eligible theme_id market_date decision_at) snapshots = [])
   \<and> (select_membership_snapshot snapshots theme_id market_date decision_at
        = Inl (ValueError ''ambiguous membership'')
      \<longrightarrow> 1 < length (filter (\<lambda>s. membership_eligible theme_id market_date decision_at s
          \<and> (\<forall>t\<in>set snapshots. membership_eligible theme_id market_date decision_at t
              \<longrightarrow> membership_key t \<le> membership_key s)) snapshots))"
proof -
  define E where "E = filter (membership_eligible theme_id market_date decision_at) snapshots"
  let ?S = "sort_key membership_sort_key E"
  have none: "select_membership_snapshot snapshots theme_id market_date decision_at = Inr None
      \<longleftrightarrow> is_aware decision_at \<and> E = []"
    by (auto simp: select_membership_snapshot_def E_def [symmetric] Let_def split: if_splits)
  have "1 < length (filter (\<lambda>s. \<forall>t\<in>set E. membership_key t \<le> membership_key s) E)"
    if "select_membership_snapshot snapshots theme_id market_date decision_at
        = Inl (ValueError ''ambiguous membership'')"
  proof -
    let ?s = "last ?S"
    have "1 < length (filter (\<lambda>s. membership_key s = membership_key ?s) ?S)"
      using that by (auto simp: select_membership_snapshot_def E_def [symmetric] Let_def split: if_splits)
    then have tie: "1 < length (filter (\<lambda>s. membership_key s = membership_key ?s) E)"
      by (simp add: length_filter_sort_key)
    have max: "\<forall>t\<in>set E. membership_key t \<le> membership_key ?s"
      by (blast intro: membership_key_mono last_sort_key_max)
    have "length (filter (\<lambda>s. membership_key s = membership_key ?s) E)
        \<le> length (filter (\<lambda>s. \<forall>t\<in>set E. membership_key t \<le> membership_key s) E)"
      using max by (intro length_filter_mono) simp
    with tie show ?thesis by simp
  qed
  with none show ?thesis
    by (simp add: E_def Ball_def imp_conjL conj_commute)
qed

theorem select_membership_complete_witness:
  "1 < length (filter (\<lambda>s. membership_eligible ''t'' 8 (Aware 50 0) s
      \<and> (\<forall>t\<in>set [sample_membership ''1'' 7 20, sample_membership ''2'' 7 20].
            membership_eligible ''t'' 8 (Aware 50 0) t \<longrightarrow> membership_key t \<le> membership_key s))
      [sample_membership ''1'' 7 20, sample_membership ''2'' 7 20])"
proof -
  have "select_membership_snapshot [sample_membership ''1'' 7 20, sample_membership ''2'' 7 20]
      ''t'' 8 (Aware 50 0) = Inl (ValueError ''ambiguous membership'')"
    by code_simp
  with select_membership_complete [of "[sample_membership ''1'' 7 20, sample_membership ''2'' 7 20]"
      "''t''" 8 "Aware 50 0"]
  show ?thesis by blast
qed

lemma coverage_from_counts_Inr:
  "coverage_from_counts n t w = Inr c \<longleftrightarrow>
     c = \<lparr>cp_observed_count = n, cp_total_count = t, cp_count_ratio = coverage_ratio n t,
          cp_observed_weight_ratio = w\<rparr>
     \<and> 0 \<le> n \<and> n \<le> t
     \<and> pred_option (\<lambda>d. is_finite d \<and> 0 \<le> dval d \<and> dval d \<le> 1) w"
  by (cases w) (auto simp: coverage_from_counts_def coverage_part_init_def guard_simps)

lemma free_float_market_cap_pos:
  "free_float_market_cap r market_date as_of = Some c \<Longrightarrow> 0 < c"
  by (auto simp: free_float_market_cap_def adjusted_return_reference_def
      split: option.splits if_splits intro!: prec28.rnd_pos mult_pos_pos)

end
