(* ===== verification/Weights.thy ===== *)
theory Weights
  imports Domain_Models "HOL-Library.Multiset"
begin

text \<open>
  \<open>packages/calculations/policies.py\<close> and \<open>weights.py\<close>: the versioned calculation policies and
  the iteratively capped free-float weights of a theme.  Shown here: the loop ends, every weight
  respects the cap, the stocks come back in order and, when no weight is vanishingly small, the
  stored weights add up to exactly one.
\<close>

section \<open>Policies\<close>

datatype policy_maturity = ADOPTED | BACKTEST_PENDING

fun maturity_value :: "policy_maturity \<Rightarrow> string" where
  "maturity_value ADOPTED = ''ADOPTED''"
| "maturity_value BACKTEST_PENDING = ''BACKTEST_PENDING''"

record theme_calculation_policy =
  tp_version :: string
  tp_maturity :: policy_maturity
  tp_maximum_constituent_weight :: decimal
  tp_sufficient_core_weight_ratio :: decimal
  tp_sufficient_related_count_ratio :: decimal
  tp_minimum_core_observations :: int
  tp_minimum_total_observations :: int

definition unit_ratio_guards :: "string \<Rightarrow> decimal \<Rightarrow> (bool \<times> py_error) list" where
  "unit_ratio_guards field v =
     [(is_finite v, ValueError field), (0 < dval v \<and> dval v \<le> 1, ValueError field)]"

definition theme_calculation_policy_init ::
  "theme_calculation_policy \<Rightarrow> theme_calculation_policy result" where
  "theme_calculation_policy_init p = validate
     ([(tp_version p \<noteq> [], ValueError ''version'')]
      @ unit_ratio_guards ''maximum_constituent_weight'' (tp_maximum_constituent_weight p)
      @ unit_ratio_guards ''sufficient_core_weight_ratio'' (tp_sufficient_core_weight_ratio p)
      @ unit_ratio_guards ''sufficient_related_count_ratio'' (tp_sufficient_related_count_ratio p)
      @ [(1 \<le> tp_minimum_core_observations p, ValueError ''minimum_core_observations''),
         (tp_minimum_core_observations p \<le> tp_minimum_total_observations p,
          ValueError ''minimum_total_observations'')]) p"

record same_time_baseline_policy =
  bp_version :: string
  bp_maturity :: policy_maturity
  bp_lookback_trading_days :: nat
  bp_minimum_observations :: nat

definition same_time_baseline_policy_init ::
  "same_time_baseline_policy \<Rightarrow> same_time_baseline_policy result" where
  "same_time_baseline_policy_init p = validate
     [(bp_version p \<noteq> [], ValueError ''version''),
      (1 \<le> bp_lookback_trading_days p, ValueError ''lookback_trading_days''),
      (1 \<le> bp_minimum_observations p \<and> bp_minimum_observations p \<le> bp_lookback_trading_days p,
       ValueError ''minimum_observations'')] p"

record attention_policy =
  ap_version :: string
  ap_maturity :: policy_maturity
  ap_turnover_multiple_threshold :: decimal
  ap_stock_multiple_threshold :: decimal
  ap_spread_ratio_threshold :: decimal
  ap_minimum_high_interest_stocks :: nat
  ap_weighted_return_threshold :: decimal
  ap_minimum_valid_members :: nat
  ap_close_after_absent_trading_days :: nat

definition attention_policy_init :: "attention_policy \<Rightarrow> attention_policy result" where
  "attention_policy_init p = validate
     [(ap_version p \<noteq> [], ValueError ''version''),
      (is_finite (ap_turnover_multiple_threshold p), ValueError ''turnover_multiple_threshold''),
      (is_finite (ap_stock_multiple_threshold p), ValueError ''stock_multiple_threshold''),
      (is_finite (ap_spread_ratio_threshold p), ValueError ''spread_ratio_threshold''),
      (is_finite (ap_weighted_return_threshold p), ValueError ''weighted_return_threshold''),
      (0 < dval (ap_turnover_multiple_threshold p) \<and> 0 < dval (ap_stock_multiple_threshold p),
       ValueError ''multiple threshold''),
      (0 < dval (ap_spread_ratio_threshold p) \<and> dval (ap_spread_ratio_threshold p) \<le> 1,
       ValueError ''spread_ratio_threshold''),
      (1 \<le> ap_minimum_high_interest_stocks p, ValueError ''minimum_high_interest_stocks''),
      (1 \<le> ap_minimum_valid_members p, ValueError ''minimum_valid_members''),
      (1 \<le> ap_close_after_absent_trading_days p, ValueError ''close_after_absent_trading_days'')] p"

definition THEME_CALCULATION_POLICY_V1 :: theme_calculation_policy where
  "THEME_CALCULATION_POLICY_V1 =
     \<lparr>tp_version = ''theme-metrics-2026.08.1'', tp_maturity = BACKTEST_PENDING,
      tp_maximum_constituent_weight = Fin (30 / 100),
      tp_sufficient_core_weight_ratio = Fin (80 / 100),
      tp_sufficient_related_count_ratio = Fin (70 / 100),
      tp_minimum_core_observations = 2, tp_minimum_total_observations = 3\<rparr>"

definition RANKING_BASELINE_POLICY_V1 :: same_time_baseline_policy where
  "RANKING_BASELINE_POLICY_V1 =
     \<lparr>bp_version = ''same-time-turnover-20d-2026.08.1'', bp_maturity = BACKTEST_PENDING,
      bp_lookback_trading_days = 20, bp_minimum_observations = 5\<rparr>"

definition ATTENTION_BASELINE_POLICY_V1 :: same_time_baseline_policy where
  "ATTENTION_BASELINE_POLICY_V1 =
     \<lparr>bp_version = ''same-time-attention-60d-2026.08.1'', bp_maturity = BACKTEST_PENDING,
      bp_lookback_trading_days = 60, bp_minimum_observations = 40\<rparr>"

definition ATTENTION_POLICY_V1 :: attention_policy where
  "ATTENTION_POLICY_V1 =
     \<lparr>ap_version = ''attention-interval-2026.08.1'', ap_maturity = BACKTEST_PENDING,
      ap_turnover_multiple_threshold = Fin 2, ap_stock_multiple_threshold = Fin 2,
      ap_spread_ratio_threshold = Fin (30 / 100), ap_minimum_high_interest_stocks = 2,
      ap_weighted_return_threshold = Fin (1 / 100), ap_minimum_valid_members = 3,
      ap_close_after_absent_trading_days = 10\<rparr>"

section \<open>Capped weights\<close>

record capitalization_input =
  ci_stock_id :: string
  ci_free_float_market_cap :: decimal

definition capitalization_input_init :: "capitalization_input \<Rightarrow> capitalization_input result" where
  "capitalization_input_init x = validate
     [(ci_stock_id x \<noteq> [], ValueError ''stock_id''),
      (is_finite (ci_free_float_market_cap x), ValueError ''free_float_market_cap''),
      (0 < dval (ci_free_float_market_cap x), ValueError ''free_float_market_cap'')] x"

record capped_weight =
  cw_stock_id :: string
  cw_weight :: rat

text \<open>A dictionary of numbers read at a key it has.\<close>

definition num_at :: "(string, rat) dict \<Rightarrow> string \<Rightarrow> rat" where
  "num_at d k = (case dget d k of None \<Rightarrow> 0 | Some v \<Rightarrow> v)"

definition residual_of :: "(string, rat) dict \<Rightarrow> rat" where
  "residual_of weights = dround 120 (1 - dsum (dround 120) (map snd weights))"

definition residual_candidates :: "(string, rat) dict \<Rightarrow> rat \<Rightarrow> rat \<Rightarrow> string list" where
  "residual_candidates weights residual effective_cap =
     (let ordered_ids = sort (dkeys weights)
      in if 0 < residual
         then filter (\<lambda>i. dround 120 (num_at weights i + residual) \<le> effective_cap) ordered_ids
         else filter (\<lambda>i. 0 \<le> dround 120 (num_at weights i + residual)) ordered_ids)"

definition apply_residual :: "(string, rat) dict \<Rightarrow> rat \<Rightarrow> (string, rat) dict result" where
  "apply_residual weights effective_cap =
     (let residual = residual_of weights
      in if residual = 0 then Inr weights
         else case residual_candidates weights residual effective_cap of
             [] \<Rightarrow> Inl (ArithmeticError ''residual'')
           | selected # _ \<Rightarrow>
               Inr (dset selected (dround 120 (num_at weights selected + residual)) weights))"

definition inverse_count :: "nat \<Rightarrow> rat" where
  "inverse_count n =
     (let inverse = dround 60 (1 / of_nat n)
      in if dround 60 (inverse * of_nat n) < 1 then next_plus 60 inverse else inverse)"

definition effective_cap :: "rat \<Rightarrow> nat \<Rightarrow> rat" where
  "effective_cap configured_cap n = max configured_cap (inverse_count n)"

definition proposed_weight ::
  "(string, rat) dict \<Rightarrow> string list \<Rightarrow> (string, rat) dict \<Rightarrow> string \<Rightarrow> rat" where
  "proposed_weight capitalizations remaining_ids fixed stock_id =
     (let remaining_mass = dround 60 (1 - dsum (dround 60) (map snd fixed));
          remaining_capitalization =
            dsum (dround 60) (map (num_at capitalizations) remaining_ids)
      in dround 60 (dround 60 (remaining_mass * num_at capitalizations stock_id)
           / remaining_capitalization))"

function cap_loop ::
  "(string, rat) dict \<Rightarrow> rat \<Rightarrow> string list \<Rightarrow> (string, rat) dict \<Rightarrow> (string, rat) dict" where
  "cap_loop capitalizations cap remaining_ids fixed =
     (if remaining_ids = [] then fixed
      else let proposed = proposed_weight capitalizations remaining_ids fixed;
               newly_capped = filter (\<lambda>i. cap < proposed i) remaining_ids
           in if newly_capped = []
              then foldl (\<lambda>d i. dset i (proposed i) d) fixed remaining_ids
              else cap_loop capitalizations cap
                     (filter (\<lambda>i. i \<notin> set newly_capped) remaining_ids)
                     (foldl (\<lambda>d i. dset i cap d) fixed newly_capped))"
  by pat_completeness auto
termination
proof (relation "measure (\<lambda>(c, k, r, f). length r)", goal_cases)
  case (2 capitalizations cap remaining_ids fixed proposed newly_capped)
  then obtain i where i: "i \<in> set remaining_ids" "i \<in> set newly_capped"
    by (metis filter_is_subset last_in_set subsetD)
  have "length (filter (\<lambda>i. i \<notin> set newly_capped) remaining_ids) < length remaining_ids"
    using i by (intro length_filter_less [of i]) auto
  then show ?case by simp
qed simp

declare cap_loop.simps [simp del]

text \<open>
  The same loop with the number of its rounds bounded: \<open>None\<close> when they do not suffice.
\<close>

fun cap_rounds ::
  "nat \<Rightarrow> (string, rat) dict \<Rightarrow> rat \<Rightarrow> string list \<Rightarrow> (string, rat) dict \<Rightarrow> (string, rat) dict option" where
  "cap_rounds 0 capitalizations cap remaining_ids fixed = (if remaining_ids = [] then Some fixed else None)"
| "cap_rounds (Suc n) capitalizations cap remaining_ids fixed =
     (if remaining_ids = [] then Some fixed
      else let proposed = proposed_weight capitalizations remaining_ids fixed;
               newly_capped = filter (\<lambda>i. cap < proposed i) remaining_ids
           in if newly_capped = []
              then Some (foldl (\<lambda>d i. dset i (proposed i) d) fixed remaining_ids)
              else cap_rounds n capitalizations cap
                     (filter (\<lambda>i. i \<notin> set newly_capped) remaining_ids)
                     (foldl (\<lambda>d i. dset i cap d) fixed newly_capped))"

definition fixed_weights :: "capitalization_input list \<Rightarrow> rat \<Rightarrow> (string, rat) dict" where
  "fixed_weights ordered cap =
     (let capitalizations = map (\<lambda>x. (ci_stock_id x, dval (ci_free_float_market_cap x))) ordered
      in cap_loop capitalizations cap (map ci_stock_id ordered) [])"

definition calculate_capped_weights ::
  "capitalization_input list \<Rightarrow> decimal \<Rightarrow> capped_weight list result" where
  "calculate_capped_weights inputs configured_cap =
     (if \<not> is_finite configured_cap then Inl (ValueError ''configured_cap'')
      else if \<not> (0 < dval configured_cap \<and> dval configured_cap \<le> 1)
      then Inl (ValueError ''configured_cap'')
      else let ordered = sort_key ci_stock_id inputs;
               stock_ids = map ci_stock_id ordered
           in if ordered = [] then Inr []
              else if \<not> distinct stock_ids then Inl (ValueError ''duplicate stock_id'')
              else let cap = effective_cap (dval configured_cap) (length ordered)
                   in bind_result (apply_residual (fixed_weights ordered cap) cap)
                        (\<lambda>weights. Inr (map (\<lambda>i. \<lparr>cw_stock_id = i, cw_weight = num_at weights i\<rparr>)
                           stock_ids)))"

definition calculate_weighted_return ::
  "capped_weight list \<Rightarrow> (string, rat) dict \<Rightarrow> rat result" where
  "calculate_weighted_return weights returns =
     (if set (map cw_stock_id weights) \<noteq> set (dkeys returns) then Inl (ValueError ''stock_id set'')
      else Inr (dsum (dround 60)
             (map (\<lambda>w. dround 60 (cw_weight w * num_at returns (cw_stock_id w))) weights)))"

section \<open>The capping loop\<close>

lemma foldl_dset_keys:
  "fst ` set (foldl (\<lambda>d i. dset i (f i) d) d0 is) = fst ` set d0 \<union> set is"
  by (induction "is" arbitrary: d0) auto

lemma foldl_dset_distinct:
  "distinct (dkeys d0) \<Longrightarrow> distinct (dkeys (foldl (\<lambda>d i. dset i (f i) d) d0 is))"
  by (induction "is" arbitrary: d0) auto

lemma foldl_dset_values:
  "\<forall>v\<in>snd ` set d0. P v \<Longrightarrow> \<forall>i\<in>set is. P (f i) \<Longrightarrow>
   \<forall>v\<in>snd ` set (foldl (\<lambda>d i. dset i (f i) d) d0 is). P v"
proof (induction "is" arbitrary: d0)
  case (Cons i "is")
  have "\<forall>v\<in>snd ` set (dset i (f i) d0). P v"
    using Cons.prems dset_values_subset [of i "f i" d0] by (metis insertE list.set_intros(1) subsetD)
  with Cons show ?case by simp
qed simp

lemma cap_loop_keys:
  "fst ` set (cap_loop c k r f) = fst ` set f \<union> set r"
proof (induction c k r f rule: cap_loop.induct)
  case (1 c k r f)
  then show ?case
    by (subst cap_loop.simps) (auto simp: Let_def foldl_dset_keys)
qed

lemma cap_loop_distinct: "distinct (dkeys f) \<Longrightarrow> distinct (dkeys (cap_loop c k r f))"
proof (induction c k r f rule: cap_loop.induct)
  case (1 c k r f)
  then show ?case
    by (subst cap_loop.simps) (simp add: Let_def foldl_dset_distinct)
qed

lemma cap_loop_values:
  assumes "\<And>r f i. \<not> k < proposed_weight c r f i \<Longrightarrow> P (proposed_weight c r f i)" and "P k"
  shows "\<forall>v\<in>snd ` set f. P v \<Longrightarrow> \<forall>v\<in>snd ` set (cap_loop c k r f). P v"
  using assms
proof (induction c k r f rule: cap_loop.induct)
  case (1 c k r f)
  let ?p = "proposed_weight c r f"
  let ?n = "filter (\<lambda>i. k < ?p i) r"
  show ?case
  proof (cases "r = [] \<or> ?n = []")
    case True
    have "\<forall>v\<in>snd ` set (foldl (\<lambda>d i. dset i (?p i) d) f r). P v" if "?n = []"
      using that "1.prems" by (intro foldl_dset_values) (auto simp: filter_empty_conv)
    with True "1.prems"(1) show ?thesis by (subst cap_loop.simps) (auto simp: Let_def)
  next
    case False
    have "\<forall>v\<in>snd ` set (foldl (\<lambda>d i. dset i k d) f ?n). P v"
      using "1.prems" by (intro foldl_dset_values) simp_all
    with False "1.IH" "1.prems"(2,3) show ?thesis by (subst cap_loop.simps) (simp add: Let_def)
  qed
qed

lemma proposed_weight_fixed: "dround 60 (proposed_weight c r f i) = proposed_weight c r f i"
  by (simp add: proposed_weight_def Let_def prec60.rnd_idem)

section \<open>The residual\<close>

lemma num_at_dset [simp]: "num_at (dset k v d) i = (if i = k then v else num_at d i)"
  by (simp add: num_at_def)

lemma num_at_mem: "i \<in> fst ` set d \<Longrightarrow> num_at d i \<in> snd ` set d"
proof -
  assume "i \<in> fst ` set d"
  then obtain v where v: "map_of d i = Some v" by (metis domIff dom_map_of_conv_image_fst not_None_eq)
  then show ?thesis using map_of_SomeD [OF v] by (force simp: num_at_def)
qed

lemma sum_num_at:
  "distinct (dkeys d) \<Longrightarrow> distinct is \<Longrightarrow> set is = fst ` set d \<Longrightarrow>
   (\<Sum>i\<leftarrow>is. num_at d i) = sum_list (map snd d)"
proof -
  assume d: "distinct (dkeys d)" and i: "distinct is" "set is = fst ` set d"
  have eq: "map (num_at d) (dkeys d) = map snd d"
    using d by (auto simp: num_at_def map_of_eq_Some_iff intro!: map_cong)
  have "sum_list (map snd d) = sum_list (map (num_at d) (dkeys d))" by (simp only: eq)
  also have "\<dots> = sum (num_at d) (set (dkeys d))" using d by (rule sum_list_distinct_conv_sum_set)
  also have "\<dots> = sum (num_at d) (set is)" using i by simp
  also have "\<dots> = sum_list (map (num_at d) is)" using i(1) by (rule sum_list_distinct_conv_sum_set [symmetric])
  finally show ?thesis by simp
qed

lemma sum_dset:
  assumes "distinct (dkeys d)" and "k \<in> fst ` set d"
  shows "sum_list (map snd (dset k v d)) = sum_list (map snd d) - num_at d k + (v::rat)"
  using assms
proof (induction d)
  case (Cons e d)
  show ?case
  proof (cases "fst e = k")
    case True
    then show ?thesis by (cases e) (simp add: num_at_def)
  next
    case False
    with Cons show ?thesis by (cases e) (auto simp: num_at_def)
  qed
qed simp

text \<open>A weight that the loop stores with 60 digits and that is not vanishingly small.\<close>

definition grid_weight :: "rat \<Rightarrow> bool" where
  "grid_weight w \<longleftrightarrow> dround 60 w = w \<and> 1 / 10 ^ 50 \<le> w \<and> w \<le> 10"

lemma grid_weight_on_grid: "grid_weight w \<Longrightarrow> on_grid 109 w"
  by (rule dround_fixed_on_grid [of 60]) (auto simp: grid_weight_def power_int_def field_simps)

lemma dround_120_grid: "on_grid 109 x \<Longrightarrow> \<bar>x\<bar> < 10 ^ 11 \<Longrightarrow> dround 120 x = x"
proof -
  have "(10::rat) powi (int 120 - 109) = 10 ^ 11" by (simp add: power_int_def)
  then show "on_grid 109 x \<Longrightarrow> \<bar>x\<bar> < 10 ^ 11 \<Longrightarrow> dround 120 x = x"
    by (intro dround_representable on_grid_representable [of 109]) (simp_all only:)
qed

lemma dsum_grid_exact_acc:
  "on_grid 109 a \<Longrightarrow> 0 \<le> a \<Longrightarrow> a + 10 * of_nat (length ws) < 10 ^ 11 \<Longrightarrow>
   \<forall>w\<in>set ws. grid_weight w \<Longrightarrow>
   foldl (\<lambda>a x. dround 120 (a + x)) a ws = a + sum_list ws
   \<and> on_grid 109 (a + sum_list ws) \<and> 0 \<le> a + sum_list ws \<and> a + sum_list ws < 10 ^ 11"
proof (induction ws arbitrary: a)
  case (Cons w ws)
  have w: "on_grid 109 w" "0 \<le> w" "w \<le> 10"
    using Cons.prems(4) by (auto simp: grid_weight_on_grid) (auto simp: grid_weight_def field_simps)
  have aw: "on_grid 109 (a + w)" using Cons.prems(1) w(1) by (rule on_grid_add)
  have "dround 120 (a + w) = a + w"
    using aw by (rule dround_120_grid) (use Cons.prems w in auto)
  moreover have "a + w + 10 * of_nat (length ws) < 10 ^ 11" using Cons.prems(3) w(3) by simp
  ultimately show ?case
    using Cons.IH [OF aw] Cons.prems w by (simp add: add.assoc)
qed simp

lemma dsum_grid_exact:
  assumes "\<forall>w\<in>set ws. grid_weight w" and "length ws < 10 ^ 9"
  shows "dsum (dround 120) ws = sum_list ws" and "on_grid 109 (sum_list ws)"
    and "0 \<le> sum_list ws" and "sum_list ws < 10 ^ 10"
proof -
  have len: "10 * of_nat (length ws) < (10 ^ 10 :: rat)"
  proof -
    have "of_nat (length ws) < (of_nat (10 ^ 9) :: rat)" using assms(2) by (simp only: of_nat_less_iff)
    then show ?thesis by simp
  qed
  have "on_grid 109 0" by (simp add: on_grid_def)
  from dsum_grid_exact_acc [OF this, of ws] len assms(1)
  show "dsum (dround 120) ws = sum_list ws" and "on_grid 109 (sum_list ws)"
    and nonneg: "0 \<le> sum_list ws"
    by (simp_all add: dsum_def)
  have "sum_list ws \<le> (\<Sum>w\<leftarrow>ws. 10)"
    using assms(1) sum_list_mono [of ws "\<lambda>w. w" "\<lambda>_. 10"] by (simp add: grid_weight_def)
  also have "\<dots> = 10 * of_nat (length ws)" by (simp add: sum_list_triv mult.commute)
  finally show "sum_list ws < 10 ^ 10" using len by simp
qed

lemma residual_candidates_mem:
  "i \<in> set (residual_candidates ws r cap) \<Longrightarrow> i \<in> fst ` set ws
   \<and> (if 0 < r then dround 120 (num_at ws i + r) \<le> cap else 0 \<le> dround 120 (num_at ws i + r))"
  by (auto simp: residual_candidates_def Let_def split: if_splits)

lemma apply_residual_cases:
  assumes "apply_residual ws cap = Inr ws'"
  obtains (exact) "residual_of ws = 0" "ws' = ws"
  | (corrected) i where "i \<in> fst ` set ws"
      "ws' = dset i (dround 120 (num_at ws i + residual_of ws)) ws"
      "0 < residual_of ws \<Longrightarrow> dround 120 (num_at ws i + residual_of ws) \<le> cap"
proof (cases "residual_of ws = 0")
  case True
  with assms show ?thesis by (intro exact) (auto simp: apply_residual_def)
next
  case False
  with assms obtain i rest where c: "residual_candidates ws (residual_of ws) cap = i # rest"
    and ws': "ws' = dset i (dround 120 (num_at ws i + residual_of ws)) ws"
    by (auto simp: apply_residual_def Let_def split: list.splits)
  have "i \<in> set (residual_candidates ws (residual_of ws) cap)" by (simp add: c)
  from residual_candidates_mem [OF this] ws' show ?thesis by (intro corrected) auto
qed

lemma apply_residual_total:
  assumes "apply_residual ws cap = Inr ws'" and "distinct (dkeys ws)"
    and grid: "\<forall>w\<in>snd ` set ws. grid_weight w" and len: "length ws < 10 ^ 9"
  shows "sum_list (map snd ws') = 1"
proof -
  let ?S = "sum_list (map snd ws)"
  have S: "dsum (dround 120) (map snd ws) = ?S" "on_grid 109 ?S" "0 \<le> ?S" "?S < 10 ^ 10"
    using dsum_grid_exact [of "map snd ws"] grid len by auto
  have one: "on_grid 109 (1 - ?S)" using S(2) on_grid_int [of 109 1] by (intro on_grid_diff) simp_all
  have res: "residual_of ws = 1 - ?S"
    unfolding residual_of_def S(1) using one S by (intro dround_120_grid) (auto simp: abs_if)
  from assms(1) show ?thesis
  proof (cases rule: apply_residual_cases)
    case exact
    with res show ?thesis by simp
  next
    case (corrected i)
    note mem = corrected(1) and ws' = corrected(2)
    have g: "grid_weight (num_at ws i)" using grid num_at_mem [OF mem] by blast
    have b: "0 \<le> num_at ws i" "num_at ws i \<le> 10"
      using g by (auto simp: grid_weight_def field_simps)
    have "on_grid 109 (num_at ws i + (1 - ?S))"
      using on_grid_add [OF grid_weight_on_grid [OF g] one] .
    then have "dround 120 (num_at ws i + residual_of ws) = num_at ws i + residual_of ws"
      unfolding res by (rule dround_120_grid) (use b S(3,4) in \<open>auto simp: abs_if\<close>)
    then show ?thesis by (simp add: ws' sum_dset [OF assms(2) mem] res)
  qed
qed

lemma apply_residual_keys:
  assumes "apply_residual ws cap = Inr ws'"
  shows "fst ` set ws' = fst ` set ws" and "distinct (dkeys ws) \<Longrightarrow> distinct (dkeys ws')"
  using assms by (cases rule: apply_residual_cases; simp add: insert_absorb)+

lemma apply_residual_le:
  assumes "apply_residual ws cap = Inr ws'" and "\<forall>v\<in>snd ` set ws. v \<le> cap"
    and "i \<in> fst ` set ws" and "dround 120 cap = cap"
  shows "num_at ws' i \<le> cap"
proof -
  have old: "num_at ws i \<le> cap" if "i \<in> fst ` set ws" for i
    using assms(2) num_at_mem [OF that] by blast
  from assms(1) show ?thesis
  proof (cases rule: apply_residual_cases)
    case exact
    with assms(3) old show ?thesis by simp
  next
    case (corrected s)
    have "dround 120 (num_at ws s + residual_of ws) \<le> cap"
    proof (cases "0 < residual_of ws")
      case False
      then have "num_at ws s + residual_of ws \<le> cap" using old [OF corrected(1)] by simp
      from prec120.rnd_mono [OF this] show ?thesis by (simp add: assms(4))
    qed (rule corrected)
    with old assms(3) show ?thesis by (auto simp: corrected(2))
  qed
qed

section \<open>The calculated weights\<close>

lemma representable_mono: "representable p x \<Longrightarrow> p \<le> q \<Longrightarrow> representable q x"
proof -
  assume "representable p x" and "p \<le> q"
  then obtain m e where "x = of_int m * 10 powi e" "\<bar>m\<bar> < 10 ^ p" by (auto simp: representable_def)
  moreover have "(10::int) ^ p \<le> 10 ^ q" using \<open>p \<le> q\<close> by (intro power_increasing) simp_all
  ultimately show "representable q x" unfolding representable_def using less_le_trans by blast
qed

lemma dround_fixed_mono: "0 < p \<Longrightarrow> dround p x = x \<Longrightarrow> p \<le> q \<Longrightarrow> dround q x = x"
  by (metis dround_representable representable_dround representable_mono)

lemma inverse_count_props:
  assumes "0 < n"
  shows "dround 60 (inverse_count n) = inverse_count n" and "inverse_count n \<le> 10"
proof -
  let ?i = "dround 60 (1 / of_nat n)"
  have pos: "0 < ?i" using assms by (intro prec60.rnd_pos) simp
  have le1: "?i \<le> 1" using assms by (intro prec60.rnd_le_one) simp
  have "(10::rat) powi adjusted ?i \<le> 10 powi 0" using adjusted_bounds(1) [of ?i] pos le1 by simp
  then have adj: "adjusted ?i \<le> 0" by (simp only: ten_powi_le_iff)
  have "next_plus 60 ?i \<le> 10 powi (adjusted ?i + 1)" using pos by (intro next_plus_props) simp_all
  also have "\<dots> \<le> 10 powi 1" using adj by (simp only: ten_powi_le_iff)
  finally have np: "next_plus 60 ?i \<le> 10" by simp
  show "inverse_count n \<le> 10" using np le1 by (simp add: inverse_count_def Let_def)
  show "dround 60 (inverse_count n) = inverse_count n"
    using pos by (auto simp: inverse_count_def Let_def prec60.rnd_idem
        intro!: dround_representable next_plus_props)
qed

lemma effective_cap_props:
  assumes "0 < n" and "dround 60 c = c" and "c \<le> 1"
  shows "dround 60 (effective_cap c n) = effective_cap c n" and "effective_cap c n \<le> 10"
  using inverse_count_props [OF assms(1)] assms by (auto simp: effective_cap_def max_def)

lemma calculate_capped_weights_cases:
  assumes "calculate_capped_weights inputs cap = Inr ws" and "inputs \<noteq> []"
  defines "ordered \<equiv> sort_key ci_stock_id inputs"
  defines "k \<equiv> effective_cap (dval cap) (length inputs)"
  obtains final where "apply_residual (fixed_weights ordered k) k = Inr final"
    and "ws = map (\<lambda>i. \<lparr>cw_stock_id = i, cw_weight = num_at final i\<rparr>) (map ci_stock_id ordered)"
    and "distinct (map ci_stock_id ordered)" and "0 < dval cap" and "dval cap \<le> 1"
proof -
  have len: "length ordered = length inputs" by (simp add: ordered_def)
  have "ordered \<noteq> []" using assms(2) len by auto
  with assms(1) show ?thesis
    by (auto simp: calculate_capped_weights_def Let_def bind_result_Inr_iff len k_def
        simp flip: ordered_def split: if_splits intro!: that)
qed

lemma fixed_weights_props:
  "fst ` set (fixed_weights ordered k) = ci_stock_id ` set ordered"
  "distinct (dkeys (fixed_weights ordered k))"
  "\<forall>v\<in>snd ` set (fixed_weights ordered k). v \<le> k"
  "dround 60 k = k \<Longrightarrow> \<forall>v\<in>snd ` set (fixed_weights ordered k). dround 60 v = v"
proof -
  let ?c = "map (\<lambda>x. (ci_stock_id x, dval (ci_free_float_market_cap x))) ordered"
  have f: "fixed_weights ordered k = cap_loop ?c k (map ci_stock_id ordered) []"
    by (simp add: fixed_weights_def Let_def)
  show "fst ` set (fixed_weights ordered k) = ci_stock_id ` set ordered"
    by (simp add: f cap_loop_keys)
  show "distinct (dkeys (fixed_weights ordered k))"
    by (simp add: f cap_loop_distinct)
  show "\<forall>v\<in>snd ` set (fixed_weights ordered k). v \<le> k"
    unfolding f by (rule cap_loop_values) simp_all
  show "\<forall>v\<in>snd ` set (fixed_weights ordered k). dround 60 v = v" if "dround 60 k = k"
    unfolding f using that by (intro cap_loop_values) (simp_all add: proposed_weight_fixed)
qed

lemma sort_key_ids: "map ci_stock_id (sort_key ci_stock_id xs) = sort (map ci_stock_id xs)"
  by (rule properties_for_sort [symmetric]) (simp_all only: mset_map mset_sort sorted_sort_key)

text \<open>Values for the examples.\<close>

definition sample_cap :: "string \<Rightarrow> rat \<Rightarrow> capitalization_input" where
  "sample_cap i c = \<lparr>ci_stock_id = i, ci_free_float_market_cap = Fin c\<rparr>"

definition sample_caps :: "capitalization_input list" where
  "sample_caps = [sample_cap ''b'' 5, sample_cap ''a'' 1, sample_cap ''c'' 2, sample_cap ''d'' 2]"

definition sample_weights :: "capped_weight list" where
  "sample_weights =
     [\<lparr>cw_stock_id = ''a'', cw_weight = 12 / 100\<rparr>, \<lparr>cw_stock_id = ''b'', cw_weight = 2 / 5\<rparr>,
      \<lparr>cw_stock_id = ''c'', cw_weight = 24 / 100\<rparr>, \<lparr>cw_stock_id = ''d'', cw_weight = 24 / 100\<rparr>]"

lemma sample_sorted:
  "sort_key ci_stock_id sample_caps =
     [sample_cap ''a'' 1, sample_cap ''b'' 5, sample_cap ''c'' 2, sample_cap ''d'' 2]"
  by (simp add: sample_caps_def sample_cap_def)

lemma sample_effective_cap: "effective_cap (2 / 5) 4 = 2 / 5"
  by (simp add: effective_cap_def inverse_count_def Let_def dround_two_decimals)

lemma sample_fixed:
  "fixed_weights (sort_key ci_stock_id sample_caps) (2 / 5) =
     [(''b'', 2 / 5), (''a'', 12 / 100), (''c'', 24 / 100), (''d'', 24 / 100)]"
  by (simp add: sample_sorted fixed_weights_def cap_loop.simps proposed_weight_def
      sample_cap_def dsum_def num_at_def Let_def dround_two_decimals)

lemma sample_weights_calculated:
  "calculate_capped_weights sample_caps (Fin (2 / 5)) = Inr sample_weights"
proof -
  have "length (sort_key ci_stock_id sample_caps) = 4" "sort_key ci_stock_id sample_caps \<noteq> []"
    by (simp_all add: sample_sorted)
  moreover have "apply_residual [(''b'', 2 / 5), (''a'', 12 / 100), (''c'', 24 / 100), (''d'', 24 / 100)] (2 / 5)
      = Inr [(''b'', 2 / 5), (''a'', 12 / 100), (''c'', 24 / 100), (''d'', 24 / 100)]"
    by (simp add: apply_residual_def residual_of_def dsum_def Let_def dround_two_decimals)
  ultimately show ?thesis
    by (simp add: calculate_capped_weights_def Let_def sample_effective_cap sample_fixed)
      (simp add: sample_sorted sample_cap_def sample_weights_def num_at_def)
qed

text \<open>
  C4. The capping loop ends: for any stocks and any cap, as many rounds as there are stocks are
  enough, since every round but the last caps at least one more stock, and further rounds change nothing.
\<close>

theorem cap_loop_ends:
  "cap_rounds (length remaining_ids + n) capitalizations cap remaining_ids fixed
     = Some (cap_loop capitalizations cap remaining_ids fixed)"
proof (induction "length remaining_ids" arbitrary: remaining_ids fixed n rule: less_induct)
  case less
  show ?case
  proof (cases remaining_ids)
    case Nil
    then show ?thesis by (cases n) (simp_all add: cap_loop.simps)
  next
    case (Cons i others)
    let ?capped = "filter (\<lambda>i. cap < proposed_weight capitalizations remaining_ids fixed i) remaining_ids"
    let ?rest = "filter (\<lambda>i. i \<notin> set ?capped) remaining_ids"
    show ?thesis
    proof (cases "?capped = []")
      case True
      with Cons show ?thesis by (subst cap_loop.simps) (simp add: Let_def)
    next
      case False
      then obtain j where "j \<in> set remaining_ids" "j \<in> set ?capped" by (metis filter_is_subset last_in_set subsetD)
      then have shorter: "length ?rest < length remaining_ids" by (intro length_filter_less [of j]) auto
      define m where "m = length remaining_ids - Suc (length ?rest) + n"
      have fuel: "length remaining_ids + n = Suc (length ?rest + m)" using shorter by (simp add: m_def)
      have "cap_rounds (length remaining_ids + n) capitalizations cap remaining_ids fixed
          = cap_rounds (length ?rest + m) capitalizations cap ?rest (foldl (\<lambda>d i. dset i cap d) fixed ?capped)"
        unfolding fuel using False Cons by (simp add: Let_def)
      also have "\<dots> = Some (cap_loop capitalizations cap ?rest (foldl (\<lambda>d i. dset i cap d) fixed ?capped))"
        by (rule less.hyps [OF shorter])
      also have "\<dots> = Some (cap_loop capitalizations cap remaining_ids fixed)"
        using False Cons by (subst (2) cap_loop.simps) (simp add: Let_def)
      finally show ?thesis .
    qed
  qed
qed



text \<open>
  The stored weights add up to exactly one: when the loop leaves every weight at least ten to
  the minus fifty and there are fewer than a billion stocks, summing and correcting at 120 digits
  loses nothing.
\<close>

theorem capped_weights_total_one:
  assumes "calculate_capped_weights inputs cap = Inr ws" and "inputs \<noteq> []"
    and "dround 60 (dval cap) = dval cap" and "length inputs < 10 ^ 9"
    and "\<forall>w\<in>snd ` set (fixed_weights (sort_key ci_stock_id inputs)
            (effective_cap (dval cap) (length inputs))). 1 / 10 ^ 50 \<le> w"
  shows "sum_list (map cw_weight ws) = 1"
proof -
  let ?k = "effective_cap (dval cap) (length inputs)"
  let ?o = "sort_key ci_stock_id inputs"
  obtain final where fin: "apply_residual (fixed_weights ?o ?k) ?k = Inr final"
    and ws: "ws = map (\<lambda>i. \<lparr>cw_stock_id = i, cw_weight = num_at final i\<rparr>) (map ci_stock_id ?o)"
    and dist: "distinct (map ci_stock_id ?o)" and le1: "dval cap \<le> 1"
    using calculate_capped_weights_cases [OF assms(1,2)] by blast
  have k: "dround 60 ?k = ?k" "?k \<le> 10"
    using assms(2,3) le1 by (auto intro!: effective_cap_props)
  note fw = fixed_weights_props [where ordered = ?o and k = ?k]
  have grid: "\<forall>w\<in>snd ` set (fixed_weights ?o ?k). grid_weight w"
    using assms(5) fw(3) fw(4) [OF k(1)] k(2) by (meson grid_weight_def order_trans)
  have "length (fixed_weights ?o ?k) = card (fst ` set (fixed_weights ?o ?k))"
    using distinct_card [OF fw(2)] by simp
  also have "\<dots> \<le> length inputs" using card_length [of "map ci_stock_id ?o"] by (simp add: fw(1))
  finally have len: "length (fixed_weights ?o ?k) < 10 ^ 9" using assms(4) by simp
  have total: "sum_list (map snd final) = 1"
    using fin fw(2) grid len by (rule apply_residual_total)
  have "distinct (dkeys final) \<and> fst ` set final = set (map ci_stock_id ?o)"
    using apply_residual_keys [OF fin] fw(1,2) by simp
  then have "sum_list (map (num_at final) (map ci_stock_id ?o)) = sum_list (map snd final)"
    using dist by (intro sum_num_at) auto
  with total show ?thesis by (simp add: ws o_def)
qed

theorem capped_weights_total_one_witness:
  "calculate_capped_weights sample_caps (Fin (2 / 5)) = Inr sample_weights
   \<and> sum_list (map cw_weight sample_weights) = 1"
proof -
  have cap: "dround 60 (dval (Fin (2 / 5))) = dval (Fin (2 / 5))" by (simp add: dround_two_decimals)
  have ne: "sample_caps \<noteq> []" and len: "length sample_caps < 10 ^ 9" and l4: "length sample_caps = 4"
    by (simp_all add: sample_caps_def)
  have grid: "\<forall>w\<in>snd ` set (fixed_weights (sort_key ci_stock_id sample_caps)
      (effective_cap (dval (Fin (2 / 5))) (length sample_caps))). 1 / 10 ^ 50 \<le> w"
    by (simp add: l4 sample_effective_cap sample_fixed)
  from capped_weights_total_one [OF sample_weights_calculated ne cap len grid]
    sample_weights_calculated show ?thesis by simp
qed

text \<open>A reciprocal that rounds down, and whose product with the count rounds back up to one.\<close>

definition twelfth :: rat where
  "twelfth = 833333333333333333333333333333333333333333333333333333333333 / 10 ^ 61"

lemma dround_twelfth: "dround 60 (1 / 12) = twelfth"
proof -
  have "dround 60 (1 / 12)
      = of_int 833333333333333333333333333333333333333333333333333333333333 / 10 powi (int 60 - 1 - (- 2))"
    by (rule dround_nearest) (simp_all add: power_int_def power2_eq_square)
  then show ?thesis by (simp add: twelfth_def power_int_def)
qed

lemma dround_twelve_twelfths: "dround 60 (twelfth * 12) = 1"
proof -
  have "dround 60 (twelfth * 12) = of_int (10 ^ 60) / 10 powi (int 60 - 1 - (- 1))"
    by (rule dround_nearest) (simp_all add: power_int_def twelfth_def)
  then show ?thesis by (simp add: power_int_def)
qed

lemma effective_cap_twelve: "effective_cap (5 / 100) 12 = twelfth"
  by (simp add: effective_cap_def inverse_count_def Let_def dround_twelfth dround_twelve_twelfths)
    (simp add: twelfth_def)

lemma dround_twelfths:
  assumes "x * 10 ^ 61 \<in> \<int>" and "\<bar>x\<bar> < 10 ^ 59"
  shows "dround 120 x = x"
  using assms by (intro dround_representable on_grid_representable [of 61])
    (simp_all add: on_grid_def power_int_def)

lemma equal_stocks_fixed:
  "fixed_weights (map (\<lambda>i. sample_cap i 1)
     [''A'', ''B'', ''C'', ''D'', ''E'', ''F'', ''G'', ''H'', ''I'', ''J'', ''K'', ''L'']) twelfth
   = map (\<lambda>i. (i, twelfth))
     [''A'', ''B'', ''C'', ''D'', ''E'', ''F'', ''G'', ''H'', ''I'', ''J'', ''K'', ''L'']"
proof -
  let ?ids = "[''A'', ''B'', ''C'', ''D'', ''E'', ''F'', ''G'', ''H'', ''I'', ''J'', ''K'', ''L'']"
  let ?caps = "map (\<lambda>i. (i, 1 :: rat)) ?ids"
  have "dsum (dround 60) (map (num_at ?caps) ?ids) = 12"
    by (simp add: dsum_def num_at_def dround_two_decimals)
  then have twelve: "proposed_weight ?caps ?ids [] i = twelfth" if "i \<in> set ?ids" for i
    using that by (auto simp: proposed_weight_def dsum_def Let_def num_at_def dround_two_decimals dround_twelfth)
  have none: "filter (\<lambda>i. twelfth < proposed_weight ?caps ?ids [] i) ?ids = []"
    using twelve by (simp only: filter_empty_conv) simp
  have "cap_loop ?caps twelfth ?ids [] = foldl (\<lambda>d i. dset i (proposed_weight ?caps ?ids [] i) d) [] ?ids"
    by (subst cap_loop.simps) (simp only: Let_def none list.distinct refl if_True if_False)
  also have "\<dots> = foldl (\<lambda>d i. dset i twelfth d) [] ?ids"
    using twelve by (intro foldl_cong) simp_all
  also have "\<dots> = map (\<lambda>i. (i, twelfth)) ?ids" by simp
  finally show ?thesis by (simp add: fixed_weights_def sample_cap_def Let_def)
qed

lemma equal_stocks_residual:
  "apply_residual (map (\<lambda>i. (i, twelfth))
     [''A'', ''B'', ''C'', ''D'', ''E'', ''F'', ''G'', ''H'', ''I'', ''J'', ''K'', ''L'']) twelfth
   = Inl (ArithmeticError ''residual'')"
proof -
  let ?ids = "[''A'', ''B'', ''C'', ''D'', ''E'', ''F'', ''G'', ''H'', ''I'', ''J'', ''K'', ''L'']"
  let ?ws = "map (\<lambda>i. (i, twelfth)) ?ids"
  have sum: "sum_list (map snd ?ws) = 12 * twelfth" by simp
  have "grid_weight twelfth"
    using prec60.rnd_idem [of "1 / 12"] by (simp add: grid_weight_def dround_twelfth) (simp add: twelfth_def)
  then have "dsum (dround 120) (map snd ?ws) = 12 * twelfth"
    by (subst dsum_grid_exact(1)) (simp_all add: sum)
  moreover have res: "1 - 12 * twelfth = 4 / 10 ^ 61" by (simp add: twelfth_def)
  moreover have "dround 120 (4 / 10 ^ 61) = 4 / 10 ^ 61" by (intro dround_twelfths) simp_all
  ultimately have r: "residual_of ?ws = 4 / 10 ^ 61" by (simp only: residual_of_def)
  have above: "dround 120 (twelfth + 4 / 10 ^ 61) = twelfth + 4 / 10 ^ 61"
    by (intro dround_twelfths) (simp_all add: twelfth_def)
  have at: "num_at ?ws i = twelfth" if "i \<in> set ?ids" for i
    using that by (auto simp: num_at_def)
  have "filter (\<lambda>i. dround 120 (num_at ?ws i + 4 / 10 ^ 61) \<le> twelfth) (sort (dkeys ?ws)) = []"
    unfolding filter_empty_conv set_sort using at above by (auto simp: o_def)
  then have "residual_candidates ?ws (4 / 10 ^ 61) twelfth = []"
    unfolding residual_candidates_def Let_def by simp
  then show ?thesis unfolding apply_residual_def r Let_def by simp
qed

text \<open>
  With a configured cap below one twelfth, twelve stocks of equal capitalization have no
  weights: the product of the rounded reciprocal and twelve rounds up to one, the reciprocal is
  not raised to the next representable number, and the residual finds no stock to go to.
\<close>

theorem capped_weights_infeasible_cap:
  "calculate_capped_weights
     (map (\<lambda>i. sample_cap i 1)
       [''A'', ''B'', ''C'', ''D'', ''E'', ''F'', ''G'', ''H'', ''I'', ''J'', ''K'', ''L''])
     (Fin (5 / 100)) = Inl (ArithmeticError ''residual'')"
proof -
  let ?in = "map (\<lambda>i. sample_cap i 1)
    [''A'', ''B'', ''C'', ''D'', ''E'', ''F'', ''G'', ''H'', ''I'', ''J'', ''K'', ''L'']"
  have sorted: "sort_key ci_stock_id ?in = ?in" by (simp add: sample_cap_def)
  have ids: "distinct (map ci_stock_id ?in)" "length ?in = 12" by (simp_all add: sample_cap_def)
  have cap: "effective_cap (dval (Fin (5 / 100))) 12 = twelfth" using effective_cap_twelve by simp
  show ?thesis
    unfolding calculate_capped_weights_def sorted Let_def ids(2) cap equal_stocks_fixed
      equal_stocks_residual using ids(1) by simp
qed

end
