(* ===== verification/Theme_Metrics.thy ===== *)
theory Theme_Metrics
  imports Weights
begin

text \<open>
  \<open>packages/calculations/theme_metrics.py\<close>: the metrics of one theme from a point-in-time
  membership, reference data and market observations.  A Python set of flags or stock ids is a
  list without repetitions.  Shown here: a return is only computed from data known at the
  decision time, the observed weight ratio never leaves the unit interval, so that the coverage
  constructor never refuses a computed ratio, and on valid input the calculation can only fail in
  the distribution of the rounding residual.
\<close>

section \<open>Results\<close>

record metric_issue =
  mi_metric :: string
  mi_reason :: unavailable_reason
  mi_stock_ids :: "string list"

record theme_metrics =
  mt_calculation_version :: string
  mt_policy_maturity :: string
  mt_membership_version :: string
  mt_weighted_return :: "rat option"
  mt_median_return :: "rat option"
  mt_advancing_count :: "nat option"
  mt_valid_count :: "nat option"
  mt_advancing_ratio :: "rat option"
  mt_coverage :: coverage
  mt_capped_weights :: "capped_weight list"
  mt_quality_flags :: "string list"
  mt_issues :: "metric_issue list"
  mt_reference_versions :: "string list"

definition rank_eligible :: "theme_metrics \<Rightarrow> bool" where
  "rank_eligible m \<longleftrightarrow>
     cov_status (mt_coverage m) = SUFFICIENT \<and> mt_weighted_return m \<noteq> None
     \<and> mt_median_return m \<noteq> None \<and> mt_advancing_count m \<noteq> None \<and> mt_valid_count m \<noteq> None"

section \<open>Parts of the calculation\<close>

fun index_unique :: "('a \<Rightarrow> string) \<Rightarrow> (string, 'a) dict \<Rightarrow> 'a list \<Rightarrow> (string, 'a) dict result" where
  "index_unique f result [] = Inr result"
| "index_unique f result (x # xs) =
     (if dget result (f x) \<noteq> None then Inl (ValueError ''duplicate stock_id'')
      else index_unique f (dset (f x) x result) xs)"

definition median :: "rat list \<Rightarrow> rat option" where
  "median values =
     (let ordered = sort values; middle = length ordered div 2
      in if ordered = [] then None
         else if odd (length ordered) then Some (ordered ! middle)
         else Some (dround 60 (dround 60 (ordered ! (middle - 1) + ordered ! middle) / 2)))"

text \<open>The return of one stock, or the quality flag and the reason why there is none.\<close>

definition stock_return ::
  "string \<Rightarrow> date \<Rightarrow> datetime \<Rightarrow> (string, stock_reference) dict
    \<Rightarrow> (string, stock_market_observation) dict \<Rightarrow> (quality_flag \<times> unavailable_reason) + rat" where
  "stock_return stock_id market_date as_of references observations =
     (case dget references stock_id of
        None \<Rightarrow> Inl (REFERENCE_PRICE_UNAVAILABLE, MISSING_REFERENCE_DATA)
      | Some reference \<Rightarrow>
          if \<not> sr_corporate_action_resolved reference
          then Inl (FLAG_CORPORATE_ACTION_UNRESOLVED, CORPORATE_ACTION_UNRESOLVED)
          else if sr_effective_for reference \<noteq> market_date
                  \<or> instant as_of < instant (sr_known_at reference)
          then Inl (POINT_IN_TIME_VIOLATION, MISSING_REFERENCE_DATA)
          else (case sr_previous_adjusted_close reference of
              None \<Rightarrow> Inl (REFERENCE_PRICE_UNAVAILABLE, MISSING_REFERENCE_DATA)
            | Some close \<Rightarrow>
                if dval close \<le> 0 then Inl (REFERENCE_PRICE_UNAVAILABLE, MISSING_REFERENCE_DATA)
                else (case dget observations stock_id of
                    None \<Rightarrow> Inl (MARKET_PRICE_UNAVAILABLE, MISSING_MARKET_DATA)
                  | Some observation \<Rightarrow>
                      if so_market_date observation \<noteq> market_date
                         \<or> instant as_of < instant (so_observed_at observation)
                      then Inl (POINT_IN_TIME_VIOLATION, MISSING_MARKET_DATA)
                      else if so_trading_halted observation
                      then Inl (FLAG_TRADING_HALTED, TRADING_HALTED)
                      else if so_corporate_action_unresolved observation
                      then Inl (FLAG_CORPORATE_ACTION_UNRESOLVED, CORPORATE_ACTION_UNRESOLVED)
                      else if \<not> so_fresh observation
                      then Inl (STALE_MARKET_DATA, MISSING_MARKET_DATA)
                      else (case so_current_price observation of
                          None \<Rightarrow> Inl (MARKET_PRICE_UNAVAILABLE, MISSING_MARKET_DATA)
                        | Some price \<Rightarrow>
                            if dval price \<le> 0
                            then Inl (MARKET_PRICE_UNAVAILABLE, MISSING_MARKET_DATA)
                            else Inr (dround 60 (dround 60 (dval price / dval close) - 1))))))"

definition determine_coverage_status ::
  "coverage_part \<Rightarrow> coverage_part \<Rightarrow> nat \<Rightarrow> theme_calculation_policy \<Rightarrow> coverage_status" where
  "determine_coverage_status core related total_valid_count policy =
     (case (cp_observed_weight_ratio core, cp_count_ratio related) of
        (Some weight_ratio, Some count_ratio) \<Rightarrow>
          if cp_observed_count core < tp_minimum_core_observations policy
             \<or> int total_valid_count < tp_minimum_total_observations policy
          then INSUFFICIENT
          else if dval (tp_sufficient_core_weight_ratio policy) \<le> dval weight_ratio
                  \<and> dval (tp_sufficient_related_count_ratio policy) \<le> count_ratio
          then SUFFICIENT
          else PARTIAL
      | _ \<Rightarrow> INSUFFICIENT)"

text \<open>
  The sets and dictionaries the calculation fills while it walks over the members: quality flags,
  the stock ids of each issue, and the returns.
\<close>

type_synonym issues = "(unavailable_reason, string list) dict"

definition setdefault_issue :: "unavailable_reason \<Rightarrow> issues \<Rightarrow> issues" where
  "setdefault_issue reason d = (case dget d reason of None \<Rightarrow> dset reason [] d | Some _ \<Rightarrow> d)"

definition add_issues :: "unavailable_reason \<Rightarrow> string list \<Rightarrow> issues \<Rightarrow> issues" where
  "add_issues reason stock_ids d =
     (let old = (case dget d reason of None \<Rightarrow> [] | Some ids \<Rightarrow> ids)
      in dset reason (foldl (\<lambda>ids i. List.insert i ids) old stock_ids) d)"

record collected =
  co_flags :: "quality_flag list"
  co_issues :: issues
  co_returns :: "(string, rat) dict"

definition collect_return ::
  "date \<Rightarrow> datetime \<Rightarrow> (string, stock_reference) dict \<Rightarrow> (string, stock_market_observation) dict
    \<Rightarrow> collected \<Rightarrow> theme_member \<Rightarrow> collected" where
  "collect_return market_date as_of references observations c member =
     (case stock_return (tm_stock_id member) market_date as_of references observations of
        Inl (flag, reason) \<Rightarrow>
          c\<lparr>co_flags := List.insert flag (co_flags c),
            co_issues := add_issues reason [tm_stock_id member] (co_issues c)\<rparr>
      | Inr r \<Rightarrow> c\<lparr>co_returns := dset (tm_stock_id member) r (co_returns c)\<rparr>)"

definition collect_returns ::
  "date \<Rightarrow> datetime \<Rightarrow> (string, stock_reference) dict \<Rightarrow> (string, stock_market_observation) dict
    \<Rightarrow> theme_member list \<Rightarrow> collected" where
  "collect_returns market_date as_of references observations members =
     foldl (collect_return market_date as_of references observations)
       \<lparr>co_flags = [], co_issues = [], co_returns = []\<rparr> members"

definition capitalization_of ::
  "date \<Rightarrow> datetime \<Rightarrow> (string, stock_reference) dict \<Rightarrow> theme_member \<Rightarrow> rat option" where
  "capitalization_of market_date as_of references member =
     (case dget references (tm_stock_id member) of
        None \<Rightarrow> None
      | Some reference \<Rightarrow> free_float_market_cap reference market_date as_of)"

text \<open>\<open>capitalization_by_stock\<close> and \<open>missing_cap_stock_ids\<close>.\<close>

definition core_capitalizations ::
  "date \<Rightarrow> datetime \<Rightarrow> (string, stock_reference) dict \<Rightarrow> theme_member list \<Rightarrow> (string, rat) dict" where
  "core_capitalizations market_date as_of references core =
     List.map_filter (\<lambda>m. map_option (Pair (tm_stock_id m)) (capitalization_of market_date as_of references m)) core"

definition missing_capitalizations ::
  "date \<Rightarrow> datetime \<Rightarrow> (string, stock_reference) dict \<Rightarrow> theme_member list \<Rightarrow> string list" where
  "missing_capitalizations market_date as_of references core =
     map tm_stock_id (filter (\<lambda>m. capitalization_of market_date as_of references m = None) core)"

definition observed_ratio :: "(string, rat) dict \<Rightarrow> string list \<Rightarrow> rat option" where
  "observed_ratio capitalizations observed_core_ids =
     (let total = dsum (dround 60) (map snd capitalizations)
      in if 0 < total
         then Some (dround 60
           (dsum (dround 60) (map (num_at capitalizations) observed_core_ids) / total))
         else None)"

definition weights_and_return ::
  "theme_calculation_policy \<Rightarrow> (string, rat) dict \<Rightarrow> (string, rat) dict \<Rightarrow> string list
    \<Rightarrow> (capped_weight list \<times> rat) result" where
  "weights_and_return policy capitalizations returns observed_core_ids =
     bind_result
       (map_result (\<lambda>i. capitalization_input_init
            \<lparr>ci_stock_id = i, ci_free_float_market_cap = Fin (num_at capitalizations i)\<rparr>)
          observed_core_ids)
       (\<lambda>inputs. bind_result
          (calculate_capped_weights inputs (tp_maximum_constituent_weight policy))
          (\<lambda>weights. bind_result
             (calculate_weighted_return weights
                (map (\<lambda>i. (i, num_at returns i)) observed_core_ids))
             (\<lambda>r. Inr (weights, r))))"

definition issue_list :: "issues \<Rightarrow> bool \<Rightarrow> rat option \<Rightarrow> rat option \<Rightarrow> metric_issue list" where
  "issue_list issue_stock_ids no_core weighted_return median_return =
     sort_key (\<lambda>i. (mi_metric i, reason_value (mi_reason i), mi_stock_ids i))
       (map (\<lambda>(reason, ids). \<lparr>mi_metric = ''constituentData'', mi_reason = reason,
               mi_stock_ids = sort ids\<rparr>)
            (filter (\<lambda>(reason, ids). ids \<noteq> []) issue_stock_ids)
        @ (if weighted_return = None
           then [\<lparr>mi_metric = ''weightedReturn'',
                  mi_reason = (if no_core then EMPTY_MEMBERSHIP else INSUFFICIENT_COVERAGE),
                  mi_stock_ids = []\<rparr>] else [])
        @ (if median_return = None
           then [\<lparr>mi_metric = ''medianReturn'', mi_reason = INSUFFICIENT_OBSERVATIONS,
                  mi_stock_ids = []\<rparr>] else []))"

section \<open>The calculation\<close>

definition ordered_members :: "theme_membership_snapshot \<Rightarrow> theme_member list" where
  "ordered_members membership = sort_key tm_stock_id (ms_members membership)"

definition core_members :: "theme_membership_snapshot \<Rightarrow> theme_member list" where
  "core_members membership = filter (\<lambda>m. tm_role m = CORE) (ordered_members membership)"

definition observed_core_ids :: "(string, rat) dict \<Rightarrow> (string, rat) dict \<Rightarrow> theme_member list \<Rightarrow> string list" where
  "observed_core_ids returns capitalizations core =
     filter (\<lambda>i. dget returns i \<noteq> None \<and> dget capitalizations i \<noteq> None) (map tm_stock_id core)"

text \<open>Weights and weighted return, when there are enough observed core stocks.\<close>

definition weights_if_observed ::
  "theme_calculation_policy \<Rightarrow> (string, rat) dict \<Rightarrow> (string, rat) dict \<Rightarrow> string list \<Rightarrow> string list
    \<Rightarrow> (capped_weight list \<times> rat option) result" where
  "weights_if_observed policy capitalizations returns missing_cap observed =
     (if missing_cap = [] \<and> tp_minimum_core_observations policy \<le> int (length observed)
      then bind_result (weights_and_return policy capitalizations returns observed)
             (\<lambda>wr. Inr (fst wr, Some (snd wr)))
      else Inr ([], None))"

definition final_flags ::
  "theme_calculation_policy \<Rightarrow> quality_flag list \<Rightarrow> string list \<Rightarrow> coverage_status \<Rightarrow> nat \<Rightarrow> nat
    \<Rightarrow> quality_flag list" where
  "final_flags policy flags missing_cap status observed_count return_count =
     (let flags1 = (if missing_cap \<noteq> [] then List.insert FREE_FLOAT_UNAVAILABLE flags else flags);
          flags2 = (case status of
              PARTIAL \<Rightarrow> List.insert PARTIAL_COVERAGE flags1
            | INSUFFICIENT \<Rightarrow> List.insert FLAG_INSUFFICIENT_COVERAGE flags1
            | SUFFICIENT \<Rightarrow> flags1)
      in if int observed_count < tp_minimum_core_observations policy
            \<or> int return_count < tp_minimum_total_observations policy
         then List.insert FLAG_INSUFFICIENT_OBSERVATIONS flags2 else flags2)"

definition final_issues ::
  "theme_calculation_policy \<Rightarrow> issues \<Rightarrow> string list \<Rightarrow> nat \<Rightarrow> nat \<Rightarrow> issues" where
  "final_issues policy issues missing_cap observed_count return_count =
     (let issues1 = (if missing_cap \<noteq> []
            then add_issues MISSING_REFERENCE_DATA missing_cap issues else issues)
      in if int observed_count < tp_minimum_core_observations policy
            \<or> int return_count < tp_minimum_total_observations policy
         then setdefault_issue INSUFFICIENT_OBSERVATIONS issues1 else issues1)"

definition assemble_metrics ::
  "theme_calculation_policy \<Rightarrow> theme_membership_snapshot \<Rightarrow> (string, stock_reference) dict
    \<Rightarrow> collected \<Rightarrow> string list \<Rightarrow> nat \<Rightarrow> coverage_part \<Rightarrow> coverage_part
    \<Rightarrow> capped_weight list \<Rightarrow> rat option \<Rightarrow> theme_metrics" where
  "assemble_metrics policy membership references collected missing_cap observed_count
      core_coverage related_coverage capped_weights weighted_return =
     (let returns = co_returns collected;
          status = determine_coverage_status core_coverage related_coverage (length returns) policy;
          flags = final_flags policy (co_flags collected) missing_cap status observed_count (length returns);
          issues = final_issues policy (co_issues collected) missing_cap observed_count (length returns);
          median_return = median (map snd returns);
          advancing = length (filter (\<lambda>r. 0 < r) (map snd returns))
      in \<lparr>mt_calculation_version = tp_version policy,
          mt_policy_maturity = maturity_value (tp_maturity policy),
          mt_membership_version = ms_version membership,
          mt_weighted_return = weighted_return,
          mt_median_return = median_return,
          mt_advancing_count = (if returns \<noteq> [] then Some advancing else None),
          mt_valid_count = (if returns \<noteq> [] then Some (length returns) else None),
          mt_advancing_ratio =
            (if returns \<noteq> []
             then Some (dround 60 (of_nat advancing / of_nat (length returns))) else None),
          mt_coverage = \<lparr>cov_status = status, cov_core = core_coverage,
            cov_related = related_coverage\<rparr>,
          mt_capped_weights = capped_weights,
          mt_quality_flags = sort (map flag_value flags),
          mt_issues = issue_list issues (core_members membership = []) weighted_return median_return,
          mt_reference_versions = sorted_set
            (List.map_filter (\<lambda>m. map_option sr_version (dget references (tm_stock_id m)))
              (ordered_members membership))\<rparr>)"

definition theme_metrics_from_index ::
  "date \<Rightarrow> datetime \<Rightarrow> theme_membership_snapshot \<Rightarrow> (string, stock_reference) dict
    \<Rightarrow> (string, stock_market_observation) dict \<Rightarrow> theme_calculation_policy \<Rightarrow> theme_metrics result" where
  "theme_metrics_from_index market_date as_of membership references observations policy =
     (let core = core_members membership;
          collected = collect_returns market_date as_of references observations
            (ordered_members membership);
          returns = co_returns collected;
          capitalizations = core_capitalizations market_date as_of references core;
          missing_cap = missing_capitalizations market_date as_of references core;
          observed = observed_core_ids returns capitalizations core;
          observed_weight_ratio =
            (if core \<noteq> [] \<and> missing_cap = [] then observed_ratio capitalizations observed else None)
      in bind_result (coverage_from_counts (int (length observed)) (int (length core))
             (map_option Fin observed_weight_ratio)) (\<lambda>core_coverage.
         bind_result (coverage_from_counts (int (length returns))
             (int (length (ordered_members membership))) None) (\<lambda>related_coverage.
         bind_result (weights_if_observed policy capitalizations returns missing_cap observed) (\<lambda>wr.
           Inr (assemble_metrics policy membership references collected missing_cap
                  (length observed) core_coverage related_coverage (fst wr) (snd wr))))))"

definition calculate_theme_metrics ::
  "date \<Rightarrow> datetime \<Rightarrow> theme_membership_snapshot \<Rightarrow> stock_reference list
    \<Rightarrow> stock_market_observation list \<Rightarrow> theme_calculation_policy \<Rightarrow> theme_metrics result" where
  "calculate_theme_metrics market_date as_of membership references observations policy =
     (if \<not> is_aware as_of then Inl (ValueError ''as_of'')
      else if market_date < ms_effective_from membership
              \<or> instant as_of < instant (ms_known_at membership)
      then Inl (ValueError ''membership unknown'')
      else bind_result (index_unique sr_stock_id [] references) (\<lambda>reference_by_stock.
           bind_result (index_unique so_stock_id [] observations) (\<lambda>observation_by_stock.
             theme_metrics_from_index market_date as_of membership reference_by_stock
               observation_by_stock policy)))"

section \<open>Lemmas on the parts\<close>

lemma index_unique_succeeds:
  "distinct (map f xs) \<Longrightarrow> \<forall>x\<in>set xs. dget d (f x) = None \<Longrightarrow> \<exists>r. index_unique f d xs = Inr r"
proof (induction f d xs rule: index_unique.induct)
  case (2 f result x xs)
  have "\<forall>y\<in>set xs. dget (dset (f x) x result) (f y) = None" using "2.prems" by (auto simp: image_iff)
  with "2.IH" "2.prems" show ?case by simp
qed simp

lemma index_unique_lookup:
  "index_unique f d xs = Inr r \<Longrightarrow>
   dget r k = Some x \<Longrightarrow> dget d k = Some x \<or> x \<in> set xs \<and> f x = k"
  by (induction f d xs rule: index_unique.induct) (auto split: if_splits)

lemma collect_return_returns:
  "length (co_returns (collect_return md t rs os c m)) \<le> Suc (length (co_returns c))"
  "distinct (dkeys (co_returns c)) \<Longrightarrow> distinct (dkeys (co_returns (collect_return md t rs os c m)))"
  "fst ` set (co_returns (collect_return md t rs os c m))
     \<subseteq> insert (tm_stock_id m) (fst ` set (co_returns c))"
  by (auto simp: collect_return_def length_dset_le split: sum.splits prod.splits)

lemma collect_fold:
  "length (co_returns (foldl (collect_return md t rs os) c ms)) \<le> length (co_returns c) + length ms"
  "distinct (dkeys (co_returns c)) \<Longrightarrow>
     distinct (dkeys (co_returns (foldl (collect_return md t rs os) c ms)))"
proof (induction ms arbitrary: c)
  case (Cons m ms)
  { case 1
    from Cons.IH(1) [where c = "collect_return md t rs os c m"] collect_return_returns(1) [of md t rs os c m]
    show ?case by simp }
  { case 2
    with Cons.IH(2) [where c = "collect_return md t rs os c m"] collect_return_returns(2) [of c md t rs os m]
    show ?case by simp }
qed simp_all

lemma collect_returns_props:
  "length (co_returns (collect_returns md t rs os ms)) \<le> length ms"
  "distinct (dkeys (co_returns (collect_returns md t rs os ms)))"
  using collect_fold [where md = md and t = t and rs = rs and os = os and ms = ms
      and c = "\<lparr>co_flags = [], co_issues = [], co_returns = []\<rparr>"]
  by (simp_all add: collect_returns_def)

lemma capitalization_of_pos: "capitalization_of md t rs m = Some c \<Longrightarrow> 0 < c"
  by (auto simp: capitalization_of_def free_float_market_cap_pos split: option.splits)

lemma core_capitalizations_pos:
  "\<forall>v\<in>snd ` set (core_capitalizations md t rs core). 0 < v"
  by (auto simp: core_capitalizations_def map_filter_def capitalization_of_pos)

lemma core_capitalizations_keys:
  assumes "missing_capitalizations md t rs core = []"
  shows "dkeys (core_capitalizations md t rs core) = map tm_stock_id core"
  using assms by (induction core)
    (auto simp: core_capitalizations_def missing_capitalizations_def map_filter_simps split: if_splits)

lemma map_num_at_keys: "distinct (dkeys d) \<Longrightarrow> map (num_at d) (dkeys d) = map snd d"
  by (auto simp: num_at_def map_of_eq_Some_iff intro!: map_cong)

lemma num_at_pos: "\<forall>v\<in>snd ` set d. 0 < v \<Longrightarrow> i \<in> fst ` set d \<Longrightarrow> 0 < num_at d i"
  using num_at_mem [of i d] by blast

lemma observed_ratio_unit:
  assumes "distinct (dkeys d)" and "\<forall>v\<in>snd ` set d. 0 < v"
    and "observed_ratio d (filter P (dkeys d)) = Some r"
  shows "0 \<le> r \<and> r \<le> 1"
proof -
  let ?rat = "dround 60 (dsum (dround 60) (map (num_at d) (filter P (dkeys d)))
    / dsum (dround 60) (map (num_at d) (dkeys d)))"
  have "\<forall>i\<in>set (dkeys d). 0 \<le> num_at d i"
    using num_at_pos [OF assms(2)] by (auto intro: less_imp_le)
  then have "0 \<le> ?rat" "?rat \<le> 1" by (rule prec60.dsum_ratio_unit)+
  moreover have "r = ?rat"
    using assms(3) unfolding map_num_at_keys [OF assms(1)]
    by (simp add: observed_ratio_def Let_def split: if_splits)
  ultimately show ?thesis by simp
qed

lemma calculate_capped_weights_outcome:
  assumes "distinct (map ci_stock_id inputs)" and "is_finite cap" "0 < dval cap" "dval cap \<le> 1"
  shows "(\<exists>ws. calculate_capped_weights inputs cap = Inr ws
            \<and> set (map cw_stock_id ws) = ci_stock_id ` set inputs)
    \<or> calculate_capped_weights inputs cap = Inl (ArithmeticError ''residual'')"
proof -
  have "distinct (map ci_stock_id (sort_key ci_stock_id inputs))"
    using assms(1) unfolding sort_key_ids by simp
  moreover have "apply_residual d k = Inl e \<Longrightarrow> e = ArithmeticError ''residual''" for d k e
    by (auto simp: apply_residual_def Let_def split: if_splits list.splits)
  ultimately show ?thesis
    using assms(2-4)
    by (cases "apply_residual (fixed_weights (sort_key ci_stock_id inputs)
        (effective_cap (dval cap) (length inputs))) (effective_cap (dval cap) (length inputs))")
      (auto simp: calculate_capped_weights_def Let_def o_def image_image)
qed

lemma weights_and_return_outcome:
  assumes "theme_calculation_policy_init policy = Inr policy" and "distinct ids"
    and "\<forall>i\<in>set ids. i \<noteq> [] \<and> 0 < num_at caps i"
  shows "(\<exists>x. weights_and_return policy caps returns ids = Inr x)
    \<or> weights_and_return policy caps returns ids = Inl (ArithmeticError ''residual'')"
proof -
  let ?in = "map (\<lambda>i. \<lparr>ci_stock_id = i, ci_free_float_market_cap = Fin (num_at caps i)\<rparr>) ids"
  have ins: "map_result (\<lambda>i. capitalization_input_init
      \<lparr>ci_stock_id = i, ci_free_float_market_cap = Fin (num_at caps i)\<rparr>) ids = Inr ?in"
    using assms(3)
    by (auto simp: map_result_Inr_list_all2 list_all2_map2 capitalization_input_init_def intro: list.rel_refl_strong)
  have cap: "is_finite (tp_maximum_constituent_weight policy)"
    "0 < dval (tp_maximum_constituent_weight policy)" "dval (tp_maximum_constituent_weight policy) \<le> 1"
    using assms(1) unfolding theme_calculation_policy_init_def unit_ratio_guards_def validate_Inr_iff
    by simp_all
  have "distinct (map ci_stock_id ?in)" using assms(2) by (simp add: o_def)
  from calculate_capped_weights_outcome [OF this cap] show ?thesis
    by (auto simp: weights_and_return_def ins calculate_weighted_return_def image_image o_def)
qed

section \<open>Properties\<close>

definition membership_valid :: "theme_membership_snapshot \<Rightarrow> bool" where
  "membership_valid s \<longleftrightarrow> theme_membership_snapshot_init s = Inr s
     \<and> (\<forall>m\<in>set (ms_members s). theme_member_init m = Inr m)"

lemma membership_valid_ids:
  assumes "membership_valid s"
  shows "distinct (map tm_stock_id (ms_members s))" and "\<forall>m\<in>set (ms_members s). tm_stock_id m \<noteq> []"
  using assms unfolding membership_valid_def theme_membership_snapshot_init_def theme_member_init_def
    validate_Inr_iff by simp_all

lemma distinct_sorted_ids:
  "distinct (map f xs) \<Longrightarrow> distinct (map f (filter P (sort_key f xs)))"
  by (simp add: distinct_map inj_on_def)

lemma theme_metrics_from_index_outcome:
  assumes "membership_valid membership" and "theme_calculation_policy_init policy = Inr policy"
  shows "(\<exists>m. theme_metrics_from_index market_date as_of membership rb ob policy = Inr m)
    \<or> theme_metrics_from_index market_date as_of membership rb ob policy
        = Inl (ArithmeticError ''residual'')"
proof -
  define core where "core = core_members membership"
  define ret where "ret = co_returns (collect_returns market_date as_of rb ob (ordered_members membership))"
  define caps where "caps = core_capitalizations market_date as_of rb core"
  define missing where "missing = missing_capitalizations market_date as_of rb core"
  define seen where "seen = observed_core_ids ret caps core"
  define ratio where "ratio = (if core \<noteq> [] \<and> missing = [] then observed_ratio caps seen else None)"
  note core_unfold = core_def core_members_def ordered_members_def
  have ids: "distinct (map tm_stock_id core)"
    unfolding core_unfold using membership_valid_ids(1) [OF assms(1)] by (rule distinct_sorted_ids)
  have keys: "dkeys caps = map tm_stock_id core" if "missing = []"
    using that unfolding caps_def missing_def by (rule core_capitalizations_keys)
  have pos: "\<forall>v\<in>snd ` set caps. 0 < v" unfolding caps_def by (rule core_capitalizations_pos)
  have unit: "0 \<le> r \<and> r \<le> 1" if "ratio = Some r" for r
    using that observed_ratio_unit [OF _ pos] ids keys
    by (auto simp: ratio_def seen_def observed_core_ids_def split: if_splits)
  obtain cc where cc: "coverage_from_counts (int (length seen)) (int (length core)) (map_option Fin ratio) = Inr cc"
    unfolding coverage_from_counts_Inr using unit
    by (cases ratio) (auto simp: seen_def observed_core_ids_def intro: order_trans [OF length_filter_le])
  have "length ret \<le> length (ordered_members membership)"
    unfolding ret_def by (rule collect_returns_props)
  then obtain rc where rc: "coverage_from_counts (int (length ret))
      (int (length (ordered_members membership))) None = Inr rc"
    unfolding coverage_from_counts_Inr by auto
  have seen: "distinct seen" "\<forall>i\<in>set seen. i \<noteq> [] \<and> 0 < num_at caps i"
    using ids membership_valid_ids(2) [OF assms(1)] num_at_pos [OF pos]
    by (auto simp: seen_def observed_core_ids_def core_unfold dom_map_of_conv_image_fst [symmetric])
  have w: "(\<exists>x. weights_if_observed policy caps ret missing seen = Inr x)
      \<or> weights_if_observed policy caps ret missing seen = Inl (ArithmeticError ''residual'')"
    using weights_and_return_outcome [OF assms(2) seen, of ret]
    by (auto simp: weights_if_observed_def)
  show ?thesis
    unfolding theme_metrics_from_index_def Let_def core_def [symmetric] ret_def [symmetric]
      caps_def [symmetric] missing_def [symmetric] seen_def [symmetric] ratio_def [symmetric] cc
      bind_result_simps rc
    using w by auto
qed

text \<open>
  On valid input the calculation of a theme's metrics succeeds, or fails in the distribution
  of the rounding residual of the weights; in particular no computed coverage ratio is refused by
  the coverage constructor.
\<close>

theorem theme_metrics_total:
  assumes "is_aware as_of" and "ms_effective_from membership \<le> market_date"
    and "instant (ms_known_at membership) \<le> instant as_of" and "membership_valid membership"
    and "theme_calculation_policy_init policy = Inr policy"
    and "distinct (map sr_stock_id references)" and "distinct (map so_stock_id observations)"
  shows "(\<exists>m. calculate_theme_metrics market_date as_of membership references observations policy = Inr m)
    \<or> calculate_theme_metrics market_date as_of membership references observations policy
        = Inl (ArithmeticError ''residual'')"
proof -
  obtain rb where rb: "index_unique sr_stock_id [] references = Inr rb"
    using index_unique_succeeds [OF assms(6), of "[]"] by auto
  obtain ob where ob: "index_unique so_stock_id [] observations = Inr ob"
    using index_unique_succeeds [OF assms(7), of "[]"] by auto
  have "calculate_theme_metrics market_date as_of membership references observations policy
      = theme_metrics_from_index market_date as_of membership rb ob policy"
    using assms(1-3) by (simp add: calculate_theme_metrics_def rb ob)
  with theme_metrics_from_index_outcome [OF assms(4,5)] show ?thesis by simp
qed

text \<open>Two stocks of a theme, for the examples.\<close>

definition sample_reference :: "string \<Rightarrow> rat \<Rightarrow> stock_reference" where
  "sample_reference i close =
     \<lparr>sr_stock_id = i, sr_effective_for = 8, sr_known_at = Aware 10 0,
      sr_previous_adjusted_close = Some (Fin close), sr_listed_shares = Some 10,
      sr_free_float_ratio = Some (Fin 1), sr_free_float_validated = True, sr_version = ''r'',
      sr_corporate_action_resolved = True\<rparr>"

definition sample_observation :: "string \<Rightarrow> int \<Rightarrow> rat \<Rightarrow> stock_market_observation" where
  "sample_observation i t price =
     \<lparr>so_stock_id = i, so_market_date = 8, so_observed_at = Aware t 0,
      so_current_price = Some (Fin price), so_cumulative_trading_value = None, so_fresh = True,
      so_trading_halted = False, so_corporate_action_unresolved = False\<rparr>"

definition sample_theme :: theme_membership_snapshot where
  "sample_theme = \<lparr>ms_theme_id = ''t'', ms_version = ''m1'', ms_effective_from = 7,
     ms_known_at = Aware 20 0,
     ms_members = [\<lparr>tm_stock_id = ''b'', tm_role = CORE\<rparr>, \<lparr>tm_stock_id = ''a'', tm_role = CORE\<rparr>]\<rparr>"

theorem theme_metrics_total_witness:
  "(\<exists>m. calculate_theme_metrics 8 (Aware 50 0) sample_theme
       [sample_reference ''a'' 10, sample_reference ''b'' 10]
       [sample_observation ''a'' 30 11, sample_observation ''b'' 99 12] THEME_CALCULATION_POLICY_V1 = Inr m)
   \<or> calculate_theme_metrics 8 (Aware 50 0) sample_theme
       [sample_reference ''a'' 10, sample_reference ''b'' 10]
       [sample_observation ''a'' 30 11, sample_observation ''b'' 99 12] THEME_CALCULATION_POLICY_V1
     = Inl (ArithmeticError ''residual'')"
  by (rule theme_metrics_total)
    (simp_all add: sample_theme_def sample_reference_def sample_observation_def membership_valid_def
      theme_membership_snapshot_init_def theme_member_init_def theme_calculation_policy_init_def
      THEME_CALCULATION_POLICY_V1_def unit_ratio_guards_def)


text \<open>
  Two observations of one stock that the calculation must not tell apart: equal ones, and any two
  that lie after the decision time.
\<close>

definition same_past :: "datetime \<Rightarrow> stock_market_observation \<Rightarrow> stock_market_observation \<Rightarrow> bool" where
  "same_past as_of x y \<longleftrightarrow> x = y \<or> so_stock_id x = so_stock_id y
     \<and> instant as_of < instant (so_observed_at x) \<and> instant as_of < instant (so_observed_at y)"

lemma index_unique_related:
  assumes "list_all2 R xs ys" and "\<And>x y. R x y \<Longrightarrow> f x = f y"
    and "\<And>k. rel_option R (dget d k) (dget d' k)"
  shows "rel_sum (=) (\<lambda>r r'. \<forall>k. rel_option R (dget r k) (dget r' k))
    (index_unique f d xs) (index_unique f d' ys)"
  using assms(1,3)
proof (induction xs arbitrary: d d' ys)
  case (Cons x xs)
  then obtain y zs where ys: "ys = y # zs" and xy: "R x y" and rest: "list_all2 R xs zs"
    by (auto simp: list_all2_Cons1)
  have "rel_option R (dget d (f x)) (dget d' (f y))" using Cons.prems(2) assms(2) [OF xy] by simp
  then have eq: "(dget d (f x) = None) = (dget d' (f y) = None)"
    by (metis option.rel_distinct(1,2) option.exhaust)
  have "rel_option R (dget (dset (f x) x d) k) (dget (dset (f y) y d') k)" for k
    using Cons.prems(2) [of k] xy assms(2) [OF xy] by simp
  from Cons.IH [OF rest this] eq show ?case by (simp add: ys)
qed auto

lemma stock_return_same_past:
  assumes "rel_option (same_past as_of) (dget os i) (dget os' i)"
  shows "stock_return i market_date as_of rs os = stock_return i market_date as_of rs os'"
  using assms
  by (cases "dget os i"; cases "dget os' i")
    (auto simp: stock_return_def same_past_def split: option.splits)

lemma collect_returns_same_past:
  assumes "\<And>i. rel_option (same_past as_of) (dget os i) (dget os' i)"
  shows "collect_returns market_date as_of rs os ms = collect_returns market_date as_of rs os' ms"
proof -
  have "collect_return market_date as_of rs os = collect_return market_date as_of rs os'"
    using stock_return_same_past [OF assms] by (intro ext) (simp add: collect_return_def)
  then show ?thesis by (simp add: collect_returns_def)
qed

lemma theme_metrics_from_index_same_past:
  assumes "\<And>i. rel_option (same_past as_of) (dget os i) (dget os' i)"
  shows "theme_metrics_from_index market_date as_of membership rs os policy
    = theme_metrics_from_index market_date as_of membership rs os' policy"
  unfolding theme_metrics_from_index_def collect_returns_same_past [OF assms] ..



lemma determine_coverage_status_sufficient:
  "determine_coverage_status core related n policy = SUFFICIENT \<longleftrightarrow>
     (\<exists>w c. cp_observed_weight_ratio core = Some w \<and> cp_count_ratio related = Some c
        \<and> tp_minimum_core_observations policy \<le> cp_observed_count core
        \<and> tp_minimum_total_observations policy \<le> int n
        \<and> dval (tp_sufficient_core_weight_ratio policy) \<le> dval w
        \<and> dval (tp_sufficient_related_count_ratio policy) \<le> c)"
  by (auto simp: determine_coverage_status_def split: option.splits)

lemma calculate_theme_metrics_Inr:
  assumes "calculate_theme_metrics market_date as_of membership references observations policy = Inr m"
  obtains rb ob where "index_unique sr_stock_id [] references = Inr rb"
    and "index_unique so_stock_id [] observations = Inr ob"
    and "theme_metrics_from_index market_date as_of membership rb ob policy = Inr m"
  using assms by (auto simp: calculate_theme_metrics_def bind_result_Inr_iff split: if_splits)

lemma weights_if_observed_Some:
  "weights_if_observed policy caps returns missing observed = Inr (ws, Some r) \<Longrightarrow> missing = []"
  by (auto simp: weights_if_observed_def split: if_splits)

lemma missing_capitalizations_Nil:
  assumes "index_unique sr_stock_id [] references = Inr rb"
    and "missing_capitalizations market_date as_of rb core = []" and "member \<in> set core"
  shows "\<exists>r\<in>set references. sr_stock_id r = tm_stock_id member
    \<and> free_float_market_cap r market_date as_of \<noteq> None"
proof -
  from assms(2,3) have "capitalization_of market_date as_of rb member \<noteq> None"
    by (auto simp: missing_capitalizations_def filter_empty_conv)
  then obtain r where r: "dget rb (tm_stock_id member) = Some r"
    and cap: "free_float_market_cap r market_date as_of \<noteq> None"
    by (auto simp: capitalization_of_def split: option.splits)
  from index_unique_lookup [OF assms(1) r] cap show ?thesis by auto
qed

text \<open>
  A theme that may be ranked met the policy: a capitalization known at the decision time was
  there for every core stock, the observed weight, the observed share of members and the counts
  reach the thresholds, and the published counts agree with the coverage.
\<close>

theorem rank_eligible_meets_policy:
  assumes "calculate_theme_metrics market_date as_of membership references observations policy = Inr m"
    and "rank_eligible m"
  shows "(\<exists>w c a. cp_observed_weight_ratio (cov_core (mt_coverage m)) = Some w
      \<and> cp_count_ratio (cov_related (mt_coverage m)) = Some c
      \<and> dval (tp_sufficient_core_weight_ratio policy) \<le> dval w
      \<and> dval (tp_sufficient_related_count_ratio policy) \<le> c
      \<and> tp_minimum_core_observations policy \<le> cp_observed_count (cov_core (mt_coverage m))
      \<and> tp_minimum_total_observations policy \<le> cp_observed_count (cov_related (mt_coverage m))
      \<and> map_option int (mt_valid_count m) = Some (cp_observed_count (cov_related (mt_coverage m)))
      \<and> mt_advancing_count m = Some a \<and> int a \<le> cp_observed_count (cov_related (mt_coverage m)))
    \<and> (\<forall>member\<in>set (core_members membership). \<exists>r\<in>set references.
        sr_stock_id r = tm_stock_id member \<and> free_float_market_cap r market_date as_of \<noteq> None)"
proof -
  from assms(1) obtain rb ob where rb: "index_unique sr_stock_id [] references = Inr rb"
    and idx: "theme_metrics_from_index market_date as_of membership rb ob policy = Inr m"
    by (rule calculate_theme_metrics_Inr)
  let ?missing = "missing_capitalizations market_date as_of rb (core_members membership)"
  from idx obtain coll n cc rc caps observed ws wr where
      m: "m = assemble_metrics policy membership rb coll ?missing n cc rc ws wr"
      and rc: "coverage_from_counts (int (length (co_returns coll)))
        (int (length (ordered_members membership))) None = Inr rc"
      and w: "weights_if_observed policy caps (co_returns coll) ?missing observed = Inr (ws, wr)"
    by (auto simp: theme_metrics_from_index_def Let_def bind_result_Inr_iff)
  from rc have count: "cp_observed_count rc = int (length (co_returns coll))"
    unfolding coverage_from_counts_Inr by auto
  from assms(2) have suff: "determine_coverage_status cc rc (length (co_returns coll)) policy = SUFFICIENT"
    and ret: "co_returns coll \<noteq> []" and "wr \<noteq> None"
    by (auto simp: m rank_eligible_def assemble_metrics_def Let_def split: if_splits)
  with w have "?missing = []" by (auto dest: weights_if_observed_Some)
  then have "\<forall>member\<in>set (core_members membership). \<exists>r\<in>set references.
      sr_stock_id r = tm_stock_id member \<and> free_float_market_cap r market_date as_of \<noteq> None"
    using missing_capitalizations_Nil [OF rb] by blast
  with suff ret count show ?thesis
    unfolding determine_coverage_status_sufficient
    by (auto simp: m assemble_metrics_def Let_def)
qed

text \<open>A theme of one stock, and a policy under which one stock is enough.\<close>

definition sample_single :: theme_membership_snapshot where
  "sample_single = \<lparr>ms_theme_id = ''t'', ms_version = ''m1'', ms_effective_from = 7,
     ms_known_at = Aware 20 0, ms_members = [\<lparr>tm_stock_id = ''a'', tm_role = CORE\<rparr>]\<rparr>"

definition sample_policy :: theme_calculation_policy where
  "sample_policy = THEME_CALCULATION_POLICY_V1
     \<lparr>tp_minimum_core_observations := 1, tp_minimum_total_observations := 1\<rparr>"

lemma sample_weights_single:
  "calculate_capped_weights [\<lparr>ci_stock_id = ''a'', ci_free_float_market_cap = Fin 100\<rparr>] (Fin (3 / 10))
   = Inr [\<lparr>cw_stock_id = ''a'', cw_weight = 1\<rparr>]"
proof -
  have "cap_loop [(''a'', 100)] 1 [''a''] [] = [(''a'', 1)]"
    by (subst cap_loop.simps) (simp add: proposed_weight_def dsum_def num_at_def dround_two_decimals)
  then show ?thesis
    by (simp add: calculate_capped_weights_def apply_residual_def residual_of_def fixed_weights_def
        effective_cap_def inverse_count_def dsum_def num_at_def dround_two_decimals)
qed

lemma sample_single_eligible:
  "\<exists>m. calculate_theme_metrics 8 (Aware 50 0) sample_single [sample_reference ''a'' 10]
       [sample_observation ''a'' 30 11] sample_policy = Inr m \<and> rank_eligible m"
  by (simp add: calculate_theme_metrics_def theme_metrics_from_index_def sample_single_def
      sample_reference_def sample_observation_def sample_policy_def THEME_CALCULATION_POLICY_V1_def
      core_members_def ordered_members_def collect_returns_def collect_return_def stock_return_def
      core_capitalizations_def missing_capitalizations_def capitalization_of_def
      free_float_market_cap_def adjusted_return_reference_def map_filter_simps observed_core_ids_def
      observed_ratio_def coverage_from_counts_Inr coverage_ratio_def weights_if_observed_def
      weights_and_return_def capitalization_input_init_def num_at_def dsum_def Let_def
      bind_result_Inr_iff sample_weights_single calculate_weighted_return_def assemble_metrics_def
      rank_eligible_def determine_coverage_status_def median_def dround_two_decimals,
      rule exI [of _ "1 / 10"], simp)

theorem rank_eligible_meets_policy_witness:
  "\<exists>m. calculate_theme_metrics 8 (Aware 50 0) sample_single [sample_reference ''a'' 10]
       [sample_observation ''a'' 30 11] sample_policy = Inr m \<and> rank_eligible m
     \<and> 1 \<le> cp_observed_count (cov_core (mt_coverage m))"
proof -
  obtain m where m: "calculate_theme_metrics 8 (Aware 50 0) sample_single [sample_reference ''a'' 10]
       [sample_observation ''a'' 30 11] sample_policy = Inr m" "rank_eligible m"
    using sample_single_eligible by blast
  with rank_eligible_meets_policy [OF m] show ?thesis by (auto simp: sample_policy_def)
qed

end
