(* ===== verification/Turnover.thy ===== *)
theory Turnover
  imports Theme_Metrics
begin

text \<open>
  \<open>packages/calculations/turnover.py\<close>: how the trading value of a theme compares with the same
  minute of the previous trading days.  Shown here: where every number of a stock metric comes
  from, the bounds on the number of observations behind it, and what the baseline status means.
\<close>

section \<open>Results\<close>

datatype baseline_status = FULL | PROVISIONAL | BASELINE_INSUFFICIENT

record stock_turnover_metric =
  st_stock_id :: string
  st_current_trading_value :: rat
  st_baseline_median :: rat
  st_multiple :: rat
  st_observation_count :: nat

record theme_turnover_result =
  tr_baseline_version :: string
  tr_policy_maturity :: string
  tr_membership_version :: "string option"
  tr_turnover_multiple :: "rat option"
  tr_valid_count :: nat
  tr_total_count :: nat
  tr_baseline_status :: baseline_status
  tr_stock_metrics :: "stock_turnover_metric list"
  tr_quality_flags :: "string list"
  tr_unavailable_reason :: "unavailable_reason option"

section \<open>Parts of the calculation\<close>

text \<open>The median of a non-empty list.\<close>

definition turnover_median :: "rat list \<Rightarrow> rat" where
  "turnover_median values =
     (let ordered = sort values; middle = length ordered div 2
      in if odd (length ordered) then ordered ! middle
         else dround 60 (dround 60 (ordered ! (middle - 1) + ordered ! middle) / 2))"

definition position_of :: "'a \<Rightarrow> 'a list \<Rightarrow> nat" where
  "position_of x xs = length (takeWhile (\<lambda>y. y \<noteq> x) xs)"

definition validate_trading_days :: "date list \<Rightarrow> date \<Rightarrow> nat \<Rightarrow> date list result" where
  "validate_trading_days ordered evaluation_date lookback =
     (if sorted_set ordered \<noteq> ordered then Inl (ValueError ''trading_days order'')
      else if evaluation_date \<notin> set ordered then Inl (ValueError ''evaluation_date'')
      else let position = position_of evaluation_date ordered
           in Inr (drop (position - lookback) (take position ordered)))"

type_synonym observation_index = "(string \<times> date, stock_trading_value_observation) dict"

fun index_observations ::
  "int \<Rightarrow> observation_index \<Rightarrow> stock_trading_value_observation list \<Rightarrow> observation_index result" where
  "index_observations time_bucket result [] = Inr result"
| "index_observations time_bucket result (x # xs) =
     (if sv_time_bucket x \<noteq> time_bucket then index_observations time_bucket result xs
      else if dget result (sv_stock_id x, sv_market_date x) \<noteq> None
      then Inl (ValueError ''duplicate observation'')
      else index_observations time_bucket (dset (sv_stock_id x, sv_market_date x) x result) xs)"

definition is_usable :: "stock_trading_value_observation option \<Rightarrow> datetime \<Rightarrow> bool" where
  "is_usable observation decision_at =
     (case observation of
        None \<Rightarrow> False
      | Some x \<Rightarrow> instant (sv_observed_at x) \<le> instant decision_at \<and> sv_comparable x \<and> sv_fresh x
          \<and> \<not> sv_trading_halted x \<and> \<not> sv_corporate_action_unresolved x
          \<and> sv_cumulative_trading_value x \<noteq> None)"

definition trading_value :: "stock_trading_value_observation \<Rightarrow> rat" where
  "trading_value x = (case sv_cumulative_trading_value x of None \<Rightarrow> 0 | Some d \<Rightarrow> dval d)"

definition unusable_flag :: "stock_trading_value_observation option \<Rightarrow> quality_flag" where
  "unusable_flag current =
     (case current of
        None \<Rightarrow> SOURCE_DEGRADED
      | Some x \<Rightarrow> if sv_trading_halted x then FLAG_TRADING_HALTED
          else if sv_corporate_action_unresolved x then FLAG_CORPORATE_ACTION_UNRESOLVED
          else if \<not> sv_fresh x then STALE_MARKET_DATA
          else SOURCE_DEGRADED)"

text \<open>
  The values of the previous days: a day counts when there is an observation, the membership known
  at the moment of that observation contains the stock, and the observation is usable.
\<close>

fun historical_values ::
  "theme_membership_snapshot list \<Rightarrow> string \<Rightarrow> observation_index \<Rightarrow> string \<Rightarrow> date list
    \<Rightarrow> rat list result" where
  "historical_values snapshots theme_id indexed stock_id [] = Inr []"
| "historical_values snapshots theme_id indexed stock_id (history_date # ds) =
     (case dget indexed (stock_id, history_date) of
        None \<Rightarrow> historical_values snapshots theme_id indexed stock_id ds
      | Some historical \<Rightarrow>
          bind_result (select_membership_snapshot snapshots theme_id history_date
              (sv_observed_at historical)) (\<lambda>membership.
            bind_result (historical_values snapshots theme_id indexed stock_id ds) (\<lambda>values.
              Inr (if (case membership of None \<Rightarrow> False | Some s \<Rightarrow> membership_contains s stock_id)
                      \<and> is_usable (Some historical) (sv_observed_at historical)
                   then trading_value historical # values else values))))"

record turnover_acc =
  ta_flags :: "quality_flag list"
  ta_metrics :: "stock_turnover_metric list"

definition add_flag :: "quality_flag \<Rightarrow> turnover_acc \<Rightarrow> turnover_acc" where
  "add_flag flag acc = acc\<lparr>ta_flags := List.insert flag (ta_flags acc)\<rparr>"

definition member_metric ::
  "same_time_baseline_policy \<Rightarrow> string \<Rightarrow> rat \<Rightarrow> rat list \<Rightarrow> turnover_acc \<Rightarrow> turnover_acc" where
  "member_metric policy stock_id current values acc =
     (if length values < bp_minimum_observations policy
      then add_flag FLAG_INSUFFICIENT_OBSERVATIONS acc
      else let baseline_median = turnover_median values
           in if baseline_median \<le> 0 then add_flag FLAG_ZERO_BASELINE acc
              else acc\<lparr>ta_metrics := ta_metrics acc @
                [\<lparr>st_stock_id = stock_id, st_current_trading_value = current,
                  st_baseline_median = baseline_median,
                  st_multiple = dround 60 (current / baseline_median),
                  st_observation_count = length values\<rparr>]\<rparr>)"

fun turnover_loop ::
  "string \<Rightarrow> date \<Rightarrow> datetime \<Rightarrow> theme_membership_snapshot list \<Rightarrow> observation_index \<Rightarrow> date list
    \<Rightarrow> same_time_baseline_policy \<Rightarrow> turnover_acc \<Rightarrow> theme_member list \<Rightarrow> turnover_acc result" where
  "turnover_loop theme_id evaluation_date evaluation_at snapshots indexed history_dates policy acc [] = Inr acc"
| "turnover_loop theme_id evaluation_date evaluation_at snapshots indexed history_dates policy acc (m # ms) =
     (let current = dget indexed (tm_stock_id m, evaluation_date);
          continue = (\<lambda>acc. turnover_loop theme_id evaluation_date evaluation_at snapshots indexed
            history_dates policy acc ms)
      in if \<not> is_usable current evaluation_at then continue (add_flag (unusable_flag current) acc)
         else bind_result (historical_values snapshots theme_id indexed (tm_stock_id m) history_dates)
           (\<lambda>values. continue (member_metric policy (tm_stock_id m)
              (trading_value (the current)) values acc)))"

section \<open>The calculation\<close>

definition turnover_result ::
  "same_time_baseline_policy \<Rightarrow> theme_membership_snapshot \<Rightarrow> nat \<Rightarrow> turnover_acc \<Rightarrow> theme_turnover_result" where
  "turnover_result policy current_membership total_count acc =
     (let stock_metrics = sort_key st_stock_id (ta_metrics acc);
          result = (\<lambda>multiple status flags reason.
            \<lparr>tr_baseline_version = bp_version policy,
             tr_policy_maturity = maturity_value (bp_maturity policy),
             tr_membership_version = Some (ms_version current_membership),
             tr_turnover_multiple = multiple, tr_valid_count = length stock_metrics,
             tr_total_count = total_count, tr_baseline_status = status,
             tr_stock_metrics = stock_metrics, tr_quality_flags = sort (map flag_value flags),
             tr_unavailable_reason = reason\<rparr>)
      in if stock_metrics = []
         then result None BASELINE_INSUFFICIENT (ta_flags acc) (Some INSUFFICIENT_OBSERVATIONS)
         else let denominator = dsum (dround 28) (map st_baseline_median stock_metrics);
                  numerator = dsum (dround 28) (map st_current_trading_value stock_metrics);
                  fully_observed = (length stock_metrics = total_count
                    \<and> (\<forall>m\<in>set stock_metrics. st_observation_count m = bp_lookback_trading_days policy))
              in if denominator \<le> 0
                 then result None BASELINE_INSUFFICIENT
                        (List.insert FLAG_ZERO_BASELINE (ta_flags acc)) (Some ZERO_BASELINE)
                 else if fully_observed
                 then result (Some (dround 60 (numerator / denominator))) FULL (ta_flags acc) None
                 else result (Some (dround 60 (numerator / denominator))) PROVISIONAL
                        (List.insert PROVISIONAL_BASELINE (ta_flags acc)) None)"

definition no_membership_result :: "same_time_baseline_policy \<Rightarrow> theme_turnover_result" where
  "no_membership_result policy =
     \<lparr>tr_baseline_version = bp_version policy, tr_policy_maturity = maturity_value (bp_maturity policy),
      tr_membership_version = None, tr_turnover_multiple = None, tr_valid_count = 0,
      tr_total_count = 0, tr_baseline_status = BASELINE_INSUFFICIENT, tr_stock_metrics = [],
      tr_quality_flags = [flag_value FLAG_MEMBERSHIP_VERSION_MISMATCH],
      tr_unavailable_reason = Some MEMBERSHIP_HISTORY_UNAVAILABLE\<rparr>"

definition calculate_theme_turnover ::
  "string \<Rightarrow> date \<Rightarrow> datetime \<Rightarrow> int \<Rightarrow> date list \<Rightarrow> theme_membership_snapshot list
    \<Rightarrow> stock_trading_value_observation list \<Rightarrow> same_time_baseline_policy \<Rightarrow> theme_turnover_result result" where
  "calculate_theme_turnover theme_id evaluation_date evaluation_at time_bucket trading_days
      snapshots observations policy =
     (if \<not> is_aware evaluation_at then Inl (ValueError ''evaluation_at'')
      else bind_result (validate_trading_days trading_days evaluation_date
               (bp_lookback_trading_days policy)) (\<lambda>history_dates.
           bind_result (index_observations time_bucket [] observations) (\<lambda>indexed.
           bind_result (select_membership_snapshot snapshots theme_id evaluation_date evaluation_at)
             (\<lambda>current_membership.
               case current_membership of
                 None \<Rightarrow> Inr (no_membership_result policy)
               | Some membership \<Rightarrow>
                   let members = ordered_members membership
                   in bind_result (turnover_loop theme_id evaluation_date evaluation_at snapshots
                          indexed history_dates policy \<lparr>ta_flags = [], ta_metrics = []\<rparr> members)
                        (\<lambda>acc. Inr (turnover_result policy membership (length members) acc))))))"

section \<open>Lemmas on the parts\<close>

lemma takeWhile_before:
  fixes x y :: "'a::linorder"
  assumes "sorted xs" "x \<in> set xs" "y \<in> set (takeWhile (\<lambda>z. z \<noteq> x) xs)"
  shows "y < x"
  using assms
proof (induction xs)
  case (Cons a xs)
  then show ?case by (cases "a = x") (auto simp: order.strict_iff_order)
qed simp

lemma validate_trading_days_Inr:
  assumes "validate_trading_days days evaluation_date lookback = Inr ds"
  shows "length ds \<le> lookback" and "distinct ds"
    and "\<forall>d\<in>set ds. d \<in> set days \<and> d < evaluation_date"
proof -
  let ?p = "position_of evaluation_date days"
  have sorted: "sorted days" "distinct days" and mem: "evaluation_date \<in> set days"
    and ds: "ds = drop (?p - lookback) (take ?p days)"
    using assms by (simp_all add: validate_trading_days_def sorted_set_id_iff Let_def split: if_splits)
  have tk: "take ?p days = takeWhile (\<lambda>y. y \<noteq> evaluation_date) days"
    unfolding position_of_def by (rule takeWhile_eq_take [symmetric])
  show "length ds \<le> lookback" by (simp add: ds)
  show "distinct ds" using sorted(2) by (simp add: ds)
  have "set ds \<subseteq> set (takeWhile (\<lambda>y. y \<noteq> evaluation_date) days)"
    unfolding ds tk by (rule set_drop_subset)
  then show "\<forall>d\<in>set ds. d \<in> set days \<and> d < evaluation_date"
    using takeWhile_before [OF sorted(1) mem] by (blast dest: set_takeWhileD)
qed

lemma index_observations_lookup:
  "index_observations b d xs = Inr r \<Longrightarrow> dget r (i, day) = Some x \<Longrightarrow>
   dget d (i, day) = Some x
   \<or> x \<in> set xs \<and> sv_stock_id x = i \<and> sv_market_date x = day \<and> sv_time_bucket x = b"
  by (induction b d xs rule: index_observations.induct) (auto split: if_splits)

text \<open>An observation of a previous day that enters the baseline of a stock.\<close>

definition history_counts ::
  "theme_membership_snapshot list \<Rightarrow> string \<Rightarrow> stock_trading_value_observation \<Rightarrow> bool" where
  "history_counts snapshots theme_id x =
     (is_usable (Some x) (sv_observed_at x)
      \<and> (case select_membership_snapshot snapshots theme_id (sv_market_date x) (sv_observed_at x) of
           Inr (Some s) \<Rightarrow> membership_contains s (sv_stock_id x)
         | _ \<Rightarrow> False))"

lemma historical_values_Inr:
  assumes "historical_values snapshots theme_id indexed stock_id ds = Inr vs"
    and "\<And>day x. dget indexed (stock_id, day) = Some x \<Longrightarrow>
      x \<in> set xs \<and> sv_stock_id x = stock_id \<and> sv_market_date x = day"
  shows "length vs \<le> length ds
    \<and> (\<forall>v\<in>set vs. \<exists>x\<in>set xs. v = trading_value x \<and> sv_stock_id x = stock_id
         \<and> sv_market_date x \<in> set ds \<and> history_counts snapshots theme_id x)"
  using assms(1)
proof (induction ds arbitrary: vs)
  case (Cons d ds)
  show ?case
  proof (cases "dget indexed (stock_id, d)")
    case None
    with Cons show ?thesis by fastforce
  next
    case (Some x)
    from Some Cons.prems obtain ms ws where
        sel: "select_membership_snapshot snapshots theme_id d (sv_observed_at x) = Inr ms"
        and rest: "historical_values snapshots theme_id indexed stock_id ds = Inr ws"
        and vs: "vs = (if (case ms of None \<Rightarrow> False | Some s \<Rightarrow> membership_contains s stock_id)
                   \<and> is_usable (Some x) (sv_observed_at x) then trading_value x # ws else ws)"
      by (auto simp: bind_result_Inr_iff)
    from assms(2) [OF Some] have x: "x \<in> set xs" "sv_stock_id x = stock_id" "sv_market_date x = d"
      by simp_all
    have "history_counts snapshots theme_id x"
      if "case ms of None \<Rightarrow> False | Some s \<Rightarrow> membership_contains s stock_id"
        "is_usable (Some x) (sv_observed_at x)"
      using that sel x by (auto simp: history_counts_def split: option.splits)
    with Cons.IH [OF rest] x show ?thesis by (auto simp: vs)
  qed
qed simp

text \<open>What a stock metric rests on.\<close>

definition metric_sourced ::
  "string \<Rightarrow> date \<Rightarrow> datetime \<Rightarrow> int \<Rightarrow> date list \<Rightarrow> theme_membership_snapshot list
    \<Rightarrow> stock_trading_value_observation list \<Rightarrow> same_time_baseline_policy \<Rightarrow> stock_turnover_metric \<Rightarrow> bool" where
  "metric_sourced theme_id evaluation_date evaluation_at time_bucket trading_days snapshots
      observations policy m \<longleftrightarrow>
     (\<exists>x\<in>set observations. sv_stock_id x = st_stock_id m \<and> sv_market_date x = evaluation_date
        \<and> sv_time_bucket x = time_bucket \<and> is_usable (Some x) evaluation_at
        \<and> st_current_trading_value m = trading_value x)
     \<and> (\<exists>vs. st_observation_count m = length vs \<and> st_baseline_median m = turnover_median vs
        \<and> (\<forall>v\<in>set vs. \<exists>x\<in>set observations. v = trading_value x \<and> sv_stock_id x = st_stock_id m
              \<and> sv_market_date x \<in> set trading_days \<and> sv_market_date x < evaluation_date
              \<and> sv_time_bucket x = time_bucket \<and> history_counts snapshots theme_id x))
     \<and> bp_minimum_observations policy \<le> st_observation_count m
     \<and> st_observation_count m \<le> bp_lookback_trading_days policy
     \<and> 0 < st_baseline_median m
     \<and> st_multiple m = dround 60 (st_current_trading_value m / st_baseline_median m)"

lemma member_metric_cases:
  "ta_metrics (member_metric policy i c vs acc) = ta_metrics acc
   \<or> (\<exists>m. ta_metrics (member_metric policy i c vs acc) = ta_metrics acc @ [m]
        \<and> st_stock_id m = i \<and> st_current_trading_value m = c
        \<and> st_baseline_median m = turnover_median vs \<and> 0 < st_baseline_median m
        \<and> st_multiple m = dround 60 (c / st_baseline_median m)
        \<and> st_observation_count m = length vs \<and> bp_minimum_observations policy \<le> length vs)"
  by (auto simp: member_metric_def add_flag_def Let_def)

lemma turnover_loop_sourced:
  assumes "turnover_loop theme_id day eat snapshots indexed hist policy acc ms = Inr acc'"
    and "index_observations b [] observations = Inr indexed"
    and "validate_trading_days days day (bp_lookback_trading_days policy) = Inr hist"
    and "\<forall>m\<in>set (ta_metrics acc). metric_sourced theme_id day eat b days snapshots observations policy m"
  shows "\<forall>m\<in>set (ta_metrics acc'). metric_sourced theme_id day eat b days snapshots observations policy m"
  using assms(1,4)
proof (induction ms arbitrary: acc)
  case (Cons mem ms)
  let ?i = "tm_stock_id mem"
  note hist = validate_trading_days_Inr [OF assms(3)]
  have look: "x \<in> set (filter (\<lambda>x. sv_time_bucket x = b) observations)
      \<and> sv_stock_id x = i \<and> sv_market_date x = dd"
    if "dget indexed (i, dd) = Some x" for i dd x
    using index_observations_lookup [OF assms(2) that] by simp
  show ?case
  proof (cases "is_usable (dget indexed (?i, day)) eat")
    case False
    with Cons show ?thesis by (auto simp: Let_def add_flag_def)
  next
    case True
    then obtain x where x: "dget indexed (?i, day) = Some x"
      by (cases "dget indexed (?i, day)") (auto simp: is_usable_def)
    from True Cons.prems(1) obtain vs where
        vs: "historical_values snapshots theme_id indexed ?i hist = Inr vs"
        and rest: "turnover_loop theme_id day eat snapshots indexed hist policy
          (member_metric policy ?i (trading_value x) vs acc) ms = Inr acc'"
      by (auto simp: Let_def bind_result_Inr_iff x)
    note hv = historical_values_Inr [OF vs look]
    have "\<forall>m\<in>set (ta_metrics (member_metric policy ?i (trading_value x) vs acc)).
        metric_sourced theme_id day eat b days snapshots observations policy m"
    proof (cases rule: disjE [OF member_metric_cases [of policy ?i "trading_value x" vs acc]])
      case 1
      with Cons.prems(2) show ?thesis by simp
    next
      case 2
      then obtain m where m: "ta_metrics (member_metric policy ?i (trading_value x) vs acc) = ta_metrics acc @ [m]"
        "st_stock_id m = ?i" "st_current_trading_value m = trading_value x"
        "st_baseline_median m = turnover_median vs" "0 < st_baseline_median m"
        "st_multiple m = dround 60 (trading_value x / st_baseline_median m)"
        "st_observation_count m = length vs" "bp_minimum_observations policy \<le> length vs"
        by blast
      have "metric_sourced theme_id day eat b days snapshots observations policy m"
        unfolding metric_sourced_def
        using look [OF x] True hv hist m x by (intro conjI exI [of _ vs]) fastforce+
      with Cons.prems(2) m(1) show ?thesis by simp
    qed
    from Cons.IH [OF rest this] show ?thesis .
  qed
qed simp

lemma set_turnover_result_metrics:
  "set (tr_stock_metrics (turnover_result policy ms n acc)) = set (ta_metrics acc)"
  by (simp add: turnover_result_def Let_def)

lemma calculate_theme_turnover_Inr:
  assumes "calculate_theme_turnover theme_id day eat b days snapshots observations policy = Inr r"
  shows "r = no_membership_result policy \<or>
    (\<exists>hist indexed membership acc.
       validate_trading_days days day (bp_lookback_trading_days policy) = Inr hist
       \<and> index_observations b [] observations = Inr indexed
       \<and> select_membership_snapshot snapshots theme_id day eat = Inr (Some membership)
       \<and> turnover_loop theme_id day eat snapshots indexed hist policy \<lparr>ta_flags = [], ta_metrics = []\<rparr>
           (ordered_members membership) = Inr acc
       \<and> r = turnover_result policy membership (length (ordered_members membership)) acc)"
  using assms
  by (auto simp: calculate_theme_turnover_def bind_result_Inr_iff Let_def
      split: if_splits option.splits)

lemma turnover_loop_ids:
  assumes "turnover_loop theme_id day eat snapshots indexed hist policy acc ms = Inr acc'"
    and "distinct (map tm_stock_id ms)"
  shows "\<exists>zs. map st_stock_id (ta_metrics acc') = map st_stock_id (ta_metrics acc) @ zs
    \<and> set zs \<subseteq> tm_stock_id ` set ms \<and> distinct zs"
  using assms
proof (induction ms arbitrary: acc)
  case (Cons mem ms)
  let ?i = "tm_stock_id mem"
  obtain acc1 where
      rest: "turnover_loop theme_id day eat snapshots indexed hist policy acc1 ms = Inr acc'"
      and acc1: "ta_metrics acc1 = ta_metrics acc
        \<or> (\<exists>m. ta_metrics acc1 = ta_metrics acc @ [m] \<and> st_stock_id m = ?i)"
  proof (cases "is_usable (dget indexed (?i, day)) eat")
    case False
    with Cons.prems(1) that show ?thesis by (auto simp: Let_def add_flag_def)
  next
    case True
    with Cons.prems(1) obtain vs where
      "turnover_loop theme_id day eat snapshots indexed hist policy
        (member_metric policy ?i (trading_value (the (dget indexed (?i, day)))) vs acc) ms = Inr acc'"
      by (auto simp: Let_def bind_result_Inr_iff)
    with that member_metric_cases show ?thesis by blast
  qed
  from Cons.IH [OF rest] Cons.prems(2) obtain zs where
      "map st_stock_id (ta_metrics acc') = map st_stock_id (ta_metrics acc1) @ zs"
      "set zs \<subseteq> tm_stock_id ` set ms" "distinct zs" by auto
  with acc1 Cons.prems(2) show ?case
    by (elim disjE exE) (auto intro: exI [of _ zs] exI [of _ "?i # zs"])
qed simp

lemma distinct_ids_bound:
  "distinct zs \<Longrightarrow> set zs \<subseteq> set ys \<Longrightarrow> length zs \<le> length ys"
  by (metis card_length card_mono distinct_card finite_set order_trans)

section \<open>Properties\<close>

text \<open>
  C6. Every stock metric is sourced: its current value is an observation of the evaluation day and
  minute that was usable at the evaluation time; its baseline is the median of values observed in
  the same minute of earlier trading days, each at a moment when the membership known then held
  the stock; the number of values lies between the policy's minimum and its look-back; the
  baseline is positive and the multiple is the quotient at 60 digits.
\<close>

theorem turnover_metrics_sourced:
  assumes "calculate_theme_turnover theme_id day eat b days snapshots observations policy = Inr r"
    and "m \<in> set (tr_stock_metrics r)"
  shows "metric_sourced theme_id day eat b days snapshots observations policy m"
  using calculate_theme_turnover_Inr [OF assms(1)]
proof (elim disjE exE conjE)
  assume "r = no_membership_result policy"
  with assms(2) show ?thesis by (simp add: no_membership_result_def)
next
  fix hist indexed membership acc
  assume days: "validate_trading_days days day (bp_lookback_trading_days policy) = Inr hist"
    and idx: "index_observations b [] observations = Inr indexed"
    and loop: "turnover_loop theme_id day eat snapshots indexed hist policy
      \<lparr>ta_flags = [], ta_metrics = []\<rparr> (ordered_members membership) = Inr acc"
    and r: "r = turnover_result policy membership (length (ordered_members membership)) acc"
  from turnover_loop_sourced [OF loop idx days] assms(2) show ?thesis
    by (simp add: r set_turnover_result_metrics)
qed

text \<open>An observation of one stock at minute zero, and a one-day policy, for the examples.\<close>

definition sample_value :: "date \<Rightarrow> int \<Rightarrow> rat \<Rightarrow> stock_trading_value_observation" where
  "sample_value d t v =
     \<lparr>sv_stock_id = ''a'', sv_market_date = d, sv_observed_at = Aware t 0, sv_time_bucket = 0,
      sv_cumulative_trading_value = Some (Fin v), sv_comparable = True, sv_fresh = True,
      sv_trading_halted = False, sv_corporate_action_unresolved = False\<rparr>"

definition sample_baseline :: same_time_baseline_policy where
  "sample_baseline = RANKING_BASELINE_POLICY_V1
     \<lparr>bp_lookback_trading_days := 1, bp_minimum_observations := 1\<rparr>"

definition sample_turnover :: theme_turnover_result where
  "sample_turnover =
     \<lparr>tr_baseline_version = bp_version sample_baseline, tr_policy_maturity = ''BACKTEST_PENDING'',
      tr_membership_version = Some ''m1'', tr_turnover_multiple = Some 3, tr_valid_count = 1,
      tr_total_count = 1, tr_baseline_status = FULL,
      tr_stock_metrics = [\<lparr>st_stock_id = ''a'', st_current_trading_value = 30,
         st_baseline_median = 10, st_multiple = 3, st_observation_count = 1\<rparr>],
      tr_quality_flags = [], tr_unavailable_reason = None\<rparr>"

lemma sample_turnover_calculated:
  "calculate_theme_turnover ''t'' 8 (Aware 50 0) 0 [7, 8] [sample_single]
     [sample_value 7 30 10, sample_value 8 40 30] sample_baseline = Inr sample_turnover"
  by (simp add: calculate_theme_turnover_def validate_trading_days_def sorted_set_def position_of_def
      sample_value_def sample_single_def sample_baseline_def RANKING_BASELINE_POLICY_V1_def
      select_membership_snapshot_def membership_eligible_def membership_contains_def
      ordered_members_def is_usable_def trading_value_def member_metric_def turnover_median_def
      turnover_result_def dsum_def sample_turnover_def Let_def dround_two_decimals)

theorem turnover_metrics_sourced_witness:
  "metric_sourced ''t'' 8 (Aware 50 0) 0 [7, 8] [sample_single]
     [sample_value 7 30 10, sample_value 8 40 30] sample_baseline
     \<lparr>st_stock_id = ''a'', st_current_trading_value = 30, st_baseline_median = 10,
      st_multiple = 3, st_observation_count = 1\<rparr>"
  by (rule turnover_metrics_sourced [OF sample_turnover_calculated]) (simp add: sample_turnover_def)

text \<open>
  What the summary of a turnover result says: the metrics are sorted by stock without
  repetition and counted by \<open>valid_count\<close>, which never exceeds the number of members; the theme's
  multiple is there exactly when some stock has a metric, so that a zero denominator never
  happens; a full baseline means that every member has a metric over the whole look-back.
\<close>

theorem turnover_summary:
  assumes "calculate_theme_turnover theme_id day eat b days snapshots observations policy = Inr r"
    and "\<forall>s\<in>set snapshots. membership_valid s"
  shows "sorted (map st_stock_id (tr_stock_metrics r)) \<and> distinct (map st_stock_id (tr_stock_metrics r))
    \<and> tr_valid_count r = length (tr_stock_metrics r) \<and> tr_valid_count r \<le> tr_total_count r
    \<and> (tr_turnover_multiple r \<noteq> None \<longleftrightarrow> 0 < tr_valid_count r)
    \<and> tr_unavailable_reason r \<noteq> Some ZERO_BASELINE
    \<and> (tr_baseline_status r = FULL \<longrightarrow> tr_valid_count r = tr_total_count r
        \<and> (\<forall>m\<in>set (tr_stock_metrics r). st_observation_count m = bp_lookback_trading_days policy))"
  using calculate_theme_turnover_Inr [OF assms(1)]
proof (elim disjE exE conjE)
  assume "r = no_membership_result policy"
  then show ?thesis by (simp add: no_membership_result_def)
next
  fix hist indexed membership acc
  assume days: "validate_trading_days days day (bp_lookback_trading_days policy) = Inr hist"
    and idx: "index_observations b [] observations = Inr indexed"
    and sel: "select_membership_snapshot snapshots theme_id day eat = Inr (Some membership)"
    and loop: "turnover_loop theme_id day eat snapshots indexed hist policy
      \<lparr>ta_flags = [], ta_metrics = []\<rparr> (ordered_members membership) = Inr acc"
    and r: "r = turnover_result policy membership (length (ordered_members membership)) acc"
  have "membership_valid membership" using assms(2) select_membership_cases(2) [OF sel] by simp
  then have "distinct (map tm_stock_id (ordered_members membership))"
    using distinct_sorted_ids [where P = "\<lambda>_. True"] membership_valid_ids(1)
    by (fastforce simp: ordered_members_def)
  from turnover_loop_ids [OF loop this] have ids: "distinct (map st_stock_id (ta_metrics acc))"
    "set (map st_stock_id (ta_metrics acc)) \<subseteq> set (map tm_stock_id (ordered_members membership))"
    by auto
  have le: "length (ta_metrics acc) \<le> length (ordered_members membership)"
    using distinct_ids_bound [OF ids] by simp
  have "\<forall>m\<in>set (ta_metrics acc). 0 < st_baseline_median m"
    using turnover_loop_sourced [OF loop idx days] by (simp add: metric_sourced_def)
  then have pos: "0 < dsum (dround 28) (map st_baseline_median (sort_key st_stock_id (ta_metrics acc)))"
    if "ta_metrics acc \<noteq> []"
    using that by (intro prec28.dsum_pos) auto
  have dist: "distinct (map st_stock_id (sort_key st_stock_id (ta_metrics acc)))"
    using distinct_sorted_ids [where P = "\<lambda>_. True", OF ids(1)] by simp
  show ?thesis
    using pos le dist
    by (cases "ta_metrics acc = []") (auto simp: r turnover_result_def Let_def)
qed

theorem turnover_summary_witness:
  "tr_valid_count sample_turnover \<le> tr_total_count sample_turnover
   \<and> list_all (\<lambda>m. st_observation_count m = bp_lookback_trading_days sample_baseline)
        (tr_stock_metrics sample_turnover)"
proof -
  have "\<forall>s\<in>set [sample_single]. membership_valid s"
    by (simp add: sample_single_def membership_valid_def theme_membership_snapshot_init_def
        theme_member_init_def)
  from turnover_summary [OF sample_turnover_calculated this] show ?thesis
    by (simp add: sample_turnover_def)
qed

end
