(* ===== verification/Attention.thy ===== *)
theory Attention
  imports Turnover
begin

text \<open>
  \<open>packages/calculations/attention.py\<close>: the attention signal of one trading day and the timeline
  of attention intervals over a trading calendar.  Shown here: the signal of a day never raises
  under a valid policy and is a decision only when all its inputs are there; the intervals of a
  timeline are disjoint, ordered and hold every attention day; an interval is closed only by a run
  of confirmed absences; and a gap is only reported when every day in it is confirmed.
\<close>

section \<open>Data\<close>

record attention_day_signal =
  as_market_date :: date
  as_is_attention :: "bool option"
  as_membership_version :: "string option"
  as_calculation_version :: string
  as_baseline_version :: string
  as_attention_policy_version :: string
  as_turnover_multiple :: "rat option"
  as_high_interest_count :: "nat option"
  as_valid_count :: "nat option"
  as_high_interest_ratio :: "rat option"
  as_weighted_return :: "rat option"
  as_unavailable_reason :: "unavailable_reason option"

record attention_interval =
  iv_first_attention_date :: date
  iv_last_attention_date :: date
  iv_closed_confirmation_date :: "date option"
  iv_gap_trading_days :: "nat option"
  iv_gap_unavailable_reason :: "unavailable_reason option"
  iv_membership_versions :: "string list"
  iv_calculation_versions :: "string list"
  iv_baseline_versions :: "string list"
  iv_attention_policy_version :: string

definition is_open :: "attention_interval \<Rightarrow> bool" where
  "is_open i \<longleftrightarrow> iv_closed_confirmation_date i = None"

record attention_timeline =
  at_policy_version :: string
  at_policy_maturity :: string
  at_intervals :: "attention_interval list"

definition current_interval :: "attention_timeline \<Rightarrow> attention_interval option" where
  "current_interval t =
     (if at_intervals t = [] \<or> \<not> is_open (last (at_intervals t)) then None
      else Some (last (at_intervals t)))"

definition current_gap_trading_days :: "attention_timeline \<Rightarrow> nat option" where
  "current_gap_trading_days t =
     (case current_interval t of None \<Rightarrow> None | Some i \<Rightarrow> iv_gap_trading_days i)"

definition current_gap_unavailable_reason :: "attention_timeline \<Rightarrow> unavailable_reason option" where
  "current_gap_unavailable_reason t =
     (case current_interval t of
        None \<Rightarrow> Some NO_CURRENT_ATTENTION_INTERVAL
      | Some i \<Rightarrow> iv_gap_unavailable_reason i)"

text \<open>The interval under construction: the version fields are sets.\<close>

record mutable_interval =
  mu_first_attention_date :: date
  mu_last_attention_date :: date
  mu_gap_trading_days :: "nat option"
  mu_gap_unavailable_reason :: "unavailable_reason option"
  mu_membership_versions :: "string list"
  mu_calculation_versions :: "string list"
  mu_baseline_versions :: "string list"
  mu_attention_policy_version :: string
  mu_closed_confirmation_date :: "date option"

definition freeze :: "mutable_interval \<Rightarrow> attention_interval" where
  "freeze m =
     \<lparr>iv_first_attention_date = mu_first_attention_date m,
      iv_last_attention_date = mu_last_attention_date m,
      iv_closed_confirmation_date = mu_closed_confirmation_date m,
      iv_gap_trading_days = mu_gap_trading_days m,
      iv_gap_unavailable_reason = mu_gap_unavailable_reason m,
      iv_membership_versions = sort (mu_membership_versions m),
      iv_calculation_versions = sort (mu_calculation_versions m),
      iv_baseline_versions = sort (mu_baseline_versions m),
      iv_attention_policy_version = mu_attention_policy_version m\<rparr>"

section \<open>The signal of one day\<close>

definition attention_unavailable ::
  "theme_metrics \<Rightarrow> theme_turnover_result \<Rightarrow> attention_policy \<Rightarrow> unavailable_reason option" where
  "attention_unavailable metrics turnover policy =
     (if tr_membership_version turnover \<noteq> Some (mt_membership_version metrics)
      then Some MEMBERSHIP_VERSION_MISMATCH
      else if cov_status (mt_coverage metrics) \<noteq> SUFFICIENT then Some INSUFFICIENT_COVERAGE
      else if tr_turnover_multiple turnover = None \<or> mt_weighted_return metrics = None
              \<or> tr_valid_count turnover < ap_minimum_valid_members policy
      then Some INSUFFICIENT_OBSERVATIONS
      else None)"

definition attention_holds :: "attention_policy \<Rightarrow> rat \<Rightarrow> nat \<Rightarrow> rat \<Rightarrow> rat \<Rightarrow> bool" where
  "attention_holds policy multiple interested ratio weighted_return \<longleftrightarrow>
     dval (ap_turnover_multiple_threshold policy) \<le> multiple
     \<and> ap_minimum_high_interest_stocks policy \<le> interested
     \<and> dval (ap_spread_ratio_threshold policy) \<le> ratio
     \<and> dval (ap_weighted_return_threshold policy) \<le> weighted_return"

definition high_interest :: "theme_turnover_result \<Rightarrow> attention_policy \<Rightarrow> nat" where
  "high_interest turnover policy =
     length (filter (\<lambda>m. dval (ap_stock_multiple_threshold policy) \<le> st_multiple m)
       (tr_stock_metrics turnover))"

definition evaluate_attention_day ::
  "date \<Rightarrow> theme_metrics \<Rightarrow> theme_turnover_result \<Rightarrow> attention_policy \<Rightarrow> attention_day_signal result" where
  "evaluate_attention_day market_date metrics turnover policy =
     (let signal = \<lparr>as_market_date = market_date, as_is_attention = None,
            as_membership_version = tr_membership_version turnover,
            as_calculation_version = mt_calculation_version metrics,
            as_baseline_version = tr_baseline_version turnover,
            as_attention_policy_version = ap_version policy,
            as_turnover_multiple = tr_turnover_multiple turnover,
            as_high_interest_count = None, as_valid_count = None, as_high_interest_ratio = None,
            as_weighted_return = mt_weighted_return metrics, as_unavailable_reason = None\<rparr>
      in case attention_unavailable metrics turnover policy of
          Some reason \<Rightarrow> Inr (signal\<lparr>
            as_valid_count := (if tr_valid_count turnover = 0 then None else Some (tr_valid_count turnover)),
            as_unavailable_reason := Some reason\<rparr>)
        | None \<Rightarrow>
            if tr_valid_count turnover = 0 then Inl (ArithmeticError ''division by zero'')
            else let interested = high_interest turnover policy;
                     ratio = dround 60 (of_nat interested / of_nat (tr_valid_count turnover))
                 in Inr (signal\<lparr>
                      as_is_attention := Some (attention_holds policy (the (tr_turnover_multiple turnover))
                        interested ratio (the (mt_weighted_return metrics))),
                      as_high_interest_count := Some interested,
                      as_valid_count := Some (tr_valid_count turnover),
                      as_high_interest_ratio := Some ratio\<rparr>))"

section \<open>The timeline\<close>

type_synonym signals = "(date, attention_day_signal) dict"

definition validate_calendar :: "date list \<Rightarrow> date list result" where
  "validate_calendar trading_days =
     (if sorted_set trading_days \<noteq> trading_days then Inl (ValueError ''trading_days order'')
      else Inr trading_days)"

definition new_interval ::
  "attention_day_signal \<Rightarrow> nat option \<Rightarrow> unavailable_reason option \<Rightarrow> mutable_interval" where
  "new_interval signal gap_trading_days gap_unavailable_reason =
     \<lparr>mu_first_attention_date = as_market_date signal, mu_last_attention_date = as_market_date signal,
      mu_gap_trading_days = gap_trading_days, mu_gap_unavailable_reason = gap_unavailable_reason,
      mu_membership_versions = (case as_membership_version signal of None \<Rightarrow> [] | Some v \<Rightarrow> [v]),
      mu_calculation_versions = [as_calculation_version signal],
      mu_baseline_versions = [as_baseline_version signal],
      mu_attention_policy_version = as_attention_policy_version signal,
      mu_closed_confirmation_date = None\<rparr>"

fun index_signals ::
  "date list \<Rightarrow> attention_policy \<Rightarrow> signals \<Rightarrow> attention_day_signal list \<Rightarrow> signals result" where
  "index_signals calendar policy result [] = Inr result"
| "index_signals calendar policy result (s # ss) =
     (if as_market_date s \<notin> set calendar then Inl (ValueError ''not in calendar'')
      else if dget result (as_market_date s) \<noteq> None then Inl (ValueError ''duplicate signal'')
      else if as_attention_policy_version s \<noteq> ap_version policy then Inl (ValueError ''policy version'')
      else index_signals calendar policy (dset (as_market_date s) s result) ss)"

definition day_state :: "signals \<Rightarrow> date \<Rightarrow> bool option" where
  "day_state signal_by_date d =
     (case dget signal_by_date d of None \<Rightarrow> None | Some s \<Rightarrow> as_is_attention s)"

text \<open>\<open>calendar[previous_position + 1 : current_position]\<close>\<close>

definition days_between :: "date list \<Rightarrow> date \<Rightarrow> date \<Rightarrow> date list" where
  "days_between calendar previous current =
     drop (position_of previous calendar + 1) (take (position_of current calendar) calendar)"

definition gap_of ::
  "date list \<Rightarrow> signals \<Rightarrow> attention_interval list \<Rightarrow> date \<Rightarrow> nat option \<times> unavailable_reason option" where
  "gap_of calendar signal_by_date completed market_date =
     (if completed = [] then (None, Some NO_PRIOR_ATTENTION_INTERVAL)
      else let between = days_between calendar (iv_last_attention_date (last completed)) market_date
           in if \<forall>d\<in>set between. day_state signal_by_date d = Some False
              then (Some (length between), None)
              else (None, Some INCOMPLETE_ATTENTION_HISTORY))"

record timeline_state =
  tl_completed :: "attention_interval list"
  tl_active :: "mutable_interval option"
  tl_absent_streak :: nat

definition extend_interval :: "mutable_interval \<Rightarrow> date \<Rightarrow> attention_day_signal \<Rightarrow> mutable_interval" where
  "extend_interval active market_date s = active
     \<lparr>mu_last_attention_date := market_date,
      mu_membership_versions := (case as_membership_version s of
          None \<Rightarrow> mu_membership_versions active
        | Some v \<Rightarrow> List.insert v (mu_membership_versions active)),
      mu_calculation_versions := List.insert (as_calculation_version s) (mu_calculation_versions active),
      mu_baseline_versions := List.insert (as_baseline_version s) (mu_baseline_versions active)\<rparr>"

definition timeline_day ::
  "attention_policy \<Rightarrow> date list \<Rightarrow> signals \<Rightarrow> timeline_state \<Rightarrow> date \<Rightarrow> timeline_state" where
  "timeline_day policy calendar signal_by_date st market_date =
     (case tl_active st of
        None \<Rightarrow>
          if day_state signal_by_date market_date \<noteq> Some True then st
          else (case gap_of calendar signal_by_date (tl_completed st) market_date of
              (gap, gap_reason) \<Rightarrow>
                st\<lparr>tl_active := Some (new_interval (the (dget signal_by_date market_date)) gap gap_reason),
                   tl_absent_streak := 0\<rparr>)
      | Some active \<Rightarrow>
          (case day_state signal_by_date market_date of
             Some True \<Rightarrow>
               st\<lparr>tl_active := Some (extend_interval active market_date (the (dget signal_by_date market_date))),
                  tl_absent_streak := 0\<rparr>
           | Some False \<Rightarrow>
               if ap_close_after_absent_trading_days policy \<le> tl_absent_streak st + 1
               then \<lparr>tl_completed = tl_completed st
                       @ [freeze (active\<lparr>mu_closed_confirmation_date := Some market_date\<rparr>)],
                     tl_active = None, tl_absent_streak = 0\<rparr>
               else st\<lparr>tl_absent_streak := tl_absent_streak st + 1\<rparr>
           | None \<Rightarrow> st\<lparr>tl_absent_streak := 0\<rparr>))"

definition timeline_intervals :: "timeline_state \<Rightarrow> attention_interval list" where
  "timeline_intervals st =
     tl_completed st @ (case tl_active st of None \<Rightarrow> [] | Some active \<Rightarrow> [freeze active])"

definition build_attention_timeline ::
  "attention_day_signal list \<Rightarrow> date list \<Rightarrow> attention_policy \<Rightarrow> attention_timeline result" where
  "build_attention_timeline signals trading_days policy =
     bind_result (validate_calendar trading_days) (\<lambda>calendar.
     bind_result (index_signals calendar policy [] signals) (\<lambda>signal_by_date.
       Inr \<lparr>at_policy_version = ap_version policy,
            at_policy_maturity = maturity_value (ap_maturity policy),
            at_intervals = timeline_intervals
              (foldl (timeline_day policy calendar signal_by_date)
                 \<lparr>tl_completed = [], tl_active = None, tl_absent_streak = 0\<rparr> calendar)\<rparr>))"

section \<open>The signal of one day: properties\<close>

lemma high_interest_le: "high_interest turnover policy \<le> length (tr_stock_metrics turnover)"
  by (simp add: high_interest_def)

text \<open>
  Under a valid policy the evaluation of a day never raises.  It decides exactly when the
  membership versions agree, the coverage is sufficient, both numbers are there and enough stocks
  are valid, and otherwise it gives a reason; a decision is positive exactly when all four
  thresholds of the policy are met.
\<close>

theorem attention_day_decided:
  assumes "attention_policy_init policy = Inr policy"
  shows "\<exists>s. evaluate_attention_day market_date metrics turnover policy = Inr s
    \<and> as_market_date s = market_date
    \<and> (as_is_attention s = None \<longleftrightarrow> as_unavailable_reason s \<noteq> None)
    \<and> (as_is_attention s \<noteq> None \<longleftrightarrow>
         tr_membership_version turnover = Some (mt_membership_version metrics)
         \<and> cov_status (mt_coverage metrics) = SUFFICIENT \<and> tr_turnover_multiple turnover \<noteq> None
         \<and> mt_weighted_return metrics \<noteq> None
         \<and> ap_minimum_valid_members policy \<le> tr_valid_count turnover)
    \<and> (as_is_attention s \<noteq> None \<longrightarrow> (\<exists>m w.
         tr_turnover_multiple turnover = Some m \<and> mt_weighted_return metrics = Some w
         \<and> as_is_attention s = Some (attention_holds policy m (high_interest turnover policy)
             (dround 60 (of_nat (high_interest turnover policy) / of_nat (tr_valid_count turnover))) w)))"
proof -
  have "1 \<le> ap_minimum_valid_members policy"
    using assms unfolding attention_policy_init_def validate_Inr_iff by simp
  then show ?thesis
    by (auto simp: evaluate_attention_day_def attention_unavailable_def Let_def)
qed

section \<open>The timeline: properties\<close>

lemma index_signals_dates:
  "index_signals calendar policy d ss = Inr r \<Longrightarrow>
   \<forall>k s. dget d k = Some s \<longrightarrow> as_market_date s = k \<Longrightarrow>
   \<forall>k s. dget r k = Some s \<longrightarrow> as_market_date s = k"
proof (induction calendar policy d ss rule: index_signals.induct)
  case (2 calendar policy d s ss)
  have "\<forall>k x. dget (dset (as_market_date s) s d) k = Some x \<longrightarrow> as_market_date x = k"
    using "2.prems"(2) by auto
  moreover have "\<not> as_market_date s \<notin> set calendar" "\<not> dget d (as_market_date s) \<noteq> None"
      "\<not> as_attention_policy_version s \<noteq> ap_version policy"
    and "index_signals calendar policy (dset (as_market_date s) s d) ss = Inr r"
    using "2.prems"(1) by (auto split: if_splits)
  ultimately show ?case by (rule "2.IH" [rotated 4])
qed simp

lemma validate_calendar_Inr:
  "validate_calendar ds = Inr cal \<longleftrightarrow> cal = ds \<and> sorted ds \<and> distinct ds"
  by (auto simp: validate_calendar_def sorted_set_id_iff)

text \<open>
  A run of \<open>n\<close> consecutive trading days after \<open>after\<close>, the last of them \<open>closing\<close>, each with a signal
  that says there is no attention.
\<close>

definition confirmed_absence :: "signals \<Rightarrow> date list \<Rightarrow> nat \<Rightarrow> date \<Rightarrow> date \<Rightarrow> bool" where
  "confirmed_absence sig cal n after closing \<longleftrightarrow>
     (\<exists>xs ys zs. cal = xs @ ys @ zs \<and> length ys = n \<and> ys \<noteq> [] \<and> last ys = closing
        \<and> (\<forall>d\<in>set ys. after < d \<and> day_state sig d = Some False))"

definition interval_ok :: "signals \<Rightarrow> date list \<Rightarrow> nat \<Rightarrow> attention_interval \<Rightarrow> bool" where
  "interval_ok sig cal n i \<longleftrightarrow>
     iv_first_attention_date i \<le> iv_last_attention_date i
     \<and> day_state sig (iv_first_attention_date i) = Some True
     \<and> day_state sig (iv_last_attention_date i) = Some True
     \<and> (\<forall>c. iv_closed_confirmation_date i = Some c \<longrightarrow>
          confirmed_absence sig cal n (iv_last_attention_date i) c)"

definition precedes :: "attention_interval \<Rightarrow> attention_interval \<Rightarrow> bool" where
  "precedes a b \<longleftrightarrow> (\<exists>c. iv_closed_confirmation_date a = Some c \<and> c < iv_first_attention_date b)"

definition in_interval :: "date \<Rightarrow> attention_interval \<Rightarrow> bool" where
  "in_interval d i \<longleftrightarrow> iv_first_attention_date i \<le> d \<and> d \<le> iv_last_attention_date i"

text \<open>The state of the loop after the days \<open>done\<close> of the calendar.\<close>

definition timeline_inv :: "signals \<Rightarrow> date list \<Rightarrow> nat \<Rightarrow> date list \<Rightarrow> timeline_state \<Rightarrow> bool" where
  "timeline_inv sig cal n seen st \<longleftrightarrow>
     (\<forall>i\<in>set (timeline_intervals st). interval_ok sig cal n i \<and> iv_last_attention_date i \<in> set seen
        \<and> (\<forall>c. iv_closed_confirmation_date i = Some c \<longrightarrow> c \<in> set seen))
     \<and> sorted_wrt precedes (timeline_intervals st)
     \<and> (\<forall>d\<in>set seen. day_state sig d = Some True \<longrightarrow> (\<exists>i\<in>set (timeline_intervals st). in_interval d i))
     \<and> (\<forall>i\<in>set (tl_completed st). \<not> is_open i)
     \<and> (\<forall>a. tl_active st = Some a \<longrightarrow> mu_closed_confirmation_date a = None
          \<and> tl_absent_streak st < n
          \<and> (\<exists>xs ys. seen = xs @ ys \<and> length ys = tl_absent_streak st
               \<and> (\<forall>d\<in>set ys. mu_last_attention_date a < d \<and> day_state sig d = Some False)))"

lemma interval_ok_freeze:
  "interval_ok sig cal n (freeze a) \<longleftrightarrow>
     mu_first_attention_date a \<le> mu_last_attention_date a
     \<and> day_state sig (mu_first_attention_date a) = Some True
     \<and> day_state sig (mu_last_attention_date a) = Some True
     \<and> (\<forall>c. mu_closed_confirmation_date a = Some c \<longrightarrow>
          confirmed_absence sig cal n (mu_last_attention_date a) c)"
  by (simp add: interval_ok_def freeze_def)

lemma day_state_True: "day_state sig d = Some True \<Longrightarrow> \<exists>s. dget sig d = Some s"
  by (auto simp: day_state_def split: option.splits)

lemma timeline_inv_open:
  assumes inv: "timeline_inv sig cal n seen st" and "\<forall>x\<in>set seen. x < d" and "0 < n"
    and "tl_active st = None" and "day_state sig d = Some True"
    and "mu_first_attention_date a = d" "mu_last_attention_date a = d" "mu_closed_confirmation_date a = None"
  shows "timeline_inv sig cal n (seen @ [d]) (st\<lparr>tl_active := Some a, tl_absent_streak := 0\<rparr>)"
proof -
  have closed: "\<forall>i\<in>set (tl_completed st). \<exists>c. iv_closed_confirmation_date i = Some c \<and> c \<in> set seen"
    using inv unfolding timeline_inv_def timeline_intervals_def is_open_def by fastforce
  then have "\<forall>i\<in>set (tl_completed st). precedes i (freeze a)"
    using assms by (fastforce simp: precedes_def freeze_def)
  then show ?thesis
    using assms unfolding timeline_inv_def
    by (auto simp: timeline_intervals_def sorted_wrt_append interval_ok_freeze in_interval_def)
      (auto simp: freeze_def)
qed

lemma timeline_inv_extend:
  assumes inv: "timeline_inv sig cal n seen st" and "\<forall>x\<in>set seen. x < d" and "0 < n"
    and "tl_active st = Some a" and "day_state sig d = Some True"
  shows "timeline_inv sig cal n (seen @ [d])
    (st\<lparr>tl_active := Some (extend_interval a d s), tl_absent_streak := 0\<rparr>)"
proof -
  let ?b = "extend_interval a d s"
  have b: "iv_first_attention_date (freeze ?b) = iv_first_attention_date (freeze a)"
    "iv_last_attention_date (freeze ?b) = d" "iv_closed_confirmation_date (freeze ?b) = None"
    "iv_closed_confirmation_date (freeze a) = None" "mu_closed_confirmation_date ?b = None"
    using assms by (simp_all add: freeze_def extend_interval_def timeline_inv_def)
  have a: "interval_ok sig cal n (freeze a)" "iv_last_attention_date (freeze a) < d"
    using assms by (simp_all add: timeline_inv_def timeline_intervals_def)
  then have ok: "interval_ok sig cal n (freeze ?b)"
    using assms(5) b unfolding interval_ok_def by simp
  have "in_interval x (freeze a) \<Longrightarrow> in_interval x (freeze ?b)" for x
    using a(2) b unfolding in_interval_def by simp
  moreover have "in_interval d (freeze ?b)"
    using a b unfolding in_interval_def interval_ok_def by simp
  ultimately show ?thesis
    using assms ok b unfolding timeline_inv_def
    by (auto simp: timeline_intervals_def sorted_wrt_append precedes_def)
qed

lemma timeline_inv_close:
  assumes inv: "timeline_inv sig cal n seen st" and cal: "cal = seen @ d # rest"
    and less: "\<forall>x\<in>set seen. x < d"
    and act: "tl_active st = Some a" and absent: "day_state sig d = Some False"
    and close: "n \<le> tl_absent_streak st + 1"
  shows "timeline_inv sig cal n (seen @ [d])
    \<lparr>tl_completed = tl_completed st @ [freeze (a\<lparr>mu_closed_confirmation_date := Some d\<rparr>)],
     tl_active = None, tl_absent_streak = 0\<rparr>"
proof -
  let ?b = "freeze (a\<lparr>mu_closed_confirmation_date := Some d\<rparr>)"
  have b: "iv_first_attention_date ?b = iv_first_attention_date (freeze a)"
    "iv_last_attention_date ?b = iv_last_attention_date (freeze a)"
    "iv_closed_confirmation_date ?b = Some d"
    by (simp_all add: freeze_def)
  from inv act obtain xs ys where seen: "seen = xs @ ys" "length ys = tl_absent_streak st"
      "\<forall>x\<in>set ys. mu_last_attention_date a < x \<and> day_state sig x = Some False"
      and streak: "tl_absent_streak st < n"
    unfolding timeline_inv_def by auto
  have a: "interval_ok sig cal n (freeze a)" "iv_last_attention_date (freeze a) \<in> set seen"
    using inv act by (simp_all add: timeline_inv_def timeline_intervals_def)
  have "confirmed_absence sig cal n (iv_last_attention_date (freeze a)) d"
    unfolding confirmed_absence_def
    using seen streak close cal absent a(2) less
    by (intro exI [of _ xs] exI [of _ "ys @ [d]"] exI [of _ rest]) (auto simp: freeze_def)
  then have "interval_ok sig cal n ?b"
    using a b unfolding interval_ok_def by simp
  moreover have "\<not> is_open ?b" using b by (simp add: is_open_def)
  moreover have "in_interval x ?b = in_interval x (freeze a)" for x using b by (simp add: in_interval_def)
  moreover have "precedes i ?b = precedes i (freeze a)" for i using b by (simp add: precedes_def)
  ultimately show ?thesis
    using inv act a b absent unfolding timeline_inv_def
    by (auto simp: timeline_intervals_def sorted_wrt_append)
qed

lemma timeline_inv_wait:
  assumes inv: "timeline_inv sig cal n seen st" and less: "\<forall>x\<in>set seen. x < d" and "day_state sig d \<noteq> Some True"
    and "tl_active st = None \<or> k < n \<and> (k = 0 \<or> k = tl_absent_streak st + 1 \<and> day_state sig d = Some False)"
  shows "timeline_inv sig cal n (seen @ [d]) (st\<lparr>tl_absent_streak := k\<rparr>)"
proof -
  have same: "timeline_intervals (st\<lparr>tl_absent_streak := k\<rparr>) = timeline_intervals st"
    by (simp add: timeline_intervals_def)
  have "\<exists>xs ys. seen @ [d] = xs @ ys \<and> length ys = k
      \<and> (\<forall>x\<in>set ys. mu_last_attention_date a < x \<and> day_state sig x = Some False)"
    if act: "tl_active st = Some a" for a
  proof (cases "k = 0")
    case False
    from inv act obtain xs ys where "seen = xs @ ys" "length ys = tl_absent_streak st"
        "\<forall>x\<in>set ys. mu_last_attention_date a < x \<and> day_state sig x = Some False"
      unfolding timeline_inv_def by auto
    moreover have "mu_last_attention_date a < d"
      using inv act less by (auto simp: timeline_inv_def timeline_intervals_def freeze_def)
    ultimately show ?thesis
      using False assms(4) act by (intro exI [of _ xs] exI [of _ "ys @ [d]"]) auto
  qed auto
  then show ?thesis
    using inv assms(3,4) unfolding timeline_inv_def same by auto
qed

lemma timeline_inv_step:
  assumes inv: "timeline_inv sig cal (ap_close_after_absent_trading_days policy) seen st"
    and cal: "cal = seen @ d # rest" and strict: "sorted cal" "distinct cal"
    and dates: "\<forall>k s. dget sig k = Some s \<longrightarrow> as_market_date s = k"
    and pos: "0 < ap_close_after_absent_trading_days policy"
  shows "timeline_inv sig cal (ap_close_after_absent_trading_days policy) (seen @ [d])
    (timeline_day policy cal sig st d)"
proof -
  let ?n = "ap_close_after_absent_trading_days policy"
  have less: "\<forall>x\<in>set seen. x < d"
    using strict by (auto simp: cal sorted_append order.strict_iff_order)
  show ?thesis
  proof (cases "tl_active st")
    case None
    show ?thesis
    proof (cases "day_state sig d = Some True")
      case True
      then obtain s where "dget sig d = Some s" by (auto dest: day_state_True)
      moreover from this have "as_market_date s = d" using dates by simp
      ultimately show ?thesis
        using timeline_inv_open [OF inv less pos None True] None True
        by (simp add: timeline_day_def new_interval_def split: prod.splits)
    next
      case False
      with timeline_inv_wait [OF inv less False, of "tl_absent_streak st"] None show ?thesis
        by (simp add: timeline_day_def)
    qed
  next
    case (Some a)
    then show ?thesis
      using timeline_inv_wait [OF inv less] timeline_inv_close [OF inv cal less Some]
        timeline_inv_extend [OF inv less pos Some] pos
      by (auto simp: timeline_day_def split: option.splits bool.splits)
  qed
qed

lemma timeline_inv_fold:
  assumes "timeline_inv sig cal (ap_close_after_absent_trading_days policy) seen st"
    and "cal = seen @ rest" and "sorted cal" "distinct cal"
    and "\<forall>k s. dget sig k = Some s \<longrightarrow> as_market_date s = k"
    and "0 < ap_close_after_absent_trading_days policy"
  shows "timeline_inv sig cal (ap_close_after_absent_trading_days policy) cal
    (foldl (timeline_day policy cal sig) st rest)"
  using assms(1,2)
proof (induction rest arbitrary: seen st)
  case (Cons d rest)
  have "cal = (seen @ [d]) @ rest" using Cons.prems(2) by simp
  from Cons.IH [OF timeline_inv_step [OF Cons.prems assms(3-6)] this] show ?case by simp
qed simp

lemma timeline_inv_init:
  "timeline_inv sig cal n [] \<lparr>tl_completed = [], tl_active = None, tl_absent_streak = 0\<rparr>"
  by (simp add: timeline_inv_def timeline_intervals_def)

lemma build_attention_timeline_Inr:
  assumes "build_attention_timeline signals cal policy = Inr t"
  obtains sig where "index_signals cal policy [] signals = Inr sig" and "sorted cal" "distinct cal"
    and "\<forall>k s. dget sig k = Some s \<longrightarrow> as_market_date s = k"
    and "at_intervals t = timeline_intervals (foldl (timeline_day policy cal sig)
      \<lparr>tl_completed = [], tl_active = None, tl_absent_streak = 0\<rparr> cal)"
proof -
  from assms obtain sig where "index_signals cal policy [] signals = Inr sig" "sorted cal" "distinct cal"
    "at_intervals t = timeline_intervals (foldl (timeline_day policy cal sig)
      \<lparr>tl_completed = [], tl_active = None, tl_absent_streak = 0\<rparr> cal)"
    by (auto simp: build_attention_timeline_def bind_result_Inr_iff validate_calendar_Inr)
  moreover have "\<forall>k s. dget sig k = Some s \<longrightarrow> as_market_date s = k"
    by (rule index_signals_dates [OF calculation(1)]) simp
  ultimately show ?thesis using that by blast
qed

text \<open>
  C7. A timeline is correct: its intervals start and end on attention days; each is closed before
  the next one starts, so that only the last can be open; every attention day of the calendar lies
  in one of them; and an interval is closed on a day only when that day ends a run of as many
  consecutive trading days as the policy asks for, all after the interval's last attention day and
  each with a signal that denies attention.
\<close>

theorem attention_timeline_sound:
  assumes "build_attention_timeline signals cal policy = Inr t"
    and "attention_policy_init policy = Inr policy"
  shows "\<exists>sig. index_signals cal policy [] signals = Inr sig
    \<and> (\<forall>i\<in>set (at_intervals t). interval_ok sig cal (ap_close_after_absent_trading_days policy) i)
    \<and> sorted_wrt precedes (at_intervals t)
    \<and> (\<forall>d\<in>set cal. day_state sig d = Some True \<longrightarrow> (\<exists>i\<in>set (at_intervals t). in_interval d i))"
proof -
  have pos: "0 < ap_close_after_absent_trading_days policy"
    using assms(2) unfolding attention_policy_init_def validate_Inr_iff by simp
  from assms(1) obtain sig where idx: "index_signals cal policy [] signals = Inr sig"
    and cal: "sorted cal" "distinct cal" "\<forall>k s. dget sig k = Some s \<longrightarrow> as_market_date s = k"
    and t: "at_intervals t = timeline_intervals (foldl (timeline_day policy cal sig)
      \<lparr>tl_completed = [], tl_active = None, tl_absent_streak = 0\<rparr> cal)"
    by (rule build_attention_timeline_Inr)
  from timeline_inv_fold [OF timeline_inv_init _ cal pos] have
    "timeline_inv sig cal (ap_close_after_absent_trading_days policy) cal
      (foldl (timeline_day policy cal sig) \<lparr>tl_completed = [], tl_active = None, tl_absent_streak = 0\<rparr> cal)"
    by simp
  with idx show ?thesis unfolding timeline_inv_def t [symmetric] by auto
qed

section \<open>Gaps\<close>

text \<open>The specification of the gap before an interval.\<close>

definition gap_spec ::
  "signals \<Rightarrow> date list \<Rightarrow> attention_interval option \<Rightarrow> attention_interval
    \<Rightarrow> nat option \<times> unavailable_reason option" where
  "gap_spec sig cal previous i =
     (case previous of
        None \<Rightarrow> (None, Some NO_PRIOR_ATTENTION_INTERVAL)
      | Some p \<Rightarrow>
          let between = filter (\<lambda>d. iv_last_attention_date p < d \<and> d < iv_first_attention_date i) cal
          in if \<forall>d\<in>set between. day_state sig d = Some False then (Some (length between), None)
             else (None, Some INCOMPLETE_ATTENTION_HISTORY))"

fun gap_specs ::
  "signals \<Rightarrow> date list \<Rightarrow> attention_interval option \<Rightarrow> attention_interval list
    \<Rightarrow> (nat option \<times> unavailable_reason option) list" where
  "gap_specs sig cal previous [] = []"
| "gap_specs sig cal previous (i # is) = gap_spec sig cal previous i # gap_specs sig cal (Some i) is"

definition gaps :: "attention_interval list \<Rightarrow> (nat option \<times> unavailable_reason option) list" where
  "gaps is = map (\<lambda>i. (iv_gap_trading_days i, iv_gap_unavailable_reason i)) is"

lemma gap_specs_snoc:
  "gap_specs sig cal previous (is @ [i]) =
   gap_specs sig cal previous is @ [gap_spec sig cal (if is = [] then previous else Some (last is)) i]"
  by (induction "is" arbitrary: previous) simp_all

lemma takeWhile_filter_less:
  fixes x :: "'a::linorder"
  assumes "sorted xs" "distinct xs" "x \<in> set xs"
  shows "takeWhile (\<lambda>y. y \<noteq> x) xs = filter (\<lambda>y. y < x) xs"
  using assms
proof (induction xs)
  case (Cons a xs)
  show ?case
  proof (cases "a = x")
    case True
    then have "filter (\<lambda>y. y < x) xs = []" using Cons.prems by (auto simp: filter_empty_conv)
    then show ?thesis using True by simp
  qed (use Cons in \<open>auto simp: order.strict_iff_order\<close>)
qed simp

lemma drop_filter_greater:
  fixes x :: "'a::linorder"
  assumes "sorted xs" "distinct xs" "x \<in> set xs"
  shows "drop (position_of x xs + 1) xs = filter (\<lambda>y. x < y) xs"
  using assms
proof (induction xs)
  case (Cons a xs)
  then show ?case
  proof (cases "a = x")
    case True
    then have "filter (\<lambda>y. x < y) xs = xs"
      using Cons.prems by (auto simp: filter_id_conv order.strict_iff_order)
    then show ?thesis using True by (simp add: position_of_def)
  next
    case False
    with Cons have "a < x" by (simp add: order.strict_iff_order)
    with False Cons show ?thesis by (simp add: position_of_def)
  qed
qed simp

lemma days_between_filter:
  assumes "sorted cal" "distinct cal" "p \<in> set cal" "d \<in> set cal" "p < d"
  shows "days_between cal p d = filter (\<lambda>x. p < x \<and> x < d) cal"
proof -
  let ?xs = "filter (\<lambda>x. x < d) cal"
  have xs: "sorted ?xs" "distinct ?xs" "p \<in> set ?xs"
    using assms by (simp_all add: sorted_wrt_filter)
  have "take (position_of d cal) cal = ?xs"
    unfolding position_of_def takeWhile_eq_take [symmetric] using assms by (intro takeWhile_filter_less)
  moreover have "position_of p cal = position_of p ?xs"
    unfolding position_of_def takeWhile_filter_less [OF xs] takeWhile_filter_less [OF assms(1-3)]
    using assms(5) by (auto intro!: arg_cong [of _ _ length] filter_cong)
  ultimately show ?thesis
    unfolding days_between_def using drop_filter_greater [OF xs] by (simp add: conj_commute)
qed

lemma gap_of_spec:
  assumes "timeline_inv sig cal n seen st" and "cal = seen @ d # rest" and "sorted cal" "distinct cal"
    and "mu_first_attention_date a = d"
  shows "gap_of cal sig (tl_completed st) d
    = gap_spec sig cal (if tl_completed st = [] then None else Some (last (tl_completed st))) (freeze a)"
proof (cases "tl_completed st = []")
  case True
  then show ?thesis by (simp add: gap_of_def gap_spec_def)
next
  case False
  let ?p = "iv_last_attention_date (last (tl_completed st))"
  from False assms(1) have "?p \<in> set seen" by (auto simp: timeline_inv_def timeline_intervals_def)
  with assms(2-4) have "?p \<in> set cal" "d \<in> set cal" "?p < d"
    by (auto simp: sorted_append order.strict_iff_order)
  then have "days_between cal ?p d = filter (\<lambda>x. ?p < x \<and> x < d) cal"
    using assms(3,4) by (intro days_between_filter)
  with False assms(5) show ?thesis by (simp add: gap_of_def gap_spec_def freeze_def)
qed

lemma gap_spec_freeze_cong:
  "mu_first_attention_date a = mu_first_attention_date b \<Longrightarrow>
   gap_spec sig cal p (freeze a) = gap_spec sig cal p (freeze b)"
  by (cases p) (simp_all add: gap_spec_def freeze_def)

lemma gaps_snoc [simp]:
  "gaps (is @ [freeze a]) = gaps is @ [(mu_gap_trading_days a, mu_gap_unavailable_reason a)]"
  by (simp add: gaps_def freeze_def)

lemma gaps_step:
  assumes inv: "timeline_inv sig cal n seen st" and cal: "cal = seen @ d # rest" "sorted cal" "distinct cal"
    and dates: "\<forall>k s. dget sig k = Some s \<longrightarrow> as_market_date s = k"
    and gaps: "gaps (timeline_intervals st) = gap_specs sig cal None (timeline_intervals st)"
  shows "gaps (timeline_intervals (timeline_day policy cal sig st d))
    = gap_specs sig cal None (timeline_intervals (timeline_day policy cal sig st d))"
proof (cases "tl_active st")
  case None
  show ?thesis
  proof (cases "day_state sig d = Some True")
    case True
    then obtain s where s: "dget sig d = Some s" by (auto dest: day_state_True)
    then have "as_market_date s = d" using dates by simp
    then show ?thesis
      using gap_of_spec [OF inv cal, of "new_interval s g r" for g r] gaps None True s
      by (auto simp: timeline_day_def timeline_intervals_def gap_specs_snoc new_interval_def
          split: prod.splits)
  qed (use None gaps in \<open>simp add: timeline_day_def\<close>)
next
  case (Some a)
  let ?p = "if tl_completed st = [] then None else Some (last (tl_completed st))"
  from gaps have a: "gaps (tl_completed st) = gap_specs sig cal None (tl_completed st)"
    "gap_spec sig cal ?p (freeze a) = (mu_gap_trading_days a, mu_gap_unavailable_reason a)"
    by (simp_all add: Some timeline_intervals_def gap_specs_snoc)
  have eq: "gaps (tl_completed st @ [freeze b]) = gap_specs sig cal None (tl_completed st @ [freeze b])"
    if "mu_first_attention_date b = mu_first_attention_date a"
      "mu_gap_trading_days b = mu_gap_trading_days a"
      "mu_gap_unavailable_reason b = mu_gap_unavailable_reason a" for b
    using a that gap_spec_freeze_cong [OF that(1), of sig cal ?p]
    by (simp add: gap_specs_snoc)
  show ?thesis
    using eq [of "extend_interval a d s" for s] eq [of "a\<lparr>mu_closed_confirmation_date := Some d\<rparr>"] eq [of a]
    by (auto simp: Some timeline_day_def timeline_intervals_def extend_interval_def
        split: option.splits bool.splits)
qed

lemma gaps_fold:
  assumes "timeline_inv sig cal (ap_close_after_absent_trading_days policy) seen st"
    and "cal = seen @ rest" and "sorted cal" "distinct cal"
    and "\<forall>k s. dget sig k = Some s \<longrightarrow> as_market_date s = k"
    and "0 < ap_close_after_absent_trading_days policy"
    and "gaps (timeline_intervals st) = gap_specs sig cal None (timeline_intervals st)"
  shows "gaps (timeline_intervals (foldl (timeline_day policy cal sig) st rest))
    = gap_specs sig cal None (timeline_intervals (foldl (timeline_day policy cal sig) st rest))"
  using assms(1,2,7)
proof (induction rest arbitrary: seen st)
  case (Cons d rest)
  have "cal = (seen @ [d]) @ rest" using Cons.prems(2) by simp
  from Cons.IH [OF timeline_inv_step [OF Cons.prems(1,2) assms(3-6)] this
      gaps_step [OF Cons.prems(1,2) assms(3-5) Cons.prems(3)]]
  show ?case by simp
qed simp

text \<open>
  C8. Gaps refine their specification: the first interval has none, for lack of a prior interval;
  every later one reports the number of trading days strictly between the previous interval's last
  attention day and its own first one when all of them carry a signal that denies attention, and
  reports an incomplete history otherwise.
\<close>

theorem attention_gaps_refine_spec:
  assumes "build_attention_timeline signals cal policy = Inr t"
    and "attention_policy_init policy = Inr policy"
  shows "\<exists>sig. index_signals cal policy [] signals = Inr sig
    \<and> gaps (at_intervals t) = gap_specs sig cal None (at_intervals t)"
proof -
  have pos: "0 < ap_close_after_absent_trading_days policy"
    using assms(2) unfolding attention_policy_init_def validate_Inr_iff by simp
  from assms(1) obtain sig where idx: "index_signals cal policy [] signals = Inr sig"
    and cal: "sorted cal" "distinct cal" "\<forall>k s. dget sig k = Some s \<longrightarrow> as_market_date s = k"
    and t: "at_intervals t = timeline_intervals (foldl (timeline_day policy cal sig)
      \<lparr>tl_completed = [], tl_active = None, tl_absent_streak = 0\<rparr> cal)"
    by (rule build_attention_timeline_Inr)
  from gaps_fold [OF timeline_inv_init _ cal pos] idx show ?thesis
    by (auto simp: t timeline_intervals_def gaps_def)
qed

section \<open>Examples\<close>

definition sample_signal :: "date \<Rightarrow> bool \<Rightarrow> attention_day_signal" where
  "sample_signal d b =
     \<lparr>as_market_date = d, as_is_attention = Some b, as_membership_version = Some ''m1'',
      as_calculation_version = ''c'', as_baseline_version = ''b'', as_attention_policy_version = ''p'',
      as_turnover_multiple = None, as_high_interest_count = None, as_valid_count = None,
      as_high_interest_ratio = None, as_weighted_return = None, as_unavailable_reason = None\<rparr>"

definition sample_attention_policy :: attention_policy where
  "sample_attention_policy = ATTENTION_POLICY_V1
     \<lparr>ap_version := ''p'', ap_close_after_absent_trading_days := 2\<rparr>"

definition sample_signals :: "attention_day_signal list" where
  "sample_signals = [sample_signal 1 True, sample_signal 2 False, sample_signal 3 False,
     sample_signal 4 True]"

definition sample_interval :: "date \<Rightarrow> date option \<Rightarrow> nat option \<Rightarrow> unavailable_reason option \<Rightarrow> attention_interval" where
  "sample_interval d fin gap reason =
     \<lparr>iv_first_attention_date = d, iv_last_attention_date = d, iv_closed_confirmation_date = fin,
      iv_gap_trading_days = gap, iv_gap_unavailable_reason = reason,
      iv_membership_versions = [''m1''], iv_calculation_versions = [''c''],
      iv_baseline_versions = [''b''], iv_attention_policy_version = ''p''\<rparr>"

definition sample_timeline :: attention_timeline where
  "sample_timeline =
     \<lparr>at_policy_version = ''p'', at_policy_maturity = ''BACKTEST_PENDING'',
      at_intervals = [sample_interval 1 (Some 3) None (Some NO_PRIOR_ATTENTION_INTERVAL),
        sample_interval 4 None (Some 2) None]\<rparr>"

lemma sample_timeline_built:
  "build_attention_timeline sample_signals [1, 2, 3, 4] sample_attention_policy = Inr sample_timeline"
  by (simp add: build_attention_timeline_def validate_calendar_def sorted_set_def sample_signals_def
      sample_signal_def sample_attention_policy_def ATTENTION_POLICY_V1_def timeline_intervals_def
      timeline_day_def day_state_def gap_of_def days_between_def position_of_def new_interval_def
      freeze_def sample_timeline_def sample_interval_def Let_def)

lemma sample_attention_policy_valid:
  "attention_policy_init sample_attention_policy = Inr sample_attention_policy"
  by (simp add: attention_policy_init_def sample_attention_policy_def ATTENTION_POLICY_V1_def)

theorem attention_timeline_sound_witness:
  "\<exists>sig. confirmed_absence sig [1, 2, 3, 4] 2 1 3"
proof -
  from attention_timeline_sound [OF sample_timeline_built sample_attention_policy_valid]
  show ?thesis
    by (auto simp: sample_timeline_def sample_interval_def interval_ok_def sample_attention_policy_def
        ATTENTION_POLICY_V1_def)
qed

theorem attention_gaps_refine_spec_witness:
  "\<exists>sig. gap_specs sig [1, 2, 3, 4] None (at_intervals sample_timeline)
     = [(None, Some NO_PRIOR_ATTENTION_INTERVAL), (Some 2, None)]"
proof -
  have "gaps (at_intervals sample_timeline)
      = [(None, Some NO_PRIOR_ATTENTION_INTERVAL), (Some 2, None)]"
    by (simp add: gaps_def sample_timeline_def sample_interval_def)
  with attention_gaps_refine_spec [OF sample_timeline_built sample_attention_policy_valid]
  show ?thesis by metis
qed

definition sample_metrics :: theme_metrics where
  "sample_metrics =
     \<lparr>mt_calculation_version = ''c'', mt_policy_maturity = ''BACKTEST_PENDING'',
      mt_membership_version = ''m1'', mt_weighted_return = Some (1 / 10), mt_median_return = None,
      mt_advancing_count = None, mt_valid_count = None, mt_advancing_ratio = None,
      mt_coverage = \<lparr>cov_status = SUFFICIENT,
        cov_core = \<lparr>cp_observed_count = 1, cp_total_count = 1, cp_count_ratio = Some 1,
          cp_observed_weight_ratio = Some (Fin 1)\<rparr>,
        cov_related = \<lparr>cp_observed_count = 1, cp_total_count = 1, cp_count_ratio = Some 1,
          cp_observed_weight_ratio = None\<rparr>\<rparr>,
      mt_capped_weights = [], mt_quality_flags = [], mt_issues = [], mt_reference_versions = []\<rparr>"

theorem attention_day_decided_witness:
  "\<exists>s. evaluate_attention_day 8 sample_metrics sample_turnover sample_attention_policy = Inr s
     \<and> as_is_attention s = None"
proof -
  from attention_day_decided [OF sample_attention_policy_valid, of 8 sample_metrics sample_turnover]
  show ?thesis
    by (auto simp: sample_turnover_def sample_attention_policy_def ATTENTION_POLICY_V1_def)
qed

end
