(* ===== verification/Domain_State.thy ===== *)
theory Domain_State
  imports Prelude
begin

text \<open>
  The Event state machine of \<open>packages/domain/state.py\<close>: the three status axes, their
  transition tables and the function every state change of the program goes through.
\<close>

section \<open>Status axes and transition tables\<close>

datatype lifecycle_status = CANDIDATE | ACTIVE | WEAKENING | CLOSED | DISCARDED

datatype reconciliation_status = RECONCILIATION_PENDING | MATCHED | UNMATCHED

datatype review_status = REVIEW_PENDING | RESOLVED

datatype state_axis = LIFECYCLE | RECONCILIATION | REVIEW

fun lifecycle_value :: "lifecycle_status \<Rightarrow> string" where
  "lifecycle_value CANDIDATE = ''CANDIDATE''"
| "lifecycle_value ACTIVE = ''ACTIVE''"
| "lifecycle_value WEAKENING = ''WEAKENING''"
| "lifecycle_value CLOSED = ''CLOSED''"
| "lifecycle_value DISCARDED = ''DISCARDED''"

fun reconciliation_value :: "reconciliation_status \<Rightarrow> string" where
  "reconciliation_value RECONCILIATION_PENDING = ''PENDING''"
| "reconciliation_value MATCHED = ''MATCHED''"
| "reconciliation_value UNMATCHED = ''UNMATCHED''"

fun review_value :: "review_status \<Rightarrow> string" where
  "review_value REVIEW_PENDING = ''PENDING''"
| "review_value RESOLVED = ''RESOLVED''"

fun axis_value :: "state_axis \<Rightarrow> string" where
  "axis_value LIFECYCLE = ''lifecycleStatus''"
| "axis_value RECONCILIATION = ''reconciliationStatus''"
| "axis_value REVIEW = ''reviewStatus''"

definition STATE_TRANSITION_VERSION :: string where
  "STATE_TRANSITION_VERSION = ''event-state-2026.08.1''"

fun lifecycle_targets :: "lifecycle_status \<Rightarrow> lifecycle_status list" where
  "lifecycle_targets CANDIDATE = [ACTIVE, DISCARDED]"
| "lifecycle_targets ACTIVE = [WEAKENING, CLOSED]"
| "lifecycle_targets WEAKENING = [ACTIVE, CLOSED]"
| "lifecycle_targets CLOSED = []"
| "lifecycle_targets DISCARDED = []"

fun reconciliation_targets :: "reconciliation_status \<Rightarrow> reconciliation_status list" where
  "reconciliation_targets RECONCILIATION_PENDING = [MATCHED, UNMATCHED]"
| "reconciliation_targets MATCHED = []"
| "reconciliation_targets UNMATCHED = [MATCHED]"

fun review_targets :: "review_status option \<Rightarrow> review_status list" where
  "review_targets None = [REVIEW_PENDING]"
| "review_targets (Some REVIEW_PENDING) = [RESOLVED]"
| "review_targets (Some RESOLVED) = []"

record state_transition =
  st_axis :: state_axis
  st_from_status :: "string option"
  st_to_status :: string
  st_policy_version :: string

definition state_transition_init :: "state_transition \<Rightarrow> state_transition result" where
  "state_transition_init t =
     validate [(st_policy_version t \<noteq> [], ValueError ''policy_version'')] t"

definition require_transition ::
  "state_axis \<Rightarrow> ('s \<Rightarrow> string) \<Rightarrow> 's option \<Rightarrow> 's \<Rightarrow> 's list \<Rightarrow> string
    \<Rightarrow> state_transition result" where
  "require_transition axis val current target allowed_targets policy_version =
     (if target \<notin> set allowed_targets then Inl (InvalidStateTransition (axis_value axis))
      else state_transition_init
        \<lparr>st_axis = axis, st_from_status = map_option val current,
         st_to_status = val target, st_policy_version = policy_version\<rparr>)"

definition allowed_lifecycle_targets :: "lifecycle_status \<Rightarrow> lifecycle_status list" where
  "allowed_lifecycle_targets current = lifecycle_targets current"

definition transition_lifecycle ::
  "lifecycle_status \<Rightarrow> lifecycle_status \<Rightarrow> string \<Rightarrow> state_transition result" where
  "transition_lifecycle current target policy_version =
     require_transition LIFECYCLE lifecycle_value (Some current) target
       (lifecycle_targets current) policy_version"

definition transition_reconciliation ::
  "reconciliation_status \<Rightarrow> reconciliation_status \<Rightarrow> string \<Rightarrow> state_transition result" where
  "transition_reconciliation current target policy_version =
     require_transition RECONCILIATION reconciliation_value (Some current) target
       (reconciliation_targets current) policy_version"

definition transition_review ::
  "review_status option \<Rightarrow> review_status \<Rightarrow> string \<Rightarrow> state_transition result" where
  "transition_review current target policy_version =
     require_transition REVIEW review_value current target
       (review_targets current) policy_version"

lemmas transition_defs = transition_lifecycle_def transition_reconciliation_def
  transition_review_def require_transition_def state_transition_init_def

section \<open>What a transition table promises\<close>

text \<open>
  The three axes share one contract: a partial step function given by the allowed targets, and a
  rank that no accepted step lowers.
\<close>

locale ranked_status =
  fixes targets :: "'s \<Rightarrow> 's list" and rank :: "'s \<Rightarrow> nat"
  assumes rank_mono: "t \<in> set (targets s) \<Longrightarrow> rank s \<le> rank t"
    and no_self: "s \<notin> set (targets s)"
begin

lemma path_rank_mono: "(\<lambda>s t. t \<in> set (targets s))\<^sup>*\<^sup>* s t \<Longrightarrow> rank s \<le> rank t"
  by (induction rule: rtranclp_induct) (auto dest: rank_mono intro: order_trans)

lemma terminal_stays: "targets s = [] \<Longrightarrow> (\<lambda>s t. t \<in> set (targets s))\<^sup>*\<^sup>* s t \<Longrightarrow> t = s"
  by (erule converse_rtranclpE) auto

end

fun lifecycle_rank :: "lifecycle_status \<Rightarrow> nat" where
  "lifecycle_rank CANDIDATE = 0"
| "lifecycle_rank ACTIVE = 1"
| "lifecycle_rank WEAKENING = 1"
| "lifecycle_rank CLOSED = 2"
| "lifecycle_rank DISCARDED = 1"

fun reconciliation_rank :: "reconciliation_status \<Rightarrow> nat" where
  "reconciliation_rank RECONCILIATION_PENDING = 0"
| "reconciliation_rank UNMATCHED = 1"
| "reconciliation_rank MATCHED = 2"

interpretation lifecycle: ranked_status lifecycle_targets lifecycle_rank
proof unfold_locales
  fix s t show "t \<in> set (lifecycle_targets s) \<Longrightarrow> lifecycle_rank s \<le> lifecycle_rank t"
    by (cases s) auto
  show "s \<notin> set (lifecycle_targets s)" by (cases s) auto
qed

interpretation reconciliation: ranked_status reconciliation_targets reconciliation_rank
proof unfold_locales
  fix s t
  show "t \<in> set (reconciliation_targets s) \<Longrightarrow> reconciliation_rank s \<le> reconciliation_rank t"
    by (cases s) auto
  show "s \<notin> set (reconciliation_targets s)" by (cases s) auto
qed

lemma transition_lifecycle_iff:
  "(\<exists>r. transition_lifecycle s t p = Inr r) \<longleftrightarrow> t \<in> set (lifecycle_targets s) \<and> p \<noteq> []"
  by (auto simp: transition_defs)

lemma transition_reconciliation_iff:
  "(\<exists>r. transition_reconciliation s t p = Inr r)
     \<longleftrightarrow> t \<in> set (reconciliation_targets s) \<and> p \<noteq> []"
  by (auto simp: transition_defs)

text \<open>
  C1. An Event that has ever been ACTIVE is never DISCARDED, and CLOSED and DISCARDED admit no
  further lifecycle transition: every sequence of accepted lifecycle transitions from ACTIVE,
  WEAKENING or CLOSED avoids DISCARDED and CANDIDATE, and every sequence from CLOSED or DISCARDED
  stays where it is.
\<close>

theorem lifecycle_paths:
  "(\<lambda>s t. \<exists>r. transition_lifecycle s t p = Inr r)\<^sup>*\<^sup>* s t \<Longrightarrow>
   (s \<in> {CLOSED, DISCARDED} \<longrightarrow> t = s)
   \<and> (s \<in> {ACTIVE, WEAKENING, CLOSED} \<longrightarrow> t \<in> {ACTIVE, WEAKENING, CLOSED})"
proof (induction rule: rtranclp_induct)
  case base
  then show ?case by simp
next
  case (step t u)
  then have "u \<in> set (lifecycle_targets t)" by (simp add: transition_lifecycle_iff)
  with step.IH show ?case by (cases t) auto
qed

theorem lifecycle_paths_witness:
  "(\<lambda>s t. \<exists>r. transition_lifecycle s t ''v1'' = Inr r)\<^sup>*\<^sup>* ACTIVE CLOSED
   \<and> CLOSED \<in> {ACTIVE, WEAKENING, CLOSED}"
proof -
  have "transition_lifecycle ACTIVE CLOSED ''v1'' = Inr
      \<lparr>st_axis = LIFECYCLE, st_from_status = Some ''ACTIVE'', st_to_status = ''CLOSED'',
       st_policy_version = ''v1''\<rparr>"
    by (simp add: transition_defs)
  then have path: "(\<lambda>s t. \<exists>r. transition_lifecycle s t ''v1'' = Inr r)\<^sup>*\<^sup>* ACTIVE CLOSED"
    by blast
  with lifecycle_paths [OF path] show ?thesis by simp
qed

end
