(* ===== verification/Hysteresis.thy ===== *)
theory Hysteresis
  imports Domain_State Domain_Models
begin

text \<open>
  \<open>packages/realtime/hysteresis.py\<close>: the reducer that turns a stream of activation evaluations of a
  theme into lifecycle transitions.  Shown here: from the initial state the reducer only ever
  raises on a version mismatch or a reused input id, never on an illegal transition or a missing
  timer; duplicates and stale inputs leave the state alone; and a theme is activated, weakened or
  closed only after the condition has held in every accepted evaluation for the policy's time.
  The reasons of transitions are short ASCII tags instead of the Korean texts.
\<close>

section \<open>Policy, inputs and state\<close>

record hysteresis_policy =
  hp_version :: string
  hp_maturity :: string
  hp_activate_after :: timedelta
  hp_weaken_after :: timedelta
  hp_recover_within :: timedelta
  hp_close_after :: timedelta

definition hysteresis_policy_init :: "hysteresis_policy \<Rightarrow> hysteresis_policy result" where
  "hysteresis_policy_init p = validate
     [(\<not> blank (hp_version p), ValueError ''version''),
      (\<not> blank (hp_maturity p), ValueError ''maturity''),
      (0 < hp_activate_after p, ValueError ''activate_after''),
      (0 < hp_weaken_after p, ValueError ''weaken_after''),
      (0 < hp_recover_within p, ValueError ''recover_within''),
      (0 < hp_close_after p, ValueError ''close_after'')] p"

definition HYSTERESIS_POLICY_VERSION :: string where
  "HYSTERESIS_POLICY_VERSION = ''theme-hysteresis-2026.08.1''"

definition HYSTERESIS_POLICY_V1 :: hysteresis_policy where
  "HYSTERESIS_POLICY_V1 =
     \<lparr>hp_version = HYSTERESIS_POLICY_VERSION, hp_maturity = ''BACKTEST_PENDING'',
      hp_activate_after = 10 * 1000000, hp_weaken_after = 60 * 1000000,
      hp_recover_within = 10 * 60 * 1000000, hp_close_after = 10 * 60 * 1000000\<rparr>"

record activation_evaluation =
  ae_input_id :: string
  ae_sequence :: int
  ae_evaluated_at :: datetime
  ae_policy_version :: string
  ae_coverage_status :: coverage_status
  ae_qualifies :: "bool option"
  ae_market_closed :: bool
  ae_candidate_expired :: bool

definition activation_evaluation_init :: "activation_evaluation \<Rightarrow> activation_evaluation result" where
  "activation_evaluation_init e = validate
     [(\<not> blank (ae_input_id e), ValueError ''input_id''),
      (1 \<le> ae_sequence e, ValueError ''sequence''),
      (\<not> blank (ae_policy_version e), ValueError ''policy_version''),
      (is_aware (ae_evaluated_at e), ValueError ''evaluated_at''),
      (\<not> (ae_market_closed e \<and> ae_candidate_expired e), ValueError ''market_closed'')] e"

fun coverage_status_value :: "coverage_status \<Rightarrow> string" where
  "coverage_status_value SUFFICIENT = ''SUFFICIENT''"
| "coverage_status_value PARTIAL = ''PARTIAL''"
| "coverage_status_value INSUFFICIENT = ''INSUFFICIENT''"

definition activation_to_dict :: "activation_evaluation \<Rightarrow> json" where
  "activation_to_dict e = JObj
     [(''inputId'', JStr (ae_input_id e)),
      (''sequence'', JInt (ae_sequence e)),
      (''evaluatedAt'', JTime (ae_evaluated_at e)),
      (''policyVersion'', JStr (ae_policy_version e)),
      (''coverageStatus'', JStr (coverage_status_value (ae_coverage_status e))),
      (''qualifies'', json_opt JBool (ae_qualifies e)),
      (''marketClosed'', JBool (ae_market_closed e)),
      (''candidateExpired'', JBool (ae_candidate_expired e))]"

definition activation_fingerprint :: "hash \<Rightarrow> activation_evaluation \<Rightarrow> string" where
  "activation_fingerprint H e = json_hash H (activation_to_dict e)"

record hysteresis_state =
  hs_theme_id :: string
  hs_lifecycle_status :: lifecycle_status
  hs_policy_version :: string
  hs_last_sequence :: int
  hs_last_evaluated_at :: "datetime option"
  hs_last_input_id :: "string option"
  hs_last_input_fingerprint :: "string option"
  hs_candidate_since :: "datetime option"
  hs_below_since :: "datetime option"
  hs_weakening_since :: "datetime option"
  hs_weakening_below_since :: "datetime option"

definition hysteresis_state_init :: "hysteresis_state \<Rightarrow> hysteresis_state result" where
  "hysteresis_state_init s = validate
     [(\<not> blank (hs_theme_id s), ValueError ''theme_id''),
      (\<not> blank (hs_policy_version s), ValueError ''policy_version''),
      (0 \<le> hs_last_sequence s, ValueError ''last_sequence''),
      (pred_option is_aware (hs_last_evaluated_at s), ValueError ''last_evaluated_at''),
      (pred_option is_aware (hs_candidate_since s), ValueError ''candidate_since''),
      (pred_option is_aware (hs_below_since s), ValueError ''below_since''),
      (pred_option is_aware (hs_weakening_since s), ValueError ''weakening_since''),
      (pred_option is_aware (hs_weakening_below_since s), ValueError ''weakening_below_since'')] s"

definition hysteresis_candidate :: "string \<Rightarrow> hysteresis_policy \<Rightarrow> hysteresis_state result" where
  "hysteresis_candidate theme_id policy = hysteresis_state_init
     \<lparr>hs_theme_id = theme_id, hs_lifecycle_status = CANDIDATE, hs_policy_version = hp_version policy,
      hs_last_sequence = 0, hs_last_evaluated_at = None, hs_last_input_id = None,
      hs_last_input_fingerprint = None, hs_candidate_since = None, hs_below_since = None,
      hs_weakening_since = None, hs_weakening_below_since = None\<rparr>"

section \<open>Decisions\<close>

record hysteresis_transition =
  ht_from_status :: lifecycle_status
  ht_to_status :: lifecycle_status
  ht_policy_version :: string
  ht_input_id :: string
  ht_reason :: string

datatype hysteresis_disposition =
  TRANSITIONED | NO_TRANSITION | HYST_DUPLICATE | STALE_SEQUENCE | STALE_TIME | TERMINAL

record hysteresis_decision =
  hd_state :: hysteresis_state
  hd_disposition :: hysteresis_disposition
  hd_transition :: "hysteresis_transition option"

definition hysteresis_transition_to ::
  "hysteresis_state \<Rightarrow> lifecycle_status \<Rightarrow> activation_evaluation \<Rightarrow> string \<Rightarrow> hysteresis_decision result" where
  "hysteresis_transition_to state target evaluation reason =
     bind_result (transition_lifecycle (hs_lifecycle_status state) target (hs_policy_version state))
       (\<lambda>_. Inr
          \<lparr>hd_state = state
             \<lparr>hs_lifecycle_status := target, hs_candidate_since := None, hs_below_since := None,
              hs_weakening_since := None, hs_weakening_below_since := None\<rparr>,
           hd_disposition = TRANSITIONED,
           hd_transition = Some
             \<lparr>ht_from_status = hs_lifecycle_status state, ht_to_status = target,
              ht_policy_version = hs_policy_version state, ht_input_id = ae_input_id evaluation,
              ht_reason = reason\<rparr>\<rparr>)"

text \<open>\<open>value or now\<close> on an optional timestamp.\<close>

definition since :: "datetime option \<Rightarrow> datetime \<Rightarrow> datetime" where
  "since t now = (case t of None \<Rightarrow> now | Some x \<Rightarrow> x)"

definition elapsed :: "datetime \<Rightarrow> datetime \<Rightarrow> timedelta" where
  "elapsed now t = instant now - instant t"

definition unchanged :: "hysteresis_state \<Rightarrow> hysteresis_disposition \<Rightarrow> hysteresis_decision result" where
  "unchanged state disposition =
     Inr \<lparr>hd_state = state, hd_disposition = disposition, hd_transition = None\<rparr>"

definition evaluate_candidate ::
  "hysteresis_policy \<Rightarrow> hysteresis_state \<Rightarrow> activation_evaluation \<Rightarrow> bool \<Rightarrow> hysteresis_decision result" where
  "evaluate_candidate policy advanced evaluation qualifies =
     (let now = ae_evaluated_at evaluation
      in if \<not> qualifies then unchanged (advanced\<lparr>hs_candidate_since := None\<rparr>) NO_TRANSITION
         else let candidate_since = since (hs_candidate_since advanced) now;
                  advanced = advanced\<lparr>hs_candidate_since := Some candidate_since\<rparr>
              in if hp_activate_after policy \<le> elapsed now candidate_since
                 then hysteresis_transition_to advanced ACTIVE evaluation ''activated''
                 else unchanged advanced NO_TRANSITION)"

definition evaluate_active ::
  "hysteresis_policy \<Rightarrow> hysteresis_state \<Rightarrow> activation_evaluation \<Rightarrow> bool \<Rightarrow> hysteresis_decision result" where
  "evaluate_active policy advanced evaluation qualifies =
     (let now = ae_evaluated_at evaluation
      in if qualifies then unchanged (advanced\<lparr>hs_below_since := None\<rparr>) NO_TRANSITION
         else let below_since = since (hs_below_since advanced) now;
                  advanced = advanced\<lparr>hs_below_since := Some below_since\<rparr>
              in if hp_weaken_after policy \<le> elapsed now below_since
                 then bind_result (hysteresis_transition_to advanced WEAKENING evaluation ''weakened'')
                   (\<lambda>transitioned. Inr (transitioned\<lparr>hd_state := (hd_state transitioned)
                      \<lparr>hs_weakening_since := Some now, hs_weakening_below_since := Some now,
                       hs_below_since := None\<rparr>\<rparr>))
                 else unchanged advanced NO_TRANSITION)"

definition evaluate_weakening ::
  "hysteresis_policy \<Rightarrow> hysteresis_state \<Rightarrow> activation_evaluation \<Rightarrow> bool \<Rightarrow> hysteresis_decision result" where
  "evaluate_weakening policy advanced evaluation qualifies =
     (let now = ae_evaluated_at evaluation
      in case hs_weakening_since advanced of
          None \<Rightarrow> Inl (ValueError ''weakening_since'')
        | Some weakening_since \<Rightarrow>
            if qualifies
            then if elapsed now weakening_since \<le> hp_recover_within policy
                 then hysteresis_transition_to advanced ACTIVE evaluation ''recovered''
                 else hysteresis_transition_to advanced CLOSED evaluation ''recovery expired''
            else let below = since (hs_weakening_below_since advanced) now;
                     advanced = advanced\<lparr>hs_weakening_below_since := Some below\<rparr>
                 in if hp_close_after policy \<le> elapsed now below
                    then hysteresis_transition_to advanced CLOSED evaluation ''weakened on''
                    else unchanged advanced NO_TRANSITION)"

text \<open>Missing coverage resets the timer of the current status.\<close>

definition reset_timer :: "lifecycle_status \<Rightarrow> hysteresis_state \<Rightarrow> hysteresis_state" where
  "reset_timer status advanced =
     (case status of
        CANDIDATE \<Rightarrow> advanced\<lparr>hs_candidate_since := None\<rparr>
      | ACTIVE \<Rightarrow> advanced\<lparr>hs_below_since := None\<rparr>
      | WEAKENING \<Rightarrow> advanced\<lparr>hs_weakening_below_since := None\<rparr>
      | _ \<Rightarrow> advanced)"

definition effective_qualifies :: "activation_evaluation \<Rightarrow> bool option" where
  "effective_qualifies e = (if ae_coverage_status e = SUFFICIENT then ae_qualifies e else None)"

definition advance :: "hash \<Rightarrow> hysteresis_state \<Rightarrow> activation_evaluation \<Rightarrow> hysteresis_state" where
  "advance H state e = state
     \<lparr>hs_last_sequence := ae_sequence e, hs_last_evaluated_at := Some (ae_evaluated_at e),
      hs_last_input_id := Some (ae_input_id e),
      hs_last_input_fingerprint := Some (activation_fingerprint H e)\<rparr>"

definition evaluate_accepted ::
  "hysteresis_policy \<Rightarrow> lifecycle_status \<Rightarrow> hysteresis_state \<Rightarrow> activation_evaluation
    \<Rightarrow> hysteresis_decision result" where
  "evaluate_accepted policy status advanced evaluation =
     (if status = CLOSED \<or> status = DISCARDED then unchanged advanced TERMINAL
      else if ae_market_closed evaluation
      then hysteresis_transition_to advanced (if status = CANDIDATE then DISCARDED else CLOSED)
             evaluation ''market closed''
      else if ae_candidate_expired evaluation \<and> status = CANDIDATE
      then hysteresis_transition_to advanced DISCARDED evaluation ''candidate expired''
      else case effective_qualifies evaluation of
          None \<Rightarrow> unchanged (reset_timer status advanced) NO_TRANSITION
        | Some qualifies \<Rightarrow>
            (case status of
               CANDIDATE \<Rightarrow> evaluate_candidate policy advanced evaluation qualifies
             | ACTIVE \<Rightarrow> evaluate_active policy advanced evaluation qualifies
             | WEAKENING \<Rightarrow> evaluate_weakening policy advanced evaluation qualifies
             | _ \<Rightarrow> unchanged advanced NO_TRANSITION))"

definition evaluate_hysteresis ::
  "hash \<Rightarrow> hysteresis_policy \<Rightarrow> hysteresis_state \<Rightarrow> activation_evaluation \<Rightarrow> hysteresis_decision result" where
  "evaluate_hysteresis H policy state evaluation =
     (if hs_policy_version state \<noteq> hp_version policy then Inl (ValueError ''state policy_version'')
      else if ae_policy_version evaluation \<noteq> hp_version policy then Inl (ValueError ''input policy_version'')
      else if hs_last_input_id state = Some (ae_input_id evaluation)
      then if hs_last_input_fingerprint state \<noteq> Some (activation_fingerprint H evaluation)
           then Inl HysteresisInputConflict
           else unchanged state HYST_DUPLICATE
      else if ae_sequence evaluation \<le> hs_last_sequence state then unchanged state STALE_SEQUENCE
      else if (case hs_last_evaluated_at state of
                 None \<Rightarrow> False | Some t \<Rightarrow> instant (ae_evaluated_at evaluation) < instant t)
      then unchanged state STALE_TIME
      else evaluate_accepted policy (hs_lifecycle_status state) (advance H state evaluation) evaluation)"

section \<open>Reachable states and their history\<close>

definition accepted :: "hysteresis_disposition \<Rightarrow> bool" where
  "accepted d \<longleftrightarrow> d \<in> {TRANSITIONED, NO_TRANSITION, TERMINAL}"

text \<open>The states the reducer reaches from a new candidate, each with the evaluations it accepted.\<close>

inductive hysteresis_run ::
  "hash \<Rightarrow> hysteresis_policy \<Rightarrow> hysteresis_state \<Rightarrow> activation_evaluation list \<Rightarrow> bool"
  for H policy where
  start: "hysteresis_candidate theme_id policy = Inr s \<Longrightarrow> hysteresis_run H policy s []"
| accept: "hysteresis_run H policy s h \<Longrightarrow> evaluate_hysteresis H policy s e = Inr dec \<Longrightarrow>
    accepted (hd_disposition dec) \<Longrightarrow> hysteresis_run H policy (hd_state dec) (h @ [e])"
| ignore: "hysteresis_run H policy s h \<Longrightarrow> evaluate_hysteresis H policy s e = Inr dec \<Longrightarrow>
    \<not> accepted (hd_disposition dec) \<Longrightarrow> hysteresis_run H policy (hd_state dec) h"

text \<open>A condition held in every accepted evaluation since one at time \<open>t\<close>.\<close>

definition sustained :: "(activation_evaluation \<Rightarrow> bool) \<Rightarrow> activation_evaluation list \<Rightarrow> datetime \<Rightarrow> bool" where
  "sustained P h t \<longleftrightarrow>
     (\<exists>h1 h2. h = h1 @ h2 \<and> h2 \<noteq> [] \<and> ae_evaluated_at (hd h2) = t \<and> (\<forall>e\<in>set h2. P e))"

abbreviation good :: "activation_evaluation \<Rightarrow> bool" where
  "good e \<equiv> effective_qualifies e = Some True"

abbreviation bad :: "activation_evaluation \<Rightarrow> bool" where
  "bad e \<equiv> effective_qualifies e = Some False"

lemma sustained_snoc: "sustained P h t \<Longrightarrow> P e \<Longrightarrow> sustained P (h @ [e]) t"
  unfolding sustained_def
proof (elim exE conjE)
  fix h1 h2
  assume "h = h1 @ h2" "h2 \<noteq> []" "ae_evaluated_at (hd h2) = t" "\<forall>e\<in>set h2. P e" "P e"
  then show "\<exists>h1 h2. h @ [e] = h1 @ h2 \<and> h2 \<noteq> [] \<and> ae_evaluated_at (hd h2) = t \<and> (\<forall>e\<in>set h2. P e)"
    by (intro exI [of _ h1] exI [of _ "h2 @ [e]"]) auto
qed

lemma sustained_now: "P e \<Longrightarrow> sustained P (h @ [e]) (ae_evaluated_at e)"
  unfolding sustained_def by (intro exI [of _ h] exI [of _ "[e]"]) simp

lemma sustained_since:
  "pred_option (sustained P h) t \<Longrightarrow> P e \<Longrightarrow> sustained P (h @ [e]) (since t (ae_evaluated_at e))"
  by (cases t) (simp_all add: since_def sustained_now sustained_snoc)

text \<open>The timers that belong to the status are sustained, the others are clear.\<close>

definition timers_ok :: "hysteresis_state \<Rightarrow> activation_evaluation list \<Rightarrow> bool" where
  "timers_ok s h =
     (case hs_lifecycle_status s of
        CANDIDATE \<Rightarrow> hs_below_since s = None \<and> hs_weakening_since s = None
          \<and> hs_weakening_below_since s = None \<and> pred_option (sustained good h) (hs_candidate_since s)
      | ACTIVE \<Rightarrow> hs_candidate_since s = None \<and> hs_weakening_since s = None
          \<and> hs_weakening_below_since s = None \<and> pred_option (sustained bad h) (hs_below_since s)
      | WEAKENING \<Rightarrow> hs_candidate_since s = None \<and> hs_below_since s = None
          \<and> hs_weakening_since s \<noteq> None \<and> pred_option (sustained bad h) (hs_weakening_below_since s)
      | _ \<Rightarrow> hs_candidate_since s = None \<and> hs_below_since s = None \<and> hs_weakening_since s = None
          \<and> hs_weakening_below_since s = None)"

text \<open>What justifies a transition at the last evaluation \<open>e\<close> of the history \<open>h\<close>.\<close>

definition justified ::
  "hysteresis_policy \<Rightarrow> activation_evaluation list \<Rightarrow> activation_evaluation \<Rightarrow> hysteresis_transition \<Rightarrow> bool" where
  "justified policy h e tr \<longleftrightarrow>
     ht_to_status tr \<in> set (lifecycle_targets (ht_from_status tr))
     \<and> (ht_from_status tr = CANDIDATE \<and> ht_to_status tr = ACTIVE \<longrightarrow>
          (\<exists>t. sustained good h t \<and> hp_activate_after policy \<le> elapsed (ae_evaluated_at e) t))
     \<and> (ht_to_status tr = WEAKENING \<longrightarrow>
          (\<exists>t. sustained bad h t \<and> hp_weaken_after policy \<le> elapsed (ae_evaluated_at e) t))
     \<and> (ht_to_status tr = CLOSED \<and> \<not> ae_market_closed e \<longrightarrow> ht_from_status tr = WEAKENING
          \<and> (good e \<or> (\<exists>t. sustained bad h t \<and> hp_close_after policy \<le> elapsed (ae_evaluated_at e) t)))
     \<and> (ht_to_status tr = DISCARDED \<longrightarrow> ae_market_closed e \<or> ae_candidate_expired e)"

lemma hysteresis_transition_to_Inr:
  assumes "target \<in> set (lifecycle_targets (hs_lifecycle_status s))" and "hs_policy_version s \<noteq> []"
  shows "hysteresis_transition_to s target e reason = Inr
    \<lparr>hd_state = s\<lparr>hs_lifecycle_status := target, hs_candidate_since := None, hs_below_since := None,
       hs_weakening_since := None, hs_weakening_below_since := None\<rparr>,
     hd_disposition = TRANSITIONED,
     hd_transition = Some \<lparr>ht_from_status = hs_lifecycle_status s, ht_to_status = target,
       ht_policy_version = hs_policy_version s, ht_input_id = ae_input_id e, ht_reason = reason\<rparr>\<rparr>"
  using assms by (simp add: hysteresis_transition_to_def transition_lifecycle_def require_transition_def
      state_transition_init_def)

text \<open>The outcome of an accepted evaluation.\<close>

definition outcome_ok ::
  "hysteresis_policy \<Rightarrow> hysteresis_state \<Rightarrow> activation_evaluation list \<Rightarrow> activation_evaluation
    \<Rightarrow> hysteresis_decision result \<Rightarrow> bool" where
  "outcome_ok policy s h e r \<longleftrightarrow>
     (\<exists>dec. r = Inr dec \<and> accepted (hd_disposition dec) \<and> timers_ok (hd_state dec) (h @ [e])
        \<and> hs_policy_version (hd_state dec) = hs_policy_version s
        \<and> pred_option (justified policy (h @ [e]) e) (hd_transition dec))"

lemmas outcome_simps = outcome_ok_def hysteresis_transition_to_Inr unchanged_def accepted_def
  timers_ok_def justified_def

lemma evaluate_candidate_ok:
  assumes "timers_ok s h" "hs_lifecycle_status s = CANDIDATE" "hs_policy_version s \<noteq> []"
    and "effective_qualifies e = Some q"
  shows "outcome_ok policy s h e (evaluate_candidate policy s e q)"
proof -
  have "pred_option (sustained good h) (hs_candidate_since s)" using assms by (simp add: timers_ok_def)
  then have "q \<Longrightarrow> sustained good (h @ [e]) (since (hs_candidate_since s) (ae_evaluated_at e))"
    using assms(4) by (intro sustained_since) simp_all
  with assms show ?thesis
    by (auto simp: evaluate_candidate_def outcome_simps Let_def)
qed

lemma evaluate_active_ok:
  assumes "timers_ok s h" "hs_lifecycle_status s = ACTIVE" "hs_policy_version s \<noteq> []"
    and "effective_qualifies e = Some q"
  shows "outcome_ok policy s h e (evaluate_active policy s e q)"
proof -
  have "pred_option (sustained bad h) (hs_below_since s)" using assms by (simp add: timers_ok_def)
  then have "\<not> q \<Longrightarrow> sustained bad (h @ [e]) (since (hs_below_since s) (ae_evaluated_at e))"
    using assms(4) by (intro sustained_since) simp_all
  moreover have "\<not> q \<Longrightarrow> sustained bad (h @ [e]) (ae_evaluated_at e)"
    using assms(4) by (intro sustained_now) simp
  ultimately show ?thesis
    using assms by (auto simp: evaluate_active_def outcome_simps Let_def)
qed

lemma evaluate_weakening_ok:
  assumes "timers_ok s h" "hs_lifecycle_status s = WEAKENING" "hs_policy_version s \<noteq> []"
    and "effective_qualifies e = Some q"
  shows "outcome_ok policy s h e (evaluate_weakening policy s e q)"
proof -
  from assms obtain w where w: "hs_weakening_since s = Some w" by (auto simp: timers_ok_def)
  have "pred_option (sustained bad h) (hs_weakening_below_since s)"
    using assms by (simp add: timers_ok_def)
  then have "\<not> q \<Longrightarrow> sustained bad (h @ [e]) (since (hs_weakening_below_since s) (ae_evaluated_at e))"
    using assms(4) by (intro sustained_since) simp_all
  with assms w show ?thesis
    by (auto simp: evaluate_weakening_def outcome_simps Let_def)
qed

lemma evaluate_accepted_ok:
  assumes "timers_ok s h" "hs_policy_version s \<noteq> []"
  shows "outcome_ok policy s h e (evaluate_accepted policy (hs_lifecycle_status s) s e)"
proof (cases "hs_lifecycle_status s")
  case CANDIDATE
  with assms evaluate_candidate_ok [OF assms(1) CANDIDATE assms(2)] show ?thesis
    by (auto simp: evaluate_accepted_def reset_timer_def outcome_simps split: option.splits)
next
  case ACTIVE
  with assms evaluate_active_ok [OF assms(1) ACTIVE assms(2)] show ?thesis
    by (auto simp: evaluate_accepted_def reset_timer_def outcome_simps split: option.splits)
next
  case WEAKENING
  with assms evaluate_weakening_ok [OF assms(1) WEAKENING assms(2)] show ?thesis
    by (auto simp: evaluate_accepted_def reset_timer_def outcome_simps split: option.splits)
qed (use assms in \<open>simp_all add: evaluate_accepted_def outcome_simps\<close>)

lemma advance_fields [simp]:
  "hs_lifecycle_status (advance H s e) = hs_lifecycle_status s"
  "hs_policy_version (advance H s e) = hs_policy_version s"
  "timers_ok (advance H s e) h = timers_ok s h"
  by (simp_all add: advance_def timers_ok_def split: lifecycle_status.split)

text \<open>The four ways an evaluation is settled.\<close>

lemma evaluate_hysteresis_cases:
  assumes "evaluate_hysteresis H policy s e = Inr dec"
  shows "hd_state dec = s \<and> \<not> accepted (hd_disposition dec) \<and> hd_transition dec = None
    \<or> evaluate_accepted policy (hs_lifecycle_status s) (advance H s e) e = Inr dec
      \<and> hs_last_sequence s < ae_sequence e
      \<and> (\<forall>t. hs_last_evaluated_at s = Some t \<longrightarrow> instant t \<le> instant (ae_evaluated_at e))"
  using assms
  by (auto simp: evaluate_hysteresis_def unchanged_def accepted_def split: if_splits option.splits)

lemma hysteresis_run_inv:
  "hysteresis_run H policy s h \<Longrightarrow>
   timers_ok s h \<and> hs_policy_version s = hp_version policy \<and> hp_version policy \<noteq> []"
proof (induction rule: hysteresis_run.induct)
  case (start theme_id s)
  then show ?case
    by (auto simp: hysteresis_candidate_def hysteresis_state_init_def blank_def timers_ok_def
        split: if_splits)
next
  case (accept s h e dec)
  from evaluate_hysteresis_cases [OF accept.hyps(2)] accept.hyps(3)
  have "evaluate_accepted policy (hs_lifecycle_status s) (advance H s e) e = Inr dec" by auto
  with evaluate_accepted_ok [of "advance H s e" h policy e] accept.IH show ?case
    by (auto simp: outcome_ok_def)
next
  case (ignore s h e dec)
  with evaluate_hysteresis_cases [OF ignore.hyps(2)] show ?case
    using evaluate_accepted_ok [of "advance H s e" h policy e] by (auto simp: outcome_ok_def)
qed

section \<open>Properties\<close>

text \<open>
  C9. The reducer is never stuck: in every state it reaches, an evaluation of the right policy
  version is decided, or it reuses the last input id with another content; no transition it takes
  is illegal and no timer it needs is missing.
\<close>

theorem hysteresis_never_stuck:
  assumes "hysteresis_run H policy s h" and "ae_policy_version e = hp_version policy"
  shows "(\<exists>dec. evaluate_hysteresis H policy s e = Inr dec)
    \<or> evaluate_hysteresis H policy s e = Inl HysteresisInputConflict
      \<and> hs_last_input_id s = Some (ae_input_id e)
      \<and> hs_last_input_fingerprint s \<noteq> Some (activation_fingerprint H e)"
proof -
  from hysteresis_run_inv [OF assms(1)] have "timers_ok s h" "hs_policy_version s = hp_version policy"
    "hp_version policy \<noteq> []" by simp_all
  with evaluate_accepted_ok [of "advance H s e" h policy e] assms(2) show ?thesis
    by (auto simp: evaluate_hysteresis_def unchanged_def outcome_ok_def)
qed


text \<open>
  Order: an evaluation that is a duplicate or stale leaves the state as it is; any other one
  has a larger sequence and no earlier time than the last, and becomes the last; a closed or
  discarded theme never changes its status.
\<close>

theorem hysteresis_order:
  assumes "evaluate_hysteresis H policy s e = Inr dec"
  shows "(if accepted (hd_disposition dec)
      then hs_last_sequence s < hs_last_sequence (hd_state dec)
        \<and> hs_last_sequence (hd_state dec) = ae_sequence e
        \<and> hs_last_evaluated_at (hd_state dec) = Some (ae_evaluated_at e)
        \<and> hs_last_input_id (hd_state dec) = Some (ae_input_id e)
        \<and> (\<forall>t. hs_last_evaluated_at s = Some t \<longrightarrow> instant t \<le> instant (ae_evaluated_at e))
      else hd_state dec = s \<and> hd_transition dec = None)
    \<and> (hs_lifecycle_status s \<in> {CLOSED, DISCARDED} \<longrightarrow>
         hs_lifecycle_status (hd_state dec) = hs_lifecycle_status s)"
proof -
  have "hs_last_sequence (hd_state dec) = ae_sequence e
      \<and> hs_last_evaluated_at (hd_state dec) = Some (ae_evaluated_at e)
      \<and> hs_last_input_id (hd_state dec) = Some (ae_input_id e) \<and> accepted (hd_disposition dec)
      \<and> (hs_lifecycle_status s \<in> {CLOSED, DISCARDED} \<longrightarrow>
           hs_lifecycle_status (hd_state dec) = hs_lifecycle_status s)"
    if "evaluate_accepted policy (hs_lifecycle_status s) (advance H s e) e = Inr dec"
    using that
    by (auto simp: evaluate_accepted_def evaluate_candidate_def evaluate_active_def accepted_def
        evaluate_weakening_def hysteresis_transition_to_def unchanged_def bind_result_Inr_iff Let_def
        reset_timer_def advance_def split: if_splits option.splits lifecycle_status.splits)
  with evaluate_hysteresis_cases [OF assms] show ?thesis by auto
qed

section \<open>Examples\<close>

definition sample_evaluation :: "string \<Rightarrow> int \<Rightarrow> int \<Rightarrow> bool \<Rightarrow> activation_evaluation" where
  "sample_evaluation i n t q =
     \<lparr>ae_input_id = i, ae_sequence = n, ae_evaluated_at = Aware t 0,
      ae_policy_version = HYSTERESIS_POLICY_VERSION, ae_coverage_status = SUFFICIENT,
      ae_qualifies = Some q, ae_market_closed = False, ae_candidate_expired = False\<rparr>"

definition sample_candidate :: hysteresis_state where
  "sample_candidate =
     \<lparr>hs_theme_id = ''t'', hs_lifecycle_status = CANDIDATE,
      hs_policy_version = HYSTERESIS_POLICY_VERSION, hs_last_sequence = 0,
      hs_last_evaluated_at = None, hs_last_input_id = None, hs_last_input_fingerprint = None,
      hs_candidate_since = None, hs_below_since = None, hs_weakening_since = None,
      hs_weakening_below_since = None\<rparr>"

definition sample_waiting :: hysteresis_state where
  "sample_waiting = sample_candidate
     \<lparr>hs_last_sequence := 1, hs_last_evaluated_at := Some (Aware 0 0), hs_last_input_id := Some ''a'',
      hs_last_input_fingerprint := Some ''h'', hs_candidate_since := Some (Aware 0 0)\<rparr>"

definition sample_activated :: hysteresis_decision where
  "sample_activated =
     \<lparr>hd_state = sample_candidate
        \<lparr>hs_lifecycle_status := ACTIVE, hs_last_sequence := 2,
         hs_last_evaluated_at := Some (Aware 10000000 0), hs_last_input_id := Some ''b'',
         hs_last_input_fingerprint := Some ''h''\<rparr>,
      hd_disposition = TRANSITIONED,
      hd_transition = Some \<lparr>ht_from_status = CANDIDATE, ht_to_status = ACTIVE,
        ht_policy_version = HYSTERESIS_POLICY_VERSION, ht_input_id = ''b'', ht_reason = ''activated''\<rparr>\<rparr>"

lemma sample_run_start: "hysteresis_run (\<lambda>_. ''h'') HYSTERESIS_POLICY_V1 sample_candidate []"
  by (rule start [of "''t''"]) code_simp

lemma sample_run_waiting:
  "hysteresis_run (\<lambda>_. ''h'') HYSTERESIS_POLICY_V1 sample_waiting [sample_evaluation ''a'' 1 0 True]"
proof -
  have "evaluate_hysteresis (\<lambda>_. ''h'') HYSTERESIS_POLICY_V1 sample_candidate
      (sample_evaluation ''a'' 1 0 True)
    = Inr \<lparr>hd_state = sample_waiting, hd_disposition = NO_TRANSITION, hd_transition = None\<rparr>"
    by code_simp
  from accept [OF sample_run_start this] show ?thesis by (simp add: accepted_def)
qed

lemma sample_activation:
  "evaluate_hysteresis (\<lambda>_. ''h'') HYSTERESIS_POLICY_V1 sample_waiting
     (sample_evaluation ''b'' 2 10000000 True) = Inr sample_activated"
  by code_simp

theorem hysteresis_never_stuck_witness:
  "(\<exists>dec. evaluate_hysteresis (\<lambda>_. ''h'') HYSTERESIS_POLICY_V1 sample_waiting
      (sample_evaluation ''b'' 2 5 False) = Inr dec)
   \<or> evaluate_hysteresis (\<lambda>_. ''h'') HYSTERESIS_POLICY_V1 sample_waiting
      (sample_evaluation ''b'' 2 5 False) = Inl HysteresisInputConflict"
proof -
  have "ae_policy_version (sample_evaluation ''b'' 2 5 False) = hp_version HYSTERESIS_POLICY_V1"
    by (simp add: sample_evaluation_def HYSTERESIS_POLICY_V1_def)
  from hysteresis_never_stuck [OF sample_run_waiting this] show ?thesis by blast
qed


theorem hysteresis_order_witness:
  "hs_last_sequence sample_waiting < hs_last_sequence (hd_state sample_activated)"
  using hysteresis_order [OF sample_activation] by (simp add: sample_activated_def accepted_def)

end
