(* ===== verification/Event_Models.thy ===== *)
theory Event_Models
  imports Domain_State
begin

text \<open>
  The data of \<open>packages/events/models.py\<close>: lineage, command metadata, the natural identity of an
  Event, the Event itself, the three commands, their fingerprints and what the writer returns and
  stores.  A record holds the arguments of the Python constructor and \<open>_init\<close> is its
  \<open>__post_init__\<close>.  Identifiers are truncated hashes; the hash is a parameter.
\<close>

section \<open>Lineage and metadata\<close>

definition EVENT_COMMAND_SCHEMA_VERSION :: string where
  "EVENT_COMMAND_SCHEMA_VERSION = ''event-command-2026.08.1''"

definition EVENT_DOMAIN_EVENT_VERSION :: string where
  "EVENT_DOMAIN_EVENT_VERSION = ''1''"

definition EVENT_PRODUCER :: string where
  "EVENT_PRODUCER = ''dayjaview.events''"

definition opaque_id :: "hash \<Rightarrow> string \<Rightarrow> hash_input \<Rightarrow> string" where
  "opaque_id H prefix v = prefix @ ''_'' @ take 32 (H v)"

record lineage_ref =
  lr_kind :: string
  lr_identifier :: string
  lr_version :: "string option"
  lr_content_hash :: "string option"

definition lineage_ref_init :: "lineage_ref \<Rightarrow> lineage_ref result" where
  "lineage_ref_init l = validate
     [(\<not> blank (lr_kind l), ValueError ''lineage.kind''),
      (\<not> blank (lr_identifier l), ValueError ''lineage.identifier''),
      (pred_option (\<lambda>v. \<not> blank v) (lr_version l), ValueError ''lineage.version''),
      (pred_option (\<lambda>v. \<not> blank v) (lr_content_hash l), ValueError ''lineage.content_hash'')] l"

definition lineage_to_dict :: "lineage_ref \<Rightarrow> json" where
  "lineage_to_dict l = JObj
     [(''kind'', JStr (lr_kind l)),
      (''identifier'', JStr (lr_identifier l)),
      (''version'', json_opt JStr (lr_version l)),
      (''contentHash'', json_opt JStr (lr_content_hash l))]"

record event_input_metadata =
  em_message_id :: string
  em_source :: string
  em_source_sequence :: int
  em_occurred_at :: datetime
  em_received_at :: datetime
  em_correlation_id :: string
  em_causation_id :: "string option"
  em_lineage :: "lineage_ref list"

definition event_input_metadata_init :: "event_input_metadata \<Rightarrow> event_input_metadata result" where
  "event_input_metadata_init m = validate
     [(\<not> blank (em_message_id m), ValueError ''message_id''),
      (\<not> blank (em_source m), ValueError ''source''),
      (\<not> blank (em_correlation_id m), ValueError ''correlation_id''),
      (pred_option (\<lambda>v. \<not> blank v) (em_causation_id m), ValueError ''causation_id''),
      (0 \<le> em_source_sequence m, ValueError ''source_sequence''),
      (is_aware (em_occurred_at m), ValueError ''occurred_at aware''),
      (is_aware (em_received_at m), ValueError ''received_at aware''),
      (instant (em_occurred_at m) \<le> instant (em_received_at m), ValueError ''occurred_at''),
      (distinct (map (\<lambda>l. (lr_kind l, lr_identifier l, lr_version l)) (em_lineage m)),
       ValueError ''lineage'')] m"

definition metadata_to_dict :: "event_input_metadata \<Rightarrow> json" where
  "metadata_to_dict m = JObj
     [(''messageId'', JStr (em_message_id m)),
      (''source'', JStr (em_source m)),
      (''sourceSequence'', JInt (em_source_sequence m)),
      (''occurredAt'', JTime (em_occurred_at m)),
      (''receivedAt'', JTime (em_received_at m)),
      (''correlationId'', JStr (em_correlation_id m)),
      (''causationId'', json_opt JStr (em_causation_id m)),
      (''lineage'', JList (map lineage_to_dict (em_lineage m)))]"

section \<open>Identity and versions\<close>

record canonical_event_identity =
  ei_market_date :: date
  ei_canonical_theme_id :: string
  ei_catalyst_key :: string

definition canonical_event_identity_init ::
  "canonical_event_identity \<Rightarrow> canonical_event_identity result" where
  "canonical_event_identity_init i = validate
     [(\<not> blank (ei_canonical_theme_id i), ValueError ''canonical_theme_id''),
      (\<not> blank (ei_catalyst_key i), ValueError ''catalyst_key'')] i"

definition identity_key :: "hash \<Rightarrow> canonical_event_identity \<Rightarrow> string" where
  "identity_key H i = opaque_id H ''eventkey'' (Dump (canonical (JObj
     [(''marketDate'', JDate (ei_market_date i)),
      (''canonicalThemeId'', JStr (ei_canonical_theme_id i)),
      (''catalystKey'', JStr (ei_catalyst_key i))])))"

definition identity_event_id :: "hash \<Rightarrow> canonical_event_identity \<Rightarrow> string" where
  "identity_event_id H i = opaque_id H ''evt'' (Plain (identity_key H i))"

definition identity_to_dict :: "hash \<Rightarrow> canonical_event_identity \<Rightarrow> json" where
  "identity_to_dict H i = JObj
     [(''marketDate'', JDate (ei_market_date i)),
      (''canonicalThemeId'', JStr (ei_canonical_theme_id i)),
      (''catalystKey'', JStr (ei_catalyst_key i)),
      (''identityKey'', JStr (identity_key H i))]"

record event_versions =
  ev_calculation_version :: string
  ev_ranking_model_version :: string
  ev_membership_version :: string
  ev_baseline_version :: "string option"

definition event_versions_init :: "event_versions \<Rightarrow> event_versions result" where
  "event_versions_init v = validate
     [(\<not> blank (ev_calculation_version v), ValueError ''calculation_version''),
      (\<not> blank (ev_ranking_model_version v), ValueError ''ranking_model_version''),
      (\<not> blank (ev_membership_version v), ValueError ''membership_version''),
      (pred_option (\<lambda>x. \<not> blank x) (ev_baseline_version v), ValueError ''baseline_version'')] v"

definition versions_to_dict :: "event_versions \<Rightarrow> json" where
  "versions_to_dict v = JObj
     [(''calculationVersion'', JStr (ev_calculation_version v)),
      (''rankingModelVersion'', JStr (ev_ranking_model_version v)),
      (''membershipVersion'', JStr (ev_membership_version v)),
      (''baselineVersion'', json_opt JStr (ev_baseline_version v))]"

section \<open>Classification and the Event\<close>

datatype classification_kind = INFOSTOCK_THEME | UNCLASSIFIED_CLUSTER | TEMPORARY_THEME

datatype classification_certainty = PROVISIONAL_CLASS | CONFIRMED

datatype classification_source = LIVE_ENGINE | OPERATOR | INFOSTOCK

fun kind_value :: "classification_kind \<Rightarrow> string" where
  "kind_value INFOSTOCK_THEME = ''INFOSTOCK_THEME''"
| "kind_value UNCLASSIFIED_CLUSTER = ''UNCLASSIFIED_CLUSTER''"
| "kind_value TEMPORARY_THEME = ''TEMPORARY_THEME''"

fun certainty_value :: "classification_certainty \<Rightarrow> string" where
  "certainty_value PROVISIONAL_CLASS = ''PROVISIONAL''"
| "certainty_value CONFIRMED = ''CONFIRMED''"

fun source_value :: "classification_source \<Rightarrow> string" where
  "source_value LIVE_ENGINE = ''LIVE_ENGINE''"
| "source_value OPERATOR = ''OPERATOR''"
| "source_value INFOSTOCK = ''INFOSTOCK''"

record event_classification =
  ec_classification_version :: int
  ec_theme_id :: string
  ec_display_name :: string
  ec_kind :: classification_kind
  ec_certainty :: classification_certainty
  ec_source :: classification_source
  ec_changed_at :: datetime

definition event_classification_init :: "event_classification \<Rightarrow> event_classification result" where
  "event_classification_init c = validate
     [(1 \<le> ec_classification_version c, ValueError ''classification_version''),
      (\<not> blank (ec_theme_id c), ValueError ''theme_id''),
      (\<not> blank (ec_display_name c), ValueError ''display_name''),
      (is_aware (ec_changed_at c), ValueError ''changed_at'')] c"

record canonical_event =
  ce_event_id :: string
  ce_identity_key :: string
  ce_market_date :: date
  ce_canonical_theme_id :: string
  ce_catalyst_key :: string
  ce_lifecycle_status :: lifecycle_status
  ce_reconciliation_status :: reconciliation_status
  ce_state_version :: int
  ce_state_policy_version :: string
  ce_classification :: event_classification
  ce_first_detected_at :: datetime
  ce_changed_at :: datetime
  ce_last_source :: string
  ce_last_source_sequence :: int
  ce_last_received_at :: datetime
  ce_lineage :: "lineage_ref list"
  ce_versions :: event_versions

definition canonical_event_init :: "canonical_event \<Rightarrow> canonical_event result" where
  "canonical_event_init e = validate
     [(\<not> blank (ce_event_id e), ValueError ''event_id''),
      (\<not> blank (ce_identity_key e), ValueError ''identity_key''),
      (\<not> blank (ce_canonical_theme_id e), ValueError ''canonical_theme_id''),
      (\<not> blank (ce_catalyst_key e), ValueError ''catalyst_key''),
      (\<not> blank (ce_state_policy_version e), ValueError ''state_policy_version''),
      (\<not> blank (ce_last_source e), ValueError ''last_source''),
      (1 \<le> ce_state_version e, ValueError ''state_version''),
      (0 \<le> ce_last_source_sequence e, ValueError ''last_source_sequence''),
      (is_aware (ce_first_detected_at e), ValueError ''first_detected_at''),
      (is_aware (ce_changed_at e), ValueError ''changed_at aware''),
      (is_aware (ce_last_received_at e), ValueError ''last_received_at''),
      (instant (ce_first_detected_at e) \<le> instant (ce_changed_at e), ValueError ''changed_at'')] e"

section \<open>Commands\<close>

record create_event_command =
  cc_metadata :: event_input_metadata
  cc_identity :: canonical_event_identity
  cc_display_name :: string
  cc_versions :: event_versions
  cc_classification_kind :: classification_kind
  cc_classification_certainty :: classification_certainty
  cc_classification_source :: classification_source

definition create_event_command_init :: "create_event_command \<Rightarrow> create_event_command result" where
  "create_event_command_init c = validate
     [(\<not> blank (cc_display_name c), ValueError ''display_name'')] c"

definition create_to_dict :: "hash \<Rightarrow> create_event_command \<Rightarrow> json" where
  "create_to_dict H c = JObj
     [(''commandType'', JStr ''CREATE_EVENT''),
      (''schemaVersion'', JStr EVENT_COMMAND_SCHEMA_VERSION),
      (''metadata'', metadata_to_dict (cc_metadata c)),
      (''identity'', identity_to_dict H (cc_identity c)),
      (''displayName'', JStr (cc_display_name c)),
      (''versions'', versions_to_dict (cc_versions c)),
      (''classificationKind'', JStr (kind_value (cc_classification_kind c))),
      (''classificationCertainty'', JStr (certainty_value (cc_classification_certainty c))),
      (''classificationSource'', JStr (source_value (cc_classification_source c)))]"

record transition_lifecycle_command =
  tc_metadata :: event_input_metadata
  tc_event_id :: string
  tc_target :: lifecycle_status
  tc_expected_state_version :: int
  tc_reason :: string
  tc_policy_version :: string

definition transition_lifecycle_command_init ::
  "transition_lifecycle_command \<Rightarrow> transition_lifecycle_command result" where
  "transition_lifecycle_command_init c = validate
     [(\<not> blank (tc_event_id c), ValueError ''event_id''),
      (\<not> blank (tc_reason c), ValueError ''reason''),
      (\<not> blank (tc_policy_version c), ValueError ''policy_version''),
      (1 \<le> tc_expected_state_version c, ValueError ''expected_state_version'')] c"

definition transition_to_dict :: "transition_lifecycle_command \<Rightarrow> json" where
  "transition_to_dict c = JObj
     [(''commandType'', JStr ''TRANSITION_LIFECYCLE''),
      (''schemaVersion'', JStr EVENT_COMMAND_SCHEMA_VERSION),
      (''metadata'', metadata_to_dict (tc_metadata c)),
      (''eventId'', JStr (tc_event_id c)),
      (''target'', JStr (lifecycle_value (tc_target c))),
      (''expectedStateVersion'', JInt (tc_expected_state_version c)),
      (''reason'', JStr (tc_reason c)),
      (''policyVersion'', JStr (tc_policy_version c))]"

record reconcile_event_command =
  rc_metadata :: event_input_metadata
  rc_event_id :: string
  rc_target :: reconciliation_status
  rc_expected_state_version :: int
  rc_reason :: string
  rc_policy_version :: string

definition reconcile_event_command_init ::
  "reconcile_event_command \<Rightarrow> reconcile_event_command result" where
  "reconcile_event_command_init c = validate
     [(\<not> blank (rc_event_id c), ValueError ''event_id''),
      (\<not> blank (rc_reason c), ValueError ''reason''),
      (\<not> blank (rc_policy_version c), ValueError ''policy_version''),
      (rc_target c \<noteq> RECONCILIATION_PENDING, ValueError ''target''),
      (1 \<le> rc_expected_state_version c, ValueError ''expected_state_version'')] c"

definition reconcile_to_dict :: "reconcile_event_command \<Rightarrow> json" where
  "reconcile_to_dict c = JObj
     [(''commandType'', JStr ''RECONCILE_EVENT''),
      (''schemaVersion'', JStr EVENT_COMMAND_SCHEMA_VERSION),
      (''metadata'', metadata_to_dict (rc_metadata c)),
      (''eventId'', JStr (rc_event_id c)),
      (''target'', JStr (reconciliation_value (rc_target c))),
      (''expectedStateVersion'', JInt (rc_expected_state_version c)),
      (''reason'', JStr (rc_reason c)),
      (''policyVersion'', JStr (rc_policy_version c))]"

datatype event_command =
    CreateEventCommand create_event_command
  | TransitionLifecycleCommand transition_lifecycle_command
  | ReconcileEventCommand reconcile_event_command

fun command_metadata :: "event_command \<Rightarrow> event_input_metadata" where
  "command_metadata (CreateEventCommand c) = cc_metadata c"
| "command_metadata (TransitionLifecycleCommand c) = tc_metadata c"
| "command_metadata (ReconcileEventCommand c) = rc_metadata c"

fun command_to_dict :: "hash \<Rightarrow> event_command \<Rightarrow> json" where
  "command_to_dict H (CreateEventCommand c) = create_to_dict H c"
| "command_to_dict H (TransitionLifecycleCommand c) = transition_to_dict c"
| "command_to_dict H (ReconcileEventCommand c) = reconcile_to_dict c"

definition command_fingerprint :: "hash \<Rightarrow> event_command \<Rightarrow> string" where
  "command_fingerprint H c = json_hash H (command_to_dict H c)"

section \<open>Results, receipts and state logs\<close>

datatype event_write_disposition =
    APPLIED | DUPLICATE_IDENTITY | ALREADY_IN_STATE | STALE_SOURCE_SEQUENCE | STALE_STATE_VERSION
  | STALE_OCCURRED_AT

record event_write_result =
  er_event :: canonical_event
  er_disposition :: event_write_disposition
  er_outbox_message_id :: "string option"

record command_receipt =
  cr_message_id :: string
  cr_command_fingerprint :: string
  cr_event_id :: string
  cr_source :: string
  cr_source_sequence :: int
  cr_received_at :: datetime
  cr_result :: event_write_result

text \<open>A status on one of the two axes a state log records.\<close>

datatype axis_status = Lifecycle lifecycle_status | Reconciliation reconciliation_status

record event_state_log =
  sl_event_id :: string
  sl_state_version :: int
  sl_from_status :: "axis_status option"
  sl_to_status :: axis_status
  sl_policy_version :: string
  sl_reason :: string
  sl_occurred_at :: datetime
  sl_received_at :: datetime
  sl_source :: string
  sl_source_sequence :: int
  sl_command_message_id :: string
  sl_lineage :: "lineage_ref list"
  sl_axis :: state_axis

definition outbox_message_id :: "hash \<Rightarrow> string \<Rightarrow> string \<Rightarrow> string" where
  "outbox_message_id H command_message_id event_type =
     opaque_id H ''msg'' (Plain (command_message_id @ '':'' @ event_type))"

end
