(* ===== verification/Event_Store.thy ===== *)
theory Event_Store
  imports Event_Models
begin

text \<open>
  \<open>packages/events/outbox.py\<close> (messages and records), \<open>store.py\<close> and \<open>memory.py\<close>: the transactional
  in-memory store of Events, identities, receipts, source sequences, state logs and outbox, the
  primitives a transaction offers, the rollback of a transaction, and the delivery side of the
  outbox.
\<close>

section \<open>Outbox messages and records\<close>

datatype outbox_status = OUTBOX_PENDING | CLAIMED | PUBLISHED

record outbox_message =
  om_message_id :: string
  om_event_type :: string
  om_event_version :: string
  om_aggregate_id :: string
  om_occurred_at :: datetime
  om_received_at :: datetime
  om_producer :: string
  om_correlation_id :: string
  om_causation_id :: "string option"
  om_payload :: json

definition outbox_message_init :: "outbox_message \<Rightarrow> outbox_message result" where
  "outbox_message_init m = validate
     [(\<not> blank (om_message_id m), ValueError ''message_id''),
      (\<not> blank (om_event_type m), ValueError ''event_type''),
      (\<not> blank (om_event_version m), ValueError ''event_version''),
      (\<not> blank (om_aggregate_id m), ValueError ''aggregate_id''),
      (\<not> blank (om_producer m), ValueError ''producer''),
      (\<not> blank (om_correlation_id m), ValueError ''correlation_id''),
      (pred_option (\<lambda>v. \<not> blank v) (om_causation_id m), ValueError ''causation_id''),
      (is_aware (om_occurred_at m), ValueError ''occurred_at aware''),
      (is_aware (om_received_at m), ValueError ''received_at aware''),
      (instant (om_occurred_at m) \<le> instant (om_received_at m), ValueError ''occurred_at''),
      (case om_payload m of JObj _ \<Rightarrow> True | _ \<Rightarrow> False, TypeError ''payload'')]
     (m\<lparr>om_payload := canonical (om_payload m)\<rparr>)"

record outbox_record =
  or_message :: outbox_message
  or_status :: outbox_status
  or_attempts :: int
  or_available_at :: datetime
  or_claimed_until :: "datetime option"
  or_published_at :: "datetime option"
  or_last_error :: "string option"

definition outbox_record_init :: "outbox_record \<Rightarrow> outbox_record result" where
  "outbox_record_init r = validate
     [(0 \<le> or_attempts r, ValueError ''attempts''),
      (is_aware (or_available_at r), ValueError ''available_at''),
      (pred_option is_aware (or_claimed_until r), ValueError ''claimed_until''),
      (pred_option is_aware (or_published_at r), ValueError ''published_at'')] r"

section \<open>The store\<close>

record event_store =
  es_events :: "(string, canonical_event) dict"
  es_identities :: "(string, string) dict"
  es_receipts :: "(string, command_receipt) dict"
  es_source_sequences :: "(string \<times> string, int) dict"
  es_state_logs :: "event_state_log list"
  es_outbox :: "(string, outbox_record) dict"
  es_fail_next_commit :: bool

definition empty_store :: event_store where
  "empty_store = \<lparr>es_events = [], es_identities = [], es_receipts = [], es_source_sequences = [],
     es_state_logs = [], es_outbox = [], es_fail_next_commit = False\<rparr>"

definition fail_next_commit :: "event_store \<Rightarrow> event_store" where
  "fail_next_commit s = s\<lparr>es_fail_next_commit := True\<rparr>"

text \<open>
  A transaction works on the store; an exception of its body, or of the commit, puts the backup of
  everything but the failpoint back.
\<close>

definition transaction ::
  "(event_store \<Rightarrow> (event_store \<times> 'a) result) \<Rightarrow> event_store \<Rightarrow> event_store \<times> 'a result" where
  "transaction body s =
     (case body s of
        Inl e \<Rightarrow> (s, Inl e)
      | Inr (s', r) \<Rightarrow>
          if es_fail_next_commit s' then (s\<lparr>es_fail_next_commit := False\<rparr>, Inl SimulatedCommitFailure)
          else (s', Inr r))"

definition get_event_by_identity :: "event_store \<Rightarrow> string \<Rightarrow> canonical_event option result" where
  "get_event_by_identity s key =
     (case dget (es_identities s) key of
        None \<Rightarrow> Inr None
      | Some event_id \<Rightarrow>
          (case dget (es_events s) event_id of
             None \<Rightarrow> Inl (KeyError ''event_id'')
           | Some e \<Rightarrow> Inr (Some e)))"

definition latest_source_sequence :: "event_store \<Rightarrow> string \<Rightarrow> string \<Rightarrow> int option" where
  "latest_source_sequence s event_id source = dget (es_source_sequences s) (event_id, source)"

definition insert_event :: "canonical_event \<Rightarrow> event_store \<Rightarrow> event_store result" where
  "insert_event e s =
     (if dget (es_events s) (ce_event_id e) \<noteq> None then Inl EventIdentityConflictError
      else if dget (es_identities s) (ce_identity_key e) \<noteq> None then Inl EventIdentityConflictError
      else Inr (s\<lparr>es_events := dset (ce_event_id e) e (es_events s),
                  es_identities := dset (ce_identity_key e) (ce_event_id e) (es_identities s)\<rparr>))"

definition update_event :: "canonical_event \<Rightarrow> int \<Rightarrow> event_store \<Rightarrow> event_store result" where
  "update_event e expected_state_version s =
     (if (case dget (es_events s) (ce_event_id e) of
            None \<Rightarrow> True | Some current \<Rightarrow> ce_state_version current \<noteq> expected_state_version)
      then Inl ConcurrentEventWriteError
      else if ce_state_version e \<noteq> expected_state_version + 1 then Inl ConcurrentEventWriteError
      else Inr (s\<lparr>es_events := dset (ce_event_id e) e (es_events s)\<rparr>))"

definition append_state_log :: "event_state_log \<Rightarrow> event_store \<Rightarrow> event_store result" where
  "append_state_log l s =
     (if \<exists>item\<in>set (es_state_logs s). sl_event_id item = sl_event_id l
           \<and> sl_state_version item = sl_state_version l
      then Inl ConcurrentEventWriteError
      else Inr (s\<lparr>es_state_logs := es_state_logs s @ [l]\<rparr>))"

definition save_receipt :: "command_receipt \<Rightarrow> event_store \<Rightarrow> event_store result" where
  "save_receipt r s =
     (case dget (es_receipts s) (cr_message_id r) of
        Some existing \<Rightarrow>
          if cr_command_fingerprint existing \<noteq> cr_command_fingerprint r
          then Inl IdempotencyConflictError else Inr s
      | None \<Rightarrow>
          let key = (cr_event_id r, cr_source r);
              s1 = s\<lparr>es_receipts := dset (cr_message_id r) r (es_receipts s)\<rparr>
          in if (case dget (es_source_sequences s) key of
                   None \<Rightarrow> True | Some previous \<Rightarrow> previous < cr_source_sequence r)
             then Inr (s1\<lparr>es_source_sequences := dset key (cr_source_sequence r) (es_source_sequences s)\<rparr>)
             else Inr s1)"

definition enqueue_outbox :: "outbox_message \<Rightarrow> event_store \<Rightarrow> event_store result" where
  "enqueue_outbox m s =
     (case dget (es_outbox s) (om_message_id m) of
        Some existing \<Rightarrow> if or_message existing \<noteq> m then Inl IdempotencyConflictError else Inr s
      | None \<Rightarrow>
          bind_result (outbox_record_init
              \<lparr>or_message = m, or_status = OUTBOX_PENDING, or_attempts = 0,
               or_available_at = om_received_at m, or_claimed_until = None,
               or_published_at = None, or_last_error = None\<rparr>)
            (\<lambda>r. Inr (s\<lparr>es_outbox := dset (om_message_id m) r (es_outbox s)\<rparr>)))"

section \<open>Reading\<close>

definition read_outbox :: "event_store \<Rightarrow> string \<Rightarrow> outbox_message option" where
  "read_outbox s message_id = map_option or_message (dget (es_outbox s) message_id)"

definition state_logs :: "event_store \<Rightarrow> string option \<Rightarrow> event_state_log list" where
  "state_logs s event_id =
     filter (\<lambda>l. case event_id of None \<Rightarrow> True | Some i \<Rightarrow> sl_event_id l = i) (es_state_logs s)"

definition outbox_records :: "event_store \<Rightarrow> outbox_record list" where
  "outbox_records s = sorted_values (es_outbox s)"

section \<open>Delivery\<close>

definition claimable :: "datetime \<Rightarrow> outbox_record \<Rightarrow> bool" where
  "claimable now r \<longleftrightarrow>
     or_status r \<noteq> PUBLISHED \<and> instant (or_available_at r) \<le> instant now
     \<and> (or_status r = OUTBOX_PENDING
        \<or> (case or_claimed_until r of None \<Rightarrow> True | Some t \<Rightarrow> instant t \<le> instant now))"

definition claim_record :: "datetime \<Rightarrow> timedelta \<Rightarrow> outbox_record \<Rightarrow> outbox_record" where
  "claim_record now lease r = r\<lparr>or_status := CLAIMED, or_attempts := or_attempts r + 1,
     or_claimed_until := Some (shift now lease), or_last_error := None\<rparr>"

definition claim_pending ::
  "event_store \<Rightarrow> datetime \<Rightarrow> int \<Rightarrow> timedelta \<Rightarrow> event_store \<times> outbox_record list result" where
  "claim_pending s now limit lease =
     (if limit < 1 then (s, Inl (ValueError ''limit''))
      else let eligible = sort_key (\<lambda>r. (instant (or_available_at r), om_message_id (or_message r)))
                 (filter (claimable now) (map snd (es_outbox s)));
               claimed = map (claim_record now lease) (take (nat limit) eligible)
           in (s\<lparr>es_outbox := foldl (\<lambda>d r. dset (om_message_id (or_message r)) r d) (es_outbox s) claimed\<rparr>,
               Inr claimed))"

definition mark_published :: "event_store \<Rightarrow> string \<Rightarrow> datetime \<Rightarrow> event_store \<times> unit result" where
  "mark_published s message_id published_at =
     (case dget (es_outbox s) message_id of
        None \<Rightarrow> (s, Inl (KeyError message_id))
      | Some r \<Rightarrow>
          if or_status r = PUBLISHED then (s, Inr ())
          else (s\<lparr>es_outbox := dset message_id
                  (r\<lparr>or_status := PUBLISHED, or_claimed_until := None,
                     or_published_at := Some published_at, or_last_error := None\<rparr>) (es_outbox s)\<rparr>,
                Inr ()))"

definition release_after_failure ::
  "event_store \<Rightarrow> string \<Rightarrow> datetime \<Rightarrow> string \<Rightarrow> event_store \<times> unit result" where
  "release_after_failure s message_id retry_at err =
     (case dget (es_outbox s) message_id of
        None \<Rightarrow> (s, Inl (KeyError message_id))
      | Some r \<Rightarrow>
          if or_status r = PUBLISHED then (s, Inr ())
          else (s\<lparr>es_outbox := dset message_id
                  (r\<lparr>or_status := OUTBOX_PENDING, or_available_at := retry_at,
                     or_claimed_until := None, or_last_error := Some err\<rparr>) (es_outbox s)\<rparr>,
                Inr ()))"

end
