(* ===== verification/Event_Writer.thy ===== *)
theory Event_Writer
  imports Event_Store
begin

text \<open>
  \<open>packages/events/writer.py\<close>: the only component that creates or changes Events.  Each command runs
  in a transaction that stores the Event, its state log, its outbox message and the receipt
  together.  Shown here: an Event is always the replay of its state logs; a redelivered command
  returns the first result and changes nothing; a command that raises leaves the store as it was;
  every state log has its outbox message; and per source the accepted sequence only grows.
  The two reasons the writer words itself are ASCII tags.
\<close>

section \<open>The writer\<close>

definition event_message ::
  "hash \<Rightarrow> canonical_event \<Rightarrow> event_input_metadata \<Rightarrow> string \<Rightarrow> json \<Rightarrow> outbox_message result" where
  "event_message H event metadata event_type payload = outbox_message_init
     \<lparr>om_message_id = outbox_message_id H (em_message_id metadata) event_type,
      om_event_type = event_type, om_event_version = EVENT_DOMAIN_EVENT_VERSION,
      om_aggregate_id = ce_event_id event, om_occurred_at = em_occurred_at metadata,
      om_received_at = em_received_at metadata, om_producer = EVENT_PRODUCER,
      om_correlation_id = em_correlation_id metadata, om_causation_id = em_causation_id metadata,
      om_payload = payload\<rparr>"

definition state_log ::
  "canonical_event \<Rightarrow> event_input_metadata \<Rightarrow> axis_status option \<Rightarrow> axis_status \<Rightarrow> string \<Rightarrow> string
    \<Rightarrow> state_axis \<Rightarrow> event_state_log" where
  "state_log event metadata from_status to_status policy_version reason axis =
     \<lparr>sl_event_id = ce_event_id event, sl_state_version = ce_state_version event,
      sl_from_status = from_status, sl_to_status = to_status, sl_policy_version = policy_version,
      sl_reason = reason, sl_occurred_at = em_occurred_at metadata,
      sl_received_at = em_received_at metadata, sl_source = em_source metadata,
      sl_source_sequence = em_source_sequence metadata,
      sl_command_message_id = em_message_id metadata, sl_lineage = em_lineage metadata,
      sl_axis = axis\<rparr>"

definition created_event :: "hash \<Rightarrow> create_event_command \<Rightarrow> event_classification \<Rightarrow> canonical_event" where
  "created_event H command classification =
     (let metadata = cc_metadata command; identity = cc_identity command
      in \<lparr>ce_event_id = identity_event_id H identity, ce_identity_key = identity_key H identity,
          ce_market_date = ei_market_date identity,
          ce_canonical_theme_id = ei_canonical_theme_id identity,
          ce_catalyst_key = ei_catalyst_key identity, ce_lifecycle_status = CANDIDATE,
          ce_reconciliation_status = RECONCILIATION_PENDING, ce_state_version = 1,
          ce_state_policy_version = ev_ranking_model_version (cc_versions command),
          ce_classification = classification, ce_first_detected_at = em_occurred_at metadata,
          ce_changed_at = em_occurred_at metadata, ce_last_source = em_source metadata,
          ce_last_source_sequence = em_source_sequence metadata,
          ce_last_received_at = em_received_at metadata, ce_lineage = em_lineage metadata,
          ce_versions = cc_versions command\<rparr>)"

definition created_classification :: "create_event_command \<Rightarrow> event_classification" where
  "created_classification command =
     \<lparr>ec_classification_version = 1, ec_theme_id = ei_canonical_theme_id (cc_identity command),
      ec_display_name = cc_display_name command, ec_kind = cc_classification_kind command,
      ec_certainty = cc_classification_certainty command,
      ec_source = cc_classification_source command,
      ec_changed_at = em_occurred_at (cc_metadata command)\<rparr>"

text \<open>Store the log and the message, and answer that the command was applied.\<close>

definition commit_event ::
  "hash \<Rightarrow> canonical_event \<Rightarrow> event_input_metadata \<Rightarrow> event_state_log \<Rightarrow> string \<Rightarrow> json
    \<Rightarrow> event_store \<Rightarrow> (event_store \<times> event_write_result) result" where
  "commit_event H event metadata l event_type payload s =
     bind_result (append_state_log l s) (\<lambda>s1.
     bind_result (event_message H event metadata event_type payload) (\<lambda>message.
     bind_result (enqueue_outbox message s1) (\<lambda>s2.
       Inr (s2, \<lparr>er_event = event, er_disposition = APPLIED,
                 er_outbox_message_id = Some (om_message_id message)\<rparr>))))"

definition skipped_result ::
  "event_store \<Rightarrow> canonical_event \<Rightarrow> event_write_disposition \<Rightarrow> (event_store \<times> event_write_result) result" where
  "skipped_result s event disposition =
     Inr (s, \<lparr>er_event = event, er_disposition = disposition, er_outbox_message_id = None\<rparr>)"

definition create_event ::
  "hash \<Rightarrow> create_event_command \<Rightarrow> event_store \<Rightarrow> (event_store \<times> event_write_result) result" where
  "create_event H command s =
     bind_result (get_event_by_identity s (identity_key H (cc_identity command))) (\<lambda>existing.
       case existing of
         Some event \<Rightarrow> skipped_result s event DUPLICATE_IDENTITY
       | None \<Rightarrow>
           bind_result (event_classification_init (created_classification command)) (\<lambda>classification.
           bind_result (canonical_event_init (created_event H command classification)) (\<lambda>event.
           bind_result (insert_event event s) (\<lambda>s1.
             commit_event H event (cc_metadata command)
               (state_log event (cc_metadata command) None (Lifecycle CANDIDATE)
                  (ce_state_policy_version event) ''first detected'' LIFECYCLE)
               ''canonical_event.created''
               (JObj [(''eventId'', JStr (ce_event_id event)),
                      (''lifecycleStatus'', JStr (lifecycle_value (ce_lifecycle_status event))),
                      (''stateVersion'', JInt (ce_state_version event)),
                      (''classificationVersion'',
                        JInt (ec_classification_version (ce_classification event))),
                      (''versions'', versions_to_dict (ce_versions event))])
               s1))))"

text \<open>The checks a change of an existing Event goes through, in the order of the code.\<close>

definition stale_change ::
  "event_store \<Rightarrow> canonical_event \<Rightarrow> event_input_metadata \<Rightarrow> int \<Rightarrow> bool
    \<Rightarrow> event_write_disposition option result" where
  "stale_change s event metadata expected_state_version already =
     (if (case latest_source_sequence s (ce_event_id event) (em_source metadata) of
            None \<Rightarrow> False | Some latest \<Rightarrow> em_source_sequence metadata \<le> latest)
      then Inr (Some STALE_SOURCE_SEQUENCE)
      else if expected_state_version < ce_state_version event then Inr (Some STALE_STATE_VERSION)
      else if ce_state_version event < expected_state_version then Inl ConcurrentEventWriteError
      else if instant (em_occurred_at metadata) < instant (ce_changed_at event)
      then Inr (Some STALE_OCCURRED_AT)
      else if already then Inr (Some ALREADY_IN_STATE)
      else Inr None)"

definition touched :: "canonical_event \<Rightarrow> event_input_metadata \<Rightarrow> string \<Rightarrow> canonical_event" where
  "touched event metadata policy_version = event
     \<lparr>ce_state_version := ce_state_version event + 1, ce_state_policy_version := policy_version,
      ce_changed_at := em_occurred_at metadata, ce_last_source := em_source metadata,
      ce_last_source_sequence := em_source_sequence metadata,
      ce_last_received_at := em_received_at metadata, ce_lineage := em_lineage metadata\<rparr>"

definition transition_event ::
  "hash \<Rightarrow> transition_lifecycle_command \<Rightarrow> event_store \<Rightarrow> (event_store \<times> event_write_result) result" where
  "transition_event H command s =
     (case dget (es_events s) (tc_event_id command) of
        None \<Rightarrow> Inl EventNotFoundError
      | Some event \<Rightarrow>
          bind_result (stale_change s event (tc_metadata command) (tc_expected_state_version command)
              (tc_target command = ce_lifecycle_status event)) (\<lambda>stale.
            case stale of
              Some disposition \<Rightarrow> skipped_result s event disposition
            | None \<Rightarrow>
                bind_result (transition_lifecycle (ce_lifecycle_status event) (tc_target command)
                    (tc_policy_version command)) (\<lambda>_.
                bind_result (canonical_event_init
                    ((touched event (tc_metadata command) (tc_policy_version command))
                       \<lparr>ce_lifecycle_status := tc_target command\<rparr>)) (\<lambda>updated.
                bind_result (update_event updated (ce_state_version event) s) (\<lambda>s1.
                  commit_event H updated (tc_metadata command)
                    (state_log updated (tc_metadata command)
                       (Some (Lifecycle (ce_lifecycle_status event)))
                       (Lifecycle (ce_lifecycle_status updated)) (tc_policy_version command)
                       (tc_reason command) LIFECYCLE)
                    ''canonical_event.lifecycle_changed''
                    (JObj [(''eventId'', JStr (ce_event_id updated)),
                           (''fromLifecycleStatus'', JStr (lifecycle_value (ce_lifecycle_status event))),
                           (''lifecycleStatus'', JStr (lifecycle_value (ce_lifecycle_status updated))),
                           (''stateVersion'', JInt (ce_state_version updated)),
                           (''policyVersion'', JStr (tc_policy_version command)),
                           (''reason'', JStr (tc_reason command))])
                    s1)))))"

definition reconciled_classification ::
  "reconciliation_status \<Rightarrow> event_input_metadata \<Rightarrow> event_classification \<Rightarrow> event_classification result" where
  "reconciled_classification target metadata c =
     (if target = MATCHED
      then event_classification_init (c\<lparr>ec_classification_version := ec_classification_version c + 1,
             ec_certainty := CONFIRMED, ec_source := INFOSTOCK,
             ec_changed_at := em_occurred_at metadata\<rparr>)
      else Inr c)"

definition reconcile_event ::
  "hash \<Rightarrow> reconcile_event_command \<Rightarrow> event_store \<Rightarrow> (event_store \<times> event_write_result) result" where
  "reconcile_event H command s =
     (case dget (es_events s) (rc_event_id command) of
        None \<Rightarrow> Inl EventNotFoundError
      | Some event \<Rightarrow>
          bind_result (stale_change s event (rc_metadata command) (rc_expected_state_version command)
              (rc_target command = ce_reconciliation_status event)) (\<lambda>stale.
            case stale of
              Some disposition \<Rightarrow> skipped_result s event disposition
            | None \<Rightarrow>
                bind_result (transition_reconciliation (ce_reconciliation_status event)
                    (rc_target command) (rc_policy_version command)) (\<lambda>_.
                bind_result (reconciled_classification (rc_target command) (rc_metadata command)
                    (ce_classification event)) (\<lambda>classification.
                bind_result (canonical_event_init
                    ((touched event (rc_metadata command) (rc_policy_version command))
                       \<lparr>ce_reconciliation_status := rc_target command,
                        ce_classification := classification\<rparr>)) (\<lambda>updated.
                bind_result (update_event updated (ce_state_version event) s) (\<lambda>s1.
                  commit_event H updated (rc_metadata command)
                    (state_log updated (rc_metadata command)
                       (Some (Reconciliation (ce_reconciliation_status event)))
                       (Reconciliation (rc_target command)) (rc_policy_version command)
                       (rc_reason command) RECONCILIATION)
                    ''canonical_event.reconciled''
                    (JObj [(''eventId'', JStr (ce_event_id updated)),
                           (''fromReconciliationStatus'',
                             JStr (reconciliation_value (ce_reconciliation_status event))),
                           (''reconciliationStatus'',
                             JStr (reconciliation_value (ce_reconciliation_status updated))),
                           (''stateVersion'', JInt (ce_state_version updated)),
                           (''classificationVersion'',
                             JInt (ec_classification_version (ce_classification updated))),
                           (''policyVersion'', JStr (rc_policy_version command)),
                           (''reason'', JStr (rc_reason command))])
                    s1))))))"

fun dispatch :: "hash \<Rightarrow> event_command \<Rightarrow> event_store \<Rightarrow> (event_store \<times> event_write_result) result" where
  "dispatch H (CreateEventCommand c) s = create_event H c s"
| "dispatch H (TransitionLifecycleCommand c) s = transition_event H c s"
| "dispatch H (ReconcileEventCommand c) s = reconcile_event H c s"

definition receipt_of :: "hash \<Rightarrow> event_command \<Rightarrow> event_write_result \<Rightarrow> command_receipt" where
  "receipt_of H command r =
     (let metadata = command_metadata command
      in \<lparr>cr_message_id = em_message_id metadata, cr_command_fingerprint = command_fingerprint H command,
          cr_event_id = ce_event_id (er_event r), cr_source = em_source metadata,
          cr_source_sequence = em_source_sequence metadata,
          cr_received_at = em_received_at metadata, cr_result = r\<rparr>)"

definition write_body ::
  "hash \<Rightarrow> event_command \<Rightarrow> event_store \<Rightarrow> (event_store \<times> event_write_result) result" where
  "write_body H command s =
     (case dget (es_receipts s) (em_message_id (command_metadata command)) of
        Some receipt \<Rightarrow>
          if cr_command_fingerprint receipt \<noteq> command_fingerprint H command
          then Inl IdempotencyConflictError
          else Inr (s, cr_result receipt)
      | None \<Rightarrow>
          bind_result (dispatch H command s) (\<lambda>(s1, r).
          bind_result (save_receipt (receipt_of H command r) s1) (\<lambda>s2. Inr (s2, r))))"

definition write_event :: "hash \<Rightarrow> event_store \<Rightarrow> event_command \<Rightarrow> event_store \<times> event_write_result result" where
  "write_event H s command = transaction (write_body H command) s"

section \<open>Replaying the state logs\<close>

text \<open>The part of an Event its state logs determine, and the fold that determines it.\<close>

record replayed =
  rp_lifecycle :: lifecycle_status
  rp_reconciliation :: reconciliation_status
  rp_version :: int

definition status_of :: "canonical_event \<Rightarrow> replayed" where
  "status_of e = \<lparr>rp_lifecycle = ce_lifecycle_status e,
     rp_reconciliation = ce_reconciliation_status e, rp_version = ce_state_version e\<rparr>"

definition replay_start :: "event_state_log \<Rightarrow> replayed option" where
  "replay_start l =
     (if sl_axis l = LIFECYCLE \<and> sl_from_status l = None \<and> sl_to_status l = Lifecycle CANDIDATE
         \<and> sl_state_version l = 1
      then Some \<lparr>rp_lifecycle = CANDIDATE, rp_reconciliation = RECONCILIATION_PENDING, rp_version = 1\<rparr>
      else None)"

definition replay_log :: "replayed \<Rightarrow> event_state_log \<Rightarrow> replayed option" where
  "replay_log r l =
     (if sl_state_version l \<noteq> rp_version r + 1 then None
      else case (sl_axis l, sl_from_status l, sl_to_status l) of
          (LIFECYCLE, Some (Lifecycle a), Lifecycle b) \<Rightarrow>
            if a = rp_lifecycle r \<and> b \<in> set (lifecycle_targets a)
            then Some (r\<lparr>rp_lifecycle := b, rp_version := sl_state_version l\<rparr>) else None
        | (RECONCILIATION, Some (Reconciliation a), Reconciliation b) \<Rightarrow>
            if a = rp_reconciliation r \<and> b \<in> set (reconciliation_targets a)
            then Some (r\<lparr>rp_reconciliation := b, rp_version := sl_state_version l\<rparr>) else None
        | _ \<Rightarrow> None)"

fun replay :: "event_state_log list \<Rightarrow> replayed option" where
  "replay [] = None"
| "replay (l # ls) = foldl (\<lambda>r l. Option.bind r (\<lambda>r. replay_log r l)) (replay_start l) ls"

lemma replay_snoc: "ls \<noteq> [] \<Longrightarrow> replay (ls @ [l]) = Option.bind (replay ls) (\<lambda>r. replay_log r l)"
  by (cases ls) simp_all

lemma replay_Some_ne: "replay ls = Some r \<Longrightarrow> ls \<noteq> []"
  by auto

section \<open>What a command changes\<close>

definition messages :: "(string, outbox_record) dict \<Rightarrow> string \<Rightarrow> outbox_message option" where
  "messages ob k = map_option or_message (dget ob k)"

lemma enqueue_outbox_Inr:
  assumes "enqueue_outbox m s = Inr s'"
  shows "\<exists>ob. s' = s\<lparr>es_outbox := ob\<rparr> \<and> messages ob = (messages (es_outbox s))(om_message_id m \<mapsto> m)
    \<and> (\<forall>x. messages (es_outbox s) (om_message_id m) = Some x \<longrightarrow> x = m)
    \<and> (distinct (dkeys (es_outbox s)) \<longrightarrow> distinct (dkeys ob))"
proof (cases "dget (es_outbox s) (om_message_id m)")
  case None
  let ?r = "\<lparr>or_message = m, or_status = OUTBOX_PENDING, or_attempts = 0,
    or_available_at = om_received_at m, or_claimed_until = None, or_published_at = None,
    or_last_error = None\<rparr>"
  from None assms have "s' = s\<lparr>es_outbox := dset (om_message_id m) ?r (es_outbox s)\<rparr>"
    unfolding enqueue_outbox_def outbox_record_init_def
    by (auto simp: bind_result_Inr_iff simp del: validate.simps simp: validate_Inr_iff)
  then show ?thesis
    by (intro exI [of _ "dset (om_message_id m) ?r (es_outbox s)"]) (use None in \<open>auto simp: messages_def fun_eq_iff\<close>)
next
  case (Some r)
  with assms have "or_message r = m" "s' = s" by (auto simp: enqueue_outbox_def split: if_splits)
  with Some show ?thesis
    by (intro exI [of _ "es_outbox s"]) (auto simp: messages_def)
qed

text \<open>The step of a command that was applied: the Event, its log and its message.\<close>

definition applied ::
  "hash \<Rightarrow> event_input_metadata \<Rightarrow> event_store \<Rightarrow> event_store \<Rightarrow> event_write_result \<Rightarrow> bool" where
  "applied H md s s' r \<longleftrightarrow> (\<exists>event l m ob ids event_type.
     r = \<lparr>er_event = event, er_disposition = APPLIED, er_outbox_message_id = Some (om_message_id m)\<rparr>
     \<and> s' = s\<lparr>es_events := dset (ce_event_id event) event (es_events s), es_identities := ids,
              es_state_logs := es_state_logs s @ [l], es_outbox := ob\<rparr>
     \<and> messages ob = (messages (es_outbox s))(om_message_id m \<mapsto> m)
     \<and> (\<forall>x. messages (es_outbox s) (om_message_id m) = Some x \<longrightarrow> x = m)
     \<and> (distinct (dkeys (es_outbox s)) \<longrightarrow> distinct (dkeys ob))
     \<and> om_message_id m = outbox_message_id H (em_message_id md) event_type
     \<and> om_aggregate_id m = ce_event_id event
     \<and> sl_event_id l = ce_event_id event \<and> sl_command_message_id l = em_message_id md
     \<and> canonical_event_init event = Inr event
     \<and> (dget (es_events s) (ce_event_id event) = None
          \<and> dget (es_identities s) (ce_identity_key event) = None
          \<and> ids = dset (ce_identity_key event) (ce_event_id event) (es_identities s)
          \<and> replay_start l = Some (status_of event)
        \<or> (\<exists>old. dget (es_events s) (ce_event_id event) = Some old
             \<and> ce_identity_key old = ce_identity_key event \<and> ids = es_identities s
             \<and> replay_log (status_of old) l = Some (status_of event)
             \<and> (\<forall>n. latest_source_sequence s (ce_event_id event) (em_source md) = Some n \<longrightarrow>
                  n < em_source_sequence md)
             \<and> instant (ce_changed_at old) \<le> instant (ce_changed_at event))))"

lemma canonical_event_init_Inr: "canonical_event_init e = Inr e' \<Longrightarrow> e' = e \<and> canonical_event_init e = Inr e"
  unfolding canonical_event_init_def validate_Inr_iff by simp

lemma event_classification_init_Inr: "event_classification_init c = Inr c' \<Longrightarrow> c' = c"
  unfolding event_classification_init_def validate_Inr_iff by simp

lemma event_message_Inr:
  "event_message H event md t payload = Inr m \<Longrightarrow>
   om_message_id m = outbox_message_id H (em_message_id md) t \<and> om_aggregate_id m = ce_event_id event"
  unfolding event_message_def outbox_message_init_def validate_Inr_iff by simp

lemma commit_event_Inr:
  assumes "commit_event H event md l t payload s = Inr (s', r)"
  shows "\<exists>m ob. s' = s\<lparr>es_state_logs := es_state_logs s @ [l], es_outbox := ob\<rparr>
    \<and> r = \<lparr>er_event = event, er_disposition = APPLIED, er_outbox_message_id = Some (om_message_id m)\<rparr>
    \<and> om_message_id m = outbox_message_id H (em_message_id md) t \<and> om_aggregate_id m = ce_event_id event
    \<and> messages ob = (messages (es_outbox s))(om_message_id m \<mapsto> m)
    \<and> (\<forall>x. messages (es_outbox s) (om_message_id m) = Some x \<longrightarrow> x = m)
    \<and> (distinct (dkeys (es_outbox s)) \<longrightarrow> distinct (dkeys ob))"
proof -
  from assms obtain s1 m s2 where s1: "append_state_log l s = Inr s1"
      and m: "event_message H event md t payload = Inr m" and s2: "enqueue_outbox m s1 = Inr s2"
      and r: "s' = s2" "r = \<lparr>er_event = event, er_disposition = APPLIED,
        er_outbox_message_id = Some (om_message_id m)\<rparr>"
    by (auto simp: commit_event_def bind_result_Inr_iff)
  from s1 have "s1 = s\<lparr>es_state_logs := es_state_logs s @ [l]\<rparr>"
    by (auto simp: append_state_log_def split: if_splits)
  with enqueue_outbox_Inr [OF s2] obtain ob where
      "s2 = s\<lparr>es_state_logs := es_state_logs s @ [l], es_outbox := ob\<rparr>"
      "messages ob = (messages (es_outbox s))(om_message_id m \<mapsto> m)"
      "\<forall>x. messages (es_outbox s) (om_message_id m) = Some x \<longrightarrow> x = m"
      "distinct (dkeys (es_outbox s)) \<longrightarrow> distinct (dkeys ob)" by auto
  with event_message_Inr [OF m] r show ?thesis by (intro exI [of _ m] exI [of _ ob]) simp
qed

lemma appliedI:
  assumes "commit_event H event md l t payload s1 = Inr (s', r)"
    and "s1 = s\<lparr>es_events := dset (ce_event_id event) event (es_events s), es_identities := ids\<rparr>"
    and "sl_event_id l = ce_event_id event" "sl_command_message_id l = em_message_id md"
    and "canonical_event_init event = Inr event"
    and "dget (es_events s) (ce_event_id event) = None
          \<and> dget (es_identities s) (ce_identity_key event) = None
          \<and> ids = dset (ce_identity_key event) (ce_event_id event) (es_identities s)
          \<and> replay_start l = Some (status_of event)
        \<or> (\<exists>old. dget (es_events s) (ce_event_id event) = Some old
             \<and> ce_identity_key old = ce_identity_key event \<and> ids = es_identities s
             \<and> replay_log (status_of old) l = Some (status_of event)
             \<and> (\<forall>n. latest_source_sequence s (ce_event_id event) (em_source md) = Some n \<longrightarrow>
                  n < em_source_sequence md)
             \<and> instant (ce_changed_at old) \<le> instant (ce_changed_at event))"
  shows "applied H md s s' r"
proof -
  from commit_event_Inr [OF assms(1)] obtain m ob where
      "s' = s1\<lparr>es_state_logs := es_state_logs s1 @ [l], es_outbox := ob\<rparr>"
      "r = \<lparr>er_event = event, er_disposition = APPLIED, er_outbox_message_id = Some (om_message_id m)\<rparr>"
      "om_message_id m = outbox_message_id H (em_message_id md) t" "om_aggregate_id m = ce_event_id event"
      "messages ob = (messages (es_outbox s1))(om_message_id m \<mapsto> m)"
      "\<forall>x. messages (es_outbox s1) (om_message_id m) = Some x \<longrightarrow> x = m"
      "distinct (dkeys (es_outbox s1)) \<longrightarrow> distinct (dkeys ob)" by blast
  with assms(2-6) show ?thesis
    unfolding applied_def
    by (intro exI [of _ event] exI [of _ l] exI [of _ m] exI [of _ ob] exI [of _ ids] exI [of _ t]) simp
qed

lemma stale_change_None:
  "stale_change s event md v already = Inr None \<Longrightarrow>
     (\<forall>n. latest_source_sequence s (ce_event_id event) (em_source md) = Some n \<longrightarrow> n < em_source_sequence md)
     \<and> v = ce_state_version event \<and> instant (ce_changed_at event) \<le> instant (em_occurred_at md) \<and> \<not> already"
  by (auto simp: stale_change_def split: if_splits option.splits)

lemma stale_change_Some:
  "stale_change s event md v already = Inr (Some d) \<Longrightarrow> d \<noteq> APPLIED \<and> d \<noteq> DUPLICATE_IDENTITY"
  by (auto simp: stale_change_def split: if_splits option.splits)

lemma update_event_Inr:
  "update_event e v s = Inr s' \<Longrightarrow>
   s' = s\<lparr>es_events := dset (ce_event_id e) e (es_events s)\<rparr> \<and> ce_state_version e = v + 1"
  by (auto simp: update_event_def split: if_splits option.splits)

text \<open>A skipped command answers with an Event of the store and changes nothing.\<close>

definition skipped :: "event_store \<Rightarrow> event_store \<Rightarrow> event_write_result \<Rightarrow> bool" where
  "skipped s s' r \<longleftrightarrow> s' = s \<and> er_disposition r \<noteq> APPLIED \<and> er_outbox_message_id r = None
     \<and> (\<exists>i. dget (es_events s) i = Some (er_event r))"

lemma create_event_Inr:
  assumes "create_event H c s = Inr (s', r)"
  shows "skipped s s' r \<or> applied H (cc_metadata c) s s' r"
proof -
  from assms obtain ex where ex: "get_event_by_identity s (identity_key H (cc_identity c)) = Inr ex"
    by (auto simp: create_event_def bind_result_Inr_iff)
  show ?thesis
  proof (cases ex)
    case (Some e)
    with ex assms show ?thesis
      by (auto simp: create_event_def skipped_result_def skipped_def get_event_by_identity_def
          split: option.splits)
  next
    case None
    let ?cl = "created_classification c"
    let ?e = "created_event H c ?cl"
    from assms ex None obtain cl e s1 where cl: "event_classification_init ?cl = Inr cl"
      and e: "canonical_event_init (created_event H c cl) = Inr e"
      and ins0: "insert_event e s = Inr s1"
      and com0: "commit_event H e (cc_metadata c)
        (state_log e (cc_metadata c) None (Lifecycle CANDIDATE) (ce_state_policy_version e)
           ''first detected'' LIFECYCLE)
        ''canonical_event.created''
        (JObj [(''eventId'', JStr (ce_event_id e)),
               (''lifecycleStatus'', JStr (lifecycle_value (ce_lifecycle_status e))),
               (''stateVersion'', JInt (ce_state_version e)),
               (''classificationVersion'', JInt (ec_classification_version (ce_classification e))),
               (''versions'', versions_to_dict (ce_versions e))]) s1 = Inr (s', r)"
      by (auto simp: create_event_def bind_result_Inr_iff)
    have "e = ?e" using canonical_event_init_Inr [OF e] event_classification_init_Inr [OF cl] by simp
    with e have init: "canonical_event_init ?e = Inr ?e"
      and ins: "insert_event ?e s = Inr s1"
      and com: "commit_event H ?e (cc_metadata c)
        (state_log ?e (cc_metadata c) None (Lifecycle CANDIDATE) (ce_state_policy_version ?e)
           ''first detected'' LIFECYCLE)
        ''canonical_event.created''
        (JObj [(''eventId'', JStr (ce_event_id ?e)),
               (''lifecycleStatus'', JStr (lifecycle_value (ce_lifecycle_status ?e))),
               (''stateVersion'', JInt (ce_state_version ?e)),
               (''classificationVersion'', JInt (ec_classification_version (ce_classification ?e))),
               (''versions'', versions_to_dict (ce_versions ?e))]) s1 = Inr (s', r)"
      using canonical_event_init_Inr [OF e] ins0 com0 by auto
    from ins have "s1 = s\<lparr>es_events := dset (ce_event_id ?e) ?e (es_events s),
        es_identities := dset (ce_identity_key ?e) (ce_event_id ?e) (es_identities s)\<rparr>"
      "dget (es_events s) (ce_event_id ?e) = None" "dget (es_identities s) (ce_identity_key ?e) = None"
      by (auto simp: insert_event_def split: if_splits)
    moreover have "replay_start (state_log ?e (cc_metadata c) None (Lifecycle CANDIDATE)
        (ce_state_policy_version ?e) ''first detected'' LIFECYCLE) = Some (status_of ?e)"
      by (simp add: replay_start_def state_log_def status_of_def created_event_def Let_def)
    ultimately have "applied H (cc_metadata c) s s' r"
      by (intro appliedI [OF com _ _ _ init]) (auto simp: state_log_def)
    then show ?thesis ..
  qed
qed

text \<open>
  The changes of an existing Event share one shape: the check for staleness, the legality of the
  transition and the write.
\<close>

lemma touched_fields [simp]:
  "ce_event_id (touched e md p) = ce_event_id e" "ce_identity_key (touched e md p) = ce_identity_key e"
  "ce_lifecycle_status (touched e md p) = ce_lifecycle_status e"
  "ce_reconciliation_status (touched e md p) = ce_reconciliation_status e"
  "ce_state_version (touched e md p) = ce_state_version e + 1"
  "ce_changed_at (touched e md p) = em_occurred_at md"
  by (simp_all add: touched_def)

lemma change_applied:
  assumes event: "dget (es_events s) i = Some event" "ce_event_id event = i"
    and stale: "stale_change s event md v already = Inr None"
    and init: "canonical_event_init updated = Inr updated'"
    and upd: "update_event updated' (ce_state_version event) s = Inr s1"
    and com: "commit_event H updated' md (state_log updated' md f t p reason axis) ty payload s1 = Inr (s', r)"
    and same: "ce_event_id updated = i" "ce_identity_key updated = ce_identity_key event"
      "ce_changed_at updated = em_occurred_at md"
    and rep: "replay_log (status_of event) (state_log updated md f t p reason axis) = Some (status_of updated)"
  shows "applied H md s s' r"
proof -
  have eq: "updated' = updated" and init': "canonical_event_init updated = Inr updated"
    using canonical_event_init_Inr [OF init] by simp_all
  have "s1 = s\<lparr>es_events := dset (ce_event_id updated) updated (es_events s), es_identities := es_identities s\<rparr>"
    using update_event_Inr [OF upd] by (simp add: eq)
  then show ?thesis
    using event stale_change_None [OF stale] same rep
    by (intro appliedI [OF com [unfolded eq] _ _ _ init']) (auto simp: state_log_def)
qed

lemma transition_event_Inr:
  assumes "transition_event H c s = Inr (s', r)"
    and ids: "\<And>i e. dget (es_events s) i = Some e \<Longrightarrow> ce_event_id e = i"
  shows "skipped s s' r \<or> applied H (tc_metadata c) s s' r"
proof -
  from assms(1) obtain event stale where ev: "dget (es_events s) (tc_event_id c) = Some event"
    and st: "stale_change s event (tc_metadata c) (tc_expected_state_version c)
      (tc_target c = ce_lifecycle_status event) = Inr stale"
    by (auto simp: transition_event_def bind_result_Inr_iff split: option.splits)
  show ?thesis
  proof (cases stale)
    case (Some d)
    then have "skipped s s' r"
      using assms(1) ev st stale_change_Some [of s event _ _ _ d]
      by (auto simp: transition_event_def skipped_result_def skipped_def)
    then show ?thesis ..
  next
    case None
    let ?u = "(touched event (tc_metadata c) (tc_policy_version c))\<lparr>ce_lifecycle_status := tc_target c\<rparr>"
    from assms(1) ev st None obtain tr where "transition_lifecycle (ce_lifecycle_status event)
        (tc_target c) (tc_policy_version c) = Inr tr"
      by (auto simp: transition_event_def bind_result_Inr_iff)
    then have "tc_target c \<in> set (lifecycle_targets (ce_lifecycle_status event))"
      by (auto simp: transition_lifecycle_def require_transition_def split: if_splits)
    then have rep: "replay_log (status_of event) (state_log ?u (tc_metadata c)
        (Some (Lifecycle (ce_lifecycle_status event))) (Lifecycle (tc_target c))
        (tc_policy_version c) (tc_reason c) LIFECYCLE) = Some (status_of ?u)"
      by (simp add: replay_log_def state_log_def status_of_def)
    from assms(1) ev st None obtain u s1 where init: "canonical_event_init ?u = Inr u"
      and upd: "update_event u (ce_state_version event) s = Inr s1"
      and com: "commit_event H u (tc_metadata c) (state_log u (tc_metadata c)
          (Some (Lifecycle (ce_lifecycle_status event))) (Lifecycle (ce_lifecycle_status u))
          (tc_policy_version c) (tc_reason c) LIFECYCLE) ''canonical_event.lifecycle_changed''
        (JObj [(''eventId'', JStr (ce_event_id u)),
               (''fromLifecycleStatus'', JStr (lifecycle_value (ce_lifecycle_status event))),
               (''lifecycleStatus'', JStr (lifecycle_value (ce_lifecycle_status u))),
               (''stateVersion'', JInt (ce_state_version u)),
               (''policyVersion'', JStr (tc_policy_version c)),
               (''reason'', JStr (tc_reason c))]) s1 = Inr (s', r)"
      by (auto simp: transition_event_def bind_result_Inr_iff)
    have "ce_lifecycle_status u = tc_target c" using canonical_event_init_Inr [OF init] by simp
    from change_applied [OF ev ids [OF ev] st [unfolded None] init upd com] rep ids [OF ev] this
    show ?thesis by simp
  qed
qed

lemma reconcile_event_Inr:
  assumes "reconcile_event H c s = Inr (s', r)"
    and ids: "\<And>i e. dget (es_events s) i = Some e \<Longrightarrow> ce_event_id e = i"
  shows "skipped s s' r \<or> applied H (rc_metadata c) s s' r"
proof -
  from assms(1) obtain event stale where ev: "dget (es_events s) (rc_event_id c) = Some event"
    and st: "stale_change s event (rc_metadata c) (rc_expected_state_version c)
      (rc_target c = ce_reconciliation_status event) = Inr stale"
    by (auto simp: reconcile_event_def bind_result_Inr_iff split: option.splits)
  show ?thesis
  proof (cases stale)
    case (Some d)
    then have "skipped s s' r"
      using assms(1) ev st stale_change_Some [of s event _ _ _ d]
      by (auto simp: reconcile_event_def skipped_result_def skipped_def)
    then show ?thesis ..
  next
    case None
    from assms(1) ev st None obtain tr cl where "transition_reconciliation (ce_reconciliation_status event)
        (rc_target c) (rc_policy_version c) = Inr tr"
      and cl: "reconciled_classification (rc_target c) (rc_metadata c) (ce_classification event) = Inr cl"
      by (auto simp: reconcile_event_def bind_result_Inr_iff)
    let ?u = "(touched event (rc_metadata c) (rc_policy_version c))
      \<lparr>ce_reconciliation_status := rc_target c, ce_classification := cl\<rparr>"
    have "rc_target c \<in> set (reconciliation_targets (ce_reconciliation_status event))"
      using \<open>transition_reconciliation _ _ _ = Inr tr\<close>
      by (auto simp: transition_reconciliation_def require_transition_def split: if_splits)
    then have rep: "replay_log (status_of event) (state_log ?u (rc_metadata c)
        (Some (Reconciliation (ce_reconciliation_status event))) (Reconciliation (rc_target c))
        (rc_policy_version c) (rc_reason c) RECONCILIATION) = Some (status_of ?u)"
      by (simp add: replay_log_def state_log_def status_of_def)
    from assms(1) ev st None cl obtain u s1 where init: "canonical_event_init ?u = Inr u"
      and upd: "update_event u (ce_state_version event) s = Inr s1"
      and com: "commit_event H u (rc_metadata c) (state_log u (rc_metadata c)
          (Some (Reconciliation (ce_reconciliation_status event))) (Reconciliation (rc_target c))
          (rc_policy_version c) (rc_reason c) RECONCILIATION) ''canonical_event.reconciled''
        (JObj [(''eventId'', JStr (ce_event_id u)),
               (''fromReconciliationStatus'',
                 JStr (reconciliation_value (ce_reconciliation_status event))),
               (''reconciliationStatus'', JStr (reconciliation_value (ce_reconciliation_status u))),
               (''stateVersion'', JInt (ce_state_version u)),
               (''classificationVersion'', JInt (ec_classification_version (ce_classification u))),
               (''policyVersion'', JStr (rc_policy_version c)),
               (''reason'', JStr (rc_reason c))]) s1 = Inr (s', r)"
      by (auto simp: reconcile_event_def bind_result_Inr_iff)
    from change_applied [OF ev ids [OF ev] st [unfolded None] init upd com] rep ids [OF ev]
    show ?thesis by simp
  qed
qed

lemma dispatch_Inr:
  assumes "dispatch H c s = Inr (s', r)"
    and "\<And>i e. dget (es_events s) i = Some e \<Longrightarrow> ce_event_id e = i"
  shows "skipped s s' r \<or> applied H (command_metadata c) s s' r"
  using assms create_event_Inr transition_event_Inr reconcile_event_Inr by (cases c) auto

section \<open>The invariant of the store\<close>

definition logs_of :: "event_store \<Rightarrow> string \<Rightarrow> event_state_log list" where
  "logs_of s i = state_logs s (Some i)"

definition events_replay :: "event_store \<Rightarrow> bool" where
  "events_replay s \<longleftrightarrow> (\<forall>i. case dget (es_events s) i of
       None \<Rightarrow> logs_of s i = []
     | Some e \<Rightarrow> ce_event_id e = i \<and> canonical_event_init e = Inr e
         \<and> replay (logs_of s i) = Some (status_of e))"

definition identities_ok :: "event_store \<Rightarrow> bool" where
  "identities_ok s \<longleftrightarrow>
     (\<forall>k i. dget (es_identities s) k = Some i \<longleftrightarrow>
        (\<exists>e. dget (es_events s) i = Some e \<and> ce_identity_key e = k))"

definition logs_announced :: "hash \<Rightarrow> event_store \<Rightarrow> bool" where
  "logs_announced H s \<longleftrightarrow>
     (\<forall>l\<in>set (es_state_logs s). \<exists>m t. messages (es_outbox s) (om_message_id m) = Some m
        \<and> om_message_id m = outbox_message_id H (sl_command_message_id l) t
        \<and> om_aggregate_id m = sl_event_id l)"

definition receipts_ok :: "event_store \<Rightarrow> bool" where
  "receipts_ok s \<longleftrightarrow>
     (\<forall>i r. dget (es_receipts s) i = Some r \<longrightarrow> cr_message_id r = i
        \<and> (\<exists>n. dget (es_source_sequences s) (cr_event_id r, cr_source r) = Some n
             \<and> cr_source_sequence r \<le> n)
        \<and> (\<forall>m. er_outbox_message_id (cr_result r) = Some m \<longrightarrow> messages (es_outbox s) m \<noteq> None))"

definition outbox_ok :: "event_store \<Rightarrow> bool" where
  "outbox_ok s \<longleftrightarrow> distinct (dkeys (es_outbox s))
     \<and> (\<forall>i m. messages (es_outbox s) i = Some m \<longrightarrow> om_message_id m = i)"

definition store_inv :: "hash \<Rightarrow> event_store \<Rightarrow> bool" where
  "store_inv H s \<longleftrightarrow> events_replay s \<and> identities_ok s \<and> logs_announced H s \<and> receipts_ok s
     \<and> outbox_ok s \<and> \<not> es_fail_next_commit s"

lemma store_inv_empty: "store_inv H empty_store"
  by (simp add: store_inv_def empty_store_def events_replay_def identities_ok_def logs_announced_def
      receipts_ok_def outbox_ok_def logs_of_def state_logs_def messages_def)

lemma events_replay_ids: "events_replay s \<Longrightarrow> dget (es_events s) i = Some e \<Longrightarrow> ce_event_id e = i"
  unfolding events_replay_def by (drule spec [of _ i]) simp

lemma events_replay_cong:
  assumes "es_events s' = es_events s" and "es_state_logs s' = es_state_logs s"
  shows "events_replay s' = events_replay s"
proof -
  have logs: "logs_of s' = logs_of s"
    using assms(2) by (simp add: logs_of_def state_logs_def fun_eq_iff)
  show ?thesis unfolding events_replay_def assms(1) logs ..
qed

lemma logs_of_snoc:
  "logs_of (s\<lparr>es_events := a, es_identities := b, es_state_logs := es_state_logs s @ [l], es_outbox := c\<rparr>) i
   = logs_of s i @ (if sl_event_id l = i then [l] else [])"
  by (simp add: logs_of_def state_logs_def)

lemma applied_inv:
  assumes inv: "store_inv H s" and app: "applied H md s s' r"
  shows "events_replay s'" "identities_ok s'" "logs_announced H s'" "receipts_ok s'" "outbox_ok s'"
    "es_fail_next_commit s' = es_fail_next_commit s" "es_receipts s' = es_receipts s"
    "es_source_sequences s' = es_source_sequences s"
    "dget (es_events s') (ce_event_id (er_event r)) = Some (er_event r)"
    "\<And>m. er_outbox_message_id r = Some m \<Longrightarrow> messages (es_outbox s') m \<noteq> None"
proof -
  from app obtain event l m ob ids t where
      r: "r = \<lparr>er_event = event, er_disposition = APPLIED, er_outbox_message_id = Some (om_message_id m)\<rparr>"
      and s': "s' = s\<lparr>es_events := dset (ce_event_id event) event (es_events s), es_identities := ids,
              es_state_logs := es_state_logs s @ [l], es_outbox := ob\<rparr>"
      and ob: "messages ob = (messages (es_outbox s))(om_message_id m \<mapsto> m)"
        "\<forall>x. messages (es_outbox s) (om_message_id m) = Some x \<longrightarrow> x = m"
        "distinct (dkeys (es_outbox s)) \<longrightarrow> distinct (dkeys ob)"
      and m: "om_message_id m = outbox_message_id H (em_message_id md) t"
        "om_aggregate_id m = ce_event_id event"
      and l: "sl_event_id l = ce_event_id event" "sl_command_message_id l = em_message_id md"
      and init: "canonical_event_init event = Inr event"
      and alt: "dget (es_events s) (ce_event_id event) = None
          \<and> dget (es_identities s) (ce_identity_key event) = None
          \<and> ids = dset (ce_identity_key event) (ce_event_id event) (es_identities s)
          \<and> replay_start l = Some (status_of event)
        \<or> (\<exists>old. dget (es_events s) (ce_event_id event) = Some old
             \<and> ce_identity_key old = ce_identity_key event \<and> ids = es_identities s
             \<and> replay_log (status_of old) l = Some (status_of event))"
    unfolding applied_def by blast
  have ev: "events_replay s" and idn: "identities_ok s" and lg: "logs_announced H s"
    and rc: "receipts_ok s" and obx: "outbox_ok s" using inv by (simp_all add: store_inv_def)
  have logs: "logs_of s' i = logs_of s i @ (if ce_event_id event = i then [l] else [])" for i
    unfolding s' logs_of_snoc l(1) ..
  have "replay (logs_of s' (ce_event_id event)) = Some (status_of event)"
    using alt
  proof (elim disjE exE conjE)
    assume "dget (es_events s) (ce_event_id event) = None" "replay_start l = Some (status_of event)"
    moreover from this ev have "logs_of s (ce_event_id event) = []"
      unfolding events_replay_def by (drule_tac x = "ce_event_id event" in spec) simp
    ultimately show ?thesis by (simp add: logs)
  next
    fix old
    assume "dget (es_events s) (ce_event_id event) = Some old"
      "replay_log (status_of old) l = Some (status_of event)"
    moreover from this ev have "replay (logs_of s (ce_event_id event)) = Some (status_of old)"
      unfolding events_replay_def by (drule_tac x = "ce_event_id event" in spec) simp
    ultimately show ?thesis by (simp add: logs replay_snoc [OF replay_Some_ne])
  qed
  moreover have "dget (es_events s') i = (if i = ce_event_id event then Some event else dget (es_events s) i)"
    for i by (simp add: s')
  moreover have "logs_of s' i = logs_of s i" if "i \<noteq> ce_event_id event" for i
    using that by (simp add: logs)
  ultimately show "events_replay s'" using ev init
    unfolding events_replay_def by (auto cong: option.case_cong)
  have "ce_identity_key e \<noteq> ce_identity_key event"
    if "dget (es_identities s) (ce_identity_key event) = None" "dget (es_events s) i = Some e" for i e
    using idn that unfolding identities_ok_def by (metis option.distinct(1))
  then show "identities_ok s'"
    using idn alt unfolding identities_ok_def by (auto simp: s' split: if_splits)
  show "logs_announced H s'"
    unfolding logs_announced_def
  proof
    fix x assume x: "x \<in> set (es_state_logs s')"
    show "\<exists>m t. messages (es_outbox s') (om_message_id m) = Some m
        \<and> om_message_id m = outbox_message_id H (sl_command_message_id x) t
        \<and> om_aggregate_id m = sl_event_id x"
    proof (cases "x = l")
      case True
      then show ?thesis using m l ob by (intro exI [of _ m] exI [of _ t]) (simp add: s')
    next
      case False
      with x lg obtain m' t' where m': "messages (es_outbox s) (om_message_id m') = Some m'"
          "om_message_id m' = outbox_message_id H (sl_command_message_id x) t'"
          "om_aggregate_id m' = sl_event_id x"
        unfolding logs_announced_def by (auto simp: s')
      then have "messages ob (om_message_id m') = Some m'" using ob by auto
      with m' show ?thesis by (intro exI [of _ m'] exI [of _ t']) (simp add: s')
    qed
  qed
  show "receipts_ok s'" using rc ob unfolding receipts_ok_def by (simp add: s')
  show "outbox_ok s'" using obx ob unfolding outbox_ok_def by (simp add: s')
  show "es_fail_next_commit s' = es_fail_next_commit s" "es_receipts s' = es_receipts s"
    "es_source_sequences s' = es_source_sequences s" by (simp_all add: s')
  show "dget (es_events s') (ce_event_id (er_event r)) = Some (er_event r)" by (simp add: s' r)
  show "messages (es_outbox s') m' \<noteq> None" if "er_outbox_message_id r = Some m'" for m'
    using that ob by (auto simp: s' r)
qed

lemma save_receipt_Inr:
  assumes "save_receipt r s = Inr s'" and "dget (es_receipts s) (cr_message_id r) = None"
  shows "\<exists>seqs. s' = s\<lparr>es_receipts := dset (cr_message_id r) r (es_receipts s), es_source_sequences := seqs\<rparr>
    \<and> (\<exists>n. dget seqs (cr_event_id r, cr_source r) = Some n \<and> cr_source_sequence r \<le> n)
    \<and> (\<forall>k n. dget (es_source_sequences s) k = Some n \<longrightarrow> (\<exists>n'. dget seqs k = Some n' \<and> n \<le> n'))"
proof (cases "case dget (es_source_sequences s) (cr_event_id r, cr_source r) of
    None \<Rightarrow> True | Some previous \<Rightarrow> previous < cr_source_sequence r")
  case True
  with assms show ?thesis
    by (intro exI [of _ "dset (cr_event_id r, cr_source r) (cr_source_sequence r) (es_source_sequences s)"])
      (auto simp: save_receipt_def Let_def split: option.splits)
next
  case False
  with assms show ?thesis
    by (intro exI [of _ "es_source_sequences s"])
      (auto simp: save_receipt_def Let_def split: option.splits)
qed

lemma receipt_of_fields [simp]:
  "cr_message_id (receipt_of H c r) = em_message_id (command_metadata c)"
  "cr_command_fingerprint (receipt_of H c r) = command_fingerprint H c"
  "cr_event_id (receipt_of H c r) = ce_event_id (er_event r)"
  "cr_source (receipt_of H c r) = em_source (command_metadata c)"
  "cr_source_sequence (receipt_of H c r) = em_source_sequence (command_metadata c)"
  "cr_result (receipt_of H c r) = r"
  by (simp_all add: receipt_of_def Let_def)

text \<open>
  A command that succeeds is a replay of its receipt, or it is new: it is skipped or applied, and
  then its receipt is stored.
\<close>

lemma write_body_Inr:
  assumes "write_body H c s = Inr (s', r)" and "store_inv H s"
  shows "(\<exists>rec. s' = s \<and> dget (es_receipts s) (em_message_id (command_metadata c)) = Some rec
        \<and> cr_command_fingerprint rec = command_fingerprint H c \<and> cr_result rec = r)
    \<or> dget (es_receipts s) (em_message_id (command_metadata c)) = None
      \<and> (\<exists>s1. (skipped s s1 r \<or> applied H (command_metadata c) s s1 r)
            \<and> save_receipt (receipt_of H c r) s1 = Inr s')"
proof (cases "dget (es_receipts s) (em_message_id (command_metadata c))")
  case None
  with assms(1) obtain s1 where d: "dispatch H c s = Inr (s1, r)"
    and "save_receipt (receipt_of H c r) s1 = Inr s'"
    by (auto simp: write_body_def bind_result_Inr_iff)
  with None dispatch_Inr [OF d] assms(2) events_replay_ids show ?thesis
    unfolding store_inv_def by blast
next
  case (Some rec)
  with assms(1) show ?thesis by (auto simp: write_body_def split: if_splits)
qed

lemma skipped_or_applied_inv:
  assumes "store_inv H s" and "skipped s s1 r \<or> applied H md s s1 r"
  shows "store_inv H s1" and "es_receipts s1 = es_receipts s"
    and "es_source_sequences s1 = es_source_sequences s"
    and "\<And>m. er_outbox_message_id r = Some m \<Longrightarrow> messages (es_outbox s1) m \<noteq> None"
  using assms(2) applied_inv [OF assms(1), of md s1 r] assms(1)
  by (auto simp: skipped_def store_inv_def)

lemma save_receipt_inv:
  assumes inv: "store_inv H s" and save: "save_receipt rec s = Inr s'"
    and new: "dget (es_receipts s) (cr_message_id rec) = None"
    and msg: "\<And>m. er_outbox_message_id (cr_result rec) = Some m \<Longrightarrow> messages (es_outbox s) m \<noteq> None"
  shows "store_inv H s'"
proof -
  from save_receipt_Inr [OF save new] obtain seqs n where
      s': "s' = s\<lparr>es_receipts := dset (cr_message_id rec) rec (es_receipts s), es_source_sequences := seqs\<rparr>"
      and n: "dget seqs (cr_event_id rec, cr_source rec) = Some n" "cr_source_sequence rec \<le> n"
      and mono: "\<forall>k n. dget (es_source_sequences s) k = Some n \<longrightarrow> (\<exists>n'. dget seqs k = Some n' \<and> n \<le> n')"
    by blast
  have "receipts_ok s'"
    unfolding receipts_ok_def
  proof (intro allI impI)
    fix i r assume r: "dget (es_receipts s') i = Some r"
    show "cr_message_id r = i
        \<and> (\<exists>n. dget (es_source_sequences s') (cr_event_id r, cr_source r) = Some n
             \<and> cr_source_sequence r \<le> n)
        \<and> (\<forall>m. er_outbox_message_id (cr_result r) = Some m \<longrightarrow> messages (es_outbox s') m \<noteq> None)"
    proof (cases "i = cr_message_id rec")
      case True
      with r n msg show ?thesis by (auto simp: s')
    next
      case False
      with r have "dget (es_receipts s) i = Some r" by (simp add: s')
      with inv obtain k where "cr_message_id r = i"
          "dget (es_source_sequences s) (cr_event_id r, cr_source r) = Some k" "cr_source_sequence r \<le> k"
          "\<forall>m. er_outbox_message_id (cr_result r) = Some m \<longrightarrow> messages (es_outbox s) m \<noteq> None"
        unfolding store_inv_def receipts_ok_def by blast
      with mono show ?thesis by (fastforce simp: s')
    qed
  qed
  moreover have "events_replay s' = events_replay s" by (rule events_replay_cong) (simp_all add: s')
  ultimately show ?thesis
    using inv by (simp add: store_inv_def s' identities_ok_def logs_announced_def outbox_ok_def)
qed

lemma write_body_inv:
  assumes "write_body H c s = Inr (s', r)" and inv: "store_inv H s"
  shows "store_inv H s'"
  using write_body_Inr [OF assms]
proof (elim disjE exE conjE)
  fix s1 assume new: "dget (es_receipts s) (em_message_id (command_metadata c)) = None"
    and save: "save_receipt (receipt_of H c r) s1 = Inr s'"
    and st: "skipped s s1 r"
  note ok = skipped_or_applied_inv [OF inv disjI1 [OF st]]
  from save_receipt_inv [OF ok(1) save] new ok(2,4) show ?thesis by simp
next
  fix s1 assume new: "dget (es_receipts s) (em_message_id (command_metadata c)) = None"
    and save: "save_receipt (receipt_of H c r) s1 = Inr s'"
    and st: "applied H (command_metadata c) s s1 r"
  note ok = skipped_or_applied_inv [OF inv disjI2 [OF st]]
  from save_receipt_inv [OF ok(1) save] new ok(2,4) show ?thesis by simp
qed (use inv in simp)

lemma write_event_cases:
  assumes "store_inv H s"
  shows "(\<exists>e. write_event H s c = (s, Inl e))
    \<or> (\<exists>s' r. write_event H s c = (s', Inr r) \<and> write_body H c s = Inr (s', r) \<and> store_inv H s')"
proof (cases "write_body H c s")
  case (Inl e)
  then show ?thesis by (simp add: write_event_def transaction_def)
next
  case (Inr x)
  then obtain s' r where x: "write_body H c s = Inr (s', r)" by (cases x) auto
  from write_body_inv [OF x assms] x show ?thesis
    by (simp add: write_event_def transaction_def store_inv_def)
qed

section \<open>The writer as a sink with receipts\<close>

definition receipt_fingerprint :: "event_store \<Rightarrow> string \<Rightarrow> string option" where
  "receipt_fingerprint s i = map_option cr_command_fingerprint (dget (es_receipts s) i)"

definition receipt_result :: "event_store \<Rightarrow> string \<Rightarrow> event_write_result option" where
  "receipt_result s i = map_option cr_result (dget (es_receipts s) i)"

definition message_id_of :: "event_command \<Rightarrow> string" where
  "message_id_of c = em_message_id (command_metadata c)"

lemma write_body_receipts:
  assumes "write_body H c s = Inr (s', r)" and inv: "store_inv H s"
  shows "dget (es_receipts s) i = Some x \<Longrightarrow> dget (es_receipts s') i = Some x"
    and "\<exists>x. dget (es_receipts s') (message_id_of c) = Some x
      \<and> cr_command_fingerprint x = command_fingerprint H c \<and> cr_result x = r"
proof -
  have "(\<forall>i x. dget (es_receipts s) i = Some x \<longrightarrow> dget (es_receipts s') i = Some x)
      \<and> (\<exists>x. dget (es_receipts s') (message_id_of c) = Some x
          \<and> cr_command_fingerprint x = command_fingerprint H c \<and> cr_result x = r)"
    using write_body_Inr [OF assms]
  proof (elim disjE exE conjE)
    fix s1 assume new: "dget (es_receipts s) (em_message_id (command_metadata c)) = None"
      and save: "save_receipt (receipt_of H c r) s1 = Inr s'"
      and st: "skipped s s1 r"
    note ok = skipped_or_applied_inv [OF inv disjI1 [OF st]]
    from save_receipt_Inr [OF save] new ok(2) show ?thesis by (auto simp: message_id_of_def)
  next
    fix s1 assume new: "dget (es_receipts s) (em_message_id (command_metadata c)) = None"
      and save: "save_receipt (receipt_of H c r) s1 = Inr s'"
      and st: "applied H (command_metadata c) s s1 r"
    note ok = skipped_or_applied_inv [OF inv disjI2 [OF st]]
    from save_receipt_Inr [OF save] new ok(2) show ?thesis by (auto simp: message_id_of_def)
  qed (auto simp: message_id_of_def)
  then show "dget (es_receipts s) i = Some x \<Longrightarrow> dget (es_receipts s') i = Some x"
    and "\<exists>x. dget (es_receipts s') (message_id_of c) = Some x
      \<and> cr_command_fingerprint x = command_fingerprint H c \<and> cr_result x = r" by blast+
qed

interpretation writer: receipted_sink "write_event H" "store_inv H" message_id_of "command_fingerprint H"
  receipt_fingerprint receipt_result for H
proof
  fix s c assume inv: "store_inv H s"
  note cases = write_event_cases [OF inv, of c]
  show "store_inv H (fst (write_event H s c))" using cases inv by auto
  show "receipt_fingerprint (fst (write_event H s c)) k = Some f" if "receipt_fingerprint s k = Some f" for k f
    using cases that write_body_receipts(1) [OF _ inv] by (fastforce simp: receipt_fingerprint_def)
  show "receipt_fingerprint (fst (write_event H s c)) (message_id_of c) = Some (command_fingerprint H c)"
    if "snd (write_event H s c) = Inr r" for r
    using cases that write_body_receipts(2) [OF _ inv] by (fastforce simp: receipt_fingerprint_def)
  show "receipt_result (fst (write_event H s c)) k = Some r" if "receipt_result s k = Some r" for k r
    using cases that write_body_receipts(1) [OF _ inv] by (fastforce simp: receipt_result_def)
  show "receipt_result (fst (write_event H s c)) (message_id_of c) = Some r"
    if "snd (write_event H s c) = Inr r" for r
    using cases that write_body_receipts(2) [OF _ inv] by (fastforce simp: receipt_result_def)
  have nofail: "\<not> es_fail_next_commit s" using inv by (simp add: store_inv_def)
  show "fst (write_event H s c) = s" if "receipt_fingerprint s (message_id_of c) = Some (command_fingerprint H c)"
    using that nofail
    by (auto simp: receipt_fingerprint_def write_event_def transaction_def write_body_def message_id_of_def)
  show "fst (write_event H s c) = s \<and> (\<exists>e. snd (write_event H s c) = Inl e)"
    if "receipt_fingerprint s (message_id_of c) = Some f" "f \<noteq> command_fingerprint H c" for f
    using that
    by (auto simp: receipt_fingerprint_def write_event_def transaction_def write_body_def message_id_of_def)
  show "snd (write_event H s c) = Inr r"
    if "receipt_fingerprint s (message_id_of c) = Some (command_fingerprint H c)"
      "receipt_result s (message_id_of c) = Some r" for r
    using that nofail
    by (auto simp: receipt_fingerprint_def receipt_result_def write_event_def transaction_def
        write_body_def message_id_of_def)
qed

section \<open>The store under writes and deliveries\<close>

text \<open>What the writer and the outbox publisher do to the store, in any order.\<close>

datatype store_op =
    Write event_command
  | Claim datetime int timedelta
  | MarkPublished string datetime
  | ReleaseAfterFailure string datetime string

fun store_step :: "hash \<Rightarrow> event_store \<Rightarrow> store_op \<Rightarrow> event_store \<times> unit result" where
  "store_step H s (Write c) = map_prod id (map_sum id (\<lambda>_. ())) (write_event H s c)"
| "store_step H s (Claim now limit lease) =
     map_prod id (map_sum id (\<lambda>_. ())) (claim_pending s now limit lease)"
| "store_step H s (MarkPublished i t) = mark_published s i t"
| "store_step H s (ReleaseAfterFailure i t e) = release_after_failure s i t e"

lemma store_inv_outbox:
  assumes "store_inv H s" and "messages ob = messages (es_outbox s)" and "distinct (dkeys ob)"
  shows "store_inv H (s\<lparr>es_outbox := ob\<rparr>)"
proof -
  have "events_replay (s\<lparr>es_outbox := ob\<rparr>) = events_replay s" by (rule events_replay_cong) simp_all
  with assms show ?thesis
    by (simp add: store_inv_def identities_ok_def logs_announced_def receipts_ok_def outbox_ok_def)
qed

lemma store_inv_distinct: "store_inv H s \<Longrightarrow> distinct (dkeys (es_outbox s))"
  by (simp add: store_inv_def outbox_ok_def)

lemma store_inv_dset:
  assumes "store_inv H s" and "dget (es_outbox s) i = Some r" and "or_message r' = or_message r"
  shows "store_inv H (s\<lparr>es_outbox := dset i r' (es_outbox s)\<rparr>)"
proof (rule store_inv_outbox [OF assms(1)])
  show "messages (dset i r' (es_outbox s)) = messages (es_outbox s)"
    using assms(2,3) by (auto simp: messages_def fun_eq_iff)
  show "distinct (dkeys (dset i r' (es_outbox s)))" using store_inv_distinct [OF assms(1)] by simp
qed

lemma messages_claim:
  assumes "\<forall>r\<in>set rs. messages ob (om_message_id (or_message r)) = Some (or_message r)"
  shows "messages (foldl (\<lambda>d r. dset (om_message_id (or_message r)) r d) ob rs) = messages ob
    \<and> (distinct (dkeys ob) \<longrightarrow> distinct (dkeys (foldl (\<lambda>d r. dset (om_message_id (or_message r)) r d) ob rs)))"
  using assms
proof (induction rs arbitrary: ob)
  case (Cons r rs)
  from Cons.prems have "messages (dset (om_message_id (or_message r)) r ob) = messages ob"
    by (auto simp: messages_def fun_eq_iff)
  with Cons.IH [of "dset (om_message_id (or_message r)) r ob"] Cons.prems show ?case by simp
qed simp

lemma outbox_values:
  assumes "outbox_ok s" and "r \<in> snd ` set (es_outbox s)"
  shows "messages (es_outbox s) (om_message_id (or_message r)) = Some (or_message r)"
proof -
  from assms(2) obtain i where "(i, r) \<in> set (es_outbox s)" by auto
  with assms(1) have "messages (es_outbox s) i = Some (or_message r)"
    by (simp add: messages_def outbox_ok_def)
  with assms(1) show ?thesis by (auto simp: outbox_ok_def)
qed

lemma claim_pending_inv:
  assumes "store_inv H s"
  shows "store_inv H (fst (claim_pending s now limit lease))"
proof -
  let ?E = "sort_key (\<lambda>r. (instant (or_available_at r), om_message_id (or_message r)))
      (filter (claimable now) (map snd (es_outbox s)))"
  let ?rs = "map (claim_record now lease) (take (nat limit) ?E)"
  have "\<forall>r\<in>set ?rs. messages (es_outbox s) (om_message_id (or_message r)) = Some (or_message r)"
    using assms outbox_values
    by (auto simp: store_inv_def claim_record_def dest!: in_set_takeD)
  from messages_claim [OF this] store_inv_distinct [OF assms] assms show ?thesis
    by (auto simp: claim_pending_def Let_def intro!: store_inv_outbox)
qed

lemma mark_release_inv:
  assumes "store_inv H s"
  shows "store_inv H (fst (mark_published s i t))" and "store_inv H (fst (release_after_failure s i t e))"
  using assms store_inv_dset [OF assms, of i]
  by (auto simp: mark_published_def release_after_failure_def split: option.split)

interpretation store: invariant_machine "store_step H" "store_inv H" for H
proof
  fix s c assume "store_inv H s"
  then show "store_inv H (fst (store_step H s c))"
    using writer.step_inv by (cases c) (simp_all add: claim_pending_inv mark_release_inv)
qed

lemma reachable_store_inv: "store_inv H (run (store_step H) empty_store ops)"
  by (rule store.run_inv) (rule store_inv_empty)

lemma replay_versions:
  "replay ls = Some r \<Longrightarrow> map sl_state_version ls = [1..rp_version r] \<and> 1 \<le> rp_version r"
proof (induction ls arbitrary: r rule: rev_induct)
  case (snoc l ls)
  show ?case
  proof (cases "ls = []")
    case True
    with snoc.prems show ?thesis by (auto simp: replay_start_def split: if_splits)
  next
    case False
    with snoc.prems obtain q where q: "replay ls = Some q" "replay_log q l = Some r"
      by (auto simp: replay_snoc bind_eq_Some_conv)
    then have "sl_state_version l = rp_version q + 1" "rp_version r = rp_version q + 1"
      by (auto simp: replay_log_def split: if_splits prod.splits state_axis.splits option.splits axis_status.splits)
    with snoc.IH [OF q(1)] show ?thesis by (simp add: upto_rec2)
  qed
qed simp

section \<open>Properties\<close>

text \<open>
  C11. Event sourcing: after any sequence of writes and deliveries, every Event is stored under its
  id and its state logs, replayed from the first, give exactly its two statuses and its version:
  the logged versions are 1, 2, ... up to the Event's, each log starts at the status the previous
  one left, and each change is one of the transition tables.
\<close>

theorem events_replay_from_logs:
  assumes "dget (es_events (run (store_step H) empty_store ops)) i = Some e"
  shows "ce_event_id e = i
    \<and> replay (state_logs (run (store_step H) empty_store ops) (Some i)) = Some (status_of e)
    \<and> map sl_state_version (state_logs (run (store_step H) empty_store ops) (Some i))
        = [1..ce_state_version e]"
proof -
  have "events_replay (run (store_step H) empty_store ops)"
    using reachable_store_inv [of H ops] by (simp add: store_inv_def)
  with assms have "ce_event_id e = i"
    and rep: "replay (logs_of (run (store_step H) empty_store ops) i) = Some (status_of e)"
    unfolding events_replay_def by (drule_tac x = i in spec, simp)+
  with replay_versions [OF rep] show ?thesis by (simp add: logs_of_def status_of_def)
qed

text \<open>
  C12. Well-formedness: whatever is written and delivered, every stored Event passes the checks of its
  own constructor, its key leads back to it, and every registered key is the key of a stored Event, so
  that one identity has one Event.
\<close>

theorem stored_events_well_formed:
  assumes "dget (es_events (run (store_step H) empty_store ops)) i = Some e"
  shows "canonical_event_init e = Inr e \<and> ce_event_id e = i
    \<and> dget (es_identities (run (store_step H) empty_store ops)) (ce_identity_key e) = Some i
    \<and> (\<forall>k j. dget (es_identities (run (store_step H) empty_store ops)) k = Some j \<longleftrightarrow>
         (\<exists>e'. dget (es_events (run (store_step H) empty_store ops)) j = Some e' \<and> ce_identity_key e' = k))"
proof -
  let ?s = "run (store_step H) empty_store ops"
  have "events_replay ?s" and ids: "identities_ok ?s"
    using reachable_store_inv [of H ops] by (simp_all add: store_inv_def)
  with assms have "canonical_event_init e = Inr e" "ce_event_id e = i"
    unfolding events_replay_def by (drule_tac x = i in spec, simp)+
  moreover have "dget (es_identities ?s) (ce_identity_key e) = Some i"
    using ids assms unfolding identities_ok_def by blast
  ultimately show ?thesis using ids unfolding identities_ok_def by blast
qed

text \<open>
  C13. Redelivery: when a command succeeds, delivering it again after any other commands returns
  the same result and leaves the store as it is, whatever happened to the Event meanwhile.
\<close>

theorem event_redelivery:
  assumes "snd (write_event H (run (store_step H) empty_store ops) c) = Inr r"
  shows "write_event H (run (write_event H)
      (fst (write_event H (run (store_step H) empty_store ops) c)) cs) c
    = (run (write_event H) (fst (write_event H (run (store_step H) empty_store ops) c)) cs, Inr r)"
  using reachable_store_inv assms(1) by (rule writer.redelivery_same_result)

text \<open>
  Atomicity: a command that raises leaves the store as it was; one that succeeds was delivered
  before, or changes nothing but its receipt and source sequence, or appends exactly one state log
  and announces it with one outbox message while it stores the Event.
\<close>

theorem event_write_atomic:
  fixes H ops c
  defines "s \<equiv> run (store_step H) empty_store ops"
  shows "case write_event H s c of
      (s', Inl e) \<Rightarrow> s' = s
    | (s', Inr r) \<Rightarrow> s' = s \<and> receipt_result s (message_id_of c) = Some r
        \<or> er_disposition r \<noteq> APPLIED \<and> er_outbox_message_id r = None
          \<and> es_events s' = es_events s \<and> es_state_logs s' = es_state_logs s \<and> es_outbox s' = es_outbox s
        \<or> er_disposition r = APPLIED
          \<and> es_events s' = dset (ce_event_id (er_event r)) (er_event r) (es_events s)
          \<and> (\<exists>l m. es_state_logs s' = es_state_logs s @ [l] \<and> sl_event_id l = ce_event_id (er_event r)
               \<and> sl_command_message_id l = message_id_of c
               \<and> er_outbox_message_id r = Some (om_message_id m)
               \<and> om_aggregate_id m = ce_event_id (er_event r)
               \<and> messages (es_outbox s') = (messages (es_outbox s))(om_message_id m \<mapsto> m))"
proof -
  have inv: "store_inv H s" unfolding s_def by (rule reachable_store_inv)
  show ?thesis
    using write_event_cases [OF inv, of c]
  proof (elim disjE exE conjE)
    fix s' r assume w: "write_event H s c = (s', Inr r)" and b: "write_body H c s = Inr (s', r)"
    show ?thesis
      using write_body_Inr [OF b inv]
    proof (elim disjE exE conjE)
      fix s1 assume "dget (es_receipts s) (em_message_id (command_metadata c)) = None"
        and save: "save_receipt (receipt_of H c r) s1 = Inr s'" and st: "skipped s s1 r"
      with save_receipt_Inr [OF save] show ?thesis
        by (auto simp: w skipped_def)
    next
      fix s1 assume none: "dget (es_receipts s) (em_message_id (command_metadata c)) = None"
        and save: "save_receipt (receipt_of H c r) s1 = Inr s'"
        and st: "applied H (command_metadata c) s s1 r"
      have "dget (es_receipts s1) (cr_message_id (receipt_of H c r)) = None"
        using none applied_inv(7) [OF inv st] by simp
      from save_receipt_Inr [OF save this] have
        "es_events s' = es_events s1" "es_state_logs s' = es_state_logs s1" "es_outbox s' = es_outbox s1"
        by auto
      with st show ?thesis unfolding applied_def message_id_of_def by (fastforce simp: w)
    qed (auto simp: w receipt_result_def message_id_of_def)
  qed simp
qed


text \<open>
  C15. Order per source: a command that changes an existing Event has a larger source sequence than
  every command of that source recorded for the Event before, no earlier time than the Event's last
  change, and raises its version by one.
\<close>

theorem event_change_ordered:
  fixes H ops
  defines "s \<equiv> run (store_step H) empty_store ops"
  assumes "write_event H s c = (s', Inr r)" and "er_disposition r = APPLIED"
    and "dget (es_receipts s) (message_id_of c) = None"
    and "dget (es_events s) (ce_event_id (er_event r)) = Some old"
  shows "(\<forall>i rec. dget (es_receipts s) i = Some rec \<longrightarrow> cr_event_id rec = ce_event_id (er_event r)
        \<longrightarrow> cr_source rec = em_source (command_metadata c)
        \<longrightarrow> cr_source_sequence rec < em_source_sequence (command_metadata c))
    \<and> instant (ce_changed_at old) \<le> instant (ce_changed_at (er_event r))
    \<and> ce_state_version (er_event r) = ce_state_version old + 1"
proof -
  have inv: "store_inv H s" unfolding s_def by (rule reachable_store_inv)
  from write_event_cases [OF inv, of c] assms(2) have "write_body H c s = Inr (s', r)" by auto
  from write_body_Inr [OF this inv] assms(3,4) obtain s1 where "applied H (command_metadata c) s s1 r"
    by (auto simp: message_id_of_def skipped_def)
  with assms(5) have old: "replay_log (status_of old) l = Some (status_of (er_event r)) \<Longrightarrow>
      ce_state_version (er_event r) = ce_state_version old + 1" for l
    by (auto simp: replay_log_def status_of_def
        split: if_splits prod.splits state_axis.splits option.splits axis_status.splits)
  from \<open>applied H (command_metadata c) s s1 r\<close> assms(5) obtain l where
      "replay_log (status_of old) l = Some (status_of (er_event r))"
      and lt: "\<forall>n. latest_source_sequence s (ce_event_id (er_event r)) (em_source (command_metadata c)) = Some n
        \<longrightarrow> n < em_source_sequence (command_metadata c)"
      and at: "instant (ce_changed_at old) \<le> instant (ce_changed_at (er_event r))"
    unfolding applied_def by fastforce
  moreover have "cr_source_sequence rec < em_source_sequence (command_metadata c)"
    if rec: "dget (es_receipts s) i = Some rec" "cr_event_id rec = ce_event_id (er_event r)"
      "cr_source rec = em_source (command_metadata c)" for i rec
  proof -
    from inv rec(1) obtain n where
        "dget (es_source_sequences s) (cr_event_id rec, cr_source rec) = Some n" "cr_source_sequence rec \<le> n"
      unfolding store_inv_def receipts_ok_def by blast
    with lt rec(2,3) show ?thesis by (auto simp: latest_source_sequence_def)
  qed
  ultimately show ?thesis using old by blast
qed

section \<open>Examples\<close>

text \<open>A readable hash, a creation, its activation and a delivery of their messages.\<close>

fun sample_hash :: hash where
  "sample_hash (Plain s) = s"
| "sample_hash (Dump v) = ''d''"

definition sample_metadata :: "string \<Rightarrow> int \<Rightarrow> event_input_metadata" where
  "sample_metadata i n =
     \<lparr>em_message_id = i, em_source = ''live'', em_source_sequence = n, em_occurred_at = Aware n 0,
      em_received_at = Aware n 0, em_correlation_id = ''c'', em_causation_id = None, em_lineage = []\<rparr>"

definition sample_create :: event_command where
  "sample_create = CreateEventCommand
     \<lparr>cc_metadata = sample_metadata ''m1'' 1,
      cc_identity = \<lparr>ei_market_date = 8, ei_canonical_theme_id = ''t'', ei_catalyst_key = ''k''\<rparr>,
      cc_display_name = ''n'',
      cc_versions = \<lparr>ev_calculation_version = ''1'', ev_ranking_model_version = ''1'',
        ev_membership_version = ''1'', ev_baseline_version = None\<rparr>,
      cc_classification_kind = INFOSTOCK_THEME, cc_classification_certainty = PROVISIONAL_CLASS,
      cc_classification_source = LIVE_ENGINE\<rparr>"

definition sample_activate :: event_command where
  "sample_activate = TransitionLifecycleCommand
     \<lparr>tc_metadata = sample_metadata ''m2'' 2, tc_event_id = ''evt_eventkey_d'', tc_target = ACTIVE,
      tc_expected_state_version = 1, tc_reason = ''r'', tc_policy_version = ''p''\<rparr>"

definition sample_ops :: "store_op list" where
  "sample_ops = [Write sample_create, Claim (Aware 5 0) 10 7, Write sample_activate]"

lemma sample_ops_event:
  "map_option ce_state_version
     (dget (es_events (run (store_step sample_hash) empty_store sample_ops)) ''evt_eventkey_d'') = Some 2"
  by code_simp

theorem events_replay_from_logs_witness:
  "map sl_state_version
     (state_logs (run (store_step sample_hash) empty_store sample_ops) (Some ''evt_eventkey_d'')) = [1..2]"
proof -
  from sample_ops_event obtain e where
      e: "dget (es_events (run (store_step sample_hash) empty_store sample_ops)) ''evt_eventkey_d'' = Some e"
      and "ce_state_version e = 2" by auto
  with events_replay_from_logs [OF e] show ?thesis by simp
qed

theorem stored_events_well_formed_witness:
  "\<exists>e. dget (es_events (run (store_step sample_hash) empty_store sample_ops)) ''evt_eventkey_d'' = Some e
     \<and> canonical_event_init e = Inr e
     \<and> dget (es_identities (run (store_step sample_hash) empty_store sample_ops)) (ce_identity_key e)
         = Some ''evt_eventkey_d''"
proof -
  from sample_ops_event obtain e where
      e: "dget (es_events (run (store_step sample_hash) empty_store sample_ops)) ''evt_eventkey_d'' = Some e"
    by auto
  with stored_events_well_formed [OF e] show ?thesis by blast
qed

lemma sample_create_written:
  "\<exists>r. snd (write_event sample_hash (run (store_step sample_hash) empty_store []) sample_create) = Inr r
     \<and> er_disposition r = APPLIED"
proof -
  have "case snd (write_event sample_hash (run (store_step sample_hash) empty_store []) sample_create) of
      Inl _ \<Rightarrow> False | Inr r \<Rightarrow> er_disposition r = APPLIED"
    by code_simp
  then show ?thesis by (auto split: sum.splits)
qed

theorem event_redelivery_witness:
  "\<exists>r. write_event sample_hash (run (write_event sample_hash)
      (fst (write_event sample_hash (run (store_step sample_hash) empty_store []) sample_create))
      [sample_activate]) sample_create
    = (run (write_event sample_hash)
        (fst (write_event sample_hash (run (store_step sample_hash) empty_store []) sample_create))
        [sample_activate], Inr r)"
proof -
  obtain r where "snd (write_event sample_hash (run (store_step sample_hash) empty_store []) sample_create)
      = Inr r" using sample_create_written by blast
  from event_redelivery [OF this] show ?thesis by blast
qed

theorem event_write_atomic_witness:
  "\<exists>s' r l. write_event sample_hash (run (store_step sample_hash) empty_store []) sample_create = (s', Inr r)
     \<and> es_state_logs s' = [l]"
proof -
  obtain s' r where w: "write_event sample_hash (run (store_step sample_hash) empty_store []) sample_create
      = (s', Inr r)" and r: "er_disposition r = APPLIED"
    using sample_create_written by (metis prod.collapse)
  from event_write_atomic [of sample_hash "[]" sample_create] w r show ?thesis
    by (auto simp: receipt_result_def empty_store_def)
qed


lemma sample_activate_written:
  "case write_event sample_hash (run (store_step sample_hash) empty_store [Write sample_create]) sample_activate of
     (s', Inr r) \<Rightarrow> er_disposition r = APPLIED \<and> ce_event_id (er_event r) = ''evt_eventkey_d''
   | _ \<Rightarrow> False"
  by code_simp

lemma sample_created_state:
  "dget (es_receipts (run (store_step sample_hash) empty_store [Write sample_create])) ''m2'' = None
   \<and> map_option ce_state_version
       (dget (es_events (run (store_step sample_hash) empty_store [Write sample_create])) ''evt_eventkey_d'')
     = Some 1"
  by code_simp

theorem event_change_ordered_witness:
  "\<exists>s' r. write_event sample_hash (run (store_step sample_hash) empty_store [Write sample_create]) sample_activate
     = (s', Inr r) \<and> ce_state_version (er_event r) = 2"
proof -
  from sample_activate_written obtain s' r where
      w: "write_event sample_hash (run (store_step sample_hash) empty_store [Write sample_create]) sample_activate
        = (s', Inr r)" and r: "er_disposition r = APPLIED" "ce_event_id (er_event r) = ''evt_eventkey_d''"
    by (auto split: prod.splits sum.splits)
  have new: "dget (es_receipts (run (store_step sample_hash) empty_store [Write sample_create]))
      (message_id_of sample_activate) = None"
    using sample_created_state
    by (simp add: message_id_of_def sample_activate_def sample_metadata_def)
  obtain old where old: "dget (es_events (run (store_step sample_hash) empty_store [Write sample_create]))
      (ce_event_id (er_event r)) = Some old" and "ce_state_version old = 1"
    using sample_created_state r(2) by auto
  from event_change_ordered [OF w r(1) new old] w \<open>ce_state_version old = 1\<close> show ?thesis by auto
qed

end
