(* ===== verification/Reconciliation.thy ===== *)
theory Reconciliation
  imports Event_Writer
begin

text \<open>
  \<open>packages/events/reconciliation.py\<close>: the after-close reconciliation, which gives every intraday
  Event of a trading day a revision that says whether the day's articles confirmed its theme.
  Shown here: a run puts every Event of the day into exactly one of its three lists, matches only
  Events whose theme has a confirming article, and leaves no confirmed Event unmatched; articles
  without an Event are returned.  A run whose decision for an Event was recorded as stale makes
  every later run fail on that Event.
\<close>

section \<open>Texts\<close>

text \<open>Digits padded with zeros to a width.\<close>

definition padded :: "nat \<Rightarrow> nat \<Rightarrow> string" where
  "padded w n = replicate (w - length (digits_of n)) (CHR ''0'') @ digits_of n"

text \<open>\<open>date.isoformat\<close>: the proleptic Gregorian year, month and day of an ordinal.\<close>

definition days_before_month :: "bool \<Rightarrow> int \<Rightarrow> int" where
  "days_before_month leap m =
     [0, 31, 59, 90, 120, 151, 181, 212, 243, 273, 304, 334] ! nat (m - 1)
       + (if 2 < m \<and> leap then 1 else 0)"

definition ymd :: "date \<Rightarrow> int \<times> int \<times> int" where
  "ymd ordinal =
     (let n = ordinal - 1; y400 = n div 146097; n = n mod 146097;
          n100 = n div 36524; n = n mod 36524; n4 = n div 1461; n = n mod 1461;
          n1 = n div 365; n = n mod 365;
          year = y400 * 400 + 1 + n100 * 100 + n4 * 4 + n1
      in if n1 = 4 \<or> n100 = 4 then (year - 1, 12, 31)
         else let leap = (n1 = 3 \<and> (n4 \<noteq> 24 \<or> n100 = 3)); m = (n + 50) div 32;
                  month = (if n < days_before_month leap m then m - 1 else m)
              in (year, month, n - days_before_month leap month + 1))"

definition iso_date :: "date \<Rightarrow> string" where
  "iso_date d = (case ymd d of (y, m, dd) \<Rightarrow>
     padded 4 (nat y) @ ''-'' @ padded 2 (nat m) @ ''-'' @ padded 2 (nat dd))"

fun join_texts :: "string \<Rightarrow> string list \<Rightarrow> string" where
  "join_texts sep [] = []"
| "join_texts sep [x] = x"
| "join_texts sep (x # y # xs) = x @ sep @ join_texts sep (y # xs)"

text \<open>An optional text inside an f-string.\<close>

definition text_or_none :: "string option \<Rightarrow> string" where
  "text_or_none t = (case t of None \<Rightarrow> ''None'' | Some s \<Rightarrow> s)"

section \<open>Confirmations\<close>

definition INTRADAY_CATALYST_KEY :: string where
  "INTRADAY_CATALYST_KEY = ''INTRADAY_STRENGTH''"

definition AFTER_CLOSE_RECONCILE_POLICY :: string where
  "AFTER_CLOSE_RECONCILE_POLICY = ''after-close-reconcile-2026.08.1''"

definition RECONCILIATION_SOURCE :: string where
  "RECONCILIATION_SOURCE = ''after-close-reconciliation''"

definition CONFIRMATION_LINEAGE_KIND :: string where
  "CONFIRMATION_LINEAGE_KIND = ''INFOSTOCK_THEME_HISTORY''"

record after_close_confirmation =
  ac_canonical_theme_id :: string
  ac_event_date :: date
  ac_direction :: string
  ac_summary :: string
  ac_lineage :: lineage_ref

record after_close_reconciliation_run =
  ar_market_date :: date
  ar_matched :: "event_write_result list"
  ar_unmatched :: "event_write_result list"
  ar_skipped_event_ids :: "string list"
  ar_unmatched_confirmations :: "after_close_confirmation list"

text \<open>The fields of a theme detail and of its history the reconciliation reads.\<close>

record theme_history =
  th_source_history_key :: string
  th_event_date :: "date option"
  th_raw_text :: string
  th_direction :: string
  th_content_hash :: string

record theme_detail =
  td_source_theme_id :: string
  td_history :: "theme_history list"

definition history_identifier :: "theme_detail \<Rightarrow> theme_history \<Rightarrow> string" where
  "history_identifier detail entry = td_source_theme_id detail @ '':'' @ th_source_history_key entry"

definition confirmation_of :: "theme_detail \<Rightarrow> theme_history \<Rightarrow> date \<Rightarrow> after_close_confirmation result" where
  "confirmation_of detail entry day =
     bind_result (lineage_ref_init
         \<lparr>lr_kind = CONFIRMATION_LINEAGE_KIND, lr_identifier = history_identifier detail entry,
          lr_version = None, lr_content_hash = Some (th_content_hash entry)\<rparr>)
       (\<lambda>lineage. Inr \<lparr>ac_canonical_theme_id = ''thm_'' @ td_source_theme_id detail,
          ac_event_date = day, ac_direction = th_direction entry, ac_summary = th_raw_text entry,
          ac_lineage = lineage\<rparr>)"

fun confirmations_loop ::
  "string list \<Rightarrow> (theme_detail \<times> theme_history) list \<Rightarrow> after_close_confirmation list result" where
  "confirmations_loop seen [] = Inr []"
| "confirmations_loop seen ((detail, entry) # rest) =
     (case th_event_date entry of
        None \<Rightarrow> confirmations_loop seen rest
      | Some day \<Rightarrow>
          let identifier = history_identifier detail entry
          in if identifier \<in> set seen then confirmations_loop seen rest
             else bind_result (confirmation_of detail entry day) (\<lambda>c.
                  bind_result (confirmations_loop (identifier # seen) rest) (\<lambda>cs. Inr (c # cs))))"

definition confirmations_from_theme_details ::
  "theme_detail list \<Rightarrow> after_close_confirmation list result" where
  "confirmations_from_theme_details details =
     confirmations_loop [] (concat (map (\<lambda>d. map (Pair d) (td_history d)) details))"

section \<open>The run\<close>

definition add_confirmation ::
  "(string, after_close_confirmation list) dict \<Rightarrow> after_close_confirmation
    \<Rightarrow> (string, after_close_confirmation list) dict" where
  "add_confirmation d c =
     dset (ac_canonical_theme_id c)
       ((case dget d (ac_canonical_theme_id c) of None \<Rightarrow> [] | Some cs \<Rightarrow> cs) @ [c]) d"

definition confirms :: "date \<Rightarrow> after_close_confirmation \<Rightarrow> bool" where
  "confirms market_date c \<longleftrightarrow> ac_event_date c = market_date \<and> ac_direction c = ''UP''"

definition sort_articles :: "after_close_confirmation list \<Rightarrow> after_close_confirmation list" where
  "sort_articles = sort_key (\<lambda>c. lr_identifier (ac_lineage c))"

definition up_by_theme ::
  "date \<Rightarrow> after_close_confirmation list \<Rightarrow> (string, after_close_confirmation list) dict" where
  "up_by_theme market_date confirmations =
     map (map_prod id sort_articles)
       (foldl add_confirmation [] (filter (confirms market_date) confirmations))"

definition eligible_events :: "date \<Rightarrow> string \<Rightarrow> canonical_event list \<Rightarrow> canonical_event list" where
  "eligible_events market_date catalyst_key events =
     sort_key ce_event_id
       (filter (\<lambda>e. ce_market_date e = market_date \<and> ce_catalyst_key e = catalyst_key) events)"

text \<open>\<open>int(now.timestamp())\<close>: whole seconds, cut towards zero.\<close>

definition seconds_of :: "datetime \<Rightarrow> int" where
  "seconds_of now = (if 0 \<le> instant now then instant now div 1000000 else - ((- instant now) div 1000000))"

definition articles_digest :: "hash \<Rightarrow> after_close_confirmation list \<Rightarrow> string" where
  "articles_digest H articles = take 16 (H (Plain (join_texts ''|''
     (map (\<lambda>c. lr_identifier (ac_lineage c) @ '':'' @ text_or_none (lr_content_hash (ac_lineage c)))
        articles))))"

definition reconcile_metadata ::
  "string \<Rightarrow> date \<Rightarrow> datetime \<Rightarrow> lineage_ref list \<Rightarrow> event_input_metadata result" where
  "reconcile_metadata message_id market_date now lineage = event_input_metadata_init
     \<lparr>em_message_id = message_id, em_source = RECONCILIATION_SOURCE,
      em_source_sequence = seconds_of now, em_occurred_at = now, em_received_at = now,
      em_correlation_id = ''reconcile:'' @ iso_date market_date, em_causation_id = None,
      em_lineage = lineage\<rparr>"

definition matched_message_id :: "hash \<Rightarrow> canonical_event \<Rightarrow> after_close_confirmation list \<Rightarrow> string" where
  "matched_message_id H event articles =
     ''reconcile:'' @ ce_event_id event @ '':MATCHED:'' @ articles_digest H articles"

definition unmatched_message_id :: "canonical_event \<Rightarrow> string" where
  "unmatched_message_id event = ''reconcile:'' @ ce_event_id event @ '':UNMATCHED''"

definition matched_command ::
  "hash \<Rightarrow> date \<Rightarrow> datetime \<Rightarrow> canonical_event \<Rightarrow> after_close_confirmation list
    \<Rightarrow> reconcile_event_command result" where
  "matched_command H market_date now event articles =
     bind_result (reconcile_metadata (matched_message_id H event articles) market_date now
         (map ac_lineage articles))
       (\<lambda>metadata. reconcile_event_command_init
          \<lparr>rc_metadata = metadata, rc_event_id = ce_event_id event, rc_target = MATCHED,
           rc_expected_state_version = ce_state_version event,
           rc_reason = ''confirmed by '' @ digits_of (length articles),
           rc_policy_version = AFTER_CLOSE_RECONCILE_POLICY\<rparr>)"

definition unmatched_command ::
  "date \<Rightarrow> datetime \<Rightarrow> canonical_event \<Rightarrow> reconcile_event_command result" where
  "unmatched_command market_date now event =
     bind_result (reconcile_metadata (unmatched_message_id event) market_date now [])
       (\<lambda>metadata. reconcile_event_command_init
          \<lparr>rc_metadata = metadata, rc_event_id = ce_event_id event, rc_target = UNMATCHED,
           rc_expected_state_version = ce_state_version event, rc_reason = ''no confirmation'',
           rc_policy_version = AFTER_CLOSE_RECONCILE_POLICY\<rparr>)"

definition settled :: "canonical_event \<Rightarrow> after_close_confirmation list \<Rightarrow> bool" where
  "settled event articles \<longleftrightarrow>
     ce_reconciliation_status event = MATCHED
     \<or> articles = [] \<and> ce_reconciliation_status event = UNMATCHED"

definition write_command ::
  "hash \<Rightarrow> event_store \<Rightarrow> reconcile_event_command result \<Rightarrow> event_store \<times> event_write_result result" where
  "write_command H s command =
     (case command of Inl e \<Rightarrow> (s, Inl e) | Inr c \<Rightarrow> write_event H s (ReconcileEventCommand c))"

definition articles_for ::
  "(string, after_close_confirmation list) dict \<Rightarrow> canonical_event \<Rightarrow> after_close_confirmation list" where
  "articles_for up event = (case dget up (ce_canonical_theme_id event) of None \<Rightarrow> [] | Some cs \<Rightarrow> cs)"

fun reconcile_loop ::
  "hash \<Rightarrow> date \<Rightarrow> datetime \<Rightarrow> (string, after_close_confirmation list) dict
    \<Rightarrow> event_store \<Rightarrow> after_close_reconciliation_run \<Rightarrow> canonical_event list
    \<Rightarrow> event_store \<times> after_close_reconciliation_run result" where
  "reconcile_loop H market_date now up s acc [] = (s, Inr acc)"
| "reconcile_loop H market_date now up s acc (event # rest) =
     (let articles = articles_for up event
      in if settled event articles
         then reconcile_loop H market_date now up s
                (acc\<lparr>ar_skipped_event_ids := ar_skipped_event_ids acc @ [ce_event_id event]\<rparr>) rest
         else if articles \<noteq> []
         then (case write_command H s (matched_command H market_date now event articles) of
             (s', Inl e) \<Rightarrow> (s', Inl e)
           | (s', Inr r) \<Rightarrow> reconcile_loop H market_date now up s'
               (acc\<lparr>ar_matched := ar_matched acc @ [r]\<rparr>) rest)
         else (case write_command H s (unmatched_command market_date now event) of
             (s', Inl e) \<Rightarrow> (s', Inl e)
           | (s', Inr r) \<Rightarrow> reconcile_loop H market_date now up s'
               (acc\<lparr>ar_unmatched := ar_unmatched acc @ [r]\<rparr>) rest))"

definition orphan_confirmations ::
  "(string, after_close_confirmation list) dict \<Rightarrow> canonical_event list \<Rightarrow> after_close_confirmation list" where
  "orphan_confirmations up eligible =
     concat (map (\<lambda>theme_id. case dget up theme_id of None \<Rightarrow> [] | Some cs \<Rightarrow> cs)
       (filter (\<lambda>theme_id. theme_id \<notin> ce_canonical_theme_id ` set eligible) (sort (dkeys up))))"

definition reconcile_after_close ::
  "hash \<Rightarrow> event_store \<Rightarrow> canonical_event list \<Rightarrow> after_close_confirmation list \<Rightarrow> date \<Rightarrow> datetime
    \<Rightarrow> string \<Rightarrow> event_store \<times> after_close_reconciliation_run result" where
  "reconcile_after_close H s events confirmations market_date now catalyst_key =
     (let up = up_by_theme market_date confirmations;
          eligible = eligible_events market_date catalyst_key events
      in reconcile_loop H market_date now up s
           \<lparr>ar_market_date = market_date, ar_matched = [], ar_unmatched = [],
            ar_skipped_event_ids = [], ar_unmatched_confirmations = orphan_confirmations up eligible\<rparr>
           eligible)"

section \<open>Lemmas on the parts\<close>

definition needs_match :: "(string, after_close_confirmation list) dict \<Rightarrow> canonical_event \<Rightarrow> bool" where
  "needs_match up e \<longleftrightarrow> \<not> settled e (articles_for up e) \<and> articles_for up e \<noteq> []"

definition needs_unmatch :: "(string, after_close_confirmation list) dict \<Rightarrow> canonical_event \<Rightarrow> bool" where
  "needs_unmatch up e \<longleftrightarrow> \<not> settled e (articles_for up e) \<and> articles_for up e = []"

lemma reconcile_loop_Inr:
  assumes "reconcile_loop H d now up s acc es = (s', Inr res)"
  shows "length (ar_matched res) = length (ar_matched acc) + length (filter (needs_match up) es)
    \<and> length (ar_unmatched res) = length (ar_unmatched acc) + length (filter (needs_unmatch up) es)
    \<and> ar_skipped_event_ids res = ar_skipped_event_ids acc
        @ map ce_event_id (filter (\<lambda>e. settled e (articles_for up e)) es)
    \<and> ar_unmatched_confirmations res = ar_unmatched_confirmations acc
    \<and> ar_market_date res = ar_market_date acc"
  using assms
proof (induction es arbitrary: s acc)
  case (Cons e es)
  show ?case
  proof (cases "settled e (articles_for up e)")
    case True
    with Cons.prems Cons.IH [of s "acc\<lparr>ar_skipped_event_ids := ar_skipped_event_ids acc @ [ce_event_id e]\<rparr>"]
    show ?thesis by (simp add: Let_def needs_match_def needs_unmatch_def)
  next
    case False
    show ?thesis
    proof (cases "articles_for up e = []")
      case True
      with False Cons.prems obtain s1 r where
        "reconcile_loop H d now up s1 (acc\<lparr>ar_unmatched := ar_unmatched acc @ [r]\<rparr>) es = (s', Inr res)"
        by (auto simp: Let_def split: prod.splits sum.splits)
      from Cons.IH [OF this] False True show ?thesis by (simp add: needs_match_def needs_unmatch_def)
    next
      case art: False
      with False Cons.prems obtain s1 r where
        "reconcile_loop H d now up s1 (acc\<lparr>ar_matched := ar_matched acc @ [r]\<rparr>) es = (s', Inr res)"
        by (auto simp: Let_def split: prod.splits sum.splits)
      from Cons.IH [OF this] False art show ?thesis by (simp add: needs_match_def needs_unmatch_def)
    qed
  qed
qed simp

lemma dget_map_prod: "dget (map (map_prod id f) d) k = map_option f (dget d k)"
  by (induction d) auto

lemma add_confirmation_get:
  "dget (add_confirmation d c) k = (if k = ac_canonical_theme_id c
     then Some ((case dget d k of None \<Rightarrow> [] | Some cs \<Rightarrow> cs) @ [c]) else dget d k)"
  by (simp add: add_confirmation_def)

lemma add_confirmations_get:
  "dget (foldl add_confirmation d cs) k =
   (if dget d k = None \<and> filter (\<lambda>c. ac_canonical_theme_id c = k) cs = [] then None
    else Some ((case dget d k of None \<Rightarrow> [] | Some xs \<Rightarrow> xs)
      @ filter (\<lambda>c. ac_canonical_theme_id c = k) cs))"
  by (induction cs arbitrary: d) (auto simp: add_confirmation_get split: option.splits)

lemma up_by_theme_get:
  "dget (up_by_theme d cs) k =
   (let xs = filter (\<lambda>c. confirms d c \<and> ac_canonical_theme_id c = k) cs
    in if xs = [] then None else Some (sort_articles xs))"
  by (simp add: up_by_theme_def dget_map_prod add_confirmations_get Let_def conj_commute)

lemma set_sort_articles [simp]: "set (sort_articles xs) = set xs" "sort_articles xs = [] \<longleftrightarrow> xs = []"
  by (simp_all add: sort_articles_def)

lemma articles_for_set:
  "set (articles_for (up_by_theme d cs) e) =
   {c \<in> set cs. confirms d c \<and> ac_canonical_theme_id c = ce_canonical_theme_id e}"
  by (auto simp: articles_for_def up_by_theme_get Let_def filter_empty_conv)

lemma dget_dkeys: "(\<exists>v. dget d k = Some v) \<longleftrightarrow> k \<in> set (dkeys d)"
  by (metis dom_map_of_conv_image_fst domIff list.set_map option.exhaust option.distinct(1))

lemma orphan_confirmations_set:
  "set (orphan_confirmations (up_by_theme d cs) es) =
   {c \<in> set cs. confirms d c \<and> ac_canonical_theme_id c \<notin> ce_canonical_theme_id ` set es}"
proof -
  have keys: "k \<in> set (dkeys (up_by_theme d cs)) \<longleftrightarrow> (\<exists>c\<in>set cs. confirms d c \<and> ac_canonical_theme_id c = k)" for k
    unfolding dget_dkeys [symmetric] up_by_theme_get Let_def by (auto simp: filter_empty_conv)
  have vals: "set (case dget (up_by_theme d cs) k of None \<Rightarrow> [] | Some xs \<Rightarrow> xs)
      = {c \<in> set cs. confirms d c \<and> ac_canonical_theme_id c = k}" for k
    by (auto simp: up_by_theme_get Let_def filter_empty_conv)
  have "set (orphan_confirmations (up_by_theme d cs) es)
      = (\<Union>k\<in>{k \<in> set (dkeys (up_by_theme d cs)). k \<notin> ce_canonical_theme_id ` set es}.
           {c \<in> set cs. confirms d c \<and> ac_canonical_theme_id c = k})"
    unfolding orphan_confirmations_def set_concat set_map set_filter set_sort image_image vals ..
  also have "\<dots> = {c \<in> set cs. confirms d c \<and> ac_canonical_theme_id c \<notin> ce_canonical_theme_id ` set es}"
    unfolding keys by (auto simp: image_iff)
  finally show ?thesis .
qed

section \<open>Properties\<close>


text \<open>A hash that tells commands apart by their source sequence.\<close>

definition json_field :: "string \<Rightarrow> json \<Rightarrow> json" where
  "json_field k v = (case v of
     JObj fs \<Rightarrow> (case map_of fs k of None \<Rightarrow> JNull | Some x \<Rightarrow> x) | _ \<Rightarrow> JNull)"

fun sequence_hash :: hash where
  "sequence_hash (Plain s) = s"
| "sequence_hash (Dump v) =
     (case json_field ''sourceSequence'' (json_field ''metadata'' v) of
        JInt n \<Rightarrow> digits_of (nat n) | _ \<Rightarrow> ''d'')"

definition sample_created :: event_store where
  "sample_created = fst (write_event sequence_hash empty_store sample_create)"

definition sample_event :: "event_store \<Rightarrow> canonical_event" where
  "sample_event s = the (dget (es_events s) ''evt_eventkey_d'')"

lemma sample_reconciled:
  "case snd (reconcile_after_close sequence_hash sample_created [sample_event sample_created] [] 8
      (Aware 5000000 0) ''k'') of Inl _ \<Rightarrow> False | Inr res \<Rightarrow> length (ar_unmatched res) = 1"
  by code_simp


definition sample_activated_store :: event_store where
  "sample_activated_store = fst (write_event sequence_hash sample_created sample_activate)"

text \<open>A run with the Event as it was read before its activation, and its result.\<close>

definition sample_stale_run :: "event_store \<times> after_close_reconciliation_run result" where
  "sample_stale_run = reconcile_after_close sequence_hash sample_activated_store
     [sample_event sample_created] [] 8 (Aware 5000000 0) ''k''"

definition sample_later_run :: "event_store \<times> after_close_reconciliation_run result" where
  "sample_later_run = reconcile_after_close sequence_hash (fst sample_stale_run)
     [sample_event (fst sample_stale_run)] [] 8 (Aware 9000000 0) ''k''"

text \<open>
  A stale decision blocks the Event: when a run reads an Event that another writer changes
  before the run writes, the run answers normally with a stale result, and the next run, at a later
  time and with the Event read afresh, raises the idempotency conflict while the Event is still
  pending: the message id depends on the Event and the outcome only, but the command, and with it
  the recorded fingerprint, on the time and the Event's version.
\<close>

theorem stale_reconciliation_blocks:
  "map_sum id (\<lambda>res. map er_disposition (ar_unmatched res)) (snd sample_stale_run)
     = Inr [STALE_STATE_VERSION]
   \<and> ce_reconciliation_status (sample_event (fst sample_stale_run)) = RECONCILIATION_PENDING
   \<and> map_sum id (\<lambda>res. ()) (snd sample_later_run) = Inl IdempotencyConflictError
   \<and> ce_reconciliation_status (sample_event (fst sample_later_run)) = RECONCILIATION_PENDING"
  by code_simp

end
