(* ===== verification/Hot_State.thy ===== *)
theory Hot_State
  imports Domain_Models Event_Models
begin

text \<open>
  \<open>packages/realtime/models.py\<close> and \<open>hot_state.py\<close>: the latest state of each stock.  An update
  is accepted once per message id, in the order of its source, and replaces the state only when
  it is later in a total order.  Shown here: for sources that deliver in order the state is the
  maximum of the updates, whatever their interleaving; the store is a sink that processes each
  message once; a checkpoint restores a store that behaves like the old one.
\<close>

section \<open>Updates\<close>

definition HOT_STATE_CHECKPOINT_VERSION :: string where
  "HOT_STATE_CHECKPOINT_VERSION = ''hot-state-2026.08.1''"

fun decimal_text :: "decimal \<Rightarrow> json" where
  "decimal_text (Fin q) = JNum q"
| "decimal_text NonFinite = JStr ''NaN''"

record stock_realtime_update =
  ru_message_id :: string
  ru_stock_id :: string
  ru_market_date :: date
  ru_source :: string
  ru_source_sequence :: int
  ru_occurred_at :: datetime
  ru_received_at :: datetime
  ru_current_price :: "decimal option"
  ru_cumulative_trading_value :: "decimal option"
  ru_base_price :: "decimal option"
  ru_fresh :: bool
  ru_trading_halted :: bool
  ru_corporate_action_unresolved :: bool
  ru_lineage :: "lineage_ref list"

definition update_to_observation :: "stock_realtime_update \<Rightarrow> stock_market_observation result" where
  "update_to_observation u = stock_market_observation_init
     \<lparr>so_stock_id = ru_stock_id u, so_market_date = ru_market_date u,
      so_observed_at = ru_occurred_at u, so_current_price = ru_current_price u,
      so_cumulative_trading_value = ru_cumulative_trading_value u, so_fresh = ru_fresh u,
      so_trading_halted = ru_trading_halted u,
      so_corporate_action_unresolved = ru_corporate_action_unresolved u\<rparr>"

definition stock_realtime_update_init :: "stock_realtime_update \<Rightarrow> stock_realtime_update result" where
  "stock_realtime_update_init u = bind_result (validate
     [(\<not> blank (ru_message_id u), ValueError ''message_id''),
      (\<not> blank (ru_stock_id u), ValueError ''stock_id''),
      (\<not> blank (ru_source u), ValueError ''source''),
      (0 \<le> ru_source_sequence u, ValueError ''source_sequence''),
      (is_aware (ru_occurred_at u), ValueError ''occurred_at aware''),
      (is_aware (ru_received_at u), ValueError ''received_at aware''),
      (instant (ru_occurred_at u) \<le> instant (ru_received_at u), ValueError ''occurred_at''),
      (pred_option (\<lambda>d. is_finite d \<and> 0 < dval d) (ru_base_price u), ValueError ''base_price'')] u)
     (\<lambda>u. bind_result (update_to_observation u) (\<lambda>_. Inr u))"

definition update_to_dict :: "stock_realtime_update \<Rightarrow> json" where
  "update_to_dict u = JObj
     [(''messageId'', JStr (ru_message_id u)),
      (''stockId'', JStr (ru_stock_id u)),
      (''marketDate'', JDate (ru_market_date u)),
      (''source'', JStr (ru_source u)),
      (''sourceSequence'', JInt (ru_source_sequence u)),
      (''occurredAt'', JTime (ru_occurred_at u)),
      (''receivedAt'', JTime (ru_received_at u)),
      (''currentPrice'', json_opt decimal_text (ru_current_price u)),
      (''cumulativeTradingValue'', json_opt decimal_text (ru_cumulative_trading_value u)),
      (''fresh'', JBool (ru_fresh u)),
      (''tradingHalted'', JBool (ru_trading_halted u)),
      (''corporateActionUnresolved'', JBool (ru_corporate_action_unresolved u)),
      (''lineage'', JList (map lineage_to_dict (ru_lineage u)))]"

definition update_fingerprint :: "hash \<Rightarrow> stock_realtime_update \<Rightarrow> string" where
  "update_fingerprint H u = json_hash H (update_to_dict u)"

section \<open>The state of a stock and the source cursors\<close>

record hot_stock_state =
  hk_stock_id :: string
  hk_market_date :: date
  hk_version :: int
  hk_source :: string
  hk_source_sequence :: int
  hk_occurred_at :: datetime
  hk_received_at :: datetime
  hk_current_price :: "decimal option"
  hk_cumulative_trading_value :: "decimal option"
  hk_fresh :: bool
  hk_trading_halted :: bool
  hk_corporate_action_unresolved :: bool
  hk_last_message_id :: string
  hk_lineage :: "lineage_ref list"

definition state_to_observation :: "hot_stock_state \<Rightarrow> stock_market_observation result" where
  "state_to_observation s = stock_market_observation_init
     \<lparr>so_stock_id = hk_stock_id s, so_market_date = hk_market_date s,
      so_observed_at = hk_occurred_at s, so_current_price = hk_current_price s,
      so_cumulative_trading_value = hk_cumulative_trading_value s, so_fresh = hk_fresh s,
      so_trading_halted = hk_trading_halted s,
      so_corporate_action_unresolved = hk_corporate_action_unresolved s\<rparr>"

definition hot_stock_state_init :: "hot_stock_state \<Rightarrow> hot_stock_state result" where
  "hot_stock_state_init s = bind_result (validate
     [(\<not> blank (hk_stock_id s), ValueError ''stock_id''),
      (\<not> blank (hk_source s), ValueError ''source''),
      (\<not> blank (hk_last_message_id s), ValueError ''last_message_id''),
      (1 \<le> hk_version s, ValueError ''version''),
      (0 \<le> hk_source_sequence s, ValueError ''source_sequence''),
      (is_aware (hk_occurred_at s), ValueError ''occurred_at aware''),
      (is_aware (hk_received_at s), ValueError ''received_at aware''),
      (instant (hk_occurred_at s) \<le> instant (hk_received_at s), ValueError ''occurred_at'')] s)
     (\<lambda>s. bind_result (state_to_observation s) (\<lambda>_. Inr s))"

definition hot_state_of :: "stock_realtime_update \<Rightarrow> int \<Rightarrow> hot_stock_state" where
  "hot_state_of u version =
     \<lparr>hk_stock_id = ru_stock_id u, hk_market_date = ru_market_date u, hk_version = version,
      hk_source = ru_source u, hk_source_sequence = ru_source_sequence u,
      hk_occurred_at = ru_occurred_at u, hk_received_at = ru_received_at u,
      hk_current_price = ru_current_price u,
      hk_cumulative_trading_value = ru_cumulative_trading_value u, hk_fresh = ru_fresh u,
      hk_trading_halted = ru_trading_halted u,
      hk_corporate_action_unresolved = ru_corporate_action_unresolved u,
      hk_last_message_id = ru_message_id u, hk_lineage = ru_lineage u\<rparr>"

definition from_update :: "stock_realtime_update \<Rightarrow> int \<Rightarrow> hot_stock_state result" where
  "from_update u version = hot_stock_state_init (hot_state_of u version)"

definition hot_stock_state_to_dict :: "hot_stock_state \<Rightarrow> json" where
  "hot_stock_state_to_dict s = JObj
     [(''stockId'', JStr (hk_stock_id s)),
      (''marketDate'', JDate (hk_market_date s)),
      (''version'', JInt (hk_version s)),
      (''source'', JStr (hk_source s)),
      (''sourceSequence'', JInt (hk_source_sequence s)),
      (''occurredAt'', JTime (hk_occurred_at s)),
      (''receivedAt'', JTime (hk_received_at s)),
      (''currentPrice'', json_opt decimal_text (hk_current_price s)),
      (''cumulativeTradingValue'', json_opt decimal_text (hk_cumulative_trading_value s)),
      (''fresh'', JBool (hk_fresh s)),
      (''tradingHalted'', JBool (hk_trading_halted s)),
      (''corporateActionUnresolved'', JBool (hk_corporate_action_unresolved s)),
      (''lastMessageId'', JStr (hk_last_message_id s)),
      (''lineage'', JList (map lineage_to_dict (hk_lineage s)))]"

datatype hot_apply_disposition =
  HOT_APPLIED | HOT_DUPLICATE | HOT_STALE_SOURCE_SEQUENCE | STALE_RECEIVED_AT | STALE_OBSERVATION

record hot_apply_result =
  ha_disposition :: hot_apply_disposition
  ha_previous :: "hot_stock_state option"
  ha_current :: "hot_stock_state option"

definition hot_changed :: "hot_apply_result \<Rightarrow> bool" where
  "hot_changed r \<longleftrightarrow> ha_disposition r = HOT_APPLIED"

record source_cursor =
  sc_market_date :: date
  sc_stock_id :: string
  sc_source :: string
  sc_source_sequence :: int
  sc_received_at :: datetime

definition source_cursor_init :: "source_cursor \<Rightarrow> source_cursor result" where
  "source_cursor_init c = validate
     [(\<not> blank (sc_stock_id c), ValueError ''stock_id''),
      (\<not> blank (sc_source c), ValueError ''source''),
      (0 \<le> sc_source_sequence c, ValueError ''source_sequence''),
      (is_aware (sc_received_at c), ValueError ''received_at aware'')] c"

definition source_cursor_to_dict :: "source_cursor \<Rightarrow> json" where
  "source_cursor_to_dict c = JObj
     [(''marketDate'', JDate (sc_market_date c)),
      (''stockId'', JStr (sc_stock_id c)),
      (''source'', JStr (sc_source c)),
      (''sourceSequence'', JInt (sc_source_sequence c)),
      (''receivedAt'', JTime (sc_received_at c))]"

section \<open>The store\<close>

record hot_store =
  ho_states :: "(date \<times> string, hot_stock_state) dict"
  ho_processed :: "(string, string) dict"
  ho_cursors :: "(date \<times> string \<times> string, source_cursor) dict"

definition empty_hot_store :: hot_store where
  "empty_hot_store = \<lparr>ho_states = [], ho_processed = [], ho_cursors = []\<rparr>"

definition stock_key :: "stock_realtime_update \<Rightarrow> date \<times> string" where
  "stock_key u = (ru_market_date u, ru_stock_id u)"

definition cursor_key :: "stock_realtime_update \<Rightarrow> date \<times> string \<times> string" where
  "cursor_key u = (ru_market_date u, ru_stock_id u, ru_source u)"

definition cursor_after :: "hot_store \<Rightarrow> stock_realtime_update \<Rightarrow> source_cursor" where
  "cursor_after s u =
     \<lparr>sc_market_date = ru_market_date u, sc_stock_id = ru_stock_id u, sc_source = ru_source u,
      sc_source_sequence = ru_source_sequence u,
      sc_received_at = (case dget (ho_cursors s) (cursor_key u) of
          None \<Rightarrow> ru_received_at u
        | Some previous \<Rightarrow> later (sc_received_at previous) (ru_received_at u))\<rparr>"

definition record_cursor :: "hot_store \<Rightarrow> stock_realtime_update \<Rightarrow> hot_store result" where
  "record_cursor s u = bind_result (source_cursor_init (cursor_after s u))
     (\<lambda>c. Inr (s\<lparr>ho_cursors := dset (cursor_key u) c (ho_cursors s)\<rparr>))"

definition processed :: "hot_store \<Rightarrow> string \<Rightarrow> string \<Rightarrow> hot_store" where
  "processed s message_id fingerprint =
     s\<lparr>ho_processed := dset message_id fingerprint (ho_processed s)\<rparr>"

text \<open>Python compares the two tuples lexicographically, timestamps by their instant.\<close>

definition incoming_order :: "stock_realtime_update \<Rightarrow> int \<times> int \<times> string \<times> int \<times> string" where
  "incoming_order u = (instant (ru_occurred_at u), instant (ru_received_at u), ru_source u,
     ru_source_sequence u, ru_message_id u)"

definition current_order :: "hot_stock_state \<Rightarrow> int \<times> int \<times> string \<times> int \<times> string" where
  "current_order s = (instant (hk_occurred_at s), instant (hk_received_at s), hk_source s,
     hk_source_sequence s, hk_last_message_id s)"

definition hot_rejected ::
  "hot_apply_disposition \<Rightarrow> hot_stock_state option \<Rightarrow> hot_apply_result result" where
  "hot_rejected disposition previous =
     Inr \<lparr>ha_disposition = disposition, ha_previous = previous, ha_current = previous\<rparr>"

definition hot_replace ::
  "hot_store \<Rightarrow> stock_realtime_update \<Rightarrow> hot_stock_state option \<Rightarrow> hot_store \<times> hot_apply_result result" where
  "hot_replace s u previous =
     (if (case previous of None \<Rightarrow> False | Some p \<Rightarrow> incoming_order u \<le> current_order p)
      then (s, hot_rejected STALE_OBSERVATION previous)
      else (case from_update u (case previous of None \<Rightarrow> 1 | Some p \<Rightarrow> hk_version p + 1) of
          Inl e \<Rightarrow> (s, Inl e)
        | Inr current \<Rightarrow> (s\<lparr>ho_states := dset (stock_key u) current (ho_states s)\<rparr>,
            Inr \<lparr>ha_disposition = HOT_APPLIED, ha_previous = previous, ha_current = Some current\<rparr>)))"

definition hot_apply :: "hash \<Rightarrow> hot_store \<Rightarrow> stock_realtime_update \<Rightarrow> hot_store \<times> hot_apply_result result" where
  "hot_apply H s u =
     (let previous = dget (ho_states s) (stock_key u);
          fingerprint = update_fingerprint H u;
          cursor = dget (ho_cursors s) (cursor_key u)
      in case dget (ho_processed s) (ru_message_id u) of
           Some seen \<Rightarrow>
             if seen \<noteq> fingerprint then (s, Inl HotStateIdempotencyConflict)
             else (s, hot_rejected HOT_DUPLICATE previous)
         | None \<Rightarrow>
             if (case cursor of None \<Rightarrow> False | Some c \<Rightarrow> ru_source_sequence u \<le> sc_source_sequence c)
             then (processed s (ru_message_id u) fingerprint,
                   hot_rejected HOT_STALE_SOURCE_SEQUENCE previous)
             else (case record_cursor s u of
                 Inl e \<Rightarrow> (s, Inl e)
               | Inr s1 \<Rightarrow>
                   let s2 = processed s1 (ru_message_id u) fingerprint
                   in if (case cursor of None \<Rightarrow> False
                          | Some c \<Rightarrow> instant (ru_received_at u) < instant (sc_received_at c))
                      then (s2, hot_rejected STALE_RECEIVED_AT previous)
                      else hot_replace s2 u previous))"

definition hot_get :: "hot_store \<Rightarrow> date \<Rightarrow> string \<Rightarrow> hot_stock_state option" where
  "hot_get s market_date stock_id = dget (ho_states s) (market_date, stock_id)"

definition states_for :: "hot_store \<Rightarrow> date \<Rightarrow> string list \<Rightarrow> hot_stock_state list" where
  "states_for s market_date stock_ids =
     List.map_filter (\<lambda>i. dget (ho_states s) (market_date, i)) (sorted_set stock_ids)"

section \<open>Checkpoints\<close>

record hot_state_checkpoint =
  hc_checkpoint_version :: string
  hc_created_at :: datetime
  hc_as_of :: datetime
  hc_states :: "hot_stock_state list"
  hc_processed_messages :: "(string \<times> string) list"
  hc_source_cursors :: "source_cursor list"

definition hot_state_checkpoint_init :: "hot_state_checkpoint \<Rightarrow> hot_state_checkpoint result" where
  "hot_state_checkpoint_init c = validate
     [(\<not> blank (hc_checkpoint_version c), ValueError ''checkpoint_version''),
      (is_aware (hc_created_at c), ValueError ''created_at aware''),
      (is_aware (hc_as_of c), ValueError ''as_of aware''),
      (instant (hc_as_of c) \<le> instant (hc_created_at c), ValueError ''as_of'')] c"

definition hot_checkpoint_to_dict :: "hot_state_checkpoint \<Rightarrow> json" where
  "hot_checkpoint_to_dict c = JObj
     [(''checkpointVersion'', JStr (hc_checkpoint_version c)),
      (''createdAt'', JTime (hc_created_at c)),
      (''asOf'', JTime (hc_as_of c)),
      (''states'', JList (map hot_stock_state_to_dict (hc_states c))),
      (''processedMessages'', JList (map (\<lambda>(message_id, fingerprint).
         JObj [(''messageId'', JStr message_id), (''fingerprint'', JStr fingerprint)])
         (hc_processed_messages c))),
      (''sourceCursors'', JList (map source_cursor_to_dict (hc_source_cursors c)))]"

definition hot_checkpoint_hash :: "hash \<Rightarrow> hot_state_checkpoint \<Rightarrow> string" where
  "hot_checkpoint_hash H c = json_hash H (hot_checkpoint_to_dict c)"

definition hot_checkpoint_id :: "hash \<Rightarrow> hot_state_checkpoint \<Rightarrow> string" where
  "hot_checkpoint_id H c = ''checkpoint_'' @ take 32 (hot_checkpoint_hash H c)"

text \<open>\<open>max(times, default=d)\<close>: the first of the latest timestamps.\<close>

definition latest_of :: "datetime list \<Rightarrow> datetime \<Rightarrow> datetime" where
  "latest_of ts d = (case ts of [] \<Rightarrow> d | t # ts \<Rightarrow> foldl later t ts)"

definition hot_checkpoint :: "hot_store \<Rightarrow> datetime \<Rightarrow> hot_state_checkpoint result" where
  "hot_checkpoint s created_at = hot_state_checkpoint_init
     \<lparr>hc_checkpoint_version = HOT_STATE_CHECKPOINT_VERSION, hc_created_at = created_at,
      hc_as_of = latest_of (map (hk_received_at \<circ> snd) (ho_states s)
          @ map (sc_received_at \<circ> snd) (ho_cursors s)) created_at,
      hc_states = sorted_values (ho_states s), hc_processed_messages = sort (ho_processed s),
      hc_source_cursors = sorted_values (ho_cursors s)\<rparr>"

definition hot_restore :: "hot_state_checkpoint \<Rightarrow> hot_store result" where
  "hot_restore c =
     (if hc_checkpoint_version c \<noteq> HOT_STATE_CHECKPOINT_VERSION
      then Inl (ValueError ''checkpoint_version'')
      else bind_result (insert_distinct (\<lambda>s. (hk_market_date s, hk_stock_id s))
             (ValueError ''duplicate state'') [] (hc_states c)) (\<lambda>states.
        let messages = foldl (\<lambda>d (i, f). dset i f d) [] (hc_processed_messages c)
        in if length messages \<noteq> length (hc_processed_messages c)
           then Inl (ValueError ''duplicate message'')
           else bind_result (insert_distinct (\<lambda>r. (sc_market_date r, sc_stock_id r, sc_source r))
                  (ValueError ''duplicate cursor'') [] (hc_source_cursors c)) (\<lambda>cursors.
             Inr \<lparr>ho_states = states, ho_processed = messages, ho_cursors = cursors\<rparr>)))"

section \<open>What an update does\<close>

lemma source_cursor_init_Inr: "source_cursor_init c = Inr c' \<Longrightarrow> c' = c"
  unfolding source_cursor_init_def validate_Inr_iff by simp

lemma hot_stock_state_init_Inr: "hot_stock_state_init v = Inr v' \<Longrightarrow> v' = v"
  unfolding hot_stock_state_init_def bind_result_Inr_iff validate_Inr_iff by auto

definition cursor_recorded :: "hash \<Rightarrow> hot_store \<Rightarrow> stock_realtime_update \<Rightarrow> hot_store" where
  "cursor_recorded H s u = processed
     (s\<lparr>ho_cursors := dset (cursor_key u) (cursor_after s u) (ho_cursors s)\<rparr>)
     (ru_message_id u) (update_fingerprint H u)"

definition stale_sequence :: "hot_store \<Rightarrow> stock_realtime_update \<Rightarrow> bool" where
  "stale_sequence s u \<longleftrightarrow> (case dget (ho_cursors s) (cursor_key u) of
     None \<Rightarrow> False | Some c \<Rightarrow> ru_source_sequence u \<le> sc_source_sequence c)"

definition stale_receipt :: "hot_store \<Rightarrow> stock_realtime_update \<Rightarrow> bool" where
  "stale_receipt s u \<longleftrightarrow> (case dget (ho_cursors s) (cursor_key u) of
     None \<Rightarrow> False | Some c \<Rightarrow> instant (ru_received_at u) < instant (sc_received_at c))"

definition next_version :: "hot_store \<Rightarrow> stock_realtime_update \<Rightarrow> int" where
  "next_version s u = (case dget (ho_states s) (stock_key u) of None \<Rightarrow> 1 | Some p \<Rightarrow> hk_version p + 1)"

text \<open>An update is refused, repeats a message, is recorded without effect on the state, or applied.\<close>

lemma hot_apply_cases:
  obtains (conflict) f where "dget (ho_processed s) (ru_message_id u) = Some f" "f \<noteq> update_fingerprint H u"
      "hot_apply H s u = (s, Inl HotStateIdempotencyConflict)"
  | (duplicate) "dget (ho_processed s) (ru_message_id u) = Some (update_fingerprint H u)"
      "hot_apply H s u = (s, hot_rejected HOT_DUPLICATE (dget (ho_states s) (stock_key u)))"
  | (sequence) "dget (ho_processed s) (ru_message_id u) = None" "stale_sequence s u"
      "hot_apply H s u = (processed s (ru_message_id u) (update_fingerprint H u),
         hot_rejected HOT_STALE_SOURCE_SEQUENCE (dget (ho_states s) (stock_key u)))"
  | (invalid) e where "dget (ho_processed s) (ru_message_id u) = None" "\<not> stale_sequence s u"
      "source_cursor_init (cursor_after s u) = Inl e" "hot_apply H s u = (s, Inl e)"
  | (receipt) "dget (ho_processed s) (ru_message_id u) = None" "\<not> stale_sequence s u"
      "source_cursor_init (cursor_after s u) = Inr (cursor_after s u)" "stale_receipt s u"
      "hot_apply H s u = (cursor_recorded H s u,
         hot_rejected STALE_RECEIVED_AT (dget (ho_states s) (stock_key u)))"
  | (observation) p where "dget (ho_processed s) (ru_message_id u) = None" "\<not> stale_sequence s u"
      "source_cursor_init (cursor_after s u) = Inr (cursor_after s u)" "\<not> stale_receipt s u"
      "dget (ho_states s) (stock_key u) = Some p" "incoming_order u \<le> current_order p"
      "hot_apply H s u = (cursor_recorded H s u, hot_rejected STALE_OBSERVATION (Some p))"
  | (unusable) e where "dget (ho_processed s) (ru_message_id u) = None" "\<not> stale_sequence s u"
      "source_cursor_init (cursor_after s u) = Inr (cursor_after s u)" "\<not> stale_receipt s u"
      "\<And>p. dget (ho_states s) (stock_key u) = Some p \<Longrightarrow> current_order p < incoming_order u"
      "from_update u (next_version s u) = Inl e" "hot_apply H s u = (cursor_recorded H s u, Inl e)"
  | (applied) "dget (ho_processed s) (ru_message_id u) = None" "\<not> stale_sequence s u"
      "source_cursor_init (cursor_after s u) = Inr (cursor_after s u)" "\<not> stale_receipt s u"
      "\<And>p. dget (ho_states s) (stock_key u) = Some p \<Longrightarrow> current_order p < incoming_order u"
      "from_update u (next_version s u) = Inr (hot_state_of u (next_version s u))"
      "hot_apply H s u = ((cursor_recorded H s u)
         \<lparr>ho_states := dset (stock_key u) (hot_state_of u (next_version s u)) (ho_states s)\<rparr>,
         Inr \<lparr>ha_disposition = HOT_APPLIED, ha_previous = dget (ho_states s) (stock_key u),
              ha_current = Some (hot_state_of u (next_version s u))\<rparr>)"
proof (cases "dget (ho_processed s) (ru_message_id u)")
  case (Some f)
  then show thesis
    using conflict duplicate by (cases "f = update_fingerprint H u") (simp_all add: hot_apply_def)
next
  case None
  note new = None
  show thesis
  proof (cases "stale_sequence s u")
    case True
    with new show thesis
      by (intro sequence) (simp_all add: hot_apply_def stale_sequence_def Let_def)
  next
    case False
    note seq = False
    show thesis
    proof (cases "source_cursor_init (cursor_after s u)")
      case (Inl e)
      with new seq show thesis
        by (intro invalid) (simp_all add: hot_apply_def stale_sequence_def Let_def record_cursor_def)
    next
      case (Inr c)
      then have ok: "source_cursor_init (cursor_after s u) = Inr (cursor_after s u)"
        using source_cursor_init_Inr by blast
      have res: "hot_apply H s u = (if stale_receipt s u
          then (cursor_recorded H s u, hot_rejected STALE_RECEIVED_AT (dget (ho_states s) (stock_key u)))
          else hot_replace (cursor_recorded H s u) u (dget (ho_states s) (stock_key u)))"
        using new seq ok by (simp add: hot_apply_def stale_sequence_def stale_receipt_def Let_def
            record_cursor_def cursor_recorded_def)
      have states: "ho_states (cursor_recorded H s u) = ho_states s"
        by (simp add: cursor_recorded_def processed_def)
      show thesis
      proof (cases "stale_receipt s u")
        case True
        with new seq ok res show thesis by (intro receipt) simp_all
      next
        case False
        note fresh = False
        with res have rep: "hot_apply H s u
          = hot_replace (cursor_recorded H s u) u (dget (ho_states s) (stock_key u))" by simp
        show thesis
        proof (cases "\<exists>p. dget (ho_states s) (stock_key u) = Some p \<and> incoming_order u \<le> current_order p")
          case True
          with new seq ok fresh rep show thesis by (auto intro: observation simp: hot_replace_def)
        next
          case False
          then have after: "\<And>p. dget (ho_states s) (stock_key u) = Some p \<Longrightarrow> current_order p < incoming_order u"
            by (meson leI)
          then have rep': "hot_apply H s u = (case from_update u (next_version s u) of
              Inl e \<Rightarrow> (cursor_recorded H s u, Inl e)
            | Inr current \<Rightarrow> ((cursor_recorded H s u)
                \<lparr>ho_states := dset (stock_key u) current (ho_states s)\<rparr>,
                Inr \<lparr>ha_disposition = HOT_APPLIED, ha_previous = dget (ho_states s) (stock_key u),
                     ha_current = Some current\<rparr>))"
            by (cases "dget (ho_states s) (stock_key u)")
              (auto simp: rep hot_replace_def next_version_def states not_le split: sum.split)
          show thesis
          proof (cases "from_update u (next_version s u)")
            case (Inl e)
            with new seq ok fresh after rep' show thesis by (intro unusable) simp_all
          next
            case (Inr v)
            then have "v = hot_state_of u (next_version s u)"
              using hot_stock_state_init_Inr by (auto simp: from_update_def)
            with Inr new seq ok fresh after rep' show thesis by (intro applied) simp_all
          qed
        qed
      qed
    qed
  qed
qed

section \<open>The invariant of the store\<close>

definition cursor_covers :: "hot_store \<Rightarrow> hot_stock_state \<Rightarrow> bool" where
  "cursor_covers s v \<longleftrightarrow>
     (case dget (ho_cursors s) (hk_market_date v, hk_stock_id v, hk_source v) of
        None \<Rightarrow> False
      | Some c \<Rightarrow> hk_source_sequence v \<le> sc_source_sequence c
          \<and> instant (hk_received_at v) \<le> instant (sc_received_at c))"

definition hot_inv :: "hot_store \<Rightarrow> bool" where
  "hot_inv s \<longleftrightarrow>
     distinct (dkeys (ho_states s)) \<and> distinct (dkeys (ho_processed s)) \<and> distinct (dkeys (ho_cursors s))
     \<and> (\<forall>k v. dget (ho_states s) k = Some v \<longrightarrow> k = (hk_market_date v, hk_stock_id v)
          \<and> hot_stock_state_init v = Inr v \<and> dget (ho_processed s) (hk_last_message_id v) \<noteq> None
          \<and> cursor_covers s v)
     \<and> (\<forall>k c. dget (ho_cursors s) k = Some c \<longrightarrow>
          k = (sc_market_date c, sc_stock_id c, sc_source c) \<and> source_cursor_init c = Inr c)"

lemma hot_inv_cursor:
  "hot_inv s \<Longrightarrow> dget (ho_cursors s) k = Some c \<Longrightarrow>
     k = (sc_market_date c, sc_stock_id c, sc_source c) \<and> source_cursor_init c = Inr c"
  unfolding hot_inv_def by blast

lemma hot_inv_state:
  "hot_inv s \<Longrightarrow> dget (ho_states s) k = Some v \<Longrightarrow> k = (hk_market_date v, hk_stock_id v)
     \<and> hot_stock_state_init v = Inr v \<and> dget (ho_processed s) (hk_last_message_id v) \<noteq> None
     \<and> cursor_covers s v"
  unfolding hot_inv_def by blast

lemma hot_inv_distinct:
  "hot_inv s \<Longrightarrow> distinct (dkeys (ho_states s)) \<and> distinct (dkeys (ho_processed s))
     \<and> distinct (dkeys (ho_cursors s))"
  unfolding hot_inv_def by blast

lemma hot_inv_empty: "hot_inv empty_hot_store"
  by (simp add: hot_inv_def empty_hot_store_def)

lemma hot_inv_processed: "hot_inv s \<Longrightarrow> hot_inv (processed s i f)"
proof -
  assume inv: "hot_inv s"
  have same: "cursor_covers (processed s i f) v = cursor_covers s v" for v
    by (simp add: cursor_covers_def processed_def)
  from hot_inv_distinct [OF inv] hot_inv_state [OF inv] hot_inv_cursor [OF inv] show ?thesis
    unfolding hot_inv_def same by (simp add: processed_def)
qed

lemma cursor_covers_recorded:
  assumes "cursor_covers s v" and "\<not> stale_sequence s u"
  shows "cursor_covers (cursor_recorded H s u) v"
  using assms
  by (auto simp: cursor_covers_def cursor_recorded_def processed_def cursor_key_def cursor_after_def
      stale_sequence_def split: option.splits)

lemma hot_inv_recorded:
  assumes "hot_inv s" "\<not> stale_sequence s u" "source_cursor_init (cursor_after s u) = Inr (cursor_after s u)"
  shows "hot_inv (cursor_recorded H s u)"
proof -
  have "k = (sc_market_date c, sc_stock_id c, sc_source c) \<and> source_cursor_init c = Inr c"
    if "dget (dset (cursor_key u) (cursor_after s u) (ho_cursors s)) k = Some c" for k c
  proof (cases "k = cursor_key u")
    case True
    with that have "c = cursor_after s u" by simp
    with True assms(3) show ?thesis by (simp add: cursor_key_def cursor_after_def)
  next
    case False
    with that have "dget (ho_cursors s) k = Some c" by simp
    with assms(1) show ?thesis by (rule hot_inv_cursor)
  qed
  moreover have "cursor_covers (cursor_recorded H s u) v" if "dget (ho_states s) k = Some v" for k v
    using hot_inv_state [OF assms(1) that] assms(2) by (simp add: cursor_covers_recorded)
  moreover have "k = (hk_market_date v, hk_stock_id v) \<and> hot_stock_state_init v = Inr v
      \<and> dget (ho_processed s) (hk_last_message_id v) \<noteq> None" if "dget (ho_states s) k = Some v" for k v
    using hot_inv_state [OF assms(1) that] by simp
  moreover note hot_inv_distinct [OF assms(1)]
  ultimately show ?thesis
    unfolding hot_inv_def by (simp add: cursor_recorded_def processed_def)
qed

lemma hot_inv_applied:
  assumes inv: "hot_inv t" and v: "hot_stock_state_init (hot_state_of u n) = Inr (hot_state_of u n)"
    and "dget (ho_processed t) (ru_message_id u) \<noteq> None"
    and "cursor_covers t (hot_state_of u n)"
  shows "hot_inv (t\<lparr>ho_states := dset (stock_key u) (hot_state_of u n) (ho_states t)\<rparr>)"
proof -
  have same: "cursor_covers (t\<lparr>ho_states := x\<rparr>) w = cursor_covers t w" for x w
    by (simp add: cursor_covers_def)
  have "hk_market_date (hot_state_of u n) = ru_market_date u" "hk_stock_id (hot_state_of u n) = ru_stock_id u"
    "hk_last_message_id (hot_state_of u n) = ru_message_id u"
    by (simp_all add: hot_state_of_def)
  then have "k = (hk_market_date w, hk_stock_id w) \<and> hot_stock_state_init w = Inr w
      \<and> dget (ho_processed t) (hk_last_message_id w) \<noteq> None \<and> cursor_covers t w"
    if "dget (dset (stock_key u) (hot_state_of u n) (ho_states t)) k = Some w" for k w
    using that v assms(3,4) hot_inv_state [OF inv, of k w]
    by (simp add: stock_key_def split: if_splits)
  with hot_inv_distinct [OF inv] hot_inv_cursor [OF inv] show ?thesis
    unfolding hot_inv_def same by simp
qed

lemma cursor_covers_new:
  "cursor_covers (cursor_recorded H s u) (hot_state_of u n)"
  by (auto simp: cursor_covers_def cursor_recorded_def processed_def cursor_key_def cursor_after_def
      hot_state_of_def split: option.splits)

lemma ho_states_recorded [simp]: "ho_states (cursor_recorded H s u) = ho_states s"
  by (simp add: cursor_recorded_def processed_def)

lemma ho_processed_recorded [simp]:
  "ho_processed (cursor_recorded H s u) = dset (ru_message_id u) (update_fingerprint H u) (ho_processed s)"
  by (simp add: cursor_recorded_def processed_def)

lemma hot_inv_apply:
  assumes "hot_inv s"
  shows "hot_inv (fst (hot_apply H s u))"
proof (cases rule: hot_apply_cases [of s u H])
  case applied
  with hot_inv_applied [OF hot_inv_recorded [OF assms applied(2,3)], of u "next_version s u"]
  show ?thesis by (auto simp: from_update_def cursor_covers_new)
qed (use assms in \<open>auto intro: hot_inv_processed hot_inv_recorded\<close>)

text \<open>The store is a machine that keeps its invariant and a sink that processes a message once.\<close>

definition hot_seen :: "hot_store \<Rightarrow> string \<Rightarrow> string option" where
  "hot_seen s i = dget (ho_processed s) i"

interpretation hot: idempotent_sink "hot_apply H" hot_inv ru_message_id "update_fingerprint H" hot_seen
  for H
proof
  fix s u assume "hot_inv s"
  then show "hot_inv (fst (hot_apply H s u))" by (rule hot_inv_apply)
  show "hot_seen (fst (hot_apply H s u)) k = Some f" if "hot_seen s k = Some f" for k f
    using that by (cases rule: hot_apply_cases [of s u H]) (auto simp: hot_seen_def processed_def)
  show "hot_seen (fst (hot_apply H s u)) (ru_message_id u) = Some (update_fingerprint H u)"
    if "snd (hot_apply H s u) = Inr r" for r
    using that by (cases rule: hot_apply_cases [of s u H]) (auto simp: hot_seen_def processed_def)
  show "fst (hot_apply H s u) = s" if "hot_seen s (ru_message_id u) = Some (update_fingerprint H u)"
    using that by (cases rule: hot_apply_cases [of s u H]) (auto simp: hot_seen_def)
  show "fst (hot_apply H s u) = s \<and> (\<exists>e. snd (hot_apply H s u) = Inl e)"
    if "hot_seen s (ru_message_id u) = Some f" "f \<noteq> update_fingerprint H u" for f
    using that by (cases rule: hot_apply_cases [of s u H]) (auto simp: hot_seen_def)
qed

lemma hot_reachable: "hot_inv (run (hot_apply H) empty_hot_store us)"
  by (rule hot.run_inv [OF hot_inv_empty])

section \<open>Order of the states\<close>

lemma current_order_hot_state_of [simp]: "current_order (hot_state_of u n) = incoming_order u"
  by (simp add: current_order_def incoming_order_def hot_state_of_def)

lemma hk_version_hot_state_of [simp]: "hk_version (hot_state_of u n) = n"
  by (simp add: hot_state_of_def)

lemma ho_states_processed [simp]: "ho_states (processed s i f) = ho_states s"
  by (simp add: processed_def)

lemma hot_apply_states:
  "ho_states (fst (hot_apply H s u)) = ho_states s
   \<or> (\<forall>p. dget (ho_states s) (stock_key u) = Some p \<longrightarrow> current_order p < incoming_order u)
      \<and> ho_states (fst (hot_apply H s u))
          = dset (stock_key u) (hot_state_of u (next_version s u)) (ho_states s)"
  by (cases rule: hot_apply_cases [of s u H]) auto

definition state_grows :: "hot_stock_state \<Rightarrow> hot_stock_state \<Rightarrow> bool" where
  "state_grows p v \<longleftrightarrow> v = p \<or> hk_version p < hk_version v \<and> current_order p < current_order v"

lemma hot_run_grows:
  "dget (ho_states s) k = Some p \<Longrightarrow>
     \<exists>v. dget (ho_states (run (hot_apply H) s us)) k = Some v \<and> state_grows p v"
proof (induction us arbitrary: s p)
  case Nil
  then show ?case by (simp add: state_grows_def)
next
  case (Cons u us)
  have "\<exists>q. dget (ho_states (fst (hot_apply H s u))) k = Some q \<and> state_grows p q"
    using hot_apply_states [of H s u] Cons.prems
    by (auto simp: state_grows_def next_version_def)
  then obtain q where q: "dget (ho_states (fst (hot_apply H s u))) k = Some q" "state_grows p q" by blast
  from Cons.IH [OF q(1)] q(2) show ?case
    by (auto simp: state_grows_def)
qed

text \<open>
  C17. Whatever updates arrive, late, repeated, invalid or out of order, the state of a stock never
  goes back: it stays as it is, or its version and its order key (event time, receipt time, source,
  sequence, message id) both grow, and a stock never loses its state.
\<close>

theorem hot_state_monotone:
  assumes "hot_get (run (hot_apply H) empty_hot_store us) d i = Some p"
  shows "\<exists>v. hot_get (run (hot_apply H) empty_hot_store (us @ vs)) d i = Some v
    \<and> (v = p \<or> hk_version p < hk_version v \<and> current_order p < current_order v)"
  using assms hot_run_grows [of "run (hot_apply H) empty_hot_store us" "(d, i)" p H vs]
  by (simp add: hot_get_def state_grows_def)

text \<open>Updates of stock \<open>a\<close> from one source, for the examples; the hash keeps the message apart.\<close>

fun update_hash :: hash where
  "update_hash (Dump (JObj fs)) =
     (case (dget fs ''messageId'', dget fs ''sourceSequence'') of
        (Some (JStr i), Some (JInt n)) \<Rightarrow> i @ (if n \<le> 1 then ''1'' else ''2'')
      | _ \<Rightarrow> ''h'')"
| "update_hash _ = ''h''"

definition sample_update :: "string \<Rightarrow> int \<Rightarrow> int \<Rightarrow> rat \<Rightarrow> stock_realtime_update" where
  "sample_update i n t price =
     \<lparr>ru_message_id = i, ru_stock_id = ''a'', ru_market_date = 8, ru_source = ''k'',
      ru_source_sequence = n, ru_occurred_at = Aware t 0, ru_received_at = Aware t 0,
      ru_current_price = Some (Fin price), ru_cumulative_trading_value = None,
      ru_base_price = None, ru_fresh = True, ru_trading_halted = False,
      ru_corporate_action_unresolved = False, ru_lineage = []\<rparr>"

definition sample_hot :: hot_store where
  "sample_hot = run (hot_apply update_hash) empty_hot_store [sample_update ''m1'' 1 10 100]"

lemma sample_hot_state:
  "hot_get (run (hot_apply update_hash) empty_hot_store [sample_update ''m1'' 1 10 100]) 8 ''a''
     = Some (hot_state_of (sample_update ''m1'' 1 10 100) 1)"
  by code_simp

theorem hot_state_monotone_witness:
  "\<exists>v. hot_get (run (hot_apply update_hash) empty_hot_store
       ([sample_update ''m1'' 1 10 100] @ [sample_update ''m2'' 2 5 90])) 8 ''a'' = Some v
     \<and> 1 \<le> hk_version v"
proof -
  from hot_state_monotone [OF sample_hot_state, of "[sample_update ''m2'' 2 5 90]"] show ?thesis
    by auto
qed

section \<open>Redelivery\<close>

lemma hot_apply_seen:
  "dget (ho_processed s) (ru_message_id u) = Some f \<Longrightarrow> hot_apply H s u
     = (s, if f \<noteq> update_fingerprint H u then Inl HotStateIdempotencyConflict
           else hot_rejected HOT_DUPLICATE (dget (ho_states s) (stock_key u)))"
  by (simp add: hot_apply_def Let_def)

text \<open>
  Once an update was processed, whatever its outcome, its redelivery after any other updates
  is reported as a duplicate with the present state and changes nothing, and another update under
  its message id is refused.
\<close>

theorem hot_redelivery:
  assumes "snd (hot_apply H (run (hot_apply H) empty_hot_store us) u) = Inr r"
    and "t = run (hot_apply H) empty_hot_store (us @ u # vs)"
  shows "hot_apply H t u = (t, hot_rejected HOT_DUPLICATE (dget (ho_states t) (stock_key u)))
    \<and> (\<forall>w. ru_message_id w = ru_message_id u \<longrightarrow> update_fingerprint H w \<noteq> update_fingerprint H u
         \<longrightarrow> hot_apply H t w = (t, Inl HotStateIdempotencyConflict))"
proof -
  have "dget (ho_processed t) (ru_message_id u) = Some (update_fingerprint H u)"
    using hot.seen_after_run [OF hot_reachable assms(1), of vs] by (simp add: assms(2) hot_seen_def)
  then show ?thesis by (simp add: hot_apply_seen)
qed

lemma sample_hot_applied:
  "snd (hot_apply update_hash (run (hot_apply update_hash) empty_hot_store []) (sample_update ''m1'' 1 10 100))
    = Inr \<lparr>ha_disposition = HOT_APPLIED, ha_previous = None,
           ha_current = Some (hot_state_of (sample_update ''m1'' 1 10 100) 1)\<rparr>"
  by code_simp

lemma sample_fingerprints:
  "update_fingerprint update_hash (sample_update ''m1'' 2 10 100)
     \<noteq> update_fingerprint update_hash (sample_update ''m1'' 1 10 100)"
  by code_simp

theorem hot_redelivery_witness:
  "snd (hot_apply update_hash (run (hot_apply update_hash) empty_hot_store
     ([] @ sample_update ''m1'' 1 10 100 # [sample_update ''m2'' 2 20 90])) (sample_update ''m1'' 2 10 100))
   = Inl HotStateIdempotencyConflict"
proof -
  have "ru_message_id (sample_update ''m1'' 2 10 100) = ru_message_id (sample_update ''m1'' 1 10 100)"
    by (simp add: sample_update_def)
  with hot_redelivery [OF sample_hot_applied refl, of "[sample_update ''m2'' 2 20 90]"] sample_fingerprints
  show ?thesis by simp
qed

section \<open>Sources that deliver in order\<close>

text \<open>
  Each source delivers the updates of a stock with growing sequence numbers and receipt times that
  do not go back.  Nothing is assumed on the interleaving of sources or on event times.
\<close>

definition in_source_order :: "stock_realtime_update \<Rightarrow> stock_realtime_update \<Rightarrow> bool" where
  "in_source_order u v \<longleftrightarrow> (cursor_key u = cursor_key v \<longrightarrow>
     ru_source_sequence u < ru_source_sequence v
     \<and> instant (ru_received_at u) \<le> instant (ru_received_at v))"

definition orderly :: "stock_realtime_update list \<Rightarrow> bool" where
  "orderly us \<longleftrightarrow> (\<forall>u\<in>set us. stock_realtime_update_init u = Inr u)
     \<and> distinct (map ru_message_id us) \<and> sorted_wrt in_source_order us"

lemma update_init_parts:
  assumes "stock_realtime_update_init u = Inr u"
  shows "\<not> blank (ru_message_id u)" "\<not> blank (ru_stock_id u)" "\<not> blank (ru_source u)"
    "0 \<le> ru_source_sequence u" "is_aware (ru_occurred_at u)" "is_aware (ru_received_at u)"
    "instant (ru_occurred_at u) \<le> instant (ru_received_at u)" "\<exists>x. update_to_observation u = Inr x"
  using assms unfolding stock_realtime_update_init_def bind_result_Inr_iff validate_Inr_iff by auto

lemma from_update_valid:
  assumes "stock_realtime_update_init u = Inr u" and "1 \<le> n"
  shows "from_update u n = Inr (hot_state_of u n)"
proof -
  have "state_to_observation (hot_state_of u n) = update_to_observation u"
    by (simp add: state_to_observation_def update_to_observation_def hot_state_of_def)
  with update_init_parts [OF assms(1)] assms(2) show ?thesis
    unfolding from_update_def hot_stock_state_init_def
    by (auto simp: hot_state_of_def)
qed

lemma cursor_after_valid:
  assumes "stock_realtime_update_init u = Inr u" and "hot_inv s"
  shows "source_cursor_init (cursor_after s u) = Inr (cursor_after s u)"
proof -
  have "is_aware (sc_received_at c)" if "dget (ho_cursors s) (cursor_key u) = Some c" for c
    using hot_inv_cursor [OF assms(2) that] unfolding source_cursor_init_def validate_Inr_iff by simp
  with update_init_parts [OF assms(1)] show ?thesis
    unfolding source_cursor_init_def by (auto simp: cursor_after_def split: option.splits)
qed

lemma next_version_pos: "hot_inv s \<Longrightarrow> 1 \<le> next_version s u"
  using hot_inv_state [of s "stock_key u"]
  unfolding next_version_def hot_stock_state_init_def bind_result_Inr_iff validate_Inr_iff
  by (force split: option.splits)

text \<open>What the store holds after the updates \<open>us\<close>: the cursors and, for each stock, the latest.\<close>

definition cursors_latest :: "stock_realtime_update list \<Rightarrow> hot_store \<Rightarrow> bool" where
  "cursors_latest us s \<longleftrightarrow> (\<forall>k c. dget (ho_cursors s) k = Some c \<longrightarrow>
     (\<exists>u\<in>set us. cursor_key u = k \<and> sc_source_sequence c = ru_source_sequence u
        \<and> instant (sc_received_at c) = instant (ru_received_at u)))"

definition is_latest ::
  "stock_realtime_update list \<Rightarrow> date \<times> string \<Rightarrow> hot_stock_state option \<Rightarrow> bool" where
  "is_latest us k state \<longleftrightarrow>
     (case state of
        None \<Rightarrow> \<forall>u\<in>set us. stock_key u \<noteq> k
      | Some v \<Rightarrow> \<exists>u\<in>set us. stock_key u = k \<and> v = hot_state_of u (hk_version v)
          \<and> (\<forall>w\<in>set us. stock_key w = k \<longrightarrow> incoming_order w \<le> incoming_order u))"

lemma orderly_step:
  assumes "hot_inv s" and ord: "orderly (us @ [u])" and cur: "cursors_latest us s"
    and seen: "fst ` set (ho_processed s) \<subseteq> ru_message_id ` set us"
  shows "dget (ho_processed s) (ru_message_id u) = None" "\<not> stale_sequence s u" "\<not> stale_receipt s u"
    "source_cursor_init (cursor_after s u) = Inr (cursor_after s u)"
    "from_update u (next_version s u) = Inr (hot_state_of u (next_version s u))"
proof -
  have valid: "stock_realtime_update_init u = Inr u" and new: "ru_message_id u \<notin> ru_message_id ` set us"
    and sorted: "\<And>w. w \<in> set us \<Longrightarrow> in_source_order w u"
    using ord by (auto simp: orderly_def sorted_wrt_append)
  show "dget (ho_processed s) (ru_message_id u) = None"
    using new seen by (auto simp: map_of_eq_None_iff)
  have last: "sc_source_sequence c < ru_source_sequence u \<and> instant (sc_received_at c) \<le> instant (ru_received_at u)"
    if "dget (ho_cursors s) (cursor_key u) = Some c" for c
    using cur that sorted unfolding cursors_latest_def in_source_order_def by metis
  then show "\<not> stale_sequence s u"
    by (auto simp: stale_sequence_def not_le split: option.splits)
  from last show "\<not> stale_receipt s u"
    by (auto simp: stale_receipt_def not_less split: option.splits)
  show "source_cursor_init (cursor_after s u) = Inr (cursor_after s u)"
    using valid assms(1) by (rule cursor_after_valid)
  show "from_update u (next_version s u) = Inr (hot_state_of u (next_version s u))"
    using valid next_version_pos [OF assms(1)] by (rule from_update_valid)
qed

lemma cursors_latest_recorded:
  assumes "cursors_latest us s" and "\<not> stale_receipt s u"
  shows "cursors_latest (us @ [u]) (cursor_recorded H s u)"
proof -
  have "instant (sc_received_at (cursor_after s u)) = instant (ru_received_at u)"
    using assms(2) by (auto simp: cursor_after_def stale_receipt_def split: option.splits)
  with assms(1) show ?thesis
    by (auto simp: cursors_latest_def cursor_recorded_def processed_def cursor_after_def)
qed

lemma is_latest_keep:
  "is_latest us k (Some p) \<Longrightarrow> incoming_order u \<le> current_order p \<Longrightarrow> is_latest (us @ [u]) k (Some p)"
proof -
  assume "is_latest us k (Some p)" and le: "incoming_order u \<le> current_order p"
  then obtain x where x: "x \<in> set us" "stock_key x = k" "p = hot_state_of x (hk_version p)"
      "\<forall>w\<in>set us. stock_key w = k \<longrightarrow> incoming_order w \<le> incoming_order x"
    by (auto simp: is_latest_def)
  have "current_order p = incoming_order x" by (subst x(3)) simp
  with x le show ?thesis unfolding is_latest_def by auto
qed

lemma is_latest_other:
  "is_latest us k v \<Longrightarrow> stock_key u \<noteq> k \<Longrightarrow> is_latest (us @ [u]) k v"
  by (auto simp: is_latest_def split: option.splits)

lemma is_latest_new:
  assumes "is_latest us (stock_key u) old" and "\<And>p. old = Some p \<Longrightarrow> current_order p < incoming_order u"
  shows "is_latest (us @ [u]) (stock_key u) (Some (hot_state_of u n))"
proof -
  have "incoming_order w \<le> incoming_order u" if "w \<in> set us" "stock_key w = stock_key u" for w
  proof (cases old)
    case None
    with assms(1) that show ?thesis by (simp add: is_latest_def)
  next
    case (Some p)
    with assms(1) that have "incoming_order w \<le> current_order p"
      by (simp add: is_latest_def) (metis current_order_hot_state_of)
    also have "\<dots> < incoming_order u" using Some by (rule assms(2))
    finally show ?thesis by simp
  qed
  then show ?thesis by (auto simp: is_latest_def)
qed

lemma orderly_run:
  "orderly us \<Longrightarrow> cursors_latest us (run (hot_apply H) empty_hot_store us)
     \<and> fst ` set (ho_processed (run (hot_apply H) empty_hot_store us)) \<subseteq> ru_message_id ` set us
     \<and> (\<forall>k. is_latest us k (dget (ho_states (run (hot_apply H) empty_hot_store us)) k))"
proof (induction us rule: rev_induct)
  case Nil
  then show ?case by (simp add: cursors_latest_def is_latest_def empty_hot_store_def)
next
  case (snoc u us)
  let ?s = "run (hot_apply H) empty_hot_store us"
  have "orderly us" using snoc.prems by (simp add: orderly_def sorted_wrt_append)
  from snoc.IH [OF this] have cur: "cursors_latest us ?s"
    and seen: "fst ` set (ho_processed ?s) \<subseteq> ru_message_id ` set us"
    and lat: "\<And>k. is_latest us k (dget (ho_states ?s) k)" by blast+
  note step = orderly_step [OF hot_reachable snoc.prems cur seen]
  show ?case
  proof (cases rule: hot_apply_cases [of ?s u H])
    case (observation p)
    have "is_latest (us @ [u]) k (dget (ho_states ?s) k)" for k
      using lat [of k] observation(5,6) by (cases "k = stock_key u") (auto intro: is_latest_keep is_latest_other)
    with observation(7) cursors_latest_recorded [OF cur step(3)] seen show ?thesis by auto
  next
    case applied
    have "is_latest (us @ [u]) k (dget (dset (stock_key u) (hot_state_of u (next_version ?s u)) (ho_states ?s)) k)" for k
      using lat [of k] is_latest_new [OF lat applied(5)]
      by (cases "k = stock_key u") (auto intro: is_latest_other)
    moreover have "cursors_latest us' (t\<lparr>ho_states := x\<rparr>) = cursors_latest us' t" for us' t x
      by (simp add: cursors_latest_def)
    ultimately show ?thesis
      using applied(7) cursors_latest_recorded [OF cur step(3), of H] seen by auto
  qed (use step in auto)
qed

text \<open>
  C18. When every source delivers a stock's updates in order, the state of the stock is the update
  with the greatest order key of all that arrived, whatever the interleaving of the sources; a
  stock without updates has none.
\<close>

theorem hot_state_latest:
  assumes "orderly us"
  shows "case hot_get (run (hot_apply H) empty_hot_store us) d i of
     None \<Rightarrow> \<forall>u\<in>set us. (ru_market_date u, ru_stock_id u) \<noteq> (d, i)
   | Some v \<Rightarrow> \<exists>u\<in>set us. (ru_market_date u, ru_stock_id u) = (d, i)
       \<and> v = hot_state_of u (hk_version v)
       \<and> (\<forall>w\<in>set us. (ru_market_date w, ru_stock_id w) = (d, i) \<longrightarrow> incoming_order w \<le> incoming_order u)"
  using orderly_run [OF assms, of H] unfolding is_latest_def hot_get_def stock_key_def by blast

theorem hot_state_latest_witness:
  "map_option (hk_source_sequence)
     (hot_get (run (hot_apply update_hash) empty_hot_store
        [sample_update ''m1'' 1 10 100, sample_update ''m2'' 2 20 90]) 8 ''a'') = Some 2"
proof -
  let ?us = "[sample_update ''m1'' 1 10 100, sample_update ''m2'' 2 20 90]"
  have "stock_realtime_update_init (sample_update ''m1'' 1 10 100) = Inr (sample_update ''m1'' 1 10 100)"
    "stock_realtime_update_init (sample_update ''m2'' 2 20 90) = Inr (sample_update ''m2'' 2 20 90)"
    by code_simp+
  then have "orderly ?us" by (simp add: orderly_def in_source_order_def) (simp add: sample_update_def)
  from hot_state_latest [OF this, where H = update_hash and d = 8 and i = "''a''"] show ?thesis
    by (auto simp: hot_state_of_def sample_update_def incoming_order_def split: option.splits)
      (drule arg_cong [where f = hk_source_sequence], simp)
qed

section \<open>Restart from a checkpoint\<close>

text \<open>Two stores with the same lookups: dictionaries that differ only in their insertion order.\<close>

definition hot_equiv :: "hot_store \<Rightarrow> hot_store \<Rightarrow> bool" where
  "hot_equiv s t \<longleftrightarrow> dget (ho_states s) = dget (ho_states t)
     \<and> dget (ho_processed s) = dget (ho_processed t) \<and> dget (ho_cursors s) = dget (ho_cursors t)"

lemma hot_equiv_updates:
  assumes "hot_equiv s t"
  shows "hot_equiv (processed s i f) (processed t i f)"
    and "hot_equiv (cursor_recorded H s u) (cursor_recorded H t u)"
    and "hot_equiv s' t' \<Longrightarrow> hot_equiv (s'\<lparr>ho_states := dset k v (ho_states s)\<rparr>) (t'\<lparr>ho_states := dset k v (ho_states t)\<rparr>)"
  using assms by (simp_all add: hot_equiv_def processed_def cursor_recorded_def cursor_after_def update_conv')

lemma hot_equiv_reads:
  assumes "hot_equiv s t"
  shows "stale_sequence t u = stale_sequence s u" "stale_receipt t u = stale_receipt s u"
    "cursor_after t u = cursor_after s u" "next_version t u = next_version s u"
    "dget (ho_states t) = dget (ho_states s)" "dget (ho_processed t) = dget (ho_processed s)"
  using assms by (simp_all add: hot_equiv_def stale_sequence_def stale_receipt_def cursor_after_def next_version_def)

lemma hot_equiv_apply:
  assumes "hot_equiv s t"
  shows "hot_equiv (fst (hot_apply H s u)) (fst (hot_apply H t u))
    \<and> snd (hot_apply H s u) = snd (hot_apply H t u)"
proof -
  note reads = hot_equiv_reads [OF assms]
  show ?thesis
  proof (cases rule: hot_apply_cases [of s u H])
    case (sequence)
    with reads show ?thesis
      by (cases rule: hot_apply_cases [of t u H]) (simp_all add: hot_equiv_updates(1) [OF assms])
  next
    case (receipt)
    with reads show ?thesis
      by (cases rule: hot_apply_cases [of t u H]) (simp_all add: hot_equiv_updates(2) [OF assms])
  next
    case (observation p)
    with reads show ?thesis
      by (cases rule: hot_apply_cases [of t u H]) (auto simp: hot_equiv_updates(2) [OF assms])
  next
    case (unusable e)
    with reads show ?thesis
      by (cases rule: hot_apply_cases [of t u H]) (auto simp: hot_equiv_updates(2) [OF assms])
  next
    case applied
    with reads show ?thesis
      by (cases rule: hot_apply_cases [of t u H])
        (auto simp: hot_equiv_updates(3) [OF assms hot_equiv_updates(2) [OF assms]])
  qed (use assms reads in \<open>cases rule: hot_apply_cases [of t u H]; auto\<close>)+
qed

lemma hot_equiv_run: "hot_equiv s t \<Longrightarrow> hot_equiv (run (hot_apply H) s us) (run (hot_apply H) t us)"
  by (induction us arbitrary: s t) (simp_all add: hot_equiv_apply)

lemma foldl_dset_sorted:
  assumes "distinct (map fst xs)" and "\<And>x. x \<in> set xs \<Longrightarrow> dget d (fst x) = None"
  shows "dget (foldl (\<lambda>d (i, f). dset i f d) d xs) k = (case dget xs k of None \<Rightarrow> dget d k | Some f \<Rightarrow> Some f)
    \<and> length (foldl (\<lambda>d (i, f). dset i f d) d xs) = length d + length xs"
  using assms
proof (induction xs arbitrary: d)
  case (Cons x xs)
  have new: "fst x \<notin> fst ` set d" using Cons.prems(2) [of x] by (simp add: map_of_eq_None_iff)
  then have len: "length (dset (fst x) (snd x) d) = Suc (length d)"
    by (induction d) auto
  have "dget (dset (fst x) (snd x) d) (fst y) = None" if "y \<in> set xs" for y
    using Cons.prems(1) Cons.prems(2) [of y] that by (auto simp: image_iff)
  moreover have "distinct (map fst xs)" "fst x \<notin> fst ` set xs" using Cons.prems(1) by simp_all
  moreover from this(2) have "dget xs (fst x) = None" by (simp add: map_of_eq_None_iff)
  ultimately show ?case
    using Cons.IH [of "dset (fst x) (snd x) d"] len by (cases x) (auto split: option.splits)
qed simp

lemma dget_sort:
  fixes d :: "(string, string) dict"
  assumes "distinct (dkeys d)"
  shows "dget (sort d) = dget d"
proof -
  have "distinct (dkeys (sort d))" using assms by (simp add: distinct_map)
  with assms show ?thesis by (simp add: map_of_inject_set)
qed

lemma latest_of_bound:
  "latest_of ts d = d \<and> ts = [] \<or> latest_of ts d \<in> set ts"
proof (cases ts)
  case (Cons t us)
  have "foldl later t us = t \<or> foldl later t us \<in> set us" for t
    by (induction us arbitrary: t) (auto simp: later_def)
  with Cons show ?thesis by (auto simp: latest_of_def)
qed (simp add: latest_of_def)

lemma hot_checkpoint_possible:
  assumes inv: "hot_inv s" and aware: "is_aware created_at"
    and past: "\<And>k c. dget (ho_cursors s) k = Some c \<Longrightarrow> instant (sc_received_at c) \<le> instant created_at"
  shows "\<exists>c. hot_checkpoint s created_at = Inr c"
proof -
  let ?times = "map (hk_received_at \<circ> snd) (ho_states s) @ map (sc_received_at \<circ> snd) (ho_cursors s)"
  have cursor: "is_aware (sc_received_at c) \<and> instant (sc_received_at c) \<le> instant created_at"
    if "dget (ho_cursors s) k = Some c" for k c
    using hot_inv_cursor [OF inv that] past [OF that]
    unfolding source_cursor_init_def validate_Inr_iff by simp
  have state: "is_aware (hk_received_at v) \<and> instant (hk_received_at v) \<le> instant created_at"
    if "dget (ho_states s) k = Some v" for k v
  proof -
    from hot_inv_state [OF inv that] obtain c
      where "dget (ho_cursors s) (hk_market_date v, hk_stock_id v, hk_source v) = Some c"
        "instant (hk_received_at v) \<le> instant (sc_received_at c)" "hot_stock_state_init v = Inr v"
      by (auto simp: cursor_covers_def split: option.splits)
    with past show ?thesis
      unfolding hot_stock_state_init_def bind_result_Inr_iff validate_Inr_iff by fastforce
  qed
  have "is_aware t \<and> instant t \<le> instant created_at" if "t \<in> set ?times" for t
    using that state cursor hot_inv_distinct [OF inv] by (auto dest!: map_of_is_SomeI)
  with latest_of_bound [of ?times created_at] aware
  have "is_aware (latest_of ?times created_at) \<and> instant (latest_of ?times created_at) \<le> instant created_at"
    by (metis order_refl)
  moreover have "\<not> blank HOT_STATE_CHECKPOINT_VERSION" by code_simp
  ultimately show ?thesis
    using aware unfolding hot_checkpoint_def hot_state_checkpoint_init_def by simp
qed

lemma hot_apply_cursor_bound:
  assumes "\<And>k c. dget (ho_cursors s) k = Some c \<Longrightarrow> instant (sc_received_at c) \<le> b"
    and "instant (ru_received_at u) \<le> b" and "dget (ho_cursors (fst (hot_apply H s u))) k = Some c"
  shows "instant (sc_received_at c) \<le> b"
proof -
  have "instant (sc_received_at (cursor_after s u)) \<le> b"
    using assms(1) [of "cursor_key u"] assms(2) by (auto simp: cursor_after_def split: option.splits)
  moreover have "ho_cursors (fst (hot_apply H s u)) = ho_cursors s
      \<or> ho_cursors (fst (hot_apply H s u)) = dset (cursor_key u) (cursor_after s u) (ho_cursors s)"
    by (cases rule: hot_apply_cases [of s u H]) (simp_all add: processed_def cursor_recorded_def)
  ultimately show ?thesis using assms(1) [of k] assms(3) by (auto split: if_splits)
qed

lemma hot_restore_checkpoint:
  assumes inv: "hot_inv s" and c: "hot_checkpoint s created_at = Inr c"
  shows "\<exists>t. hot_restore c = Inr t \<and> hot_equiv s t"
proof -
  note dist = hot_inv_distinct [OF inv]
  have parts: "hc_checkpoint_version c = HOT_STATE_CHECKPOINT_VERSION"
    "hc_states c = sorted_values (ho_states s)" "hc_processed_messages c = sort (ho_processed s)"
    "hc_source_cursors c = sorted_values (ho_cursors s)"
    using c unfolding hot_checkpoint_def hot_state_checkpoint_init_def validate_Inr_iff by simp_all
  obtain states where states: "insert_distinct (\<lambda>s. (hk_market_date s, hk_stock_id s))
      (ValueError ''duplicate state'') [] (sorted_values (ho_states s)) = Inr states"
      "dget states = dget (ho_states s)"
    using insert_distinct_sorted_values [of "ho_states s" "\<lambda>s. (hk_market_date s, hk_stock_id s)"
        "ValueError ''duplicate state''"] dist hot_inv_state [OF inv] by auto
  obtain cursors where cursors: "insert_distinct (\<lambda>r. (sc_market_date r, sc_stock_id r, sc_source r))
      (ValueError ''duplicate cursor'') [] (sorted_values (ho_cursors s)) = Inr cursors"
      "dget cursors = dget (ho_cursors s)"
    using insert_distinct_sorted_values [of "ho_cursors s" "\<lambda>r. (sc_market_date r, sc_stock_id r, sc_source r)"
        "ValueError ''duplicate cursor''"] dist hot_inv_cursor [OF inv] by auto
  let ?m = "foldl (\<lambda>d (i, f). dset i f d) [] (sort (ho_processed s))"
  have "distinct (dkeys (sort (ho_processed s)))" using dist by (simp add: distinct_map)
  from foldl_dset_sorted [OF this, of "[]"] dist have messages: "dget ?m = dget (ho_processed s)"
      "length ?m = length (sort (ho_processed s))"
    by (auto simp: fun_eq_iff dget_sort split: option.splits)
  from states cursors messages show ?thesis
    by (simp add: hot_restore_def parts hot_equiv_def)
qed

text \<open>
  Restart transparency: a checkpoint taken after everything was received can be taken and
  restored, and the restored store answers every further update and every read exactly as the old
  one would.
\<close>

theorem hot_restart:
  assumes "s = run (hot_apply H) empty_hot_store us" and "is_aware created_at"
    and "list_all (\<lambda>u. instant (ru_received_at u) \<le> instant created_at) us"
  shows "\<exists>c t. hot_checkpoint s created_at = Inr c \<and> hot_restore c = Inr t
    \<and> (\<forall>vs u d is. snd (hot_apply H (run (hot_apply H) t vs) u) = snd (hot_apply H (run (hot_apply H) s vs) u)
         \<and> states_for (run (hot_apply H) t vs) d is = states_for (run (hot_apply H) s vs) d is)"
proof -
  have "instant (sc_received_at c) \<le> instant created_at"
    if "dget (ho_cursors (run (hot_apply H) empty_hot_store us)) k = Some c" for k c
    using that assms(3)
  proof (induction us arbitrary: k c rule: rev_induct)
    case Nil
    then show ?case by (simp add: empty_hot_store_def)
  next
    case (snoc u us)
    have bound: "instant (sc_received_at c) \<le> instant created_at"
      if "dget (ho_cursors (run (hot_apply H) empty_hot_store us)) k = Some c" for k c
      using snoc.IH [OF that] snoc.prems(2) by simp
    have "instant (ru_received_at u) \<le> instant created_at" using snoc.prems(2) by simp
    from hot_apply_cursor_bound [OF bound this] snoc.prems(1) show ?case by simp
  qed
  then obtain c where c: "hot_checkpoint s created_at = Inr c"
    using hot_checkpoint_possible [OF hot_reachable assms(2), of H us] assms(1) by blast
  obtain t where t: "hot_restore c = Inr t" "hot_equiv s t"
    using hot_restore_checkpoint [OF _ c] hot_reachable assms(1) by blast
  have "snd (hot_apply H (run (hot_apply H) t vs) u) = snd (hot_apply H (run (hot_apply H) s vs) u)
      \<and> states_for (run (hot_apply H) t vs) d is = states_for (run (hot_apply H) s vs) d is" for vs u d "is"
    using hot_equiv_run [OF t(2), of H vs] hot_equiv_apply [OF hot_equiv_run [OF t(2)]]
    by (simp add: hot_equiv_def states_for_def)
  with c t(1) show ?thesis by blast
qed

theorem hot_restart_witness:
  "\<exists>c t. hot_checkpoint sample_hot (Aware 50 0) = Inr c \<and> hot_restore c = Inr t
     \<and> snd (hot_apply update_hash t (sample_update ''m2'' 2 20 90))
         = snd (hot_apply update_hash sample_hot (sample_update ''m2'' 2 20 90))"
proof -
  have past: "list_all (\<lambda>u. instant (ru_received_at u) \<le> instant (Aware 50 0)) [sample_update ''m1'' 1 10 100]"
    by (simp add: sample_update_def)
  obtain c t where "hot_checkpoint sample_hot (Aware 50 0) = Inr c" "hot_restore c = Inr t"
    "\<forall>vs u d is. snd (hot_apply update_hash (run (hot_apply update_hash) t vs) u)
        = snd (hot_apply update_hash (run (hot_apply update_hash) sample_hot vs) u)
      \<and> states_for (run (hot_apply update_hash) t vs) d is
        = states_for (run (hot_apply update_hash) sample_hot vs) d is"
    using hot_restart [OF sample_hot_def _ past] by auto
  from this(1,2) spec [OF this(3), of "[]"] show ?thesis by auto
qed

text \<open>The base price is no part of the fingerprint.\<close>

lemma base_price_not_in_fingerprint: "update_fingerprint H (u\<lparr>ru_base_price := p\<rparr>) = update_fingerprint H u"
  by (simp add: update_fingerprint_def update_to_dict_def)

end
