(* ===== verification/Aggregation.thy ===== *)
theory Aggregation
  imports Theme_Metrics Hot_State
begin

text \<open>
  \<open>packages/realtime/aggregation.py\<close>: the catalog of membership snapshots, the dirty themes of a
  stock that changed, and the drain that recomputes them from the hot state.  Shown here: a marked
  theme stays pending until a drain has recomputed it at that time or later, a drain of marked
  themes can only fail for ambiguous reference data or in the rounding residual, a failed drain
  loses nothing, and a checkpoint restores the pending themes.
\<close>

section \<open>The catalog\<close>

definition DIRTY_THEME_CHECKPOINT_VERSION :: string where
  "DIRTY_THEME_CHECKPOINT_VERSION = ''dirty-theme-2026.08.1''"

record theme_catalog =
  tc_snapshots :: "theme_membership_snapshot list"
  tc_theme_ids :: "string list"

definition theme_catalog_init :: "theme_membership_snapshot list \<Rightarrow> theme_catalog result" where
  "theme_catalog_init snapshots = validate
     [(distinct (map (\<lambda>s. (ms_theme_id s, ms_effective_from s, instant (ms_known_at s), ms_version s))
         snapshots), ValueError ''duplicate snapshot'')]
     \<lparr>tc_snapshots = snapshots, tc_theme_ids = sorted_set (map ms_theme_id snapshots)\<rparr>"

definition catalog_select ::
  "theme_catalog \<Rightarrow> string \<Rightarrow> date \<Rightarrow> datetime \<Rightarrow> theme_membership_snapshot option result" where
  "catalog_select c theme_id market_date decision_at =
     select_membership_snapshot (tc_snapshots c) theme_id market_date decision_at"

fun affected_loop ::
  "theme_catalog \<Rightarrow> string \<Rightarrow> date \<Rightarrow> datetime \<Rightarrow> string list \<Rightarrow> string list result" where
  "affected_loop c stock_id market_date decision_at [] = Inr []"
| "affected_loop c stock_id market_date decision_at (theme_id # ids) =
     bind_result (catalog_select c theme_id market_date decision_at) (\<lambda>membership.
     bind_result (affected_loop c stock_id market_date decision_at ids) (\<lambda>affected.
       Inr (if (case membership of None \<Rightarrow> False | Some m \<Rightarrow> membership_contains m stock_id)
            then theme_id # affected else affected)))"

definition affected_themes :: "theme_catalog \<Rightarrow> string \<Rightarrow> date \<Rightarrow> datetime \<Rightarrow> string list result" where
  "affected_themes c stock_id market_date decision_at =
     affected_loop c stock_id market_date decision_at (tc_theme_ids c)"

section \<open>Dirty themes\<close>

record dirty_theme =
  dt_theme_id :: string
  dt_market_date :: date
  dt_as_of :: datetime

definition dirty_theme_init :: "dirty_theme \<Rightarrow> dirty_theme result" where
  "dirty_theme_init d = validate
     [(\<not> blank (dt_theme_id d), ValueError ''theme_id''),
      (is_aware (dt_as_of d), ValueError ''as_of aware'')] d"

definition dirty_theme_to_dict :: "dirty_theme \<Rightarrow> json" where
  "dirty_theme_to_dict d = JObj
     [(''themeId'', JStr (dt_theme_id d)), (''marketDate'', JDate (dt_market_date d)),
      (''asOf'', JTime (dt_as_of d))]"

record dirty_theme_checkpoint =
  dc_checkpoint_version :: string
  dc_created_at :: datetime
  dc_entries :: "dirty_theme list"

definition dirty_theme_checkpoint_init :: "dirty_theme_checkpoint \<Rightarrow> dirty_theme_checkpoint result" where
  "dirty_theme_checkpoint_init c = validate
     [(\<not> blank (dc_checkpoint_version c), ValueError ''checkpoint_version''),
      (is_aware (dc_created_at c), ValueError ''created_at aware''),
      (list_all (\<lambda>d. instant (dt_as_of d) \<le> instant (dc_created_at c)) (dc_entries c),
       ValueError ''created_at'')] c"

definition dirty_checkpoint_to_dict :: "dirty_theme_checkpoint \<Rightarrow> json" where
  "dirty_checkpoint_to_dict c = JObj
     [(''checkpointVersion'', JStr (dc_checkpoint_version c)),
      (''createdAt'', JTime (dc_created_at c)),
      (''entries'', JList (map dirty_theme_to_dict (dc_entries c)))]"

definition dirty_checkpoint_hash :: "hash \<Rightarrow> dirty_theme_checkpoint \<Rightarrow> string" where
  "dirty_checkpoint_hash H c = json_hash H (dirty_checkpoint_to_dict c)"

record theme_metric_update =
  tu_theme_id :: string
  tu_market_date :: date
  tu_as_of :: datetime
  tu_membership_version :: string
  tu_metrics :: theme_metrics

section \<open>The aggregator\<close>

record aggregator =
  ag_catalog :: theme_catalog
  ag_references :: "stock_reference list"
  ag_policy :: theme_calculation_policy
  ag_dirty :: "(string \<times> date, dirty_theme) dict"

definition aggregator_init ::
  "theme_catalog \<Rightarrow> stock_reference list \<Rightarrow> theme_calculation_policy \<Rightarrow> aggregator" where
  "aggregator_init c references policy =
     \<lparr>ag_catalog = c, ag_references = references, ag_policy = policy, ag_dirty = []\<rparr>"

definition add_reference :: "aggregator \<Rightarrow> stock_reference \<Rightarrow> aggregator" where
  "add_reference a reference = a\<lparr>ag_references := ag_references a @ [reference]\<rparr>"

fun mark_loop ::
  "date \<Rightarrow> datetime \<Rightarrow> (string \<times> date, dirty_theme) dict \<Rightarrow> string list
    \<Rightarrow> (string \<times> date, dirty_theme) dict \<times> unit result" where
  "mark_loop market_date decision_at d [] = (d, Inr ())"
| "mark_loop market_date decision_at d (theme_id # ids) =
     (case dirty_theme_init
         \<lparr>dt_theme_id = theme_id, dt_market_date = market_date,
          dt_as_of = (case dget d (theme_id, market_date) of
              None \<Rightarrow> decision_at
            | Some previous \<Rightarrow> later (dt_as_of previous) decision_at)\<rparr> of
        Inl e \<Rightarrow> (d, Inl e)
      | Inr entry \<Rightarrow> mark_loop market_date decision_at (dset (theme_id, market_date) entry d) ids)"

definition mark_stock ::
  "aggregator \<Rightarrow> string \<Rightarrow> date \<Rightarrow> datetime \<Rightarrow> aggregator \<times> string list result" where
  "mark_stock a stock_id market_date decision_at =
     (if \<not> is_aware decision_at then (a, Inl (ValueError ''decision_at aware''))
      else case affected_themes (ag_catalog a) stock_id market_date decision_at of
          Inl e \<Rightarrow> (a, Inl e)
        | Inr affected \<Rightarrow>
            (case mark_loop market_date decision_at (ag_dirty a) affected of
               (d, r) \<Rightarrow> (a\<lparr>ag_dirty := d\<rparr>, bind_result r (\<lambda>_. Inr affected))))"

definition pending :: "aggregator \<Rightarrow> dirty_theme list" where
  "pending a = sorted_values (ag_dirty a)"

definition eligible_references ::
  "stock_reference list \<Rightarrow> string \<Rightarrow> date \<Rightarrow> datetime \<Rightarrow> stock_reference list" where
  "eligible_references references stock_id market_date as_of =
     sort_key (\<lambda>r. (instant (sr_known_at r), sr_version r))
       (filter (\<lambda>r. sr_stock_id r = stock_id \<and> sr_effective_for r = market_date
          \<and> instant (sr_known_at r) \<le> instant as_of) references)"

fun select_references ::
  "stock_reference list \<Rightarrow> date \<Rightarrow> datetime \<Rightarrow> string list \<Rightarrow> stock_reference list result" where
  "select_references references market_date as_of [] = Inr []"
| "select_references references market_date as_of (stock_id # ids) =
     (let eligible = eligible_references references stock_id market_date as_of
      in if eligible = [] then select_references references market_date as_of ids
         else let latest = last eligible
              in if 1 < length (filter (\<lambda>r. instant (sr_known_at r) = instant (sr_known_at latest)) eligible)
                 then Inl (ValueError ''ambiguous reference'')
                 else bind_result (select_references references market_date as_of ids)
                        (\<lambda>selected. Inr (latest # selected)))"

definition recompute :: "aggregator \<Rightarrow> hot_store \<Rightarrow> dirty_theme \<Rightarrow> theme_metric_update result" where
  "recompute a hot dirty =
     bind_result (catalog_select (ag_catalog a) (dt_theme_id dirty) (dt_market_date dirty) (dt_as_of dirty))
       (\<lambda>selected. case selected of
          None \<Rightarrow> Inl (ValueError ''no membership'')
        | Some membership \<Rightarrow>
            let stock_ids = map tm_stock_id (ms_members membership);
                states = states_for hot (dt_market_date dirty) stock_ids
            in bind_result (select_references (ag_references a) (dt_market_date dirty) (dt_as_of dirty)
                   (sorted_set stock_ids)) (\<lambda>references.
               bind_result (map_result state_to_observation states) (\<lambda>observations.
               bind_result (calculate_theme_metrics (dt_market_date dirty) (dt_as_of dirty) membership
                   references observations (ag_policy a)) (\<lambda>metrics.
                 Inr \<lparr>tu_theme_id = dt_theme_id dirty, tu_market_date = dt_market_date dirty,
                      tu_as_of = dt_as_of dirty, tu_membership_version = ms_version membership,
                      tu_metrics = metrics\<rparr>))))"

definition drain :: "aggregator \<Rightarrow> hot_store \<Rightarrow> aggregator \<times> theme_metric_update list result" where
  "drain a hot =
     (let batch = pending a
      in case map_result (recompute a hot) batch of
           Inl e \<Rightarrow> (a, Inl e)
         | Inr updates \<Rightarrow>
             (a\<lparr>ag_dirty := foldl (\<lambda>d e. ddel (dt_theme_id e, dt_market_date e) d) (ag_dirty a) batch\<rparr>,
              Inr updates))"

definition dirty_checkpoint :: "aggregator \<Rightarrow> datetime \<Rightarrow> dirty_theme_checkpoint result" where
  "dirty_checkpoint a created_at = dirty_theme_checkpoint_init
     \<lparr>dc_checkpoint_version = DIRTY_THEME_CHECKPOINT_VERSION, dc_created_at = created_at,
      dc_entries = pending a\<rparr>"

definition dirty_restore :: "aggregator \<Rightarrow> dirty_theme_checkpoint \<Rightarrow> aggregator \<times> unit result" where
  "dirty_restore a c =
     (if dc_checkpoint_version c \<noteq> DIRTY_THEME_CHECKPOINT_VERSION
      then (a, Inl (ValueError ''checkpoint_version''))
      else case insert_distinct (\<lambda>e. (dt_theme_id e, dt_market_date e)) (ValueError ''duplicate dirty theme'')
               [] (dc_entries c) of
          Inl e \<Rightarrow> (a, Inl e)
        | Inr d \<Rightarrow> (a\<lparr>ag_dirty := d\<rparr>, Inr ()))"

section \<open>The invariant\<close>

text \<open>
  Every entry is stored under its theme and day, and the catalog selects a membership for it at its
  time: an entry's time is one of the decision times at which the theme was affected.
\<close>

definition entry_ok :: "theme_catalog \<Rightarrow> dirty_theme \<Rightarrow> bool" where
  "entry_ok c e \<longleftrightarrow> is_aware (dt_as_of e)
     \<and> (\<exists>m. catalog_select c (dt_theme_id e) (dt_market_date e) (dt_as_of e) = Inr (Some m))"

definition dirty_ok :: "theme_catalog \<Rightarrow> (string \<times> date, dirty_theme) dict \<Rightarrow> bool" where
  "dirty_ok c d \<longleftrightarrow> distinct (dkeys d)
     \<and> (\<forall>k e. dget d k = Some e \<longrightarrow> k = (dt_theme_id e, dt_market_date e) \<and> entry_ok c e)"

definition aggregator_inv :: "aggregator \<Rightarrow> bool" where
  "aggregator_inv a \<longleftrightarrow> dirty_ok (ag_catalog a) (ag_dirty a)"

lemma dirty_okD: "dirty_ok c d \<Longrightarrow> dget d k = Some e \<Longrightarrow> k = (dt_theme_id e, dt_market_date e) \<and> entry_ok c e"
  unfolding dirty_ok_def by blast

lemma dirty_ok_dset:
  "dirty_ok c d \<Longrightarrow> entry_ok c e \<Longrightarrow> dirty_ok c (dset (dt_theme_id e, dt_market_date e) e d)"
  unfolding dirty_ok_def by simp

lemma affected_loop_selected:
  "affected_loop c i md t ids = Inr ths \<Longrightarrow>
     set ths \<subseteq> set ids \<and> (\<forall>th\<in>set ths. \<exists>m. catalog_select c th md t = Inr (Some m) \<and> membership_contains m i)"
  by (induction ids arbitrary: ths)
    (auto simp: bind_result_Inr_iff split: if_splits option.splits)

lemma mark_loop_ok:
  assumes "mark_loop md t d ths = (d', r)" and "dirty_ok c d" and "is_aware t"
    and "\<forall>th\<in>set ths. \<exists>m. catalog_select c th md t = Inr (Some m)"
  shows "dirty_ok c d'"
  using assms
proof (induction ths arbitrary: d)
  case (Cons th ths)
  let ?e = "\<lparr>dt_theme_id = th, dt_market_date = md, dt_as_of = (case dget d (th, md) of
      None \<Rightarrow> t | Some previous \<Rightarrow> later (dt_as_of previous) t)\<rparr>"
  have "entry_ok c ?e"
  proof (cases "dget d (th, md)")
    case None
    with Cons.prems(3,4) show ?thesis by (auto simp: entry_ok_def)
  next
    case (Some p)
    from dirty_okD [OF Cons.prems(2) this] Cons.prems(3,4) Some show ?thesis
      by (auto simp: entry_ok_def later_def)
  qed
  from dirty_ok_dset [OF Cons.prems(2) this] have "dirty_ok c (dset (th, md) ?e d)" by simp
  moreover have "dirty_theme_init ?e = Inr x \<Longrightarrow> x = ?e" for x
    unfolding dirty_theme_init_def validate_Inr_iff by simp
  ultimately show ?case
    using Cons.IH Cons.prems by (auto split: sum.splits)
qed simp

lemma mark_stock_inv: "aggregator_inv a \<Longrightarrow> aggregator_inv (fst (mark_stock a i md t))"
proof (cases "is_aware t")
  case True
  assume inv: "aggregator_inv a"
  show ?thesis
  proof (cases "affected_themes (ag_catalog a) i md t")
    case (Inr ths)
    then have "\<forall>th\<in>set ths. \<exists>m. catalog_select (ag_catalog a) th md t = Inr (Some m)"
      using affected_loop_selected by (fastforce simp: affected_themes_def)
    then have "dirty_ok (ag_catalog a) (fst (mark_loop md t (ag_dirty a) ths))"
      using mark_loop_ok [OF prod.collapse [symmetric]] inv True by (simp add: aggregator_inv_def)
    with Inr True show ?thesis
      by (cases "mark_loop md t (ag_dirty a) ths") (simp add: mark_stock_def aggregator_inv_def)
  qed (use inv True in \<open>simp add: mark_stock_def\<close>)
qed (simp add: mark_stock_def)

text \<open>What the pipeline does with the aggregator.\<close>

datatype aggregator_op =
    Mark string date datetime
  | AddReference stock_reference
  | Drain hot_store

fun aggregator_step ::
  "aggregator \<Rightarrow> aggregator_op \<Rightarrow> aggregator \<times> theme_metric_update list result" where
  "aggregator_step a (Mark i md t) = map_prod id (\<lambda>r. bind_result r (\<lambda>_. Inr [])) (mark_stock a i md t)"
| "aggregator_step a (AddReference r) = (add_reference a r, Inr [])"
| "aggregator_step a (Drain hot) = drain a hot"

lemma foldl_ddel_Nil:
  "fst ` set d \<subseteq> f ` set es \<Longrightarrow> foldl (\<lambda>d e. ddel (f e) d) d es = []"
proof (induction es arbitrary: d)
  case (Cons e es)
  have "fst ` set (ddel (f e) d) = fst ` set d - {f e}"
    using arg_cong [OF delete_keys [of "f e" d], of set] by simp
  then have "fst ` set (ddel (f e) d) \<subseteq> f ` set es" using Cons.prems by auto
  with Cons.IH show ?case by simp
qed simp

lemma drained_empty:
  assumes "aggregator_inv a"
  shows "foldl (\<lambda>d e. ddel (dt_theme_id e, dt_market_date e) d) (ag_dirty a) (pending a) = []"
proof (rule foldl_ddel_Nil)
  have "map (\<lambda>e. (dt_theme_id e, dt_market_date e)) (pending a) = sort (dkeys (ag_dirty a))"
    unfolding pending_def using assms
    by (intro map_sorted_values) (auto simp: aggregator_inv_def dest: dirty_okD)
  from arg_cong [OF this, of set]
  show "fst ` set (ag_dirty a) \<subseteq> (\<lambda>e. (dt_theme_id e, dt_market_date e)) ` set (pending a)"
    by simp
qed

lemma drain_eq:
  assumes "aggregator_inv a"
  shows "drain a hot = (case map_result (recompute a hot) (pending a) of
      Inl e \<Rightarrow> (a, Inl e) | Inr us \<Rightarrow> (a\<lparr>ag_dirty := []\<rparr>, Inr us))"
  by (cases "map_result (recompute a hot) (pending a)")
    (simp_all add: drain_def Let_def drained_empty [OF assms])

interpretation aggregation: invariant_machine aggregator_step aggregator_inv
proof
  fix a op assume inv: "aggregator_inv a"
  show "aggregator_inv (fst (aggregator_step a op))"
  proof (cases op)
    case (Drain hot)
    then show ?thesis
      using inv by (auto simp: drain_eq [OF inv] aggregator_inv_def dirty_ok_def split: sum.split)
  qed (use inv mark_stock_inv in \<open>auto simp: aggregator_inv_def add_reference_def\<close>)
qed

lemma aggregator_reachable:
  "aggregator_inv (run aggregator_step (aggregator_init c references policy) ops)"
  by (rule aggregation.run_inv) (simp add: aggregator_init_def aggregator_inv_def dirty_ok_def)

section \<open>A drain that can be trusted\<close>

lemma select_references_props:
  "select_references rs md t ids = Inr sel \<Longrightarrow> set (map sr_stock_id sel) \<subseteq> set ids
     \<and> (distinct ids \<longrightarrow> distinct (map sr_stock_id sel))"
proof (induction ids arbitrary: sel)
  case (Cons i ids)
  have "sr_stock_id (last (eligible_references rs i md t)) = i" if "eligible_references rs i md t \<noteq> []"
    using last_in_set [OF that] by (auto simp: eligible_references_def)
  with Cons show ?case
    by (fastforce simp: Let_def bind_result_Inr_iff split: if_splits)
qed simp

lemma select_references_Inl:
  "select_references rs md t ids = Inl e \<Longrightarrow> e = ValueError ''ambiguous reference''"
  by (induction ids) (auto simp: Let_def bind_result_def split: if_splits sum.splits)

lemma map_map_filter:
  "(\<And>k v. g k = Some v \<Longrightarrow> f v = k) \<Longrightarrow> map f (List.map_filter g ks) = filter (\<lambda>k. g k \<noteq> None) ks"
  by (induction ks) (auto simp: List.map_filter_simps split: option.splits)

lemma states_for_ids:
  assumes "hot_inv h"
  shows "map hk_stock_id (states_for h d is) = filter (\<lambda>i. dget (ho_states h) (d, i) \<noteq> None) (sorted_set is)"
  unfolding states_for_def by (rule map_map_filter) (auto dest: hot_inv_state [OF assms])

lemma states_for_valid:
  assumes "hot_inv h" and "v \<in> set (states_for h d is)"
  shows "hot_stock_state_init v = Inr v"
  using assms(2) hot_inv_state [OF assms(1)]
  by (auto simp: states_for_def List.map_filter_def)

lemma state_observation:
  assumes "hot_stock_state_init v = Inr v"
  shows "\<exists>x. state_to_observation v = Inr x" and "state_to_observation v = Inr x \<Longrightarrow> so_stock_id x = hk_stock_id v"
proof -
  show "\<exists>x. state_to_observation v = Inr x"
    using assms unfolding hot_stock_state_init_def bind_result_Inr_iff by blast
  show "so_stock_id x = hk_stock_id v" if "state_to_observation v = Inr x"
    using that unfolding state_to_observation_def stock_market_observation_init_def validate_Inr_iff by simp
qed

lemma map_result_total: "(\<And>x. x \<in> set xs \<Longrightarrow> \<exists>y. f x = Inr y) \<Longrightarrow> \<exists>ys. map_result f xs = Inr ys"
proof (induction xs)
  case (Cons x xs)
  then obtain y ys where "f x = Inr y" "map_result f xs = Inr ys" by force
  then show ?case by simp
qed simp

lemma map_result_map:
  "map_result f xs = Inr ys \<Longrightarrow> (\<And>x y. x \<in> set xs \<Longrightarrow> f x = Inr y \<Longrightarrow> g y = h x) \<Longrightarrow> map g ys = map h xs"
  by (induction xs arbitrary: ys) (auto simp: bind_result_Inr_iff)

lemma map_result_Inl: "map_result f xs = Inl e \<Longrightarrow> \<exists>x\<in>set xs. f x = Inl e"
proof (induction xs)
  case (Cons x xs)
  then show ?case
    by (cases "f x"; cases "map_result f xs") auto
qed simp

lemma recompute_outcome:
  assumes "entry_ok (ag_catalog a) d" and "hot_inv hot"
    and "\<forall>m\<in>set (tc_snapshots (ag_catalog a)). membership_valid m"
    and "theme_calculation_policy_init (ag_policy a) = Inr (ag_policy a)"
  shows "(\<exists>u. recompute a hot d = Inr u \<and> tu_theme_id u = dt_theme_id d
      \<and> tu_market_date u = dt_market_date d \<and> tu_as_of u = dt_as_of d)
    \<or> recompute a hot d \<in> {Inl (ValueError ''ambiguous reference''), Inl (ArithmeticError ''residual'')}"
proof -
  obtain m where m: "catalog_select (ag_catalog a) (dt_theme_id d) (dt_market_date d) (dt_as_of d) = Inr (Some m)"
    and aware: "is_aware (dt_as_of d)"
    using assms(1) by (auto simp: entry_ok_def)
  from select_membership_cases(2) [OF m [unfolded catalog_select_def]]
  have mem: "m \<in> set (tc_snapshots (ag_catalog a))" "ms_effective_from m \<le> dt_market_date d"
      "instant (ms_known_at m) \<le> instant (dt_as_of d)"
    by (auto simp: membership_eligible_def)
  let ?ids = "map tm_stock_id (ms_members m)"
  let ?states = "states_for hot (dt_market_date d) ?ids"
  obtain obs where obs: "map_result state_to_observation ?states = Inr obs"
    using map_result_total state_observation(1) states_for_valid [OF assms(2)] by metis
  from map_result_map [OF this, of so_stock_id hk_stock_id] state_observation(2) states_for_valid [OF assms(2)]
  have "map so_stock_id obs = map hk_stock_id ?states" by blast
  then have dist: "distinct (map so_stock_id obs)"
    by (simp add: states_for_ids [OF assms(2)])
  show ?thesis
  proof (cases "select_references (ag_references a) (dt_market_date d) (dt_as_of d) (sorted_set ?ids)")
    case (Inl e)
    with m select_references_Inl [OF Inl] show ?thesis by (simp add: recompute_def Let_def)
  next
    case (Inr refs)
    then have "distinct (map sr_stock_id refs)" using select_references_props by fastforce
    from theme_metrics_total [OF aware mem(2,3) _ assms(4) this dist] assms(3) mem(1)
    show ?thesis using m Inr obs by (auto simp: recompute_def Let_def)
  qed
qed

text \<open>
  A drain of a reachable aggregator over a reachable hot state recomputes every pending theme
  at its own time and leaves nothing pending, or it fails for ambiguous reference data or in the
  rounding residual of the weights and leaves the aggregator as it was: a pending theme always has
  its membership.
\<close>

theorem drain_outcome:
  assumes "\<forall>m\<in>set (tc_snapshots c). membership_valid m" and "theme_calculation_policy_init policy = Inr policy"
    and "a = run aggregator_step (aggregator_init c references policy) ops"
    and "hot = run (hot_apply H) empty_hot_store us"
  shows "case drain a hot of
     (a', Inr updates) \<Rightarrow> pending a' = [] \<and> map (\<lambda>u. (tu_theme_id u, tu_market_date u, tu_as_of u)) updates
         = map (\<lambda>d. (dt_theme_id d, dt_market_date d, dt_as_of d)) (pending a)
   | (a', Inl e) \<Rightarrow> a' = a \<and> (e = ValueError ''ambiguous reference'' \<or> e = ArithmeticError ''residual'')"
proof -
  have inv: "aggregator_inv a" unfolding assms(3) by (rule aggregator_reachable)
  have "ag_catalog (run aggregator_step b ops) = ag_catalog b \<and> ag_policy (run aggregator_step b ops) = ag_policy b" for b
  proof (induction ops arbitrary: b)
    case (Cons op ops)
    have "ag_catalog (fst (aggregator_step b op)) = ag_catalog b \<and> ag_policy (fst (aggregator_step b op)) = ag_policy b"
      by (cases op) (auto simp: mark_stock_def add_reference_def drain_def Let_def split: sum.split prod.split)
    with Cons.IH show ?case by simp
  qed simp
  then have same: "ag_catalog a = c" "ag_policy a = policy" by (simp_all add: assms(3) aggregator_init_def)
  have one: "(\<exists>u. recompute a hot d = Inr u \<and> tu_theme_id u = dt_theme_id d
        \<and> tu_market_date u = dt_market_date d \<and> tu_as_of u = dt_as_of d)
      \<or> recompute a hot d \<in> {Inl (ValueError ''ambiguous reference''), Inl (ArithmeticError ''residual'')}"
    if "d \<in> set (pending a)" for d
  proof (rule recompute_outcome)
    show "entry_ok (ag_catalog a) d"
      using that inv by (auto simp: pending_def set_sorted_values aggregator_inv_def dest: dirty_okD)
    show "hot_inv hot" unfolding assms(4) by (rule hot_reachable)
  qed (use assms(1,2) same in simp_all)
  show ?thesis
  proof (cases "map_result (recompute a hot) (pending a)")
    case (Inl e)
    with map_result_Inl [OF Inl] one drain_eq [OF inv, of hot] show ?thesis by fastforce
  next
    case (Inr us)
    have "map (\<lambda>u. (tu_theme_id u, tu_market_date u, tu_as_of u)) us
        = map (\<lambda>d. (dt_theme_id d, dt_market_date d, dt_as_of d)) (pending a)"
      by (rule map_result_map [OF Inr]) (use one in fastforce)
    with Inr drain_eq [OF inv, of hot] show ?thesis
      by (simp add: pending_def sorted_values_def List.map_filter_simps)
  qed
qed

definition sample_catalog :: theme_catalog where
  "sample_catalog = \<lparr>tc_snapshots = [sample_theme], tc_theme_ids = [''t'']\<rparr>"

theorem drain_outcome_witness:
  "case drain (run aggregator_step (aggregator_init sample_catalog [] THEME_CALCULATION_POLICY_V1)
       [Mark ''a'' 8 (Aware 30 0)]) (run (hot_apply update_hash) empty_hot_store []) of
     (a', Inr updates) \<Rightarrow> map tu_theme_id updates = [''t''] | (a', Inl e) \<Rightarrow> True"
proof -
  let ?a = "run aggregator_step (aggregator_init sample_catalog [] THEME_CALCULATION_POLICY_V1)
       [Mark ''a'' 8 (Aware 30 0)]"
  have "membership_valid sample_theme"
    by (simp add: sample_theme_def membership_valid_def theme_membership_snapshot_init_def theme_member_init_def)
  moreover have "theme_calculation_policy_init THEME_CALCULATION_POLICY_V1 = Inr THEME_CALCULATION_POLICY_V1"
    by (simp add: theme_calculation_policy_init_def THEME_CALCULATION_POLICY_V1_def unit_ratio_guards_def)
  moreover have "map (\<lambda>d. (dt_theme_id d, dt_market_date d, dt_as_of d)) (pending ?a) = [(''t'', 8, Aware 30 0)]"
    by code_simp
  ultimately show ?thesis
    using drain_outcome [of sample_catalog THEME_CALCULATION_POLICY_V1 ?a "[]" _ _ update_hash "[]", OF _ _ refl refl]
    by (auto simp: sample_catalog_def split: prod.split sum.split)
qed

section \<open>No change is lost\<close>

text \<open>The updates that the drains among some operations returned.\<close>

fun published_updates :: "aggregator \<Rightarrow> aggregator_op list \<Rightarrow> theme_metric_update list" where
  "published_updates a [] = []"
| "published_updates a (op # ops) =
     (case snd (aggregator_step a op) of Inl e \<Rightarrow> [] | Inr us \<Rightarrow> us)
     @ published_updates (fst (aggregator_step a op)) ops"

definition marked_since ::
  "(string \<times> date, dirty_theme) dict \<Rightarrow> string \<Rightarrow> date \<Rightarrow> datetime \<Rightarrow> bool" where
  "marked_since d th md t \<longleftrightarrow>
     (case dget d (th, md) of None \<Rightarrow> False | Some e \<Rightarrow> instant t \<le> instant (dt_as_of e))"

lemma marked_since_dset:
  "marked_since (dset (th', md') e d) th md t \<longleftrightarrow>
     (if th' = th \<and> md' = md then instant t \<le> instant (dt_as_of e) else marked_since d th md t)"
  by (auto simp: marked_since_def)

lemma mark_loop_since:
  assumes "mark_loop md' t' d ths = (d', r)" and "marked_since d th md t"
  shows "marked_since d' th md t"
  using assms
proof (induction ths arbitrary: d)
  case (Cons th' ths)
  let ?e = "\<lparr>dt_theme_id = th', dt_market_date = md', dt_as_of = (case dget d (th', md') of
      None \<Rightarrow> t' | Some previous \<Rightarrow> later (dt_as_of previous) t')\<rparr>"
  have "marked_since (dset (th', md') ?e d) th md t"
    using Cons.prems(2) by (auto simp: marked_since_dset marked_since_def split: option.splits)
  moreover have "dirty_theme_init ?e = Inr x \<Longrightarrow> x = ?e" for x
    unfolding dirty_theme_init_def validate_Inr_iff by simp
  ultimately show ?case using Cons by (auto split: sum.splits)
qed simp

lemma mark_loop_marks:
  assumes "mark_loop md t d ths = (d', Inr ())" and "th \<in> set ths"
  shows "marked_since d' th md t"
  using assms
proof (induction ths arbitrary: d)
  case (Cons th' ths)
  let ?e = "\<lparr>dt_theme_id = th', dt_market_date = md, dt_as_of = (case dget d (th', md) of
      None \<Rightarrow> t | Some previous \<Rightarrow> later (dt_as_of previous) t)\<rparr>"
  have ini: "dirty_theme_init ?e = Inr x \<Longrightarrow> x = ?e" for x
    unfolding dirty_theme_init_def validate_Inr_iff by simp
  then have loop: "mark_loop md t (dset (th', md) ?e d) ths = (d', Inr ())"
    using Cons.prems(1) by (auto split: sum.splits)
  show ?case
  proof (cases "th = th'")
    case True
    have "marked_since (dset (th', md) ?e d) th md t"
      using True by (auto simp: marked_since_dset split: option.splits)
    with loop show ?thesis by (rule mark_loop_since)
  qed (use Cons loop in auto)
qed simp

lemma marked_since_pending:
  assumes "aggregator_inv a" and "marked_since (ag_dirty a) th md t"
  shows "\<exists>e\<in>set (pending a). dt_theme_id e = th \<and> dt_market_date e = md \<and> instant t \<le> instant (dt_as_of e)"
  using assms by (auto simp: marked_since_def pending_def set_sorted_values aggregator_inv_def
      dest: dirty_okD split: option.splits)

lemma marked_step:
  assumes inv: "aggregator_inv a" and since: "marked_since (ag_dirty a) th md t"
  shows "marked_since (ag_dirty (fst (aggregator_step a op))) th md t
    \<or> (\<exists>us. snd (aggregator_step a op) = Inr us
        \<and> (\<exists>u\<in>set us. tu_theme_id u = th \<and> tu_market_date u = md \<and> instant t \<le> instant (tu_as_of u)))"
proof (cases op)
  case (Mark i md' t')
  have "marked_since (fst (mark_loop md' t' (ag_dirty a) ths)) th md t" for ths
    using mark_loop_since [OF prod.collapse [symmetric] since] .
  with Mark since show ?thesis
    by (auto simp: mark_stock_def split: sum.split prod.split) (metis fst_conv)
next
  case (Drain hot)
  show ?thesis
  proof (cases "map_result (recompute a hot) (pending a)")
    case (Inr us)
    obtain e where e: "e \<in> set (pending a)" "dt_theme_id e = th" "dt_market_date e = md"
        "instant t \<le> instant (dt_as_of e)"
      using marked_since_pending [OF inv since] by blast
    have "map (\<lambda>u. (tu_theme_id u, tu_market_date u, tu_as_of u)) us
        = map (\<lambda>d. (dt_theme_id d, dt_market_date d, dt_as_of d)) (pending a)"
      by (rule map_result_map [OF Inr])
        (auto simp: recompute_def bind_result_Inr_iff Let_def split: option.splits)
    with e have "(th, md, dt_as_of e) \<in> set (map (\<lambda>u. (tu_theme_id u, tu_market_date u, tu_as_of u)) us)"
      by (auto simp: image_iff)
    with e(4) Drain Inr drain_eq [OF inv, of hot] show ?thesis by auto
  qed (use Drain since drain_eq [OF inv, of hot] in simp)
qed (use since in \<open>simp add: add_reference_def\<close>)

lemma marked_run:
  assumes "aggregator_inv a" and "marked_since (ag_dirty a) th md t"
  shows "marked_since (ag_dirty (run aggregator_step a ops)) th md t
    \<or> (\<exists>u\<in>set (published_updates a ops). tu_theme_id u = th \<and> tu_market_date u = md
        \<and> instant t \<le> instant (tu_as_of u))"
  using assms
proof (induction ops arbitrary: a)
  case (Cons op ops)
  from marked_step [OF Cons.prems, of op] show ?case
  proof (elim disjE exE conjE)
    assume "marked_since (ag_dirty (fst (aggregator_step a op))) th md t"
    with Cons.IH [OF aggregation.step_inv [OF Cons.prems(1)]] show ?thesis by auto
  qed auto
qed simp

text \<open>
  C19. A change of a stock is not lost: when marking it reported a theme as affected, then after any
  further marks, reference data and drains, failed ones included, the theme is still pending at
  that time or later, or a drain has returned its metrics computed at that time or later.
\<close>

theorem mark_not_lost:
  assumes "a = run aggregator_step (aggregator_init c references policy) ops"
    and "mark_stock a i md t = (a', Inr affected)" and "th \<in> set affected"
  shows "(\<exists>e\<in>set (pending (run aggregator_step a' ops')). dt_theme_id e = th \<and> dt_market_date e = md
        \<and> instant t \<le> instant (dt_as_of e))
    \<or> (\<exists>u\<in>set (published_updates a' ops'). tu_theme_id u = th \<and> tu_market_date u = md
        \<and> instant t \<le> instant (tu_as_of u))"
proof -
  have inv: "aggregator_inv a'"
    using mark_stock_inv [of a i md t] aggregator_reachable assms(1,2) by (metis fst_conv)
  have "marked_since (ag_dirty a') th md t"
    using assms(2,3) mark_loop_marks
    by (auto simp: mark_stock_def bind_result_Inr_iff split: if_splits sum.splits prod.splits)
  from marked_run [OF inv this, of ops'] marked_since_pending [OF aggregation.run_inv [OF inv]]
  show ?thesis by blast
qed

lemma sample_mark:
  "mark_stock (run aggregator_step (aggregator_init sample_catalog [] THEME_CALCULATION_POLICY_V1) [])
     ''a'' 8 (Aware 30 0)
   = ((aggregator_init sample_catalog [] THEME_CALCULATION_POLICY_V1)\<lparr>ag_dirty :=
        [((''t'', 8), \<lparr>dt_theme_id = ''t'', dt_market_date = 8, dt_as_of = Aware 30 0\<rparr>)]\<rparr>, Inr [''t''])"
  by code_simp

theorem mark_not_lost_witness:
  "\<exists>e\<in>set (pending ((aggregator_init sample_catalog [] THEME_CALCULATION_POLICY_V1)\<lparr>ag_dirty :=
        [((''t'', 8), \<lparr>dt_theme_id = ''t'', dt_market_date = 8, dt_as_of = Aware 30 0\<rparr>)]\<rparr>)).
     dt_theme_id e = ''t'' \<and> 30 \<le> instant (dt_as_of e)"
  using mark_not_lost [OF refl sample_mark, of "''t''" "[]"] by auto

section \<open>Restart\<close>

lemma sorted_values_cong:
  assumes "distinct (dkeys d)" and "distinct (dkeys d')" and "dget d' = dget d"
  shows "sorted_values d' = sorted_values d"
proof -
  have "fst ` set d' = fst ` set d"
    using assms(3) by (metis dom_map_of_conv_image_fst)
  then have "sort (dkeys d') = sort (dkeys d)"
    using assms(1,2) by (intro sorted_distinct_set_unique) simp_all
  with assms(3) show ?thesis by (simp add: sorted_values_def)
qed

lemma insert_distinct_keys:
  "insert_distinct f e d xs = Inr d' \<Longrightarrow> distinct (dkeys d) \<Longrightarrow> distinct (dkeys d')"
  by (induction f e d xs rule: insert_distinct.induct) (auto split: if_splits)

text \<open>
  The pending themes survive a restart: their checkpoint can be taken at any time not before
  them, restoring it into an aggregator with the same catalog, references and policy makes the same
  themes pending, and draining gives the same updates or the same exception.
\<close>

theorem dirty_restart:
  assumes "a = run aggregator_step (aggregator_init c references policy) ops" and "is_aware now"
    and "list_all (\<lambda>e. instant (dt_as_of e) \<le> instant now) (pending a)"
    and "ag_catalog b = ag_catalog a" and "ag_references b = ag_references a" and "ag_policy b = ag_policy a"
  shows "\<exists>cp b'. dirty_checkpoint a now = Inr cp \<and> dirty_restore b cp = (b', Inr ())
    \<and> pending b' = pending a \<and> (\<forall>hot. snd (drain b' hot) = snd (drain a hot))"
proof -
  have inv: "aggregator_inv a" unfolding assms(1) by (rule aggregator_reachable)
  let ?cp = "\<lparr>dc_checkpoint_version = DIRTY_THEME_CHECKPOINT_VERSION, dc_created_at = now, dc_entries = pending a\<rparr>"
  have "\<not> blank DIRTY_THEME_CHECKPOINT_VERSION" by code_simp
  then have cp: "dirty_checkpoint a now = Inr ?cp"
    using assms(2,3) by (simp add: dirty_checkpoint_def dirty_theme_checkpoint_init_def)
  have dist: "distinct (dkeys (ag_dirty a))" using inv by (simp add: aggregator_inv_def dirty_ok_def)
  obtain d where d: "insert_distinct (\<lambda>e. (dt_theme_id e, dt_market_date e))
      (ValueError ''duplicate dirty theme'') [] (pending a) = Inr d" "dget d = dget (ag_dirty a)"
    using insert_distinct_sorted_values [OF dist, of "\<lambda>e. (dt_theme_id e, dt_market_date e)"
        "ValueError ''duplicate dirty theme''"] inv
    by (auto simp: pending_def aggregator_inv_def dest: dirty_okD)
  let ?b = "b\<lparr>ag_dirty := d\<rparr>"
  have same: "pending ?b = pending a"
    using sorted_values_cong [OF dist _ d(2)] insert_distinct_keys [OF d(1)] by (simp add: pending_def)
  have "recompute ?b hot = recompute a hot" for hot
    using assms(4-6) by (simp add: recompute_def fun_eq_iff cong: option.case_cong)
  then have "snd (drain ?b hot) = snd (drain a hot)" for hot
    by (simp add: drain_def Let_def same split: sum.split)
  moreover have "dirty_restore b ?cp = (?b, Inr ())" by (simp add: dirty_restore_def d(1))
  ultimately show ?thesis using cp same by blast
qed

theorem dirty_restart_witness:
  "\<exists>cp b'. dirty_checkpoint (run aggregator_step (aggregator_init sample_catalog []
        THEME_CALCULATION_POLICY_V1) [Mark ''a'' 8 (Aware 30 0)]) (Aware 40 0) = Inr cp
     \<and> dirty_restore (aggregator_init sample_catalog [] THEME_CALCULATION_POLICY_V1) cp = (b', Inr ())
     \<and> map dt_theme_id (pending b') = [''t'']"
proof -
  let ?a = "run aggregator_step (aggregator_init sample_catalog [] THEME_CALCULATION_POLICY_V1)
      [Mark ''a'' 8 (Aware 30 0)]"
  have p: "pending ?a = [\<lparr>dt_theme_id = ''t'', dt_market_date = 8, dt_as_of = Aware 30 0\<rparr>]"
    by code_simp
  have same: "ag_catalog (aggregator_init sample_catalog [] THEME_CALCULATION_POLICY_V1) = ag_catalog ?a"
    "ag_references (aggregator_init sample_catalog [] THEME_CALCULATION_POLICY_V1) = ag_references ?a"
    "ag_policy (aggregator_init sample_catalog [] THEME_CALCULATION_POLICY_V1) = ag_policy ?a"
    by (simp_all add: mark_stock_def aggregator_init_def split: sum.split prod.split)
  have aware: "is_aware (Aware 40 0)" by simp
  have past: "list_all (\<lambda>e. instant (dt_as_of e) \<le> instant (Aware 40 0)) (pending ?a)" by (simp only: p) simp
  obtain cp b' where "dirty_checkpoint ?a (Aware 40 0) = Inr cp
    \<and> dirty_restore (aggregator_init sample_catalog [] THEME_CALCULATION_POLICY_V1) cp = (b', Inr ())"
    and pend: "pending b' = pending ?a"
    using dirty_restart [OF refl aware past same] by blast
  moreover have "map dt_theme_id (pending b') = [''t'']" by (simp only: pend p) simp
  ultimately show ?thesis by (intro exI [of _ cp] exI [of _ b']) simp
qed

end
