(* ===== verification/Snapshots.thy ===== *)
theory Snapshots
  imports Domain_Models Event_Models
begin

text \<open>
  \<open>packages/realtime/snapshots.py\<close>: publications, read snapshots, the in-memory repository with its
  receipts and its rollback, and the message sent to a subscriber.  Shown here: the sequence numbers
  of a scope are contiguous and follow the publication time, a publication is accepted once and
  answered with the same snapshot ever after, and a failed commit can be retried.

  Snapshot ids are truncated hashes of the publication id and its fingerprint; where two different
  publications must not share one, that is a hypothesis on the publications at hand.
\<close>

section \<open>Publications\<close>

datatype snapshot_topic = THEME_RANK | THEME_TREEMAP | EVENT_STATE_CHANGED

fun topic_value :: "snapshot_topic \<Rightarrow> string" where
  "topic_value THEME_RANK = ''theme_rank_snapshot''"
| "topic_value THEME_TREEMAP = ''theme_treemap_snapshot''"
| "topic_value EVENT_STATE_CHANGED = ''event_state_changed''"

fun data_status_value :: "data_status \<Rightarrow> string" where
  "data_status_value PREOPEN = ''PREOPEN''"
| "data_status_value LIVE = ''LIVE''"
| "data_status_value DELAYED = ''DELAYED''"
| "data_status_value DEGRADED = ''DEGRADED''"
| "data_status_value STATUS_CLOSED = ''CLOSED''"

definition canonical_json :: "hash \<Rightarrow> json \<Rightarrow> string" where
  "canonical_json H v = H (Dump (canonical v))"

definition copy_json_object :: "json \<Rightarrow> json result" where
  "copy_json_object v =
     (case canonical v of JObj fs \<Rightarrow> Inr (JObj fs) | _ \<Rightarrow> Inl (TypeError ''payload''))"

fun utc_iso :: "datetime \<Rightarrow> json" where
  "utc_iso (Naive t) = JTime (Naive t)"
| "utc_iso (Aware t z) = JTime (Aware t 0)"

record snapshot_versions =
  vs_schema_version :: string
  vs_calculation_version :: string
  vs_ranking_model_version :: string
  vs_membership_version :: string
  vs_baseline_version :: "string option"

definition snapshot_versions_init :: "snapshot_versions \<Rightarrow> snapshot_versions result" where
  "snapshot_versions_init v = validate
     [(\<not> blank (vs_schema_version v), ValueError ''schema_version''),
      (\<not> blank (vs_calculation_version v), ValueError ''calculation_version''),
      (\<not> blank (vs_ranking_model_version v), ValueError ''ranking_model_version''),
      (\<not> blank (vs_membership_version v), ValueError ''membership_version''),
      (pred_option (\<lambda>x. \<not> blank x) (vs_baseline_version v), ValueError ''baseline_version'')] v"

definition snapshot_versions_to_dict :: "snapshot_versions \<Rightarrow> json" where
  "snapshot_versions_to_dict v = JObj
     [(''schemaVersion'', JStr (vs_schema_version v)),
      (''calculationVersion'', JStr (vs_calculation_version v)),
      (''rankingModelVersion'', JStr (vs_ranking_model_version v)),
      (''membershipVersion'', JStr (vs_membership_version v)),
      (''baselineVersion'', json_opt JStr (vs_baseline_version v))]"

record snapshot_publication =
  pb_publication_id :: string
  pb_stream_id :: string
  pb_topic :: snapshot_topic
  pb_params :: json
  pb_market_date :: date
  pb_generated_at :: datetime
  pb_as_of :: datetime
  pb_data_status :: data_status
  pb_quality_flags :: "string list"
  pb_payload :: json
  pb_versions :: snapshot_versions

definition snapshot_publication_init :: "snapshot_publication \<Rightarrow> snapshot_publication result" where
  "snapshot_publication_init p = bind_result (validate
     [(\<not> blank (pb_publication_id p), ValueError ''publication_id''),
      (\<not> blank (pb_stream_id p), ValueError ''stream_id''),
      (is_aware (pb_generated_at p), ValueError ''generated_at aware''),
      (is_aware (pb_as_of p), ValueError ''as_of aware''),
      (instant (pb_as_of p) \<le> instant (pb_generated_at p), ValueError ''as_of''),
      (distinct (pb_quality_flags p), ValueError ''quality_flags'')] p)
     (\<lambda>p. bind_result (copy_json_object (pb_params p)) (\<lambda>params.
          bind_result (copy_json_object (pb_payload p)) (\<lambda>payload.
            Inr (p\<lparr>pb_params := params, pb_payload := payload,
                   pb_quality_flags := sort (pb_quality_flags p)\<rparr>))))"

definition params_key :: "hash \<Rightarrow> json \<Rightarrow> string" where
  "params_key H params = opaque_id H ''params'' (Dump (canonical params))"

definition publication_fingerprint :: "hash \<Rightarrow> snapshot_publication \<Rightarrow> string" where
  "publication_fingerprint H p = canonical_json H (JObj
     [(''streamId'', JStr (pb_stream_id p)),
      (''topic'', JStr (topic_value (pb_topic p))),
      (''params'', pb_params p),
      (''marketDate'', JDate (pb_market_date p)),
      (''generatedAt'', utc_iso (pb_generated_at p)),
      (''asOf'', utc_iso (pb_as_of p)),
      (''dataStatus'', JStr (data_status_value (pb_data_status p))),
      (''qualityFlags'', JList (map JStr (sort (pb_quality_flags p)))),
      (''payload'', pb_payload p),
      (''versions'', snapshot_versions_to_dict (pb_versions p))])"

section \<open>Read snapshots\<close>

record read_snapshot =
  rs_snapshot_id :: string
  rs_publication_id :: string
  rs_stream_id :: string
  rs_topic :: snapshot_topic
  rs_params_key :: string
  rs_sequence :: int
  rs_market_date :: date
  rs_generated_at :: datetime
  rs_as_of :: datetime
  rs_data_status :: data_status
  rs_quality_flags :: "string list"
  rs_payload :: json
  rs_versions :: snapshot_versions
  rs_content_hash :: string

definition read_snapshot_init :: "read_snapshot \<Rightarrow> read_snapshot result" where
  "read_snapshot_init s = bind_result (validate
     [(1 \<le> rs_sequence s, ValueError ''sequence''),
      (instant (rs_as_of s) \<le> instant (rs_generated_at s), ValueError ''as_of'')] s)
     (\<lambda>s. bind_result (copy_json_object (rs_payload s)) (\<lambda>payload.
        Inr (s\<lparr>rs_payload := payload, rs_quality_flags := sort (rs_quality_flags s)\<rparr>)))"

text \<open>The payload of a ranking message gets the snapshot id in front; the payload must not have one.\<close>

definition wire_payload :: "read_snapshot \<Rightarrow> json result" where
  "wire_payload s =
     (if rs_topic s = THEME_RANK \<or> rs_topic s = THEME_TREEMAP
      then (case rs_payload s of
          JObj fs \<Rightarrow>
            if ''snapshotId'' \<in> set (map fst fs) then Inl (ValueError ''snapshotId'')
            else bind_result (copy_json_object (JObj fs)) (\<lambda>copied.
              Inr (case copied of JObj gs \<Rightarrow> JObj ((''snapshotId'', JStr (rs_snapshot_id s)) # gs)
                    | v \<Rightarrow> v))
        | _ \<Rightarrow> Inl (TypeError ''payload''))
      else copy_json_object (rs_payload s))"

definition to_ws_message :: "read_snapshot \<Rightarrow> string \<Rightarrow> json result" where
  "to_ws_message s subscription_id =
     (if blank subscription_id then Inl (ValueError ''subscription_id'')
      else bind_result (wire_payload s) (\<lambda>payload. Inr (JObj
        [(''type'', JStr (topic_value (rs_topic s))),
         (''schemaVersion'', JStr (vs_schema_version (rs_versions s))),
         (''subscriptionId'', JStr subscription_id),
         (''streamId'', JStr (rs_stream_id s)),
         (''topic'', JStr (topic_value (rs_topic s))),
         (''sequence'', JInt (rs_sequence s)),
         (''generatedAt'', utc_iso (rs_generated_at s)),
         (''asOf'', utc_iso (rs_as_of s)),
         (''marketDate'', JDate (rs_market_date s)),
         (''dataStatus'', JStr (data_status_value (rs_data_status s))),
         (''qualityFlags'', JList (map JStr (rs_quality_flags s))),
         (''payload'', payload)])))"

definition read_snapshot_to_dict :: "read_snapshot \<Rightarrow> json" where
  "read_snapshot_to_dict s = JObj
     [(''snapshotId'', JStr (rs_snapshot_id s)),
      (''publicationId'', JStr (rs_publication_id s)),
      (''streamId'', JStr (rs_stream_id s)),
      (''topic'', JStr (topic_value (rs_topic s))),
      (''paramsKey'', JStr (rs_params_key s)),
      (''sequence'', JInt (rs_sequence s)),
      (''marketDate'', JDate (rs_market_date s)),
      (''generatedAt'', utc_iso (rs_generated_at s)),
      (''asOf'', utc_iso (rs_as_of s)),
      (''dataStatus'', JStr (data_status_value (rs_data_status s))),
      (''qualityFlags'', JList (map JStr (rs_quality_flags s))),
      (''payload'', rs_payload s),
      (''versions'', snapshot_versions_to_dict (rs_versions s)),
      (''contentHash'', JStr (rs_content_hash s))]"

section \<open>The repository\<close>

type_synonym snapshot_scope = "string \<times> snapshot_topic \<times> string"

record snapshot_repository =
  sp_sequences :: "(snapshot_scope, int) dict"
  sp_snapshots :: "(string, read_snapshot) dict"
  sp_latest :: "(snapshot_scope, string) dict"
  sp_receipts :: "(string, string \<times> string) dict"
  sp_fail_next_commit :: bool

definition empty_repository :: snapshot_repository where
  "empty_repository = \<lparr>sp_sequences = [], sp_snapshots = [], sp_latest = [], sp_receipts = [],
     sp_fail_next_commit = False\<rparr>"

definition fail_next_publish :: "snapshot_repository \<Rightarrow> snapshot_repository" where
  "fail_next_publish s = s\<lparr>sp_fail_next_commit := True\<rparr>"

definition publication_scope :: "hash \<Rightarrow> snapshot_publication \<Rightarrow> snapshot_scope" where
  "publication_scope H p = (pb_stream_id p, pb_topic p, params_key H (pb_params p))"

definition snapshot_id :: "hash \<Rightarrow> snapshot_publication \<Rightarrow> string" where
  "snapshot_id H p = opaque_id H ''snap''
     (Plain (pb_publication_id p @ '':'' @ publication_fingerprint H p))"

definition next_sequence :: "snapshot_repository \<Rightarrow> snapshot_scope \<Rightarrow> int" where
  "next_sequence s scope = (case dget (sp_sequences s) scope of None \<Rightarrow> 0 | Some n \<Rightarrow> n) + 1"

definition content_hash :: "hash \<Rightarrow> snapshot_publication \<Rightarrow> int \<Rightarrow> json \<Rightarrow> string" where
  "content_hash H p sequence payload = canonical_json H (JObj
     [(''scope'', JList [JStr (pb_stream_id p), JStr (topic_value (pb_topic p)),
         JStr (params_key H (pb_params p))]),
      (''sequence'', JInt sequence),
      (''payload'', payload),
      (''versions'', snapshot_versions_to_dict (pb_versions p))])"

definition snapshot_of :: "hash \<Rightarrow> snapshot_publication \<Rightarrow> int \<Rightarrow> json \<Rightarrow> read_snapshot" where
  "snapshot_of H p sequence payload =
     \<lparr>rs_snapshot_id = snapshot_id H p, rs_publication_id = pb_publication_id p,
      rs_stream_id = pb_stream_id p, rs_topic = pb_topic p,
      rs_params_key = params_key H (pb_params p), rs_sequence = sequence,
      rs_market_date = pb_market_date p, rs_generated_at = pb_generated_at p,
      rs_as_of = pb_as_of p, rs_data_status = pb_data_status p,
      rs_quality_flags = sort (pb_quality_flags p), rs_payload = payload,
      rs_versions = pb_versions p, rs_content_hash = content_hash H p sequence payload\<rparr>"

text \<open>The check of the time, then the snapshot and the four dictionaries.\<close>

definition stale_publication :: "hash \<Rightarrow> snapshot_repository \<Rightarrow> snapshot_publication \<Rightarrow> unit result" where
  "stale_publication H s p =
     (case dget (sp_latest s) (publication_scope H p) of
        None \<Rightarrow> Inr ()
      | Some latest_id \<Rightarrow>
          (case dget (sp_snapshots s) latest_id of
             None \<Rightarrow> Inl (KeyError ''snapshot_id'')
           | Some latest \<Rightarrow>
               if instant (pb_as_of p) < instant (rs_as_of latest) then Inl StaleSnapshotPublication
               else Inr ()))"

definition stored :: "hash \<Rightarrow> snapshot_repository \<Rightarrow> snapshot_publication \<Rightarrow> read_snapshot \<Rightarrow> snapshot_repository" where
  "stored H s p snapshot = s
     \<lparr>sp_sequences := dset (publication_scope H p) (rs_sequence snapshot) (sp_sequences s),
      sp_snapshots := dset (snapshot_id H p) snapshot (sp_snapshots s),
      sp_latest := dset (publication_scope H p) (snapshot_id H p) (sp_latest s),
      sp_receipts := dset (pb_publication_id p) (publication_fingerprint H p, snapshot_id H p)
        (sp_receipts s)\<rparr>"

definition publish_new ::
  "hash \<Rightarrow> snapshot_repository \<Rightarrow> snapshot_publication \<Rightarrow> (snapshot_repository \<times> read_snapshot) result" where
  "publish_new H s p =
     bind_result (stale_publication H s p) (\<lambda>_.
     bind_result (copy_json_object (pb_payload p)) (\<lambda>payload.
     bind_result (read_snapshot_init
         (snapshot_of H p (next_sequence s (publication_scope H p)) payload)) (\<lambda>snapshot.
       Inr (stored H s p snapshot, snapshot))))"

definition publish ::
  "hash \<Rightarrow> snapshot_repository \<Rightarrow> snapshot_publication \<Rightarrow> snapshot_repository \<times> read_snapshot result" where
  "publish H s p =
     (case dget (sp_receipts s) (pb_publication_id p) of
        Some (fingerprint, i) \<Rightarrow>
          if fingerprint \<noteq> publication_fingerprint H p then (s, Inl SnapshotIdempotencyConflict)
          else (case dget (sp_snapshots s) i of
              None \<Rightarrow> (s, Inl (KeyError ''snapshot_id''))
            | Some snapshot \<Rightarrow> (s, Inr snapshot))
      | None \<Rightarrow>
          (case publish_new H s p of
             Inl e \<Rightarrow> (s, Inl e)
           | Inr (s', snapshot) \<Rightarrow>
               if sp_fail_next_commit s'
               then (s\<lparr>sp_fail_next_commit := False\<rparr>, Inl SnapshotCommitFailure)
               else (s', Inr snapshot)))"

definition latest ::
  "hash \<Rightarrow> snapshot_repository \<Rightarrow> string \<Rightarrow> snapshot_topic \<Rightarrow> json \<Rightarrow> read_snapshot option result" where
  "latest H s stream_id topic params =
     (case dget (sp_latest s) (stream_id, topic, params_key H params) of
        None \<Rightarrow> Inr None
      | Some i \<Rightarrow>
          (case dget (sp_snapshots s) i of
             None \<Rightarrow> Inl (KeyError ''snapshot_id'') | Some snapshot \<Rightarrow> Inr (Some snapshot)))"

text \<open>\<open>max\<close> with a key returns the first of the maximal values.\<close>

definition max_by :: "('a \<Rightarrow> 'b::linorder) \<Rightarrow> 'a \<Rightarrow> 'a list \<Rightarrow> 'a" where
  "max_by f x xs = foldl (\<lambda>b y. if f b < f y then y else b) x xs"

definition latest_for_market_date ::
  "hash \<Rightarrow> snapshot_repository \<Rightarrow> snapshot_topic \<Rightarrow> json \<Rightarrow> date \<Rightarrow> datetime \<Rightarrow> read_snapshot option" where
  "latest_for_market_date H s topic params market_date as_of_until =
     (case filter (\<lambda>r. rs_topic r = topic \<and> rs_params_key r = params_key H params
              \<and> rs_market_date r = market_date \<and> instant (rs_as_of r) \<le> instant as_of_until)
            (map snd (sp_snapshots s)) of
        [] \<Rightarrow> None
      | r # rs \<Rightarrow> Some (max_by (\<lambda>r. (instant (rs_as_of r), instant (rs_generated_at r), rs_sequence r)) r rs))"

section \<open>What a publication does\<close>

definition read_scope :: "read_snapshot \<Rightarrow> snapshot_scope" where
  "read_scope x = (rs_stream_id x, rs_topic x, rs_params_key x)"

lemma read_snapshot_init_Inr:
  assumes "read_snapshot_init (snapshot_of H p n payload) = Inr x"
  shows "rs_sequence x = n" "read_scope x = publication_scope H p" "rs_as_of x = pb_as_of p"
    "rs_publication_id x = pb_publication_id p" "rs_snapshot_id x = snapshot_id H p"
  using assms unfolding read_snapshot_init_def bind_result_Inr_iff validate_Inr_iff
  by (auto simp: snapshot_of_def read_scope_def publication_scope_def)

definition repository_ok :: "snapshot_repository \<Rightarrow> bool" where
  "repository_ok s \<longleftrightarrow>
     (\<forall>k f i. dget (sp_receipts s) k = Some (f, i) \<longrightarrow> dget (sp_snapshots s) i \<noteq> None)
     \<and> (\<forall>sc i. dget (sp_latest s) sc = Some i \<longrightarrow> dget (sp_snapshots s) i \<noteq> None)"

lemma repository_okD:
  "repository_ok s \<Longrightarrow> dget (sp_receipts s) k = Some (f, i) \<Longrightarrow> \<exists>x. dget (sp_snapshots s) i = Some x"
  "repository_ok s \<Longrightarrow> dget (sp_latest s) sc = Some i \<Longrightarrow> \<exists>x. dget (sp_snapshots s) i = Some x"
  unfolding repository_ok_def by (metis not_None_eq)+

text \<open>
  A publication is answered from its receipt, refused, lost in a failed commit, or stored with the
  next sequence number of its scope, not before the latest snapshot.
\<close>

lemma publish_cases:
  assumes "repository_ok s"
  shows "(\<exists>x i. dget (sp_receipts s) (pb_publication_id p) = Some (publication_fingerprint H p, i)
        \<and> dget (sp_snapshots s) i = Some x \<and> publish H s p = (s, Inr x))
    \<or> (\<exists>f i. dget (sp_receipts s) (pb_publication_id p) = Some (f, i) \<and> f \<noteq> publication_fingerprint H p
        \<and> publish H s p = (s, Inl SnapshotIdempotencyConflict))
    \<or> (\<exists>e. dget (sp_receipts s) (pb_publication_id p) = None \<and> publish H s p = (s, Inl e))
    \<or> (\<exists>x. dget (sp_receipts s) (pb_publication_id p) = None \<and> publish_new H s p = Inr (stored H s p x, x)
        \<and> sp_fail_next_commit s
        \<and> publish H s p = (s\<lparr>sp_fail_next_commit := False\<rparr>, Inl SnapshotCommitFailure))
    \<or> (\<exists>x. dget (sp_receipts s) (pb_publication_id p) = None \<and> publish_new H s p = Inr (stored H s p x, x)
        \<and> \<not> sp_fail_next_commit s \<and> publish H s p = (stored H s p x, Inr x))"
proof (cases "dget (sp_receipts s) (pb_publication_id p)")
  case None
  show ?thesis
  proof (cases "publish_new H s p")
    case (Inr sx)
    obtain x where sx: "sx = (stored H s p x, x)"
      using Inr by (auto simp: publish_new_def bind_result_Inr_iff)
    have "sp_fail_next_commit (stored H s p x) = sp_fail_next_commit s" by (simp add: stored_def)
    with None Inr sx show ?thesis by (cases "sp_fail_next_commit s") (auto simp: publish_def)
  qed (use None in \<open>auto simp: publish_def\<close>)
next
  case (Some fi)
  obtain f i where fi: "fi = (f, i)" by (cases fi)
  with Some repository_okD(1) [OF assms] obtain x where "dget (sp_snapshots s) i = Some x" by blast
  with Some fi show ?thesis by (cases "f = publication_fingerprint H p") (auto simp: publish_def)
qed

lemma publish_new_Inr:
  assumes "publish_new H s p = Inr (t, x)"
  shows "t = stored H s p x" "rs_sequence x = next_sequence s (publication_scope H p)"
    "read_scope x = publication_scope H p" "rs_as_of x = pb_as_of p"
    "rs_publication_id x = pb_publication_id p"
    "\<And>i y. dget (sp_latest s) (publication_scope H p) = Some i \<Longrightarrow> dget (sp_snapshots s) i = Some y \<Longrightarrow>
      instant (rs_as_of y) \<le> instant (pb_as_of p)"
proof -
  obtain payload where init: "read_snapshot_init
      (snapshot_of H p (next_sequence s (publication_scope H p)) payload) = Inr x"
    and t: "t = stored H s p x" and stale: "stale_publication H s p = Inr ()"
    using assms by (auto simp: publish_new_def bind_result_Inr_iff)
  show "t = stored H s p x" by fact
  show "rs_sequence x = next_sequence s (publication_scope H p)"
    "read_scope x = publication_scope H p" "rs_as_of x = pb_as_of p"
    "rs_publication_id x = pb_publication_id p"
    using read_snapshot_init_Inr [OF init] by simp_all
  show "instant (rs_as_of y) \<le> instant (pb_as_of p)"
    if "dget (sp_latest s) (publication_scope H p) = Some i" "dget (sp_snapshots s) i = Some y" for i y
    using stale that by (auto simp: stale_publication_def split: if_splits)
qed

lemma repository_ok_stored: "repository_ok s \<Longrightarrow> repository_ok (stored H s p x)"
  by (auto simp: repository_ok_def stored_def)

lemma repository_ok_publish:
  assumes "repository_ok s"
  shows "repository_ok (fst (publish H s p))"
  using publish_cases [OF assms, of p H] assms repository_ok_stored [OF assms, of H p]
  by (auto simp: repository_ok_def)

definition publication_seen :: "snapshot_repository \<Rightarrow> string \<Rightarrow> string option" where
  "publication_seen s k = map_option fst (dget (sp_receipts s) k)"

interpretation publisher: idempotent_sink "publish H" repository_ok pb_publication_id
  "publication_fingerprint H" publication_seen for H
proof
  fix s p assume ok: "repository_ok s"
  note cases = publish_cases [OF ok, of p H]
  show "repository_ok (fst (publish H s p))" using ok by (rule repository_ok_publish)
  show "publication_seen (fst (publish H s p)) k = Some f" if "publication_seen s k = Some f" for k f
    using cases that by (fastforce simp: publication_seen_def stored_def)
  show "publication_seen (fst (publish H s p)) (pb_publication_id p) = Some (publication_fingerprint H p)"
    if "snd (publish H s p) = Inr r" for r
    using cases that by (fastforce simp: publication_seen_def stored_def)
  show "fst (publish H s p) = s" if "publication_seen s (pb_publication_id p) = Some (publication_fingerprint H p)"
    using cases that by (fastforce simp: publication_seen_def)
  show "fst (publish H s p) = s \<and> (\<exists>e. snd (publish H s p) = Inl e)"
    if "publication_seen s (pb_publication_id p) = Some f" "f \<noteq> publication_fingerprint H p" for f
    using cases that by (fastforce simp: publication_seen_def)
qed

section \<open>The repository under publications and failing commits\<close>

datatype repository_op = Publish snapshot_publication | FailNextPublish

fun repository_step ::
  "hash \<Rightarrow> snapshot_repository \<Rightarrow> repository_op \<Rightarrow> snapshot_repository \<times> read_snapshot option result" where
  "repository_step H s (Publish p) = map_prod id (map_sum id Some) (publish H s p)"
| "repository_step H s FailNextPublish = (fail_next_publish s, Inr None)"

fun published :: "repository_op list \<Rightarrow> snapshot_publication list" where
  "published [] = []"
| "published (Publish p # ops) = p # published ops"
| "published (FailNextPublish # ops) = published ops"

lemma published_append [simp]: "published (xs @ ys) = published xs @ published ys"
  by (induction xs rule: published.induct) simp_all

definition no_collision :: "hash \<Rightarrow> snapshot_publication list \<Rightarrow> bool" where
  "no_collision H ps \<longleftrightarrow> (\<forall>p\<in>set ps. \<forall>q\<in>set ps.
     snapshot_id H p = snapshot_id H q \<longrightarrow> pb_publication_id p = pb_publication_id q)"

text \<open>Every stored snapshot comes from a publication, which has a receipt.\<close>

definition sourced :: "hash \<Rightarrow> snapshot_publication list \<Rightarrow> snapshot_repository \<Rightarrow> bool" where
  "sourced H ps s \<longleftrightarrow> repository_ok s \<and> (\<forall>i x. dget (sp_snapshots s) i = Some x \<longrightarrow>
     (\<exists>p\<in>set ps. i = snapshot_id H p \<and> dget (sp_receipts s) (pb_publication_id p) \<noteq> None))"

definition last_sequence :: "snapshot_repository \<Rightarrow> snapshot_scope \<Rightarrow> int" where
  "last_sequence s sc = (case dget (sp_sequences s) sc of None \<Rightarrow> 0 | Some n \<Rightarrow> n)"

lemma next_sequence_last: "next_sequence s sc = last_sequence s sc + 1"
  by (simp add: next_sequence_def last_sequence_def)

definition of_scope :: "snapshot_repository \<Rightarrow> snapshot_scope \<Rightarrow> read_snapshot set" where
  "of_scope s sc = {x \<in> ran (dget (sp_snapshots s)). read_scope x = sc}"

definition contiguous :: "snapshot_repository \<Rightarrow> bool" where
  "contiguous s \<longleftrightarrow> (\<forall>sc. 0 \<le> last_sequence s sc
     \<and> rs_sequence ` of_scope s sc = {1..last_sequence s sc} \<and> inj_on rs_sequence (of_scope s sc)
     \<and> (\<forall>x\<in>of_scope s sc. \<forall>y\<in>of_scope s sc. rs_sequence x \<le> rs_sequence y
          \<longrightarrow> instant (rs_as_of x) \<le> instant (rs_as_of y))
     \<and> (case dget (sp_latest s) sc of
          None \<Rightarrow> last_sequence s sc = 0
        | Some i \<Rightarrow> \<exists>x\<in>of_scope s sc. dget (sp_snapshots s) i = Some x \<and> rs_sequence x = last_sequence s sc))"

lemma fresh_snapshot_id:
  assumes "sourced H ps s" and "no_collision H ps'" and "set ps \<subseteq> set ps'" and "p \<in> set ps'"
    and "dget (sp_receipts s) (pb_publication_id p) = None"
  shows "dget (sp_snapshots s) (snapshot_id H p) = None"
proof (rule ccontr)
  assume "dget (sp_snapshots s) (snapshot_id H p) \<noteq> None"
  then obtain q where "q \<in> set ps" "snapshot_id H p = snapshot_id H q"
      "dget (sp_receipts s) (pb_publication_id q) \<noteq> None"
    using assms(1) unfolding sourced_def by blast
  with assms(2-5) show False unfolding no_collision_def by (metis subsetD)
qed

lemma of_scope_stored:
  assumes "dget (sp_snapshots s) (snapshot_id H p) = None"
  shows "of_scope (stored H s p x) sc
    = (if read_scope x = sc then insert x (of_scope s sc) else of_scope s sc)"
proof -
  have "ran (dget (sp_snapshots (stored H s p x))) = insert x (ran (dget (sp_snapshots s)))"
    using ran_map_upd [of "dget (sp_snapshots s)", OF assms] by (simp add: stored_def update_conv' del: fun_upd_apply)
  then show ?thesis by (auto simp: of_scope_def)
qed

lemma last_sequence_stored:
  "last_sequence (stored H s p x) sc = (if sc = publication_scope H p then rs_sequence x else last_sequence s sc)"
  by (simp add: last_sequence_def stored_def)

lemma stored_latest_sequence:
  assumes cont: "contiguous s" and new: "publish_new H s p = Inr (stored H s p x, x)"
    and y: "y \<in> of_scope s (publication_scope H p)"
  shows "rs_sequence y < rs_sequence x \<and> instant (rs_as_of y) \<le> instant (rs_as_of x)"
proof -
  let ?sc = "publication_scope H p"
  note parts = publish_new_Inr [OF new]
  have seqs: "rs_sequence ` of_scope s ?sc = {1..last_sequence s ?sc}"
    and mono: "\<And>u v. u \<in> of_scope s ?sc \<Longrightarrow> v \<in> of_scope s ?sc \<Longrightarrow> rs_sequence u \<le> rs_sequence v
      \<Longrightarrow> instant (rs_as_of u) \<le> instant (rs_as_of v)"
    and lat: "case dget (sp_latest s) ?sc of
          None \<Rightarrow> last_sequence s ?sc = 0
        | Some i \<Rightarrow> \<exists>x\<in>of_scope s ?sc. dget (sp_snapshots s) i = Some x \<and> rs_sequence x = last_sequence s ?sc"
    using cont unfolding contiguous_def by blast+
  have le: "1 \<le> rs_sequence y \<and> rs_sequence y \<le> last_sequence s ?sc" using seqs y by auto
  with lat obtain i z where z: "dget (sp_latest s) ?sc = Some i" "z \<in> of_scope s ?sc"
      "dget (sp_snapshots s) i = Some z" "rs_sequence z = last_sequence s ?sc"
    by (auto split: option.splits)
  have "instant (rs_as_of y) \<le> instant (rs_as_of z)" using mono y z le by simp
  also have "\<dots> \<le> instant (pb_as_of p)" using parts(6) z by blast
  finally show ?thesis using parts le by (simp add: next_sequence_last)
qed

lemma contiguous_stored:
  assumes cont: "contiguous s" and new: "publish_new H s p = Inr (stored H s p x, x)"
    and fresh: "dget (sp_snapshots s) (snapshot_id H p) = None"
  shows "contiguous (stored H s p x)"
proof -
  note parts = publish_new_Inr [OF new]
  note above = stored_latest_sequence [OF cont new]
  let ?t = "stored H s p x" and ?sc = "publication_scope H p"
  have old: "0 \<le> last_sequence s sc" "rs_sequence ` of_scope s sc = {1..last_sequence s sc}"
      "inj_on rs_sequence (of_scope s sc)"
      "\<And>u v. u \<in> of_scope s sc \<Longrightarrow> v \<in> of_scope s sc \<Longrightarrow> rs_sequence u \<le> rs_sequence v
        \<Longrightarrow> instant (rs_as_of u) \<le> instant (rs_as_of v)"
      "case dget (sp_latest s) sc of None \<Rightarrow> last_sequence s sc = 0
        | Some i \<Rightarrow> \<exists>x\<in>of_scope s sc. dget (sp_snapshots s) i = Some x \<and> rs_sequence x = last_sequence s sc" for sc
    using cont unfolding contiguous_def by blast+
  have here: "of_scope ?t ?sc = insert x (of_scope s ?sc)" "last_sequence ?t ?sc = last_sequence s ?sc + 1"
    using of_scope_stored [OF fresh] parts by (simp_all add: last_sequence_stored next_sequence_last)
  have else_where: "of_scope ?t sc = of_scope s sc" "last_sequence ?t sc = last_sequence s sc"
      "dget (sp_latest ?t) sc = dget (sp_latest s) sc" if "sc \<noteq> ?sc" for sc
    using that of_scope_stored [OF fresh] parts by (simp_all add: last_sequence_stored) (simp add: stored_def)
  have keep: "dget (sp_snapshots ?t) i = Some z" if "dget (sp_snapshots s) i = Some z" for i z
    using that fresh by (auto simp: stored_def)
  have x: "rs_sequence x = last_sequence s ?sc + 1" using parts by (simp add: next_sequence_last)
  have "0 \<le> last_sequence ?t sc \<and> rs_sequence ` of_scope ?t sc = {1..last_sequence ?t sc}
      \<and> inj_on rs_sequence (of_scope ?t sc)
      \<and> (\<forall>u\<in>of_scope ?t sc. \<forall>v\<in>of_scope ?t sc. rs_sequence u \<le> rs_sequence v
          \<longrightarrow> instant (rs_as_of u) \<le> instant (rs_as_of v))
      \<and> (case dget (sp_latest ?t) sc of None \<Rightarrow> last_sequence ?t sc = 0
        | Some i \<Rightarrow> \<exists>x\<in>of_scope ?t sc. dget (sp_snapshots ?t) i = Some x \<and> rs_sequence x = last_sequence ?t sc)" for sc
  proof (cases "sc = ?sc")
    case True
    have "rs_sequence ` of_scope ?t ?sc = {1..last_sequence ?t ?sc}"
      using old(1,2) [of ?sc] by (auto simp: here x)
    moreover have "inj_on rs_sequence (of_scope ?t ?sc)"
    proof -
      have "rs_sequence x \<notin> rs_sequence ` of_scope s ?sc" using above by force
      with old(3) [of ?sc] show ?thesis by (auto simp: here)
    qed
    moreover have "instant (rs_as_of u) \<le> instant (rs_as_of v)"
      if "u \<in> of_scope ?t ?sc" "v \<in> of_scope ?t ?sc" "rs_sequence u \<le> rs_sequence v" for u v
      using that old(4) [of u ?sc v] above by (fastforce simp: here)
    moreover have "dget (sp_latest ?t) ?sc = Some (snapshot_id H p)"
      "dget (sp_snapshots ?t) (snapshot_id H p) = Some x"
      by (simp_all add: stored_def)
    ultimately show ?thesis using True old(1) [of ?sc] here x by auto
  next
    case False
    have "case dget (sp_latest ?t) sc of None \<Rightarrow> last_sequence ?t sc = 0
        | Some i \<Rightarrow> \<exists>x\<in>of_scope ?t sc. dget (sp_snapshots ?t) i = Some x \<and> rs_sequence x = last_sequence ?t sc"
      using old(5) [of sc] keep by (auto simp: else_where [OF False] split: option.splits)
    with old(1-3) [of sc] old(4) [of _ sc] show ?thesis by (simp add: else_where [OF False])
  qed
  then show ?thesis unfolding contiguous_def by blast
qed

lemma sourced_fail [simp]: "sourced H ps (s\<lparr>sp_fail_next_commit := b\<rparr>) = sourced H ps s"
  by (simp add: sourced_def repository_ok_def)

lemma contiguous_fail [simp]: "contiguous (s\<lparr>sp_fail_next_commit := b\<rparr>) = contiguous s"
proof -
  have "last_sequence (s\<lparr>sp_fail_next_commit := b\<rparr>) = last_sequence s"
    "of_scope (s\<lparr>sp_fail_next_commit := b\<rparr>) = of_scope s"
    by (simp_all add: fun_eq_iff last_sequence_def of_scope_def)
  then show ?thesis unfolding contiguous_def by (simp cong: option.case_cong)
qed

lemma sourced_more: "sourced H ps s \<Longrightarrow> set ps \<subseteq> set qs \<Longrightarrow> sourced H qs s"
  unfolding sourced_def by (meson subsetD)

lemma sourced_stored:
  assumes "sourced H ps s" and "p \<in> set ps"
  shows "sourced H ps (stored H s p x)"
proof -
  have "\<exists>q\<in>set ps. i = snapshot_id H q \<and> dget (sp_receipts (stored H s p x)) (pb_publication_id q) \<noteq> None"
    if "dget (sp_snapshots (stored H s p x)) i = Some y" for i y
  proof (cases "i = snapshot_id H p")
    case True
    with assms(2) show ?thesis by (auto simp: stored_def)
  next
    case False
    with that have "dget (sp_snapshots s) i = Some y" by (simp add: stored_def)
    then obtain q where "q \<in> set ps" "i = snapshot_id H q" "dget (sp_receipts s) (pb_publication_id q) \<noteq> None"
      using assms(1) unfolding sourced_def by blast
    then show ?thesis by (auto simp: stored_def)
  qed
  with assms(1) repository_ok_stored show ?thesis unfolding sourced_def by blast
qed

text \<open>One publication, when ids do not collide: the three invariants and the stored snapshots stay.\<close>

lemma publish_step:
  assumes src: "sourced H ps s" and cont: "contiguous s" and coll: "no_collision H ps" and p: "p \<in> set ps"
  shows "sourced H ps (fst (publish H s p))" and "contiguous (fst (publish H s p))"
    and "dget (sp_snapshots s) i = Some x \<Longrightarrow> dget (sp_snapshots (fst (publish H s p))) i = Some x"
proof -
  have ok: "repository_ok s" using src by (simp add: sourced_def)
  note fresh = fresh_snapshot_id [OF src coll subset_refl p]
  have keep: "dget (sp_snapshots (stored H s p y)) i = Some x"
    if "dget (sp_receipts s) (pb_publication_id p) = None" "dget (sp_snapshots s) i = Some x" for y i x
    using that fresh by (auto simp: stored_def)
  from publish_cases [OF ok, of p H] show "sourced H ps (fst (publish H s p))"
    using src sourced_stored [OF src p] by auto
  from publish_cases [OF ok, of p H] show "contiguous (fst (publish H s p))"
    using cont contiguous_stored [OF cont] fresh by auto
  from publish_cases [OF ok, of p H]
  show "dget (sp_snapshots s) i = Some x \<Longrightarrow> dget (sp_snapshots (fst (publish H s p))) i = Some x"
    using keep by auto
qed

lemma repository_step_ok:
  assumes "sourced H ps s" "contiguous s" "no_collision H ps" "set (published [op]) \<subseteq> set ps"
  shows "sourced H ps (fst (repository_step H s op))" "contiguous (fst (repository_step H s op))"
    "dget (sp_snapshots s) i = Some x \<Longrightarrow> dget (sp_snapshots (fst (repository_step H s op))) i = Some x"
  using assms publish_step [OF assms(1-3)]
  by (cases op; simp add: fail_next_publish_def)+

lemma repository_run_ok:
  assumes "sourced H ps s" "contiguous s" "no_collision H ps" "set (published ops) \<subseteq> set ps"
  shows "sourced H ps (run (repository_step H) s ops) \<and> contiguous (run (repository_step H) s ops)
    \<and> (\<forall>i x. dget (sp_snapshots s) i = Some x \<longrightarrow> dget (sp_snapshots (run (repository_step H) s ops)) i = Some x)"
  using assms(1,2,4)
proof (induction ops arbitrary: s)
  case (Cons op ops)
  have "set (published [op]) \<subseteq> set ps" "set (published ops) \<subseteq> set ps"
    using Cons.prems(3) by (cases op; simp)+
  with repository_step_ok [OF Cons.prems(1,2) assms(3)] Cons.IH show ?case by simp
qed simp

lemma repository_empty:
  "sourced H ps empty_repository" "contiguous empty_repository"
  by (simp_all add: sourced_def repository_ok_def contiguous_def last_sequence_def of_scope_def empty_repository_def)

text \<open>
  C20. Whatever is published, failing commits and refused publications included, the stored
  snapshots of each scope carry exactly the sequence numbers from one to the number of the latest
  one, each once, a later sequence number never has an earlier time, and the latest snapshot of the
  scope is the one with the last number.
\<close>

theorem snapshot_sequences:
  assumes "no_collision H (published ops)" and "s = run (repository_step H) empty_repository ops"
  shows "rs_sequence ` of_scope s sc = {1..last_sequence s sc} \<and> inj_on rs_sequence (of_scope s sc)
    \<and> (\<forall>x\<in>of_scope s sc. \<forall>y\<in>of_scope s sc.
         rs_sequence x \<le> rs_sequence y \<longrightarrow> instant (rs_as_of x) \<le> instant (rs_as_of y))
    \<and> (case dget (sp_latest s) sc of
         None \<Rightarrow> last_sequence s sc = 0
       | Some i \<Rightarrow> \<exists>x\<in>of_scope s sc. dget (sp_snapshots s) i = Some x \<and> rs_sequence x = last_sequence s sc)"
  using repository_run_ok [OF repository_empty assms(1) subset_refl] assms(2)
  unfolding contiguous_def by blast

text \<open>Publications of the examples: a ranking on one scope, with an id of its own.\<close>

definition sample_publication :: "string \<Rightarrow> int \<Rightarrow> snapshot_publication" where
  "sample_publication i t =
     \<lparr>pb_publication_id = i, pb_stream_id = ''s'', pb_topic = THEME_RANK, pb_params = JObj [],
      pb_market_date = 8, pb_generated_at = Aware t 0, pb_as_of = Aware t 0, pb_data_status = LIVE,
      pb_quality_flags = [], pb_payload = JObj [],
      pb_versions = \<lparr>vs_schema_version = ''1'', vs_calculation_version = ''1'',
        vs_ranking_model_version = ''1'', vs_membership_version = ''1'', vs_baseline_version = None\<rparr>\<rparr>"

fun text_hash :: hash where
  "text_hash (Dump v) = ''h''"
| "text_hash (Plain s) = s"

lemma sample_no_collision: "no_collision text_hash [sample_publication ''p1'' 1, sample_publication ''p2'' 2]"
  by (simp add: no_collision_def snapshot_id_def opaque_id_def publication_fingerprint_def
      canonical_json_def sample_publication_def)

theorem snapshot_sequences_witness:
  "rs_sequence ` of_scope (run (repository_step text_hash) empty_repository
       [Publish (sample_publication ''p1'' 1), FailNextPublish, Publish (sample_publication ''p2'' 2)])
       (''s'', THEME_RANK, ''params_h'') = {1..1}"
proof -
  let ?ops = "[Publish (sample_publication ''p1'' 1), FailNextPublish, Publish (sample_publication ''p2'' 2)]"
  have "last_sequence (run (repository_step text_hash) empty_repository ?ops) (''s'', THEME_RANK, ''params_h'') = 1"
    by code_simp
  moreover have "no_collision text_hash (published ?ops)" using sample_no_collision by simp
  from snapshot_sequences [OF this refl, of "(''s'', THEME_RANK, ''params_h'')"]
  have "rs_sequence ` of_scope (run (repository_step text_hash) empty_repository ?ops) (''s'', THEME_RANK, ''params_h'')
      = {1..last_sequence (run (repository_step text_hash) empty_repository ?ops) (''s'', THEME_RANK, ''params_h'')}"
    by (rule conjunct1)
  ultimately show ?thesis by (simp only:)
qed

section \<open>Once, and the same answer\<close>

text \<open>
  A publication that was accepted is answered with the snapshot it got then, however much was
  published or failed since, and nothing is stored again; a different publication under its id is
  refused.
\<close>

theorem publication_once:
  assumes "no_collision H (published ops @ [p] @ published ops')"
    and "s = run (repository_step H) empty_repository ops" and "snd (publish H s p) = Inr r"
    and "t = run (repository_step H) (fst (publish H s p)) ops'"
  shows "publish H t p = (t, Inr r) \<and> (\<forall>q. pb_publication_id q = pb_publication_id p
      \<longrightarrow> publication_fingerprint H q \<noteq> publication_fingerprint H p
      \<longrightarrow> publish H t q = (t, Inl SnapshotIdempotencyConflict))"
proof -
  let ?ps = "published ops @ [p] @ published ops'"
  let ?s1 = "fst (publish H s p)"
  have s: "sourced H ?ps s" "contiguous s"
  proof -
    have "set (published ops) \<subseteq> set ?ps" by auto
    from repository_run_ok [OF sourced_more [OF repository_empty(1)] repository_empty(2) assms(1) this, of "[]"]
    show "sourced H ?ps s" "contiguous s" by (simp_all add: assms(2))
  qed
  have s1: "sourced H ?ps ?s1" "contiguous ?s1"
    using publish_step [OF s assms(1)] by simp_all
  from s(1) have "repository_ok s" by (simp add: sourced_def)
  from publish_cases [OF this, of p H] assms(3) obtain i
    where rec: "dget (sp_receipts ?s1) (pb_publication_id p) = Some (publication_fingerprint H p, i)"
      and snap: "dget (sp_snapshots ?s1) i = Some r"
    by (auto simp: stored_def)
  have snap': "dget (sp_snapshots t) i = Some r"
  proof -
    have "set (published ops') \<subseteq> set ?ps" by auto
    from repository_run_ok [OF s1 assms(1) this] snap show ?thesis by (simp add: assms(4))
  qed
  have rec_run: "dget (sp_receipts s') k = Some fi \<Longrightarrow> repository_ok s' \<Longrightarrow>
      dget (sp_receipts (run (repository_step H) s' os)) k = Some fi" for s' k fi os
  proof (induction os arbitrary: s')
    case (Cons op os)
    have "dget (sp_receipts (fst (repository_step H s' op))) k = Some fi
        \<and> repository_ok (fst (repository_step H s' op))"
    proof (cases op)
      case (Publish q)
      with publish_cases [OF Cons.prems(2), of q H] repository_ok_publish [OF Cons.prems(2), of H q] Cons.prems
      show ?thesis by (auto simp: stored_def)
    qed (use Cons.prems in \<open>simp add: fail_next_publish_def repository_ok_def\<close>)
    with Cons.IH show ?case by simp
  qed simp
  have "repository_ok ?s1" using s1(1) by (simp add: sourced_def)
  from rec_run [OF rec this] have "dget (sp_receipts t) (pb_publication_id p)
      = Some (publication_fingerprint H p, i)" by (simp add: assms(4))
  with snap' show ?thesis by (simp add: publish_def)
qed

lemma sample_published:
  "snd (publish text_hash (run (repository_step text_hash) empty_repository []) (sample_publication ''p1'' 1))
   = Inr (snapshot_of text_hash (sample_publication ''p1'' 1) 1 (JObj []))"
  by code_simp

theorem publication_once_witness:
  "snd (publish text_hash (run (repository_step text_hash)
      (fst (publish text_hash (run (repository_step text_hash) empty_repository []) (sample_publication ''p1'' 1)))
      [Publish (sample_publication ''p2'' 2)]) (sample_publication ''p1'' 1))
   = Inr (snapshot_of text_hash (sample_publication ''p1'' 1) 1 (JObj []))"
  using publication_once [OF _ refl sample_published refl, of "[Publish (sample_publication ''p2'' 2)]"]
    sample_no_collision by simp

text \<open>
  A publication whose commit fails leaves the repository as it was, and publishing it again
  gives what it would have given without the failure.
\<close>

theorem failed_commit_retried:
  assumes "dget (sp_receipts s) (pb_publication_id p) = None" and "\<not> sp_fail_next_commit s"
    and "publish H s p = (s', Inr r)"
  shows "publish H (fail_next_publish s) p = (s, Inl SnapshotCommitFailure)
    \<and> publish H (fst (publish H (fail_next_publish s) p)) p = (s', Inr r)"
proof -
  obtain x where new: "publish_new H s p = Inr (stored H s p x, x)"
    using assms by (auto simp: publish_def publish_new_def bind_result_Inr_iff split: sum.splits)
  have "stale_publication H (fail_next_publish s) p = stale_publication H s p"
    "next_sequence (fail_next_publish s) sc = next_sequence s sc"
    "stored H (fail_next_publish s) p y = fail_next_publish (stored H s p y)" for sc y
    by (simp_all add: stale_publication_def next_sequence_def stored_def fail_next_publish_def cong: option.case_cong)
  with new have "publish_new H (fail_next_publish s) p = Inr (fail_next_publish (stored H s p x), x)"
    by (auto simp: publish_new_def bind_result_Inr_iff)
  moreover have "(fail_next_publish s)\<lparr>sp_fail_next_commit := False\<rparr> = s"
    using assms(2) by (cases s) (simp add: fail_next_publish_def)
  ultimately have "publish H (fail_next_publish s) p = (s, Inl SnapshotCommitFailure)"
    using assms(1) by (simp add: publish_def) (simp add: fail_next_publish_def)
  with assms(3) show ?thesis by simp
qed

lemma sample_publish:
  "publish text_hash empty_repository (sample_publication ''p1'' 1)
   = (stored text_hash empty_repository (sample_publication ''p1'' 1)
        (snapshot_of text_hash (sample_publication ''p1'' 1) 1 (JObj [])),
      Inr (snapshot_of text_hash (sample_publication ''p1'' 1) 1 (JObj [])))"
  by code_simp

theorem failed_commit_retried_witness:
  "publish text_hash (fail_next_publish empty_repository) (sample_publication ''p1'' 1)
    = (empty_repository, Inl SnapshotCommitFailure)"
proof -
  have "dget (sp_receipts empty_repository) (pb_publication_id (sample_publication ''p1'' 1)) = None"
    "\<not> sp_fail_next_commit empty_repository"
    by (simp_all add: empty_repository_def)
  from failed_commit_retried [OF this sample_publish] show ?thesis by (rule conjunct1)
qed

end
