(* ===== verification/Subscriptions.thy ===== *)
theory Subscriptions
  imports Prelude
begin

text \<open>
  \<open>packages/adapters/kiwoom/subscriptions.py\<close> (with the stock id check of \<open>contract.py\<close>): which
  stocks are registered for trades.  Demands are ranked; the best ones up to the target limit are
  registered, registered stocks that lost their rank stay for a cooldown as far as the hard limit
  allows, everything else is left to snapshots.  Shown here: the limits and the plan's own checks
  always hold, every demand is served one way or the other, and a registration is only given up
  after its cooldown or for lack of room.

  The rank compares times as floating point seconds; the model compares the instants, which orders
  times the same way as long as a double tells microseconds apart (until the year 2242).
\<close>

section \<open>Stock ids\<close>

definition stock_code_char :: "char \<Rightarrow> bool" where
  "stock_code_char c \<longleftrightarrow> (let n = of_char c :: nat in 48 \<le> n \<and> n \<le> 57 \<or> 65 \<le> n \<and> n \<le> 90)"

definition stock_code_ok :: "string \<Rightarrow> bool" where
  "stock_code_ok code \<longleftrightarrow> length code = 6 \<and> list_all stock_code_char code"

definition stock_id_ok :: "string \<Rightarrow> bool" where
  "stock_id_ok i \<longleftrightarrow> take 4 i = ''KRX:'' \<and> stock_code_ok (drop 4 i)"

section \<open>Demands and plans\<close>

datatype demand_priority =
  ACTIVE_LEADER | ACTIVE_CORE | MULTI_SIGNAL_CANDIDATE | ACTIVE_RELATED | SINGLE_SIGNAL_CANDIDATE

fun priority_value :: "demand_priority \<Rightarrow> int" where
  "priority_value ACTIVE_LEADER = 1"
| "priority_value ACTIVE_CORE = 2"
| "priority_value MULTI_SIGNAL_CANDIDATE = 3"
| "priority_value ACTIVE_RELATED = 4"
| "priority_value SINGLE_SIGNAL_CANDIDATE = 5"

record subscription_demand =
  sd_stock_id :: string
  sd_priority :: demand_priority
  sd_observed_at :: datetime
  sd_signal_count :: int
  sd_theme_ids :: "string list"

definition subscription_demand_init :: "subscription_demand \<Rightarrow> subscription_demand result" where
  "subscription_demand_init d = validate
     [(stock_id_ok (sd_stock_id d), ValueError ''stock_id''),
      (is_aware (sd_observed_at d), ValueError ''observed_at aware''),
      (1 \<le> sd_signal_count d, ValueError ''signal_count''),
      (sorted_set (sd_theme_ids d) = sd_theme_ids d, ValueError ''theme_ids'')] d"

record subscription_plan =
  pl_generated_at :: datetime
  pl_subscriptions :: "string list"
  pl_added :: "string list"
  pl_removed :: "string list"
  pl_retained_for_cooldown :: "string list"
  pl_snapshot_supplement :: "string list"
  pl_target_limit :: int
  pl_hard_limit :: int
  pl_coalesced :: bool

definition subscription_plan_init :: "subscription_plan \<Rightarrow> subscription_plan result" where
  "subscription_plan_init p = validate
     [(is_aware (pl_generated_at p), ValueError ''generated_at aware''),
      (int (length (pl_subscriptions p)) \<le> pl_hard_limit p, ValueError ''hard limit''),
      (distinct (pl_subscriptions p), ValueError ''duplicate stock_id'')] p"

section \<open>The manager\<close>

record subscription_manager =
  su_target_limit :: int
  su_hard_limit :: int
  su_cooldown :: timedelta
  su_coalesce_interval :: timedelta
  su_current :: "string list"
  su_last_applied_at :: "datetime option"
  su_retained_until :: "(string, datetime) dict"
  su_last_demands :: "(string, subscription_demand) dict"
  su_pending_demands :: "(string, subscription_demand) dict"

definition subscription_manager_init ::
  "int \<Rightarrow> int \<Rightarrow> timedelta \<Rightarrow> timedelta \<Rightarrow> subscription_manager result" where
  "subscription_manager_init target_limit hard_limit cooldown coalesce_interval = validate
     [(1 \<le> target_limit \<and> target_limit \<le> hard_limit, ValueError ''limit''),
      (0 \<le> cooldown \<and> 0 \<le> coalesce_interval, ValueError ''cooldown'')]
     \<lparr>su_target_limit = target_limit, su_hard_limit = hard_limit, su_cooldown = cooldown,
      su_coalesce_interval = coalesce_interval, su_current = [], su_last_applied_at = None,
      su_retained_until = [], su_last_demands = [], su_pending_demands = []\<rparr>"

definition demand_rank_key :: "subscription_demand \<Rightarrow> int \<times> int \<times> int \<times> string" where
  "demand_rank_key d =
     (priority_value (sd_priority d), - sd_signal_count d, - instant (sd_observed_at d), sd_stock_id d)"

fun group_demands ::
  "(string, subscription_demand list) dict \<Rightarrow> subscription_demand list
    \<Rightarrow> (string, subscription_demand list) dict" where
  "group_demands grouped [] = grouped"
| "group_demands grouped (d # ds) =
     group_demands (dset (sd_stock_id d)
       ((case dget grouped (sd_stock_id d) of None \<Rightarrow> [] | Some rows \<Rightarrow> rows) @ [d]) grouped) ds"

text \<open>\<open>min\<close> of priorities and \<open>max\<close> of times over the rows of one stock.\<close>

definition best_priority :: "subscription_demand list \<Rightarrow> demand_priority" where
  "best_priority rows = foldl (\<lambda>p d. if priority_value (sd_priority d) < priority_value p
     then sd_priority d else p) (sd_priority (hd rows)) (tl rows)"

definition latest_observed :: "subscription_demand list \<Rightarrow> datetime" where
  "latest_observed rows = foldl (\<lambda>t d. later t (sd_observed_at d)) (sd_observed_at (hd rows)) (tl rows)"

definition merge_demands :: "string \<Rightarrow> subscription_demand list \<Rightarrow> subscription_demand" where
  "merge_demands stock_id rows =
     \<lparr>sd_stock_id = stock_id, sd_priority = best_priority rows, sd_observed_at = latest_observed rows,
      sd_signal_count = sum_list (map sd_signal_count rows),
      sd_theme_ids = sorted_set (concat (map sd_theme_ids rows))\<rparr>"

definition aggregate_demands ::
  "subscription_demand list \<Rightarrow> (string, subscription_demand) dict result" where
  "aggregate_demands demands =
     map_result (\<lambda>(stock_id, rows). bind_result (subscription_demand_init (merge_demands stock_id rows))
         (\<lambda>d. Inr (stock_id, d)))
       (group_demands [] demands)"

definition ranked_demands :: "(string, subscription_demand) dict \<Rightarrow> string list" where
  "ranked_demands demands = map fst (sort_key (\<lambda>(_, d). demand_rank_key d) demands)"

definition coalesced_plan ::
  "subscription_manager \<Rightarrow> (string, subscription_demand) dict \<Rightarrow> datetime \<Rightarrow> subscription_plan result" where
  "coalesced_plan m demands now = subscription_plan_init
     \<lparr>pl_generated_at = now, pl_subscriptions = su_current m, pl_added = [], pl_removed = [],
      pl_retained_for_cooldown =
        filter (\<lambda>i. dget (su_retained_until m) i \<noteq> None) (su_current m),
      pl_snapshot_supplement = filter (\<lambda>i. i \<notin> set (su_current m)) (ranked_demands demands),
      pl_target_limit = su_target_limit m, pl_hard_limit = su_hard_limit m, pl_coalesced = True\<rparr>"

definition historical_rank :: "subscription_manager \<Rightarrow> string \<Rightarrow> int \<times> int \<times> int \<times> string" where
  "historical_rank m stock_id =
     (case (dget (su_pending_demands m) stock_id, dget (su_last_demands m) stock_id) of
        (Some d, _) \<Rightarrow> demand_rank_key d
      | (None, Some d) \<Rightarrow> demand_rank_key d
      | (None, None) \<Rightarrow> (6, 0, 0, stock_id))"

text \<open>
  The cooldowns after a decision: entries of stocks that are wanted again or whose time has come go,
  and registered stocks that are newly unwanted get one.
\<close>

definition expired_cooldown :: "(string, datetime) dict \<Rightarrow> string list \<Rightarrow> datetime \<Rightarrow> string list" where
  "expired_cooldown retained desired now =
     map fst (filter (\<lambda>(i, t). i \<notin> set desired \<and> instant t \<le> instant now) retained)"

definition cooldowns ::
  "subscription_manager \<Rightarrow> string list \<Rightarrow> datetime \<Rightarrow> (string, datetime) dict" where
  "cooldowns m desired now =
     (let expired = expired_cooldown (su_retained_until m) desired now;
          retained = filter (\<lambda>(i, t). i \<notin> set desired \<and> instant now < instant t) (su_retained_until m)
      in foldl (\<lambda>d i. if i \<notin> set desired \<and> dget d i = None \<and> i \<notin> set expired
                      then dset i (shift now (su_cooldown m)) d else d)
           retained (su_current m))"

definition cooling_stocks ::
  "subscription_manager \<Rightarrow> (string, datetime) dict \<Rightarrow> string list \<Rightarrow> datetime \<Rightarrow> string list" where
  "cooling_stocks m retained desired now =
     take (nat (su_hard_limit m - int (length desired)))
       (sort_key (historical_rank m)
         (filter (\<lambda>i. i \<notin> set desired \<and> instant now < instant
              (case dget retained i of None \<Rightarrow> now | Some t \<Rightarrow> t)) (su_current m)))"

definition stable_subscriptions :: "string list \<Rightarrow> string list \<Rightarrow> string list \<Rightarrow> string list" where
  "stable_subscriptions current desired cooling =
     (let stable = filter (\<lambda>i. i \<in> set desired \<or> i \<in> set cooling) current
      in stable @ filter (\<lambda>i. i \<notin> set stable) desired)"

definition apply_demands ::
  "subscription_manager \<Rightarrow> (string, subscription_demand) dict \<Rightarrow> datetime
    \<Rightarrow> subscription_manager \<times> subscription_plan result" where
  "apply_demands m demands now =
     (let ranked = ranked_demands demands;
          desired = take (nat (su_target_limit m)) ranked;
          retained = cooldowns m desired now;
          cooling = cooling_stocks m retained desired now;
          subscriptions = stable_subscriptions (su_current m) desired cooling;
          added = sorted_set (filter (\<lambda>i. i \<notin> set (su_current m)) subscriptions);
          removed = sorted_set (filter (\<lambda>i. i \<notin> set subscriptions) (su_current m))
      in (m\<lparr>su_retained_until := foldl (\<lambda>d i. ddel i d) retained removed,
            su_last_demands := foldl (\<lambda>d (i, x). dset i x d) (su_last_demands m) demands,
            su_current := subscriptions, su_last_applied_at := Some now\<rparr>,
          subscription_plan_init
            \<lparr>pl_generated_at = now, pl_subscriptions = subscriptions, pl_added = added,
             pl_removed = removed,
             pl_retained_for_cooldown = filter (\<lambda>i. i \<in> set cooling) subscriptions,
             pl_snapshot_supplement = filter (\<lambda>i. i \<notin> set subscriptions) ranked,
             pl_target_limit = su_target_limit m, pl_hard_limit = su_hard_limit m,
             pl_coalesced = False\<rparr>))"

definition reconcile ::
  "subscription_manager \<Rightarrow> subscription_demand list \<Rightarrow> datetime \<Rightarrow> bool
    \<Rightarrow> subscription_manager \<times> subscription_plan result" where
  "reconcile m demands now force =
     (if \<not> is_aware now then (m, Inl (ValueError ''now aware''))
      else case aggregate_demands demands of
          Inl e \<Rightarrow> (m, Inl e)
        | Inr normalized \<Rightarrow>
            let m1 = m\<lparr>su_pending_demands := normalized\<rparr>
            in if \<not> force \<and> (case su_last_applied_at m of None \<Rightarrow> False
                   | Some t \<Rightarrow> instant now - instant t < su_coalesce_interval m)
               then (m1, coalesced_plan m1 normalized now)
               else apply_demands m1 normalized now)"

definition flush ::
  "subscription_manager \<Rightarrow> datetime \<Rightarrow> bool \<Rightarrow> subscription_manager \<times> subscription_plan result" where
  "flush m now force = reconcile m (map snd (su_pending_demands m)) now force"

section \<open>Aggregated demands\<close>

definition demand_ok :: "subscription_demand \<Rightarrow> bool" where
  "demand_ok d \<longleftrightarrow> subscription_demand_init d = Inr d"

lemma demand_ok_iff:
  "demand_ok d \<longleftrightarrow> stock_id_ok (sd_stock_id d) \<and> is_aware (sd_observed_at d) \<and> 1 \<le> sd_signal_count d
     \<and> sorted_set (sd_theme_ids d) = sd_theme_ids d"
  unfolding demand_ok_def subscription_demand_init_def validate_Inr_iff by simp

lemma subscription_demand_init_Inr: "subscription_demand_init d = Inr d' \<Longrightarrow> d' = d \<and> demand_ok d"
  unfolding demand_ok_def subscription_demand_init_def validate_Inr_iff by simp

definition rows_ok :: "string \<Rightarrow> subscription_demand list \<Rightarrow> bool" where
  "rows_ok i rows \<longleftrightarrow> rows \<noteq> [] \<and> list_all (\<lambda>d. demand_ok d \<and> sd_stock_id d = i) rows"

lemma latest_observed_aware: "rows_ok i rows \<Longrightarrow> is_aware (latest_observed rows)"
proof -
  have "is_aware t \<Longrightarrow> list_all (\<lambda>d. is_aware (sd_observed_at d)) ds
      \<Longrightarrow> is_aware (foldl (\<lambda>t d. later t (sd_observed_at d)) t ds)" for t ds
    by (induction ds arbitrary: t) simp_all
  then show "rows_ok i rows \<Longrightarrow> is_aware (latest_observed rows)"
    by (cases rows) (auto simp: rows_ok_def latest_observed_def demand_ok_iff list_all_iff)
qed

lemma merge_demands_ok:
  assumes "rows_ok i rows"
  shows "demand_ok (merge_demands i rows)" and "sd_stock_id (merge_demands i rows) = i"
proof -
  have "list_all (\<lambda>d. 1 \<le> sd_signal_count d) ds \<Longrightarrow> 0 \<le> sum_list (map sd_signal_count ds)" for ds
    by (induction ds) auto
  then have "1 \<le> sum_list (map sd_signal_count rows)"
    using assms by (cases rows) (force simp: rows_ok_def demand_ok_iff list_all_iff)+
  moreover have "stock_id_ok i"
    using assms by (cases rows) (auto simp: rows_ok_def demand_ok_iff)
  moreover have "sorted_set (sorted_set xs) = sorted_set xs" for xs :: "string list"
    by (simp add: sorted_set_id_iff)
  ultimately show "demand_ok (merge_demands i rows)"
    using latest_observed_aware [OF assms] by (simp add: demand_ok_iff merge_demands_def)
  show "sd_stock_id (merge_demands i rows) = i" by (simp add: merge_demands_def)
qed

lemma group_demands_props:
  assumes "distinct (dkeys g)"
  shows "distinct (dkeys (group_demands g ds))
    \<and> fst ` set (group_demands g ds) = fst ` set g \<union> sd_stock_id ` set ds
    \<and> ((\<forall>(i, rows)\<in>set g. rows_ok i rows) \<and> list_all demand_ok ds
        \<longrightarrow> (\<forall>(i, rows)\<in>set (group_demands g ds). rows_ok i rows))"
  using assms
proof (induction ds arbitrary: g)
  case (Cons d ds)
  let ?rows = "case dget g (sd_stock_id d) of None \<Rightarrow> [] | Some rows \<Rightarrow> rows"
  let ?g = "dset (sd_stock_id d) (?rows @ [d]) g"
  have "\<forall>(i, rows)\<in>set ?g. rows_ok i rows" if "\<forall>(i, rows)\<in>set g. rows_ok i rows" "demand_ok d"
  proof -
    have "rows_ok (sd_stock_id d) (?rows @ [d])"
      using that by (auto simp: rows_ok_def split: option.split dest!: map_of_SomeD)
    with that set_dset_distinct [OF Cons.prems, of "sd_stock_id d" "?rows @ [d]"] show ?thesis by auto
  qed
  moreover have "distinct (dkeys ?g)" using Cons.prems by simp
  ultimately show ?case using Cons.IH [of ?g] by auto
qed simp

text \<open>What the aggregated demands are: one valid demand per stock, under its own id.\<close>

definition demands_ok :: "(string, subscription_demand) dict \<Rightarrow> bool" where
  "demands_ok n \<longleftrightarrow> distinct (dkeys n) \<and> (\<forall>(i, d)\<in>set n. demand_ok d \<and> sd_stock_id d = i)"

lemma aggregate_demands_Inr:
  assumes "aggregate_demands ds = Inr n"
  shows "demands_ok n" and "fst ` set n = sd_stock_id ` set ds"
proof -
  let ?g = "group_demands [] ds"
  have n: "list_all2 (\<lambda>(i, rows) e. e = (i, merge_demands i rows) \<and> demand_ok (snd e)) ?g n"
    using assms unfolding aggregate_demands_def map_result_Inr_list_all2
    by (rule list_all2_mono) (auto simp: bind_result_Inr_iff dest!: subscription_demand_init_Inr)
  then have keys: "dkeys n = dkeys ?g"
    by (induction rule: list_all2_induct) auto
  from n have "\<forall>(i, d)\<in>set n. demand_ok d \<and> sd_stock_id d = i"
    by (induction rule: list_all2_induct) (auto simp: merge_demands_def)
  then show "demands_ok n" using group_demands_props [of "[]" ds] by (simp add: demands_ok_def keys)
  have "fst ` set n = set (dkeys n)" by simp
  then show "fst ` set n = sd_stock_id ` set ds"
    unfolding keys using group_demands_props [of "[]" ds] by simp
qed

lemma map_result_ok: "list_all (\<lambda>x. \<exists>y. f x = Inr y) xs \<Longrightarrow> \<exists>ys. map_result f xs = Inr ys"
  by (induction xs) auto

lemma aggregate_demands_total:
  assumes "list_all demand_ok ds"
  shows "\<exists>n. aggregate_demands ds = Inr n"
  unfolding aggregate_demands_def
proof (rule map_result_ok)
  have "\<forall>(i, rows)\<in>set (group_demands [] ds). rows_ok i rows"
    using group_demands_props [of "[]" ds] assms by simp
  then show "list_all (\<lambda>x. \<exists>y. (\<lambda>(stock_id, rows). bind_result (subscription_demand_init
      (merge_demands stock_id rows)) (\<lambda>d. Inr (stock_id, d))) x = Inr y) (group_demands [] ds)"
    using merge_demands_ok(1) unfolding list_all_iff demand_ok_def by fastforce
qed

lemma ranked_demands_props:
  assumes "demands_ok n"
  shows "distinct (ranked_demands n)" and "set (ranked_demands n) = fst ` set n"
proof -
  show "set (ranked_demands n) = fst ` set n" by (simp add: ranked_demands_def)
  have "distinct n" "inj_on fst (set n)" using assms by (auto simp: demands_ok_def distinct_map)
  then show "distinct (ranked_demands n)" by (simp add: ranked_demands_def distinct_map)
qed

section \<open>The limits\<close>

definition manager_ok :: "subscription_manager \<Rightarrow> bool" where
  "manager_ok m \<longleftrightarrow> 1 \<le> su_target_limit m \<and> su_target_limit m \<le> su_hard_limit m
     \<and> 0 \<le> su_cooldown m
     \<and> distinct (su_current m) \<and> int (length (su_current m)) \<le> su_hard_limit m
     \<and> distinct (dkeys (su_retained_until m)) \<and> demands_ok (su_pending_demands m)"

lemma subscription_manager_init_ok:
  "subscription_manager_init t h c i = Inr m \<Longrightarrow> manager_ok m"
  unfolding subscription_manager_init_def validate_Inr_iff by (auto simp: manager_ok_def demands_ok_def)

lemma cooling_stocks_props:
  assumes "distinct (su_current m)"
  shows "distinct (cooling_stocks m r desired now)"
    and "set (cooling_stocks m r desired now) \<subseteq> set (su_current m) - set desired"
    and "length (cooling_stocks m r desired now) \<le> nat (su_hard_limit m - int (length desired))"
  using assms by (auto simp: cooling_stocks_def dest!: in_set_takeD)

lemma stable_subscriptions_props:
  assumes "distinct current" "distinct desired" "distinct cooling"
    and "set cooling \<subseteq> set current - set desired"
  shows "set (stable_subscriptions current desired cooling) = set desired \<union> set cooling"
    and "distinct (stable_subscriptions current desired cooling)"
    and "length (stable_subscriptions current desired cooling) = length desired + length cooling"
proof -
  show s: "set (stable_subscriptions current desired cooling) = set desired \<union> set cooling"
    using assms(4) by (auto simp: stable_subscriptions_def Let_def)
  show d: "distinct (stable_subscriptions current desired cooling)"
    using assms(1,2) by (auto simp: stable_subscriptions_def Let_def)
  have "card (set desired \<union> set cooling) = length desired + length cooling"
    using assms by (subst card_Un_disjoint) (auto simp: distinct_card)
  with s distinct_card [OF d] show "length (stable_subscriptions current desired cooling) = length desired + length cooling"
    by simp
qed

lemma distinct_cooldowns:
  assumes "distinct (dkeys (su_retained_until m))"
  shows "distinct (dkeys (cooldowns m desired now))"
proof -
  have "distinct (dkeys d) \<Longrightarrow> distinct (dkeys (foldl (\<lambda>d i. if i \<notin> set desired \<and> dget d i = None \<and> i \<notin> E
      then dset i t d else d) d xs))" for d E xs and t :: datetime
    by (induction xs arbitrary: d) simp_all
  moreover have "distinct (dkeys (filter P (su_retained_until m)))" for P
    using assms by (simp add: distinct_map_filter)
  ultimately show ?thesis by (simp add: cooldowns_def Let_def)
qed

lemma distinct_ddels: "distinct (dkeys d) \<Longrightarrow> distinct (dkeys (foldl (\<lambda>d i. ddel i d) d xs))"
  by (induction xs arbitrary: d) (simp_all add: distinct_delete)

text \<open>The parts of a decision, and what they satisfy.\<close>

definition desired_stocks :: "subscription_manager \<Rightarrow> (string, subscription_demand) dict \<Rightarrow> string list" where
  "desired_stocks m n = take (nat (su_target_limit m)) (ranked_demands n)"

definition chosen_cooling ::
  "subscription_manager \<Rightarrow> (string, subscription_demand) dict \<Rightarrow> datetime \<Rightarrow> string list" where
  "chosen_cooling m n now =
     cooling_stocks m (cooldowns m (desired_stocks m n) now) (desired_stocks m n) now"

definition next_subscriptions ::
  "subscription_manager \<Rightarrow> (string, subscription_demand) dict \<Rightarrow> datetime \<Rightarrow> string list" where
  "next_subscriptions m n now =
     stable_subscriptions (su_current m) (desired_stocks m n) (chosen_cooling m n now)"

lemma next_subscriptions_props:
  assumes "manager_ok m" and "demands_ok n"
  shows "distinct (next_subscriptions m n now)"
    and "int (length (next_subscriptions m n now)) \<le> su_hard_limit m"
    and "set (next_subscriptions m n now) = set (desired_stocks m n) \<union> set (chosen_cooling m n now)"
    and "set (chosen_cooling m n now) \<subseteq> set (su_current m) - set (desired_stocks m n)"
    and "length (next_subscriptions m n now) = length (desired_stocks m n) + length (chosen_cooling m n now)"
proof -
  have dist: "distinct (su_current m)" "distinct (desired_stocks m n)"
    using assms ranked_demands_props [OF assms(2)] by (simp_all add: manager_ok_def desired_stocks_def)
  have cool: "distinct (chosen_cooling m n now)"
      "set (chosen_cooling m n now) \<subseteq> set (su_current m) - set (desired_stocks m n)"
      "length (chosen_cooling m n now) \<le> nat (su_hard_limit m - int (length (desired_stocks m n)))"
    unfolding chosen_cooling_def using cooling_stocks_props [OF dist(1)] by blast+
  note stable = stable_subscriptions_props [OF dist cool(1,2)]
  have "int (length (desired_stocks m n)) \<le> su_target_limit m"
    using assms(1) by (auto simp: desired_stocks_def manager_ok_def)
  with assms(1) have "int (length (desired_stocks m n)) \<le> su_hard_limit m"
    by (simp add: manager_ok_def)
  with cool(3) stable(3) show "int (length (next_subscriptions m n now)) \<le> su_hard_limit m"
    by (simp add: next_subscriptions_def)
  show "distinct (next_subscriptions m n now)"
    "set (next_subscriptions m n now) = set (desired_stocks m n) \<union> set (chosen_cooling m n now)"
    "length (next_subscriptions m n now) = length (desired_stocks m n) + length (chosen_cooling m n now)"
    using stable by (simp_all add: next_subscriptions_def)
  show "set (chosen_cooling m n now) \<subseteq> set (su_current m) - set (desired_stocks m n)" by fact
qed

lemma apply_demands_result:
  assumes "manager_ok m" and "demands_ok n" and "is_aware now"
  shows "snd (apply_demands m n now) = Inr
      \<lparr>pl_generated_at = now, pl_subscriptions = next_subscriptions m n now,
       pl_added = sorted_set (filter (\<lambda>i. i \<notin> set (su_current m)) (next_subscriptions m n now)),
       pl_removed = sorted_set (filter (\<lambda>i. i \<notin> set (next_subscriptions m n now)) (su_current m)),
       pl_retained_for_cooldown = filter (\<lambda>i. i \<in> set (chosen_cooling m n now)) (next_subscriptions m n now),
       pl_snapshot_supplement = filter (\<lambda>i. i \<notin> set (next_subscriptions m n now)) (ranked_demands n),
       pl_target_limit = su_target_limit m, pl_hard_limit = su_hard_limit m, pl_coalesced = False\<rparr>"
    and "su_current (fst (apply_demands m n now)) = next_subscriptions m n now"
    and "manager_ok m \<Longrightarrow> su_pending_demands m = n \<Longrightarrow> manager_ok (fst (apply_demands m n now))"
proof -
  note fold = desired_stocks_def [symmetric] chosen_cooling_def [symmetric] next_subscriptions_def [symmetric]
  note props = next_subscriptions_props [OF assms(1,2)]
  show "snd (apply_demands m n now) = Inr
      \<lparr>pl_generated_at = now, pl_subscriptions = next_subscriptions m n now,
       pl_added = sorted_set (filter (\<lambda>i. i \<notin> set (su_current m)) (next_subscriptions m n now)),
       pl_removed = sorted_set (filter (\<lambda>i. i \<notin> set (next_subscriptions m n now)) (su_current m)),
       pl_retained_for_cooldown = filter (\<lambda>i. i \<in> set (chosen_cooling m n now)) (next_subscriptions m n now),
       pl_snapshot_supplement = filter (\<lambda>i. i \<notin> set (next_subscriptions m n now)) (ranked_demands n),
       pl_target_limit = su_target_limit m, pl_hard_limit = su_hard_limit m, pl_coalesced = False\<rparr>"
    using props(1,2) [of now] assms(3)
    unfolding apply_demands_def Let_def fold subscription_plan_init_def by simp
  show cur: "su_current (fst (apply_demands m n now)) = next_subscriptions m n now"
    unfolding apply_demands_def Let_def fold by simp
  show "manager_ok m \<Longrightarrow> su_pending_demands m = n \<Longrightarrow> manager_ok (fst (apply_demands m n now))"
    using props(1,2) [of now] unfolding apply_demands_def Let_def fold
    by (auto simp: manager_ok_def intro!: distinct_ddels distinct_cooldowns)
qed

lemma coalesced_plan_result:
  assumes "manager_ok m" and "is_aware now"
  shows "\<exists>p. coalesced_plan m n now = Inr p \<and> pl_subscriptions p = su_current m \<and> pl_added p = []
    \<and> pl_removed p = [] \<and> pl_coalesced p
    \<and> pl_snapshot_supplement p = filter (\<lambda>i. i \<notin> set (su_current m)) (ranked_demands n)"
  using assms unfolding coalesced_plan_def subscription_plan_init_def manager_ok_def by simp

text \<open>A decision on aggregated demands is either postponed or applied.\<close>

lemma reconcile_cases:
  assumes "manager_ok m" and "is_aware now" and "aggregate_demands ds = Inr n"
  defines "m1 \<equiv> m\<lparr>su_pending_demands := n\<rparr>"
  shows "manager_ok m1 \<and> demands_ok n \<and> (reconcile m ds now force = (m1, coalesced_plan m1 n now)
    \<or> reconcile m ds now force = apply_demands m1 n now)"
  using assms aggregate_demands_Inr(1) [OF assms(3)]
  by (simp add: reconcile_def Let_def manager_ok_def)

lemma reconcile_ok:
  assumes "manager_ok m"
  shows "manager_ok (fst (reconcile m ds now force))"
proof (cases "is_aware now")
  case True
  show ?thesis
  proof (cases "aggregate_demands ds")
    case (Inr n)
    from reconcile_cases [OF assms True Inr, of force] show ?thesis
      using apply_demands_result(3) [of "m\<lparr>su_pending_demands := n\<rparr>" n now] True by auto
  qed (use assms True in \<open>simp add: reconcile_def\<close>)
qed (use assms in \<open>simp add: reconcile_def\<close>)

datatype subscription_op = Reconcile "subscription_demand list" datetime bool | Flush datetime bool

fun subscription_step ::
  "subscription_manager \<Rightarrow> subscription_op \<Rightarrow> subscription_manager \<times> subscription_plan result" where
  "subscription_step m (Reconcile ds now force) = reconcile m ds now force"
| "subscription_step m (Flush now force) = flush m now force"

interpretation subscriptions: invariant_machine subscription_step manager_ok
proof
  show "manager_ok (fst (subscription_step m op))" if "manager_ok m" for m op
    using reconcile_ok [OF that] by (cases op) (simp_all add: flush_def)
qed

text \<open>
  However demands came before, a decision on valid demands at an aware time never fails; the
  registered stocks are distinct and at most the hard limit, they are the ones of the plan, and they
  are the old ones without the removed and with the added ones.
\<close>

theorem subscription_limits:
  assumes "subscription_manager_init target_limit hard_limit cooldown interval = Inr m0"
    and "m = run subscription_step m0 ops" and "list_all demand_ok demands" and "is_aware now"
  shows "case reconcile m demands now force of
     (m', Inl e) \<Rightarrow> False
   | (m', Inr plan) \<Rightarrow> distinct (su_current m') \<and> int (length (su_current m')) \<le> hard_limit
       \<and> su_current m' = pl_subscriptions plan
       \<and> set (su_current m') = set (su_current m) - set (pl_removed plan) \<union> set (pl_added plan)"
proof -
  have ok: "manager_ok m"
    unfolding assms(2) using subscriptions.run_inv subscription_manager_init_ok [OF assms(1)] by blast
  have hard: "su_hard_limit m = hard_limit"
  proof -
    have "su_hard_limit (fst (reconcile m ds now force)) = su_hard_limit m" for m ds now force
      by (auto simp: reconcile_def apply_demands_def Let_def split: sum.split)
    then have "su_hard_limit (fst (subscription_step m op)) = su_hard_limit m" for m op
      by (cases op) (simp_all add: flush_def)
    then have "su_hard_limit (run subscription_step m ops) = su_hard_limit m" for m
      by (induction ops arbitrary: m) simp_all
    moreover have "su_hard_limit m0 = hard_limit"
      using assms(1) unfolding subscription_manager_init_def validate_Inr_iff by auto
    ultimately show ?thesis by (simp add: assms(2))
  qed
  obtain n where n: "aggregate_demands demands = Inr n"
    using aggregate_demands_total [OF assms(3)] by blast
  let ?m1 = "m\<lparr>su_pending_demands := n\<rparr>"
  note split = reconcile_cases [OF ok assms(4) n, of force]
  then have m1: "manager_ok ?m1" "demands_ok n" by simp_all
  note applied = apply_demands_result(1,2) [OF m1 assms(4)] next_subscriptions_props(1,2) [OF m1, of now]
  obtain p where p: "coalesced_plan ?m1 n now = Inr p" "pl_subscriptions p = su_current ?m1"
      "pl_added p = []" "pl_removed p = []"
    using coalesced_plan_result [OF m1(1) assms(4), of n] by blast
  from split show ?thesis
  proof (elim conjE disjE)
    assume "reconcile m demands now force = (?m1, coalesced_plan ?m1 n now)"
    with p ok hard show ?thesis by (simp add: manager_ok_def)
  next
    assume "reconcile m demands now force = apply_demands ?m1 n now"
    with applied hard show ?thesis by (auto simp: split_beta)
  qed
qed

text \<open>Two stocks that are wanted at once, for the examples.\<close>

definition sample_demand :: "string \<Rightarrow> int \<Rightarrow> subscription_demand" where
  "sample_demand i n =
     \<lparr>sd_stock_id = i, sd_priority = ACTIVE_CORE, sd_observed_at = Aware 10 0, sd_signal_count = n,
      sd_theme_ids = []\<rparr>"

definition sample_manager :: subscription_manager where
  "sample_manager = \<lparr>su_target_limit = 1, su_hard_limit = 2, su_cooldown = 60, su_coalesce_interval = 1,
     su_current = [], su_last_applied_at = None, su_retained_until = [], su_last_demands = [],
     su_pending_demands = []\<rparr>"

lemma sample_manager_init: "subscription_manager_init 1 2 60 1 = Inr sample_manager"
  by (simp add: subscription_manager_init_def sample_manager_def)

lemma sample_demands_ok:
  "list_all demand_ok [sample_demand ''KRX:000010'' 1, sample_demand ''KRX:000020'' 2]"
  by code_simp

theorem subscription_limits_witness:
  "case reconcile (run subscription_step sample_manager [])
      [sample_demand ''KRX:000010'' 1, sample_demand ''KRX:000020'' 2] (Aware 20 0) False of
     (m', Inl e) \<Rightarrow> False | (m', Inr plan) \<Rightarrow> int (length (su_current m')) \<le> 2"
  using subscription_limits [OF sample_manager_init refl sample_demands_ok, of "Aware 20 0" "[]" False]
  by (auto split: prod.splits sum.splits)

section \<open>What is served\<close>

lemma map_of_filter:
  "distinct (map fst xs) \<Longrightarrow> map_of (filter (\<lambda>(k, v). P k v) xs) k
     = (case map_of xs k of None \<Rightarrow> None | Some v \<Rightarrow> if P k v then Some v else None)"
proof (induction xs)
  case (Cons x xs)
  have "map_of xs k = None" if "k = fst x"
    using Cons.prems that by (simp add: map_of_eq_None_iff)
  with Cons show ?case by (cases x) (auto split: option.splits)
qed simp

lemma cooldown_entry:
  fixes t :: datetime
  shows "distinct xs \<Longrightarrow> dget (foldl (\<lambda>d i. if P i \<and> dget d i = None \<and> Q i then dset i t d else d) d xs) k
    = (if k \<in> set xs \<and> P k \<and> dget d k = None \<and> Q k then Some t else dget d k)"
  by (induction xs arbitrary: d) auto

text \<open>A registered stock that is no longer wanted cools, unless its cooldown is over or there is none.\<close>

lemma unwanted_cools:
  assumes "manager_ok m" and "i \<in> set (su_current m)" and "i \<notin> set desired"
    and "\<And>t. dget (su_retained_until m) i = Some t \<Longrightarrow> instant now < instant t"
    and "su_cooldown m \<noteq> 0"
  shows "instant now < instant (case dget (cooldowns m desired now) i of None \<Rightarrow> now | Some t \<Rightarrow> t)"
proof -
  have dist: "distinct (dkeys (su_retained_until m))" "distinct (su_current m)" "0 < su_cooldown m"
    using assms(1,5) by (auto simp: manager_ok_def)
  note lookup = map_of_filter [OF dist(1), of "\<lambda>i t. i \<notin> set desired \<and> instant now < instant t" i]
  show ?thesis
  proof (cases "dget (su_retained_until m) i")
    case (Some t)
    with lookup assms(3,4) show ?thesis
      by (simp add: cooldowns_def Let_def cooldown_entry [OF dist(2)])
  next
    case None
    then have "i \<notin> set (expired_cooldown (su_retained_until m) desired now)"
      by (auto simp: expired_cooldown_def map_of_eq_None_iff image_iff)
    with None lookup assms(2,3) dist(3) show ?thesis
      by (simp add: cooldowns_def Let_def cooldown_entry [OF dist(2)])
  qed
qed

lemma removed_reason:
  assumes "manager_ok m" and "demands_ok n" and "i \<in> set (su_current m)"
    and "i \<notin> set (next_subscriptions m n now)"
  shows "i \<notin> set (desired_stocks m n) \<and> (su_cooldown m = 0
    \<or> (\<exists>t. dget (su_retained_until m) i = Some t \<and> instant t \<le> instant now)
    \<or> int (length (next_subscriptions m n now)) = su_hard_limit m)"
proof -
  note props = next_subscriptions_props [OF assms(1,2), of now]
  let ?d = "desired_stocks m n"
  let ?r = "cooldowns m ?d now"
  let ?all = "sort_key (historical_rank m) (filter (\<lambda>i. i \<notin> set ?d \<and> instant now < instant
      (case dget ?r i of None \<Rightarrow> now | Some t \<Rightarrow> t)) (su_current m))"
  let ?k = "nat (su_hard_limit m - int (length ?d))"
  have cool: "chosen_cooling m n now = take ?k ?all" by (simp add: chosen_cooling_def cooling_stocks_def)
  have unwanted: "i \<notin> set ?d" using props(3) assms(4) by blast
  have "int (length (next_subscriptions m n now)) = su_hard_limit m"
    if "su_cooldown m \<noteq> 0" "\<And>t. dget (su_retained_until m) i = Some t \<Longrightarrow> instant now < instant t"
  proof -
    have "i \<in> set ?all" using unwanted_cools [OF assms(1,3) unwanted that(2,1)] assms(3) unwanted by simp
    moreover have "i \<notin> set (take ?k ?all)" using assms(4) unfolding cool [symmetric] props(3) by simp
    ultimately have "take ?k ?all \<noteq> ?all" by (auto simp only:)
    then have "?k < length ?all" using take_all [of ?all ?k] by (cases "length ?all \<le> ?k") (blast, simp)
    then have "length (chosen_cooling m n now) = ?k" by (simp add: cool)
    with props(2,5) show ?thesis by linarith
  qed
  with unwanted show ?thesis by (metis not_le)
qed

text \<open>
  Every demanded stock is registered or listed for snapshots, never both.  When a decision is
  applied, the best demands up to the target limit are all registered, and a stock that loses its
  registration is not among them and its cooldown is over, there is no cooldown, or the
  registrations are at the hard limit.
\<close>

theorem demand_served:
  assumes "subscription_manager_init target_limit hard_limit cooldown interval = Inr m0"
    and "m = run subscription_step m0 ops" and "aggregate_demands demands = Inr n"
    and "reconcile m demands now force = (m', Inr plan)"
  shows "set (pl_snapshot_supplement plan) = sd_stock_id ` set demands - set (pl_subscriptions plan)
    \<and> (\<not> pl_coalesced plan \<longrightarrow> set (take (nat (su_target_limit m)) (ranked_demands n)) \<subseteq> set (pl_subscriptions plan)
        \<and> (\<forall>i\<in>set (pl_removed plan). i \<notin> set (take (nat (su_target_limit m)) (ranked_demands n))
            \<and> (su_cooldown m = 0
               \<or> (\<exists>t. dget (su_retained_until m) i = Some t \<and> instant t \<le> instant now)
               \<or> int (length (pl_subscriptions plan)) = su_hard_limit m)))"
proof -
  have ok: "manager_ok m"
    unfolding assms(2) using subscriptions.run_inv subscription_manager_init_ok [OF assms(1)] by blast
  have now: "is_aware now" using assms(4) by (auto simp: reconcile_def split: if_splits)
  let ?m1 = "m\<lparr>su_pending_demands := n\<rparr>"
  note split = reconcile_cases [OF ok now assms(3), of force]
  then have m1: "manager_ok ?m1" "demands_ok n" by simp_all
  have wanted: "set (ranked_demands n) = sd_stock_id ` set demands"
    using ranked_demands_props(2) [OF m1(2)] aggregate_demands_Inr(2) [OF assms(3)] by simp
  from split show ?thesis
  proof (elim conjE disjE)
    assume "reconcile m demands now force = (?m1, coalesced_plan ?m1 n now)"
    with assms(4) coalesced_plan_result [OF m1(1) now, of n] wanted show ?thesis by auto
  next
    assume "reconcile m demands now force = apply_demands ?m1 n now"
    with assms(4) apply_demands_result(1) [OF m1 now]
    have plan: "pl_subscriptions plan = next_subscriptions ?m1 n now"
      "pl_snapshot_supplement plan = filter (\<lambda>i. i \<notin> set (next_subscriptions ?m1 n now)) (ranked_demands n)"
      "set (pl_removed plan) = set (su_current m) - set (next_subscriptions ?m1 n now)"
      by auto
    have desired: "desired_stocks ?m1 n = take (nat (su_target_limit m)) (ranked_demands n)"
      by (simp add: desired_stocks_def)
    have "set (pl_snapshot_supplement plan) = sd_stock_id ` set demands - set (pl_subscriptions plan)"
      using wanted by (auto simp: plan)
    moreover have "set (take (nat (su_target_limit m)) (ranked_demands n)) \<subseteq> set (pl_subscriptions plan)"
      using next_subscriptions_props(3) [OF m1, of now] by (simp add: plan desired)
    moreover note removed_reason [OF m1, of _ now]
    ultimately show ?thesis by (simp add: plan desired)
  qed
qed

lemma result_is_Inr: "case r of Inl e \<Rightarrow> False | Inr x \<Rightarrow> True \<Longrightarrow> \<exists>x. r = Inr x"
  by (cases r) simp_all

theorem demand_served_witness:
  "case reconcile (run subscription_step sample_manager [])
      [sample_demand ''KRX:000010'' 1, sample_demand ''KRX:000020'' 2] (Aware 20 0) False of
     (m', Inl e) \<Rightarrow> False
   | (m', Inr plan) \<Rightarrow> set (pl_snapshot_supplement plan)
       = {''KRX:000010'', ''KRX:000020''} - set (pl_subscriptions plan)"
proof -
  let ?ds = "[sample_demand ''KRX:000010'' 1, sample_demand ''KRX:000020'' 2]"
  obtain n where n: "aggregate_demands ?ds = Inr n" using aggregate_demands_total [OF sample_demands_ok] by blast
  let ?r = "reconcile (run subscription_step sample_manager []) ?ds (Aware 20 0) False"
  have "case snd ?r of Inl e \<Rightarrow> False | Inr plan \<Rightarrow> True" by code_simp
  then obtain plan where "snd ?r = Inr plan" using result_is_Inr by blast
  then obtain m' where r: "?r = (m', Inr plan)" by (metis prod.collapse)
  from demand_served [OF sample_manager_init refl n r] show ?thesis
    unfolding r by (simp add: sample_demand_def)
qed

end
