(* ===== verification/Kiwoom_Contract.thy ===== *)
theory Kiwoom_Contract
  imports Decimal_Context Subscriptions
begin

text \<open>
  \<open>packages/adapters/kiwoom/contract.py\<close>: the messages a Kiwoom source delivers, the canonical
  market events made of them and the checks of their constructors.  A payload is a JSON value.
\<close>

section \<open>Sources and kinds\<close>

datatype source_channel = WEBSOCKET | REST_SNAPSHOT

fun channel_value :: "source_channel \<Rightarrow> string" where
  "channel_value WEBSOCKET = ''KIWOOM_WEBSOCKET''"
| "channel_value REST_SNAPSHOT = ''KIWOOM_REST_SNAPSHOT''"

datatype canonical_event_type = CANDIDATE_ENTERED | CANDIDATE_EXITED | TRADE | SNAPSHOT

fun event_type_value :: "canonical_event_type \<Rightarrow> string" where
  "event_type_value CANDIDATE_ENTERED = ''market.candidate.entered''"
| "event_type_value CANDIDATE_EXITED = ''market.candidate.exited''"
| "event_type_value TRADE = ''market.trade''"
| "event_type_value SNAPSHOT = ''market.snapshot''"

datatype candidate_action = ENTER | EXIT

fun action_value :: "candidate_action \<Rightarrow> string" where
  "action_value ENTER = ''ENTER''"
| "action_value EXIT = ''EXIT''"

datatype observation_source = REALTIME_0B | REST_KA10095

fun observation_source_value :: "observation_source \<Rightarrow> string" where
  "observation_source_value REALTIME_0B = ''REALTIME_0B''"
| "observation_source_value REST_KA10095 = ''REST_KA10095''"

definition CANONICAL_EVENT_SCHEMA_VERSION :: string where
  "CANONICAL_EVENT_SCHEMA_VERSION = ''market-event.v1''"

definition ADAPTER_VERSION :: string where
  "ADAPTER_VERSION = ''kiwoom-read-only.v1''"

record adapter_capabilities =
  ac_read_only :: bool
  ac_market_data :: bool
  ac_condition_search :: bool
  ac_snapshot_supplement :: bool
  ac_orders :: bool
  ac_accounts :: bool

section \<open>Connections and envelopes\<close>

record kiwoom_connection =
  kc_session_id :: string
  kc_connected_at :: datetime

definition kiwoom_connection_init :: "kiwoom_connection \<Rightarrow> kiwoom_connection result" where
  "kiwoom_connection_init c = validate
     [(kc_session_id c \<noteq> [], ValueError ''session_id''),
      (is_aware (kc_connected_at c), ValueError ''connected_at aware'')] c"

record kiwoom_source_envelope =
  ke_source_schema_version :: string
  ke_channel :: source_channel
  ke_session_id :: string
  ke_source_message_id :: string
  ke_source_sequence :: int
  ke_source_timestamp :: datetime
  ke_received_at :: datetime
  ke_market_date :: date
  ke_payload :: "(string \<times> json) list"
  ke_request_id :: "string option"

definition kiwoom_source_envelope_init :: "kiwoom_source_envelope \<Rightarrow> kiwoom_source_envelope result" where
  "kiwoom_source_envelope_init e = validate
     [(ke_source_schema_version e \<noteq> [], ValueError ''source_schema_version''),
      (ke_session_id e \<noteq> [] \<and> ke_source_message_id e \<noteq> [], ValueError ''source session/message ID''),
      (0 \<le> ke_source_sequence e, ValueError ''source_sequence''),
      (is_aware (ke_source_timestamp e), ValueError ''source_timestamp aware''),
      (is_aware (ke_received_at e), ValueError ''received_at aware'')] e"

section \<open>Canonical events\<close>

record event_lineage =
  el_provider :: string
  el_adapter_version :: string
  el_source_schema_version :: string
  el_source_channel :: source_channel
  el_session_id :: string
  el_source_message_id :: string
  el_source_item_index :: int
  el_request_id :: "string option"
  el_raw_payload_sha256 :: string

definition event_lineage_init :: "event_lineage \<Rightarrow> event_lineage result" where
  "event_lineage_init l = validate
     [(el_provider l = ''KIWOOM'', ValueError ''provider''),
      (0 \<le> el_source_item_index l, ValueError ''source_item_index''),
      (length (el_raw_payload_sha256 l) = 64, ValueError ''raw_payload_sha256'')] l"

record candidate_data =
  cd_action :: candidate_action
  cd_condition_id :: string
  cd_source_stock_code :: string

definition candidate_data_init :: "candidate_data \<Rightarrow> candidate_data result" where
  "candidate_data_init d = validate
     [(cd_condition_id d \<noteq> [], ValueError ''condition_id''),
      (stock_code_ok (cd_source_stock_code d), ValueError ''source_stock_code'')] d"

record market_observation =
  mo_observation_source :: observation_source
  mo_source_stock_code :: string
  mo_current_price :: "decimal option"
  mo_change_rate :: "decimal option"
  mo_base_price :: "decimal option"
  mo_trade_volume :: "int option"
  mo_cumulative_volume :: "int option"
  mo_cumulative_trading_value :: "decimal option"
  mo_open_price :: "decimal option"
  mo_high_price :: "decimal option"
  mo_low_price :: "decimal option"
  mo_execution_strength :: "decimal option"
  mo_market_cap :: "decimal option"
  mo_missing_fields :: "string list"

definition price_ok :: "decimal option \<Rightarrow> bool" where
  "price_ok v \<longleftrightarrow> pred_option (\<lambda>d. is_finite d \<and> 0 \<le> dval d) v"

definition market_observation_init :: "market_observation \<Rightarrow> market_observation result" where
  "market_observation_init o' = validate
     [(stock_code_ok (mo_source_stock_code o'), ValueError ''source_stock_code''),
      (price_ok (mo_current_price o'), ValueError ''current_price''),
      (price_ok (mo_base_price o'), ValueError ''base_price''),
      (price_ok (mo_cumulative_trading_value o'), ValueError ''cumulative_trading_value''),
      (price_ok (mo_open_price o'), ValueError ''open_price''),
      (price_ok (mo_high_price o'), ValueError ''high_price''),
      (price_ok (mo_low_price o'), ValueError ''low_price''),
      (price_ok (mo_market_cap o'), ValueError ''market_cap''),
      (pred_option is_finite (mo_change_rate o'), ValueError ''change_rate''),
      (pred_option is_finite (mo_execution_strength o'), ValueError ''execution_strength''),
      (pred_option (\<lambda>n. 0 \<le> n) (mo_trade_volume o'), ValueError ''trade_volume''),
      (pred_option (\<lambda>n. 0 \<le> n) (mo_cumulative_volume o'), ValueError ''cumulative_volume''),
      (sorted_set (mo_missing_fields o') = mo_missing_fields o', ValueError ''missing_fields'')] o'"

datatype event_data = Candidate candidate_data | Observation market_observation

fun is_candidate :: "event_data \<Rightarrow> bool" where
  "is_candidate (Candidate _) = True"
| "is_candidate (Observation _) = False"

record canonical_market_event =
  me_schema_version :: string
  me_event_id :: string
  me_idempotency_key :: string
  me_event_type :: canonical_event_type
  me_stock_id :: string
  me_source_sequence :: int
  me_source_timestamp :: datetime
  me_received_at :: datetime
  me_lineage :: event_lineage
  me_data :: event_data

definition canonical_market_event_init :: "canonical_market_event \<Rightarrow> canonical_market_event result" where
  "canonical_market_event_init e = validate
     [(me_schema_version e = CANONICAL_EVENT_SCHEMA_VERSION, ValueError ''schema_version''),
      (take 4 (me_event_id e) = ''mkt_'', ValueError ''event_id''),
      (take 7 (me_idempotency_key e) = ''kiwoom:'', ValueError ''idempotency_key''),
      (stock_id_ok (me_stock_id e), ValueError ''stock_id''),
      (0 \<le> me_source_sequence e, ValueError ''source_sequence''),
      (is_aware (me_source_timestamp e), ValueError ''source_timestamp aware''),
      (is_aware (me_received_at e), ValueError ''received_at aware''),
      (\<not> (me_event_type e \<in> {CANDIDATE_ENTERED, CANDIDATE_EXITED} \<and> \<not> is_candidate (me_data e)),
       ValueError ''CandidateData''),
      (\<not> (me_event_type e \<in> {TRADE, SNAPSHOT} \<and> is_candidate (me_data e)),
       ValueError ''MarketObservation'')] e"

fun event_decimal :: "decimal \<Rightarrow> json" where
  "event_decimal (Fin q) = JNum q"
| "event_decimal NonFinite = JStr ''NaN''"

fun event_data_to_dict :: "event_data \<Rightarrow> json" where
  "event_data_to_dict (Candidate d) = JObj
     [(''action'', JStr (action_value (cd_action d))),
      (''conditionId'', JStr (cd_condition_id d)),
      (''sourceStockCode'', JStr (cd_source_stock_code d))]"
| "event_data_to_dict (Observation d) = JObj
     [(''observationSource'', JStr (observation_source_value (mo_observation_source d))),
      (''sourceStockCode'', JStr (mo_source_stock_code d)),
      (''currentPrice'', json_opt event_decimal (mo_current_price d)),
      (''changeRate'', json_opt event_decimal (mo_change_rate d)),
      (''basePrice'', json_opt event_decimal (mo_base_price d)),
      (''tradeVolume'', json_opt JInt (mo_trade_volume d)),
      (''cumulativeVolume'', json_opt JInt (mo_cumulative_volume d)),
      (''cumulativeTradingValue'', json_opt event_decimal (mo_cumulative_trading_value d)),
      (''openPrice'', json_opt event_decimal (mo_open_price d)),
      (''highPrice'', json_opt event_decimal (mo_high_price d)),
      (''lowPrice'', json_opt event_decimal (mo_low_price d)),
      (''executionStrength'', json_opt event_decimal (mo_execution_strength d)),
      (''marketCap'', json_opt event_decimal (mo_market_cap d)),
      (''missingFields'', JList (map JStr (mo_missing_fields d)))]"

definition market_event_to_dict :: "canonical_market_event \<Rightarrow> json" where
  "market_event_to_dict e = (let l = me_lineage e in JObj
     [(''schemaVersion'', JStr (me_schema_version e)),
      (''eventId'', JStr (me_event_id e)),
      (''idempotencyKey'', JStr (me_idempotency_key e)),
      (''type'', JStr (event_type_value (me_event_type e))),
      (''stockId'', JStr (me_stock_id e)),
      (''sourceSequence'', JInt (me_source_sequence e)),
      (''sourceTimestamp'', JTime (me_source_timestamp e)),
      (''receivedAt'', JTime (me_received_at e)),
      (''lineage'', JObj
        [(''provider'', JStr (el_provider l)),
         (''adapterVersion'', JStr (el_adapter_version l)),
         (''sourceSchemaVersion'', JStr (el_source_schema_version l)),
         (''sourceChannel'', JStr (channel_value (el_source_channel l))),
         (''sessionId'', JStr (el_session_id l)),
         (''sourceMessageId'', JStr (el_source_message_id l)),
         (''sourceItemIndex'', JInt (el_source_item_index l)),
         (''requestId'', json_opt JStr (el_request_id l)),
         (''rawPayloadSha256'', JStr (el_raw_payload_sha256 l))]),
      (''data'', event_data_to_dict (me_data e))])"

definition me_stock_code :: "canonical_market_event \<Rightarrow> string" where
  "me_stock_code e = (if take 4 (me_stock_id e) = ''KRX:'' then drop 4 (me_stock_id e) else me_stock_id e)"

end
