(* ===== verification/Normalizer.thy ===== *)
theory Normalizer
  imports Kiwoom_Contract
begin

text \<open>
  \<open>packages/adapters/kiwoom/normalizer.py\<close>: a source envelope becomes canonical market events.  The
  texts of a payload are ASCII here; \<open>str\<close> of a float, a list or an object is the parameter
  \<open>R\<close>.  Shown here: which envelopes are refused and with which exception, and that the events of an
  envelope satisfy the contract, carry its lineage and have keys of their own.
\<close>

section \<open>Python values of a payload\<close>

fun truthy :: "json \<Rightarrow> bool" where
  "truthy JNull = False"
| "truthy (JBool b) = b"
| "truthy (JInt n) = (n \<noteq> 0)"
| "truthy (JNum q) = (q \<noteq> 0)"
| "truthy (JStr s) = (s \<noteq> [])"
| "truthy (JTime t) = True"
| "truthy (JDate d) = True"
| "truthy (JList xs) = (xs \<noteq> [])"
| "truthy (JObj fs) = (fs \<noteq> [])"

definition field :: "(string \<times> json) list \<Rightarrow> string \<Rightarrow> json" where
  "field m k = (case dget m k of None \<Rightarrow> JNull | Some v \<Rightarrow> v)"

definition py_or :: "json \<Rightarrow> json \<Rightarrow> json" where
  "py_or a b = (if truthy a then a else b)"

fun py_str :: "(json \<Rightarrow> string) \<Rightarrow> json \<Rightarrow> string" where
  "py_str R (JStr s) = s"
| "py_str R (JInt n) = (if n < 0 then ''-'' @ digits_of (nat (- n)) else digits_of (nat n))"
| "py_str R (JBool b) = (if b then ''True'' else ''False'')"
| "py_str R JNull = ''None''"
| "py_str R v = R v"

text \<open>\<open>str(value or "")\<close>.\<close>

definition text_of :: "(json \<Rightarrow> string) \<Rightarrow> json \<Rightarrow> string" where
  "text_of R v = py_str R (py_or v (JStr []))"

definition is_space :: "char \<Rightarrow> bool" where
  "is_space c \<longleftrightarrow> ascii_space (of_char c)"

definition strip :: "string \<Rightarrow> string" where
  "strip s = rev (dropWhile is_space (rev (dropWhile is_space s)))"

definition upper_char :: "char \<Rightarrow> char" where
  "upper_char c = (let n = of_char c :: nat in if 97 \<le> n \<and> n \<le> 122 then char_of (n - 32) else c)"

definition upper :: "string \<Rightarrow> string" where
  "upper s = map upper_char s"

definition removeprefix :: "string \<Rightarrow> string \<Rightarrow> string" where
  "removeprefix p s = (if take (length p) s = p then drop (length p) s else s)"

definition is_digit :: "char \<Rightarrow> bool" where
  "is_digit c \<longleftrightarrow> (let n = of_char c :: nat in 48 \<le> n \<and> n \<le> 57)"

fun mapping_rows :: "string \<Rightarrow> json \<Rightarrow> (string \<times> json) list list result" where
  "mapping_rows name (JList xs) = map_result (\<lambda>x. case x of JObj m \<Rightarrow> Inr m
     | _ \<Rightarrow> Inl (NormalizationError (name @ '' object''))) xs"
| "mapping_rows name v = Inl (NormalizationError (name @ '' rows''))"

fun as_mapping :: "string \<Rightarrow> json \<Rightarrow> (string \<times> json) list result" where
  "as_mapping name (JObj m) = Inr m"
| "as_mapping name v = Inl (NormalizationError (name @ '' object''))"

definition py_stock_code :: "(json \<Rightarrow> string) \<Rightarrow> json \<Rightarrow> string result" where
  "py_stock_code R v =
     (let code = removeprefix ''A'' (upper (strip (text_of R v)))
      in if length code \<noteq> 6 \<or> \<not> list_all is_digit code then Inl (NormalizationError ''stock code'')
         else Inr code)"

section \<open>Numbers\<close>

definition digits_value :: "string \<Rightarrow> nat" where
  "digits_value s = foldl (\<lambda>v c. 10 * v + (of_char c - 48)) 0 s"

definition signed_text :: "string \<Rightarrow> bool \<times> string" where
  "signed_text s = (case s of [] \<Rightarrow> (False, [])
     | c # r \<Rightarrow> if c = CHR ''-'' then (True, r) else if c = CHR ''+'' then (False, r) else (False, s))"

text \<open>The exponent of a number: nothing, or \<open>E\<close> with an integer.\<close>

definition parse_exponent :: "string \<Rightarrow> int option" where
  "parse_exponent s = (case s of [] \<Rightarrow> Some 0
     | c # r \<Rightarrow>
         (case signed_text r of (negative, ds) \<Rightarrow>
            if upper_char c = CHR ''E'' \<and> ds \<noteq> [] \<and> list_all is_digit ds
            then Some (if negative then - int (digits_value ds) else int (digits_value ds)) else None))"

text \<open>Digits with an optional point, at least one digit, then the exponent.\<close>

definition parse_magnitude :: "string \<Rightarrow> rat option" where
  "parse_magnitude s =
     (let whole = takeWhile is_digit s;
          rest = dropWhile is_digit s;
          (fraction, tail) = (case rest of [] \<Rightarrow> ([], [])
            | c # r \<Rightarrow> if c = CHR ''.'' then (takeWhile is_digit r, dropWhile is_digit r) else ([], rest))
      in if whole @ fraction = [] then None
         else map_option (\<lambda>e. of_nat (digits_value (whole @ fraction)) * 10 powi (e - int (length fraction)))
           (parse_exponent tail))"

definition special_text :: "string \<Rightarrow> bool" where
  "special_text s \<longleftrightarrow> upper s \<in> {''INF'', ''INFINITY''}
     \<or> take 3 (upper s) = ''NAN'' \<and> list_all is_digit (drop 3 s)
     \<or> take 4 (upper s) = ''SNAN'' \<and> list_all is_digit (drop 4 s)"

text \<open>\<open>Decimal(text)\<close>; the answer None is \<open>InvalidOperation\<close>.\<close>

definition parse_decimal :: "string \<Rightarrow> decimal option" where
  "parse_decimal text =
     (case signed_text (filter (\<lambda>c. c \<noteq> CHR ''_'') (strip text)) of (negative, s) \<Rightarrow>
        if special_text s then Some NonFinite
        else map_option (\<lambda>q. Fin (if negative then - q else q)) (parse_magnitude s))"

text \<open>\<open>abs\<close> and the difference of decimals round to the 28 digits of the default context.\<close>

definition decimal_field :: "(json \<Rightarrow> string) \<Rightarrow> json \<Rightarrow> bool \<Rightarrow> rat option result" where
  "decimal_field R v absolute =
     (let text = filter (\<lambda>c. c \<noteq> CHR '','' \<and> c \<noteq> CHR ''%'') (strip (text_of R v))
      in if text = [] then Inr None
         else case parse_decimal text of
           None \<Rightarrow> Inl (NormalizationError ''decimal'')
         | Some NonFinite \<Rightarrow> Inl (NormalizationError ''finite'')
         | Some (Fin q) \<Rightarrow> Inr (Some (if absolute then dround 28 \<bar>q\<bar> else q)))"

definition integer_field :: "(json \<Rightarrow> string) \<Rightarrow> json \<Rightarrow> bool \<Rightarrow> int option result" where
  "integer_field R v absolute = bind_result (decimal_field R v absolute) (\<lambda>parsed.
     case parsed of None \<Rightarrow> Inr None
     | Some q \<Rightarrow> if q \<noteq> of_int \<lfloor>q\<rfloor> then Inl (NormalizationError ''integer'') else Inr (Some \<lfloor>q\<rfloor>))"

definition base_price :: "rat option \<Rightarrow> rat option \<Rightarrow> rat option" where
  "base_price current_price change =
     (case (current_price, change) of
        (Some p, Some c) \<Rightarrow> (let base = dround 28 (p - c) in if 0 < base then Some base else None)
      | _ \<Rightarrow> None)"


section \<open>Events\<close>

definition observation_of ::
  "observation_source \<Rightarrow> string \<Rightarrow> rat option \<Rightarrow> rat option \<Rightarrow> rat option \<Rightarrow> int option \<Rightarrow> int option
    \<Rightarrow> rat option \<Rightarrow> rat option \<Rightarrow> rat option \<Rightarrow> rat option \<Rightarrow> rat option \<Rightarrow> rat option
    \<Rightarrow> market_observation result" where
  "observation_of src stock_code current_price change_rate base trade_volume cumulative_volume
     cumulative_trading_value open_price high_price low_price execution_strength market_cap =
   (let required = [(''currentPrice'', current_price), (''cumulativeTradingValue'', cumulative_trading_value)]
    in market_observation_init
      \<lparr>mo_observation_source = src, mo_source_stock_code = stock_code,
       mo_current_price = map_option Fin current_price, mo_change_rate = map_option Fin change_rate,
       mo_base_price = map_option Fin base, mo_trade_volume = trade_volume,
       mo_cumulative_volume = cumulative_volume,
       mo_cumulative_trading_value = map_option Fin cumulative_trading_value,
       mo_open_price = map_option Fin open_price, mo_high_price = map_option Fin high_price,
       mo_low_price = map_option Fin low_price,
       mo_execution_strength = map_option Fin execution_strength,
       mo_market_cap = map_option Fin market_cap,
       mo_missing_fields = sort (map fst (filter (\<lambda>(name, v). v = None) required))\<rparr>)"

definition krx :: "string \<Rightarrow> string" where
  "krx stock_code = ''KRX:'' @ stock_code"

text \<open>The fields that identify an event, and the digest of their JSON text.\<close>

definition natural_key ::
  "kiwoom_source_envelope \<Rightarrow> nat \<Rightarrow> canonical_event_type \<Rightarrow> string \<Rightarrow> event_data \<Rightarrow> json" where
  "natural_key envelope item_index event_type stock_code data = JObj
     ([(''sessionId'', JStr (ke_session_id envelope)),
       (''type'', JStr (event_type_value event_type)),
       (''stockId'', JStr (krx stock_code)),
       (''sourceTimestamp'', JTime (Aware (instant (ke_source_timestamp envelope)) 0)),
       (''sourceSequence'', JInt (ke_source_sequence envelope)),
       (''sourceItemIndex'', JInt (int item_index))]
      @ (case data of Candidate d \<Rightarrow> [(''conditionId'', JStr (cd_condition_id d))] | Observation _ \<Rightarrow> []))"

definition make_event ::
  "hash \<Rightarrow> kiwoom_source_envelope \<Rightarrow> (string \<times> json) list \<Rightarrow> nat \<Rightarrow> canonical_event_type \<Rightarrow> string
    \<Rightarrow> event_data \<Rightarrow> canonical_market_event result" where
  "make_event H envelope raw_item item_index event_type stock_code data =
     (let raw_hash = json_hash H (JObj raw_item);
          digest = json_hash H (natural_key envelope item_index event_type stock_code data)
      in bind_result (event_lineage_init
           \<lparr>el_provider = ''KIWOOM'', el_adapter_version = ADAPTER_VERSION,
            el_source_schema_version = ke_source_schema_version envelope,
            el_source_channel = ke_channel envelope, el_session_id = ke_session_id envelope,
            el_source_message_id = ke_source_message_id envelope,
            el_source_item_index = int item_index, el_request_id = ke_request_id envelope,
            el_raw_payload_sha256 = raw_hash\<rparr>)
         (\<lambda>lineage. canonical_market_event_init
           \<lparr>me_schema_version = CANONICAL_EVENT_SCHEMA_VERSION,
            me_event_id = ''mkt_'' @ take 26 digest, me_idempotency_key = ''kiwoom:'' @ digest,
            me_event_type = event_type, me_stock_id = krx stock_code,
            me_source_sequence = ke_source_sequence envelope,
            me_source_timestamp = ke_source_timestamp envelope,
            me_received_at = ke_received_at envelope, me_lineage = lineage, me_data = data\<rparr>))"

definition candidate_event ::
  "hash \<Rightarrow> (json \<Rightarrow> string) \<Rightarrow> kiwoom_source_envelope \<Rightarrow> (string \<times> json) list \<Rightarrow> nat \<Rightarrow> string
    \<Rightarrow> candidate_action \<Rightarrow> canonical_market_event result" where
  "candidate_event H R envelope row item_index condition_id action =
     (let vals = (case field row ''values'' of JObj m \<Rightarrow> m | _ \<Rightarrow> [])
      in bind_result (py_stock_code R (py_or (py_or (field row ''item'') (field vals ''9001'')) (field row ''stk_cd'')))
         (\<lambda>stock_code.
           if condition_id = [] then Inl (NormalizationError ''condition_id'')
           else bind_result (candidate_data_init
                  \<lparr>cd_action = action, cd_condition_id = condition_id, cd_source_stock_code = stock_code\<rparr>)
             (\<lambda>data. make_event H envelope row item_index
               (case action of ENTER \<Rightarrow> CANDIDATE_ENTERED | EXIT \<Rightarrow> CANDIDATE_EXITED) stock_code
               (Candidate data))))"

definition trade_event ::
  "hash \<Rightarrow> (json \<Rightarrow> string) \<Rightarrow> kiwoom_source_envelope \<Rightarrow> (string \<times> json) list \<Rightarrow> (string \<times> json) list
    \<Rightarrow> nat \<Rightarrow> canonical_market_event result" where
  "trade_event H R envelope item vals item_index =
     (let number = \<lambda>k. decimal_field R (field vals k);
          integer = \<lambda>k. integer_field R (field vals k)
      in bind_result (py_stock_code R (py_or (field item ''item'') (field vals ''9001''))) (\<lambda>stock_code.
         bind_result (number ''10'' True) (\<lambda>current_price.
         bind_result (number ''12'' False) (\<lambda>change_rate.
         bind_result (number ''11'' False) (\<lambda>change.
         bind_result (integer ''15'' True) (\<lambda>trade_volume.
         bind_result (integer ''13'' True) (\<lambda>cumulative_volume.
         bind_result (number ''14'' True) (\<lambda>trading_value.
         bind_result (number ''16'' True) (\<lambda>open_price.
         bind_result (number ''17'' True) (\<lambda>high_price.
         bind_result (number ''18'' True) (\<lambda>low_price.
         bind_result (number ''228'' True) (\<lambda>strength.
         bind_result (number ''311'' True) (\<lambda>market_cap.
         bind_result (observation_of REALTIME_0B stock_code current_price change_rate
             (base_price current_price change) trade_volume cumulative_volume trading_value
             open_price high_price low_price strength market_cap) (\<lambda>observation.
         make_event H envelope item item_index TRADE stock_code (Observation observation)))))))))))))))"

text \<open>\<open>_decimal(\<dots>) or _base_price(\<dots>)\<close>: a basic price of zero counts as none.\<close>

definition snapshot_base ::
  "(json \<Rightarrow> string) \<Rightarrow> (string \<times> json) list \<Rightarrow> rat option result" where
  "snapshot_base R row = bind_result (decimal_field R (field row ''base_pric'') True) (\<lambda>given.
     if given \<noteq> None \<and> given \<noteq> Some 0 then Inr given
     else bind_result (decimal_field R (field row ''cur_prc'') True) (\<lambda>price.
          bind_result (decimal_field R (field row ''pred_pre'') False) (\<lambda>change.
          Inr (base_price price change))))"

definition snapshot_event ::
  "hash \<Rightarrow> (json \<Rightarrow> string) \<Rightarrow> kiwoom_source_envelope \<Rightarrow> (string \<times> json) list
    \<Rightarrow> nat \<Rightarrow> canonical_market_event result" where
  "snapshot_event H R envelope row item_index =
     (let number = \<lambda>k. decimal_field R (field row k);
          integer = \<lambda>k. integer_field R (field row k)
      in bind_result (py_stock_code R (py_or (field row ''stk_cd'') (field row ''code''))) (\<lambda>stock_code.
         bind_result (number ''cur_prc'' True) (\<lambda>current_price.
         bind_result (number ''flu_rt'' False) (\<lambda>change_rate.
         bind_result (snapshot_base R row) (\<lambda>base.
         bind_result (integer ''trde_qty'' True) (\<lambda>trade_volume.
         bind_result (integer ''acc_trde_qty'' True) (\<lambda>cumulative_volume.
         bind_result (number ''acc_trde_prica'' True) (\<lambda>trading_value.
         bind_result (number ''open_pric'' True) (\<lambda>open_price.
         bind_result (number ''high_pric'' True) (\<lambda>high_price.
         bind_result (number ''low_pric'' True) (\<lambda>low_price.
         bind_result (number ''cntr_str'' True) (\<lambda>strength.
         bind_result (number ''mac'' True) (\<lambda>market_cap.
         bind_result (observation_of REST_KA10095 stock_code current_price change_rate base
             trade_volume cumulative_volume trading_value
             open_price high_price low_price strength market_cap) (\<lambda>observation.
         make_event H envelope row item_index SNAPSHOT stock_code (Observation observation)))))))))))))))"

section \<open>Envelopes\<close>

fun source_schema :: "source_channel \<Rightarrow> string" where
  "source_schema WEBSOCKET = ''kiwoom.websocket.v1''"
| "source_schema REST_SNAPSHOT = ''kiwoom.ka10095.v1''"

definition real_event ::
  "hash \<Rightarrow> (json \<Rightarrow> string) \<Rightarrow> kiwoom_source_envelope \<Rightarrow> nat \<Rightarrow> (string \<times> json) list
    \<Rightarrow> canonical_market_event option result" where
  "real_event H R envelope item_index item =
     (let event_type = text_of R (field item ''type'')
      in bind_result (as_mapping ''values'' (field item ''values'')) (\<lambda>vals.
         if event_type = ''0B''
         then map_sum id Some (trade_event H R envelope item vals item_index)
         else if event_type = ''02''
         then let code = upper (text_of R (field vals ''843''))
              in case (if code = ''I'' then Some ENTER else if code = ''D'' then Some EXIT else None) of
                   None \<Rightarrow> Inl (NormalizationError ''action'')
                 | Some action \<Rightarrow> map_sum id Some (candidate_event H R envelope item item_index
                     (strip (text_of R (field vals ''841''))) action)
         else Inr None))"

definition normalize_websocket ::
  "hash \<Rightarrow> (json \<Rightarrow> string) \<Rightarrow> kiwoom_source_envelope \<Rightarrow> canonical_market_event list result" where
  "normalize_websocket H R envelope =
     (let payload = ke_payload envelope;
          transaction = upper (text_of R (field payload ''trnm''));
          raw_data = field payload ''data''
      in if transaction = ''CNSRREQ''
         then bind_result (mapping_rows ''CNSRREQ.data'' raw_data) (\<lambda>rows.
           let condition_id = strip (text_of R (field payload ''seq''))
           in if condition_id = [] then Inl (NormalizationError ''CNSRREQ.seq'')
              else map_result (\<lambda>(i, row). candidate_event H R envelope row i condition_id ENTER)
                (enumerate 0 rows))
         else if transaction \<noteq> ''REAL'' then Inr []
         else bind_result (mapping_rows ''REAL.data'' raw_data) (\<lambda>rows.
           map_sum id (List.map_filter id)
             (map_result (\<lambda>(i, item). real_event H R envelope i item) (enumerate 0 rows))))"

definition normalize_snapshot ::
  "hash \<Rightarrow> (json \<Rightarrow> string) \<Rightarrow> kiwoom_source_envelope \<Rightarrow> canonical_market_event list result" where
  "normalize_snapshot H R envelope =
     (let payload = ke_payload envelope
      in if text_of R (field payload ''apiId'') \<noteq> ''ka10095'' then Inl (NormalizationError ''apiId'')
         else bind_result (mapping_rows ''rows''
             (if field payload ''rows'' = JNull then field payload ''atn_stk_infr'' else field payload ''rows''))
           (\<lambda>rows. map_result (\<lambda>(i, row). snapshot_event H R envelope row i) (enumerate 0 rows)))"

definition normalize ::
  "hash \<Rightarrow> (json \<Rightarrow> string) \<Rightarrow> kiwoom_source_envelope \<Rightarrow> canonical_market_event list result" where
  "normalize H R envelope =
     (if ke_source_schema_version envelope \<noteq> source_schema (ke_channel envelope)
      then Inl (NormalizationError ''schema version'')
      else case ke_channel envelope of
        WEBSOCKET \<Rightarrow> normalize_websocket H R envelope
      | REST_SNAPSHOT \<Rightarrow> normalize_snapshot H R envelope)"


section \<open>What an envelope can lead to\<close>

text \<open>A computation that gives a value with a property or refuses the source message.\<close>

definition normalizes :: "'a result \<Rightarrow> ('a \<Rightarrow> bool) \<Rightarrow> bool" where
  "normalizes r P \<longleftrightarrow> (case r of Inl e \<Rightarrow> \<exists>reason. e = NormalizationError reason | Inr x \<Rightarrow> P x)"

named_theorems normalizes \<open>rules for computations that only refuse the source message\<close>

lemma normalizes_Inr [simp]: "normalizes (Inr x) P \<longleftrightarrow> P x"
  by (simp add: normalizes_def)

lemma normalizes_Inl [simp]: "normalizes (Inl e) P \<longleftrightarrow> (\<exists>reason. e = NormalizationError reason)"
  by (simp add: normalizes_def)

lemma normalizes_bind: "normalizes r P \<Longrightarrow> (\<And>x. P x \<Longrightarrow> normalizes (f x) Q) \<Longrightarrow> normalizes (bind_result r f) Q"
  by (cases r) simp_all

lemma normalizes_mono: "normalizes r P \<Longrightarrow> (\<And>x. P x \<Longrightarrow> Q x) \<Longrightarrow> normalizes r Q"
  by (cases r) simp_all

lemma normalizes_map_sum: "normalizes r (\<lambda>x. P (f x)) \<Longrightarrow> normalizes (map_sum id f r) P"
  by (cases r) simp_all

lemma normalizes_map_result:
  "(\<And>x. x \<in> set xs \<Longrightarrow> normalizes (f x) (P x)) \<Longrightarrow> normalizes (map_result f xs) (\<lambda>ys. list_all2 P xs ys)"
proof (induction xs)
  case (Cons x xs)
  show ?case
    unfolding map_result.simps
    by (rule normalizes_bind [OF Cons.prems], simp, rule normalizes_bind [OF Cons.IH]) (use Cons.prems in simp_all)
qed simp

lemma mapping_rows_normalizes [normalizes]: "normalizes (mapping_rows name v) (\<lambda>_. True)"
proof (cases v)
  case (JList xs)
  have "normalizes (map_result (\<lambda>x. case x of JObj m \<Rightarrow> Inr m
     | _ \<Rightarrow> Inl (NormalizationError (name @ '' object''))) xs) (\<lambda>ys. list_all2 (\<lambda>_ _. True) xs ys)"
    by (rule normalizes_map_result) (simp split: json.split)
  then show ?thesis using JList by (auto elim: normalizes_mono)
qed simp_all

lemma as_mapping_normalizes [normalizes]: "normalizes (as_mapping name v) (\<lambda>_. True)"
  by (cases v) simp_all

lemma digit_stock_code_char: "is_digit c \<Longrightarrow> stock_code_char c"
  by (auto simp: is_digit_def stock_code_char_def Let_def)

lemma py_stock_code_normalizes [normalizes]: "normalizes (py_stock_code R v) stock_code_ok"
  by (auto simp: py_stock_code_def Let_def stock_code_ok_def list_all_iff digit_stock_code_char)

lemma dround_abs_nonneg: "0 \<le> dround 28 \<bar>q\<bar>"
  using dround_pos [of "\<bar>q\<bar>" 28] by (cases "q = 0") simp_all

lemma decimal_field_signed_normalizes [normalizes]: "normalizes (decimal_field R v False) (\<lambda>_. True)"
  by (simp add: decimal_field_def Let_def split: option.split decimal.split)

lemma decimal_field_normalizes [normalizes]: "normalizes (decimal_field R v True) (pred_option (\<lambda>q. 0 \<le> q))"
  by (simp add: decimal_field_def Let_def dround_abs_nonneg split: option.split decimal.split)

lemma integer_field_normalizes [normalizes]: "normalizes (integer_field R v True) (pred_option (\<lambda>n. 0 \<le> n))"
  unfolding integer_field_def
  by (rule normalizes_bind [OF decimal_field_normalizes]) (auto split: option.split)

lemma base_price_positive: "pred_option (\<lambda>q. 0 < q) (base_price p c)"
  by (simp add: base_price_def Let_def split: option.split)

lemma base_price_nonneg: "pred_option (\<lambda>q. 0 \<le> q) (base_price p c)"
  using base_price_positive [of p c] by (cases "base_price p c") simp_all

lemma snapshot_base_normalizes [normalizes]:
  "normalizes (snapshot_base R row) (pred_option (\<lambda>q. 0 < q))"
  unfolding snapshot_base_def
proof (rule normalizes_bind [OF decimal_field_normalizes])
  fix given :: "rat option"
  assume given: "pred_option (\<lambda>q. 0 \<le> q) given"
  show "normalizes (if given \<noteq> None \<and> given \<noteq> Some 0 then Inr given
      else bind_result (decimal_field R (field row ''cur_prc'') True) (\<lambda>price.
          bind_result (decimal_field R (field row ''pred_pre'') False) (\<lambda>change.
          Inr (base_price price change)))) (pred_option (\<lambda>q. 0 < q))"
  proof (cases "given \<noteq> None \<and> given \<noteq> Some 0")
    case True
    with given show ?thesis by (cases given) simp_all
  next
    case False
    have "normalizes (bind_result (decimal_field R (field row ''cur_prc'') True) (\<lambda>price.
          bind_result (decimal_field R (field row ''pred_pre'') False) (\<lambda>change.
          Inr (base_price price change)))) (pred_option (\<lambda>q. 0 < q))"
      by (rule normalizes_bind normalizes base_price_positive | simp only: normalizes_Inr)+
    with False show ?thesis by (simp only: if_False)
  qed
qed


definition price_list_ok :: "rat option list \<Rightarrow> bool" where
  "price_list_ok ps \<longleftrightarrow> list_all (pred_option (\<lambda>q. 0 \<le> q)) ps"

text \<open>Data the constructors accept, with a basic price that is positive if there is one.\<close>

fun data_valid :: "event_data \<Rightarrow> bool" where
  "data_valid (Candidate d) \<longleftrightarrow> candidate_data_init d = Inr d"
| "data_valid (Observation d) \<longleftrightarrow> market_observation_init d = Inr d
     \<and> pred_option (\<lambda>v. 0 < dval v) (mo_base_price d)"

definition event_valid :: "canonical_market_event \<Rightarrow> bool" where
  "event_valid e \<longleftrightarrow> canonical_market_event_init e = Inr e
     \<and> event_lineage_init (me_lineage e) = Inr (me_lineage e) \<and> data_valid (me_data e)"

text \<open>An event of an item of an envelope: what it takes from the envelope, and its keys.\<close>

definition event_of :: "hash \<Rightarrow> kiwoom_source_envelope \<Rightarrow> nat \<Rightarrow> canonical_market_event \<Rightarrow> bool" where
  "event_of H envelope i e \<longleftrightarrow> event_valid e
     \<and> el_session_id (me_lineage e) = ke_session_id envelope
     \<and> el_source_channel (me_lineage e) = ke_channel envelope
     \<and> el_source_item_index (me_lineage e) = int i
     \<and> me_source_sequence e = ke_source_sequence envelope
     \<and> me_source_timestamp e = ke_source_timestamp envelope
     \<and> me_received_at e = ke_received_at envelope
     \<and> me_idempotency_key e = ''kiwoom:''
         @ json_hash H (natural_key envelope i (me_event_type e) (me_stock_code e) (me_data e))"

lemma observation_normalizes:
  assumes "stock_code_ok code" and "price_list_ok [price, trading_value, open_price, high_price, low_price, cap]"
    and "pred_option (\<lambda>q. 0 < q) base"
    and "pred_option (\<lambda>n. 0 \<le> n) volume" and "pred_option (\<lambda>n. 0 \<le> n) cumulative"
  shows "normalizes (observation_of src code price rate base volume cumulative trading_value
      open_price high_price low_price strength cap) (\<lambda>d. data_valid (Observation d))"
proof -
  have fin: "price_ok (map_option Fin v) \<longleftrightarrow> pred_option (\<lambda>q. 0 \<le> q) v" for v
    by (cases v) (simp_all add: price_ok_def)
  have pos: "pred_option (\<lambda>v. 0 < dval v) (map_option Fin base)" "price_ok (map_option Fin base)"
    using assms(3) by (cases base; simp add: price_ok_def)+
  have finite: "pred_option is_finite (map_option Fin v)" for v by (cases v) simp_all
  have missing: "sorted_set (sort (map fst (filter (\<lambda>(name, v). v = None)
      [(''currentPrice'', price), (''cumulativeTradingValue'', trading_value)])))
    = sort (map fst (filter (\<lambda>(name, v). v = None)
      [(''currentPrice'', price), (''cumulativeTradingValue'', trading_value)]))"
    unfolding sorted_set_id_iff by (simp add: distinct_map)
  have init: "market_observation_init o' = Inr o' \<Longrightarrow> pred_option (\<lambda>v. 0 < dval v) (mo_base_price o')
      \<Longrightarrow> normalizes (market_observation_init o') (\<lambda>d. data_valid (Observation d))" for o'
    by simp
  show ?thesis
    unfolding observation_of_def Let_def
    by (rule init; (unfold market_observation_init_def validate_Inr_iff)?)
      (use assms(1,2,4,5) pos missing in \<open>simp_all add: fin finite price_list_ok_def del: filter.simps\<close>)
qed

lemma make_event_normalizes:
  assumes hash: "\<And>x. length (H x) = 64" and valid: "kiwoom_source_envelope_init envelope = Inr envelope"
    and "stock_code_ok code" and "data_valid data"
    and "is_candidate data \<longleftrightarrow> event_type \<in> {CANDIDATE_ENTERED, CANDIDATE_EXITED}"
  shows "normalizes (make_event H envelope item i event_type code data) (event_of H envelope i)"
proof -
  have env: "0 \<le> ke_source_sequence envelope" "is_aware (ke_source_timestamp envelope)"
      "is_aware (ke_received_at envelope)"
    using valid unfolding kiwoom_source_envelope_init_def validate_Inr_iff by simp_all
  have kinds: "event_type \<in> {TRADE, SNAPSHOT} \<longleftrightarrow> \<not> is_candidate data"
    using assms(5) by (cases event_type) simp_all
  have code: "stock_id_ok (krx code)" using assms(3) by (simp add: krx_def stock_id_ok_def)
  show ?thesis
    using env code assms(4,5) kinds
    by (simp add: make_event_def Let_def event_lineage_init_def canonical_market_event_init_def
        json_hash_def hash event_of_def event_valid_def me_stock_code_def krx_def) blast
qed


lemma candidate_event_normalizes:
  assumes hash: "\<And>x. length (H x) = 64" and valid: "kiwoom_source_envelope_init envelope = Inr envelope"
  shows "normalizes (candidate_event H R envelope row i condition action) (event_of H envelope i)"
  unfolding candidate_event_def Let_def
proof (rule normalizes_bind [OF py_stock_code_normalizes])
  fix code assume code: "stock_code_ok code"
  let ?d = "\<lparr>cd_action = action, cd_condition_id = condition, cd_source_stock_code = code\<rparr>"
  show "normalizes (if condition = [] then Inl (NormalizationError ''condition_id'')
           else bind_result (candidate_data_init ?d)
             (\<lambda>data. make_event H envelope row i
               (case action of ENTER \<Rightarrow> CANDIDATE_ENTERED | EXIT \<Rightarrow> CANDIDATE_EXITED) code
               (Candidate data))) (event_of H envelope i)"
  proof (cases "condition = []")
    case False
    with code have d: "candidate_data_init ?d = Inr ?d" by (simp add: candidate_data_init_def)
    have "normalizes (make_event H envelope row i
               (case action of ENTER \<Rightarrow> CANDIDATE_ENTERED | EXIT \<Rightarrow> CANDIDATE_EXITED) code
               (Candidate ?d)) (event_of H envelope i)"
      by (rule make_event_normalizes [OF hash valid code]) (simp_all add: d split: candidate_action.split)
    with False d show ?thesis by simp
  qed simp
qed

lemma observed_normalizes:
  assumes hash: "\<And>x. length (H x) = 64" and valid: "kiwoom_source_envelope_init envelope = Inr envelope"
    and "stock_code_ok code" and "price_list_ok [price, trading_value, open_price, high_price, low_price, cap]"
    and "pred_option (\<lambda>q. 0 < q) base"
    and "pred_option (\<lambda>n. 0 \<le> n) volume" and "pred_option (\<lambda>n. 0 \<le> n) cumulative"
    and "event_type \<in> {TRADE, SNAPSHOT}"
  shows "normalizes (bind_result (observation_of src code price rate base volume cumulative trading_value
      open_price high_price low_price strength cap)
      (\<lambda>d. make_event H envelope row i event_type code (Observation d))) (event_of H envelope i)"
  by (rule normalizes_bind [OF observation_normalizes [OF assms(3-7)]],
      rule make_event_normalizes [OF hash valid assms(3)]) (use assms(8) in auto)

lemma trade_event_normalizes:
  assumes hash: "\<And>x. length (H x) = 64" and valid: "kiwoom_source_envelope_init envelope = Inr envelope"
  shows "normalizes (trade_event H R envelope item vals i) (event_of H envelope i)"
  unfolding trade_event_def Let_def
  by (rule normalizes_bind normalizes observed_normalizes [OF hash valid] | assumption
      | simp add: price_list_ok_def base_price_positive)+

lemma snapshot_event_normalizes:
  assumes hash: "\<And>x. length (H x) = 64" and valid: "kiwoom_source_envelope_init envelope = Inr envelope"
  shows "normalizes (snapshot_event H R envelope row i) (event_of H envelope i)"
  unfolding snapshot_event_def Let_def
  by (rule normalizes_bind normalizes observed_normalizes [OF hash valid] | assumption
      | simp add: price_list_ok_def)+


text \<open>The events of an envelope: each of an item, in the order of the items.\<close>

definition envelope_events :: "hash \<Rightarrow> kiwoom_source_envelope \<Rightarrow> canonical_market_event list \<Rightarrow> bool" where
  "envelope_events H envelope events \<longleftrightarrow> (\<forall>e\<in>set events. \<exists>i. event_of H envelope i e)
     \<and> sorted_wrt (<) (map (\<lambda>e. el_source_item_index (me_lineage e)) events)"

lemma item_indices_sorted:
  "list_all2 (\<lambda>(i, row) oe. pred_option (event_of H envelope i) oe) (enumerate n rows) oes \<Longrightarrow>
     envelope_events H envelope (List.map_filter id oes)
     \<and> (\<forall>e\<in>set (List.map_filter id oes). int n \<le> el_source_item_index (me_lineage e))"
proof (induction rows arbitrary: n oes)
  case Nil
  then show ?case by (simp add: envelope_events_def List.map_filter_simps)
next
  case (Cons row rows)
  then obtain oe oes' where oes: "oes = oe # oes'" "pred_option (event_of H envelope n) oe"
      "list_all2 (\<lambda>(i, row) oe. pred_option (event_of H envelope i) oe) (enumerate (Suc n) rows) oes'"
    by (auto simp: list_all2_Cons1)
  note IH = Cons.IH [OF oes(3)]
  show ?case
  proof (cases oe)
    case None
    with IH oes(1) show ?thesis by (force simp: List.map_filter_simps)
  next
    case (Some e)
    with oes(2) have e: "event_of H envelope n e" by simp
    then have "el_source_item_index (me_lineage e) = int n" by (simp add: event_of_def)
    with e IH Some oes(1) show ?thesis by (force simp: List.map_filter_simps envelope_events_def)
  qed
qed

lemma map_filter_Some: "List.map_filter id (map Some xs) = xs"
  by (induction xs) (simp_all add: List.map_filter_simps)

lemma enumerated_events:
  assumes "list_all2 (\<lambda>(i, row) e. event_of H envelope i e) (enumerate 0 rows) events"
  shows "envelope_events H envelope events"
proof -
  have "list_all2 (\<lambda>(i, row) oe. pred_option (event_of H envelope i) oe) (enumerate 0 rows) (map Some events)"
    using assms by (auto simp: list_all2_map2 elim: list_all2_mono)
  from item_indices_sorted [OF this] show ?thesis by (simp add: map_filter_Some)
qed

lemma real_event_normalizes:
  assumes hash: "\<And>x. length (H x) = 64" and valid: "kiwoom_source_envelope_init envelope = Inr envelope"
  shows "normalizes (real_event H R envelope i item) (pred_option (event_of H envelope i))"
  unfolding real_event_def Let_def
  by (rule normalizes_bind [OF as_mapping_normalizes])
    (auto split: option.split intro!: normalizes_map_sum candidate_event_normalizes [OF hash valid]
       trade_event_normalizes [OF hash valid])

lemma normalize_websocket_normalizes:
  assumes hash: "\<And>x. length (H x) = 64" and valid: "kiwoom_source_envelope_init envelope = Inr envelope"
  shows "normalizes (normalize_websocket H R envelope) (envelope_events H envelope)"
proof -
  let ?id = "strip (text_of R (field (ke_payload envelope) ''seq''))"
  have candidates: "normalizes (map_result (\<lambda>(i, row). candidate_event H R envelope row i c ENTER) (enumerate 0 rows))
      (envelope_events H envelope)" for c rows
    by (rule normalizes_mono [OF normalizes_map_result [of _ _ "\<lambda>(i, row) e. event_of H envelope i e"]])
      (auto intro: candidate_event_normalizes [OF hash valid] enumerated_events)
  have reals: "normalizes (map_sum id (List.map_filter id)
      (map_result (\<lambda>(i, item). real_event H R envelope i item) (enumerate 0 rows))) (envelope_events H envelope)" for rows
    by (rule normalizes_map_sum,
        rule normalizes_mono [OF normalizes_map_result [of _ _ "\<lambda>(i, row) oe. pred_option (event_of H envelope i) oe"]])
      (auto intro: real_event_normalizes [OF hash valid] dest: item_indices_sorted)
  have none: "envelope_events H envelope []" by (simp add: envelope_events_def)
  show ?thesis
    unfolding normalize_websocket_def Let_def
    using candidates reals none
    by (auto intro!: normalizes_bind [OF mapping_rows_normalizes])
qed

lemma normalize_snapshot_normalizes:
  assumes hash: "\<And>x. length (H x) = 64" and valid: "kiwoom_source_envelope_init envelope = Inr envelope"
  shows "normalizes (normalize_snapshot H R envelope) (envelope_events H envelope)"
proof -
  have "normalizes (map_result (\<lambda>(i, row). snapshot_event H R envelope row i) (enumerate 0 rows))
      (envelope_events H envelope)" for rows
    by (rule normalizes_mono [OF normalizes_map_result [of _ _ "\<lambda>(i, row) e. event_of H envelope i e"]])
      (auto intro: snapshot_event_normalizes [OF hash valid] enumerated_events)
  then show ?thesis
    unfolding normalize_snapshot_def Let_def
    by (auto intro!: normalizes_bind [OF mapping_rows_normalizes])
qed



definition sample_envelope :: "json list \<Rightarrow> int \<Rightarrow> kiwoom_source_envelope" where
  "sample_envelope rows n =
     \<lparr>ke_source_schema_version = ''kiwoom.ka10095.v1'', ke_channel = REST_SNAPSHOT, ke_session_id = ''s1'',
      ke_source_message_id = ''m1'', ke_source_sequence = n, ke_source_timestamp = Aware (10 + n) 0,
      ke_received_at = Aware (11 + n) 0, ke_market_date = 1,
      ke_payload = [(''apiId'', JStr ''ka10095''), (''rows'', JList rows)], ke_request_id = None\<rparr>"

definition sample_row :: "string \<Rightarrow> json" where
  "sample_row code = JObj [(''stk_cd'', JStr code), (''flu_rt'', JStr ''-1.5%''), (''cntr_str'', JNull)]"

definition sample_digest :: hash where
  "sample_digest x = (case x of Dump (JObj ((k, JInt i) # fs)) \<Rightarrow> replicate 64 CHR ''0''
     | _ \<Rightarrow> replicate 64 CHR ''1'')"

lemma length_sample_digest: "length (sample_digest x) = 64"
  by (simp add: sample_digest_def split: hash_input.split json.split list.split)

lemma sample_envelope_init: "0 \<le> n \<Longrightarrow> kiwoom_source_envelope_init (sample_envelope rows n) = Inr (sample_envelope rows n)"
  by (simp add: kiwoom_source_envelope_init_def sample_envelope_def)

text \<open>Numbers as Kiwoom writes them: the sign of a price is its direction.\<close>

lemma sample_decimal: "decimal_field (\<lambda>_. []) (JStr '' -1,250 '') True = Inr (Some 1250)"
proof -
  have "filter (\<lambda>c. c \<noteq> CHR '','' \<and> c \<noteq> CHR ''%'') (strip (text_of (\<lambda>_. []) (JStr '' -1,250 ''))) = ''-1250''"
    by code_simp
  moreover have "parse_decimal ''-1250'' = Some (Fin (- 1250))" by code_simp
  moreover have "dround 28 1250 = 1250" by code_simp
  ultimately show ?thesis by (simp only: decimal_field_def Let_def) simp
qed

lemma sample_normalized:
  "(case normalize sample_digest (\<lambda>_. []) (sample_envelope [sample_row ''000010''] 1) of
      Inl e \<Rightarrow> []
    | Inr events \<Rightarrow> map (\<lambda>e. (me_stock_id e, case me_data e of Observation d \<Rightarrow> mo_missing_fields d
        | Candidate d \<Rightarrow> [])) events)
   = [(''KRX:000010'', [''cumulativeTradingValue'', ''currentPrice''])]"
  by code_simp


section \<open>Codes with letters\<close>

lemma map_result_raises: "x \<in> set xs \<Longrightarrow> f x = Inl e \<Longrightarrow> \<exists>e'. map_result f xs = Inl e'"
proof (induction xs)
  case (Cons y xs)
  then show ?case by (cases "f y") (auto simp: bind_result_def)
qed simp

lemma stock_code_char_plain: "stock_code_char c \<Longrightarrow> \<not> is_space c \<and> upper_char c = c"
  by (auto simp: stock_code_char_def is_space_def ascii_space_def upper_char_def Let_def)

lemma lettered_code_refused:
  assumes "stock_code_ok code" and "\<not> list_all is_digit code"
  shows "py_stock_code R (py_or (JStr code) v) = Inl (NormalizationError ''stock code'')"
proof -
  have chars: "\<forall>c\<in>set code. \<not> is_space c \<and> upper_char c = c" and len: "length code = 6"
    using assms(1) stock_code_char_plain by (auto simp: stock_code_ok_def list_all_iff)
  have "strip code = code"
    using chars by (simp add: strip_def dropWhile_eq_self_iff)
      (metis hd_in_set last_in_set rev_is_Nil_conv hd_rev dropWhile_eq_self_iff rev_rev_ident)
  moreover have "upper code = code" using chars by (simp add: upper_def map_idI)
  moreover have "text_of R (py_or (JStr code) v) = code"
    using len by (auto simp: text_of_def py_or_def)
  moreover have "length (drop 1 code) = 5" using len by simp
  ultimately show ?thesis
    using assms(2) len by (simp add: py_stock_code_def Let_def removeprefix_def)
qed

text \<open>
  The contract accepts six-digit codes with letters, so such a stock can be subscribed, but a
  snapshot response that has a row for it is refused as a whole, whatever its other rows are.
\<close>

theorem lettered_stock_refused:
  assumes "stock_code_ok code" and "\<not> list_all is_digit code"
    and "ke_channel envelope = REST_SNAPSHOT" and "field (ke_payload envelope) ''rows'' = JList rows"
    and "JObj row \<in> set rows" and "field row ''stk_cd'' = JStr code"
  shows "stock_id_ok (''KRX:'' @ code) \<and> (\<exists>e. normalize H R envelope = Inl e)"
proof -
  have row: "snapshot_event H R envelope row i = Inl (NormalizationError ''stock code'')" for i
    by (simp add: snapshot_event_def assms(6) lettered_code_refused [OF assms(1,2)])
  have "\<exists>e. normalize_snapshot H R envelope = Inl e"
  proof (cases "mapping_rows ''rows'' (JList rows)")
    case (Inr ms)
    then have "list_all2 (\<lambda>x m. (case x of JObj m \<Rightarrow> Inr m
       | _ \<Rightarrow> Inl (NormalizationError (''rows'' @ '' object''))) = Inr m) rows ms"
      unfolding mapping_rows.simps map_result_Inr_list_all2 .
    with assms(5) obtain m where m: "m \<in> set ms" "(case JObj row of JObj m \<Rightarrow> Inr m
       | _ \<Rightarrow> Inl (NormalizationError (''rows'' @ '' object''))) = Inr m"
      unfolding list_all2_conv_all_nth by (metis in_set_conv_nth)
    then have "row \<in> set ms" by simp
    then have "row \<in> snd ` set (enumerate 0 ms)" by (simp flip: set_map)
    then obtain i where "(i, row) \<in> set (enumerate 0 ms)" by force
    from map_result_raises [OF this, of "\<lambda>(i, row). snapshot_event H R envelope row i"] row
    obtain e where e: "map_result (\<lambda>(i, row). snapshot_event H R envelope row i) (enumerate 0 ms) = Inl e" by auto
    show ?thesis
      by (simp add: normalize_snapshot_def Let_def assms(4) Inr e del: mapping_rows.simps)
  qed (simp add: normalize_snapshot_def Let_def assms(4) del: mapping_rows.simps)
  then show ?thesis
    using assms(1,3) by (auto simp: normalize_def stock_id_ok_def)
qed

theorem lettered_stock_refused_witness:
  "\<exists>e. normalize sample_digest (\<lambda>_. []) (sample_envelope [sample_row ''000010'', sample_row ''0001A0''] 1) = Inl e"
proof -
  have code: "stock_code_ok ''0001A0''" "\<not> list_all is_digit ''0001A0''" by code_simp+
  let ?e = "sample_envelope [sample_row ''000010'', sample_row ''0001A0''] 1"
  have "ke_channel ?e = REST_SNAPSHOT" "field (ke_payload ?e) ''rows'' = JList [sample_row ''000010'', sample_row ''0001A0'']"
    by (simp_all add: sample_envelope_def field_def)
  moreover have "JObj [(''stk_cd'', JStr ''0001A0''), (''flu_rt'', JStr ''-1.5%''), (''cntr_str'', JNull)] \<in> set [sample_row ''000010'', sample_row ''0001A0'']"
    by (simp add: sample_row_def)
  moreover have "field [(''stk_cd'', JStr ''0001A0''), (''flu_rt'', JStr ''-1.5%''), (''cntr_str'', JNull)] ''stk_cd'' = JStr ''0001A0''" by (simp add: field_def)
  ultimately show ?thesis using lettered_stock_refused [OF code] by blast
qed

end
