(* ===== verification/Reconnect.thy ===== *)
theory Reconnect
  imports Decimal_Context
begin

text \<open>
  \<open>packages/adapters/kiwoom/recovery.py\<close>: the delays between reconnection attempts and the
  controller that counts the failures.  Floating point numbers are rationals here: their rounding
  is left out, but the power that grows with the attempts raises, as in Python, once it exceeds the
  range of a double.  Shown here: the bounds of a delay, that a schedule lies ahead of its failure,
  and after how many failures the default policy stops being able to schedule one.
\<close>

section \<open>The policy\<close>

record reconnect_policy =
  ry_base_delay :: timedelta
  ry_maximum_delay :: timedelta
  ry_multiplier :: rat
  ry_jitter_ratio :: rat

definition reconnect_policy_init :: "reconnect_policy \<Rightarrow> reconnect_policy result" where
  "reconnect_policy_init p = validate
     [(0 < ry_base_delay p, ValueError ''base_delay''),
      (ry_base_delay p \<le> ry_maximum_delay p, ValueError ''maximum_delay''),
      (1 \<le> ry_multiplier p, ValueError ''multiplier''),
      (0 \<le> ry_jitter_ratio p \<and> ry_jitter_ratio p < 1, ValueError ''jitter_ratio'')] p"

definition RECONNECT_POLICY_DEFAULT :: reconnect_policy where
  "RECONNECT_POLICY_DEFAULT = \<lparr>ry_base_delay = 1000000, ry_maximum_delay = 30000000,
     ry_multiplier = 2, ry_jitter_ratio = 1 / 5\<rparr>"

text \<open>\<open>float ** int\<close> raises when the result is no finite double.\<close>

definition float_power :: "rat \<Rightarrow> nat \<Rightarrow> rat result" where
  "float_power x n = (if 2 ^ 1024 \<le> x ^ n then Inl (ArithmeticError ''overflow'') else Inr (x ^ n))"

fun hex_digit :: "char \<Rightarrow> nat" where
  "hex_digit c =
     (let n = of_char c :: nat
      in if 48 \<le> n \<and> n \<le> 57 then n - 48 else if 97 \<le> n \<and> n \<le> 102 then n - 87 else 0)"

definition hex_value :: "string \<Rightarrow> nat" where
  "hex_value s = foldl (\<lambda>v c. 16 * v + hex_digit c) 0 s"

text \<open>The first eight bytes of the digest, as a fraction of the largest value.\<close>

definition jitter_fraction :: "hash \<Rightarrow> string \<Rightarrow> nat \<Rightarrow> rat" where
  "jitter_fraction H jitter_key attempt =
     of_nat (hex_value (take 16 (H (Plain (jitter_key @ '':'' @ digits_of attempt))))) / (2 ^ 64 - 1)"

definition delay_for :: "hash \<Rightarrow> reconnect_policy \<Rightarrow> nat \<Rightarrow> string \<Rightarrow> timedelta result" where
  "delay_for H p attempt jitter_key =
     (if attempt < 1 then Inl (ValueError ''attempt'')
      else bind_result (float_power (ry_multiplier p) (attempt - 1)) (\<lambda>growth.
        let capped = min (of_int (ry_base_delay p) * growth) (of_int (ry_maximum_delay p));
            factor = 1 - ry_jitter_ratio p
              + ry_jitter_ratio p * jitter_fraction H jitter_key attempt
        in Inr (round_half_even (capped * factor))))"

section \<open>The controller\<close>

record reconnect_schedule =
  rx_attempt :: nat
  rx_reason :: string
  rx_scheduled_at :: datetime
  rx_due_at :: datetime
  rx_delay :: timedelta

record reconnect_controller =
  rk_policy :: reconnect_policy
  rk_attempt :: nat
  rk_schedule :: "reconnect_schedule option"

definition reconnect_controller_init :: "reconnect_policy \<Rightarrow> reconnect_controller" where
  "reconnect_controller_init p = \<lparr>rk_policy = p, rk_attempt = 0, rk_schedule = None\<rparr>"

definition schedule_failure ::
  "hash \<Rightarrow> reconnect_controller \<Rightarrow> datetime \<Rightarrow> string \<Rightarrow> string
    \<Rightarrow> reconnect_controller \<times> reconnect_schedule result" where
  "schedule_failure H c now reason jitter_key =
     (if \<not> is_aware now then (c, Inl (ValueError ''now aware''))
      else if reason = [] then (c, Inl (ValueError ''reason''))
      else let c1 = c\<lparr>rk_attempt := rk_attempt c + 1\<rparr>
           in case delay_for H (rk_policy c) (rk_attempt c1) jitter_key of
                Inl e \<Rightarrow> (c1, Inl e)
              | Inr delay \<Rightarrow>
                  let schedule = \<lparr>rx_attempt = rk_attempt c1, rx_reason = reason,
                        rx_scheduled_at = now, rx_due_at = shift now delay, rx_delay = delay\<rparr>
                  in (c1\<lparr>rk_schedule := Some schedule\<rparr>, Inr schedule))"

definition is_due :: "reconnect_controller \<Rightarrow> datetime \<Rightarrow> bool result" where
  "is_due c now =
     (if \<not> is_aware now then Inl (ValueError ''now aware'')
      else Inr (case rk_schedule c of None \<Rightarrow> False | Some s \<Rightarrow> instant (rx_due_at s) \<le> instant now))"

definition mark_connected :: "reconnect_controller \<Rightarrow> reconnect_controller" where
  "mark_connected c = c\<lparr>rk_attempt := 0, rk_schedule := None\<rparr>"

section \<open>Bounds of a delay\<close>

lemma hex_value_bound: "hex_value s < 16 ^ length s"
proof (induction s rule: rev_induct)
  case (snoc c s)
  have "hex_digit c \<le> 15" by (auto simp: Let_def)
  with snoc show ?case by (simp add: hex_value_def)
qed (simp add: hex_value_def)

lemma jitter_fraction_unit: "0 \<le> jitter_fraction H k n" "jitter_fraction H k n \<le> 1"
proof -
  let ?s = "take 16 (H (Plain (k @ '':'' @ digits_of n)))"
  have "hex_value ?s < 16 ^ length ?s" by (rule hex_value_bound)
  also have "\<dots> \<le> (16::nat) ^ 16" by (intro power_increasing) simp_all
  finally have "hex_value ?s \<le> 2 ^ 64 - 1" by simp
  then have "rat_of_nat (hex_value ?s) \<le> of_nat (2 ^ 64 - 1)" by (simp only: of_nat_le_iff)
  then show "jitter_fraction H k n \<le> 1" by (simp add: jitter_fraction_def)
  show "0 \<le> jitter_fraction H k n" by (simp add: jitter_fraction_def)
qed

text \<open>
  A delay the policy gives is at most the maximal delay and at least the basic delay less the
  jitter, rounded to microseconds.
\<close>

theorem delay_bounds:
  assumes "reconnect_policy_init p = Inr p" and "delay_for H p attempt jitter_key = Inr delay"
  shows "round_half_even (of_int (ry_base_delay p) * (1 - ry_jitter_ratio p)) \<le> delay
    \<and> delay \<le> ry_maximum_delay p"
proof -
  have p: "0 < ry_base_delay p" "ry_base_delay p \<le> ry_maximum_delay p" "1 \<le> ry_multiplier p"
      "0 \<le> ry_jitter_ratio p" "ry_jitter_ratio p < 1"
    using assms(1) unfolding reconnect_policy_init_def validate_Inr_iff by simp_all
  let ?m = "ry_multiplier p ^ (attempt - 1)" and ?j = "jitter_fraction H jitter_key attempt"
  let ?c = "min (of_int (ry_base_delay p) * ?m) (of_int (ry_maximum_delay p)) :: rat"
  let ?f = "1 - ry_jitter_ratio p + ry_jitter_ratio p * ?j"
  have delay: "delay = round_half_even (?c * ?f)"
    using assms(2) by (auto simp: delay_for_def float_power_def Let_def split: if_splits)
  have "1 \<le> ?m" using p(3) by simp
  then have "of_int (ry_base_delay p) * 1 \<le> of_int (ry_base_delay p) * ?m"
    using p(1) by (intro mult_left_mono) simp_all
  moreover have "rat_of_int (ry_base_delay p) \<le> of_int (ry_maximum_delay p)" using p(2) by simp
  ultimately have c: "of_int (ry_base_delay p) \<le> ?c" "?c \<le> of_int (ry_maximum_delay p)" "0 \<le> ?c"
    using p(1) by simp_all
  have "ry_jitter_ratio p * ?j \<le> ry_jitter_ratio p * 1"
    using p(4) jitter_fraction_unit by (intro mult_left_mono) simp_all
  moreover have "0 \<le> ry_jitter_ratio p * ?j" using p(4) jitter_fraction_unit by simp
  ultimately have f: "1 - ry_jitter_ratio p \<le> ?f" "?f \<le> 1" by simp_all
  have "of_int (ry_base_delay p) * (1 - ry_jitter_ratio p) \<le> ?c * ?f"
    using c f p by (intro mult_mono) simp_all
  moreover have "?c * ?f \<le> of_int (ry_maximum_delay p) * 1"
    using c f p by (intro mult_mono) simp_all
  ultimately show ?thesis
    using round_half_even_mono [of "?c * ?f" "of_int (ry_maximum_delay p)"] by (simp add: delay round_half_even_mono)
qed

lemma sample_delay: "delay_for (\<lambda>_. ''0'') RECONNECT_POLICY_DEFAULT 2 ''s'' = Inr 1600000"
  by code_simp

theorem delay_bounds_witness:
  "(1600000 :: timedelta) \<le> ry_maximum_delay RECONNECT_POLICY_DEFAULT"
proof -
  have "reconnect_policy_init RECONNECT_POLICY_DEFAULT = Inr RECONNECT_POLICY_DEFAULT"
    by (simp add: reconnect_policy_init_def RECONNECT_POLICY_DEFAULT_def)
  from delay_bounds [OF this sample_delay] show ?thesis by (rule conjunct2)
qed

section \<open>Many failures in a row\<close>

text \<open>Consecutive failures, each with its time, reason and key.\<close>

definition failure_step ::
  "hash \<Rightarrow> reconnect_controller \<Rightarrow> datetime \<times> string \<times> string
    \<Rightarrow> reconnect_controller \<times> reconnect_schedule result" where
  "failure_step H c f = (case f of (now, reason, jitter_key) \<Rightarrow> schedule_failure H c now reason jitter_key)"

definition failure_ok :: "datetime \<times> string \<times> string \<Rightarrow> bool" where
  "failure_ok f \<longleftrightarrow> is_aware (fst f) \<and> fst (snd f) \<noteq> []"

lemma failures_counted:
  "list_all failure_ok fs \<Longrightarrow> rk_attempt (run (failure_step H) c fs) = rk_attempt c + length fs
     \<and> rk_policy (run (failure_step H) c fs) = rk_policy c"
proof (induction fs arbitrary: c)
  case (Cons f fs)
  have "rk_attempt (fst (failure_step H c f)) = rk_attempt c + 1 \<and> rk_policy (fst (failure_step H c f)) = rk_policy c"
    using Cons.prems
    by (cases f) (auto simp: failure_step_def failure_ok_def schedule_failure_def Let_def split: sum.splits)
  with Cons show ?case by simp
qed simp

lemma float_power_two: "float_power 2 n = (if 1024 \<le> n then Inl (ArithmeticError ''overflow'') else Inr (2 ^ n))"
proof -
  have "(2 :: rat) ^ 1024 \<le> 2 ^ n \<longleftrightarrow> 1024 \<le> n" by (rule power_increasing_iff) simp
  then show ?thesis by (simp only: float_power_def)
qed

text \<open>
  With the default policy the failure after 1024 consecutive ones cannot be scheduled: the power
  of the multiplier overflows and the exception leaves the controller with the old schedule, and so
  does every further one; up to there every failure gets a schedule.  The delay is capped at thirty
  seconds, but only after the power was computed.
\<close>

theorem reconnect_overflow:
  assumes "list_all failure_ok fs" and "is_aware now" and "reason \<noteq> []"
    and "c = run (failure_step H) (reconnect_controller_init RECONNECT_POLICY_DEFAULT) fs"
  shows "case schedule_failure H c now reason jitter_key of
     (c', Inl e) \<Rightarrow> 1024 \<le> length fs \<and> e = ArithmeticError ''overflow'' \<and> rk_schedule c' = rk_schedule c
   | (c', Inr schedule) \<Rightarrow> length fs < 1024 \<and> rk_schedule c' = Some schedule
       \<and> rx_attempt schedule = length fs + 1 \<and> rx_due_at schedule = shift now (rx_delay schedule)"
proof -
  have c: "rk_attempt c = length fs" "rk_policy c = RECONNECT_POLICY_DEFAULT"
    using failures_counted [OF assms(1), of H "reconnect_controller_init RECONNECT_POLICY_DEFAULT"]
    by (simp_all add: assms(4) reconnect_controller_init_def)
  have mult: "ry_multiplier RECONNECT_POLICY_DEFAULT = 2" by (simp add: RECONNECT_POLICY_DEFAULT_def)
  show ?thesis
    using assms(2,3) by (auto simp: schedule_failure_def Let_def c delay_for_def mult float_power_two)
qed

theorem reconnect_overflow_witness:
  "case schedule_failure (\<lambda>_. ''0'') (run (failure_step (\<lambda>_. ''0''))
      (reconnect_controller_init RECONNECT_POLICY_DEFAULT) (replicate 1024 (Aware 0 0, ''lost'', ''s'')))
      (Aware 0 0) ''lost'' ''s'' of
     (c', Inl e) \<Rightarrow> e = ArithmeticError ''overflow'' | (c', Inr schedule) \<Rightarrow> False"
proof -
  let ?fs = "replicate 1024 (Aware 0 0, ''lost'', ''s'')"
  let ?r = "schedule_failure (\<lambda>_. ''0'') (run (failure_step (\<lambda>_. ''0''))
      (reconnect_controller_init RECONNECT_POLICY_DEFAULT) ?fs) (Aware 0 0) ''lost'' ''s''"
  have ok: "list_all failure_ok ?fs" "is_aware (Aware 0 0)" "''lost'' \<noteq> []"
    by (simp_all add: failure_ok_def list_all_iff)
  have len: "length ?fs = 1024" by simp
  obtain c' r where r: "?r = (c', r)" by (cases ?r)
  from reconnect_overflow [OF ok refl, of "\<lambda>_. ''0''" "''s''"] show ?thesis
    unfolding r len by (cases r) simp_all
qed

end
