(* ===== verification/Gateway.thy ===== *)
theory Gateway
  imports Normalizer Reconnect
begin

text \<open>
  \<open>packages/adapters/kiwoom/gateway.py\<close>: the fence that orders canonical events, the market state with
  its coverage report, and the gateway that connects, reads, recovers and reports its health.  The port
  to Kiwoom is a record of functions over a state of its own, as the protocol of \<open>contract.py\<close> lists
  them; the normalizer is a parameter \<open>N\<close>, instantiated with the one of \<open>Normalizer\<close>.
\<close>

section \<open>The fence\<close>

datatype ingest_disposition = ACCEPTED | DUPLICATE | CONFLICT | OUT_OF_ORDER | OLD_SESSION | OLD_OBSERVATION

record ingest_result =
  ir_event :: canonical_market_event
  ir_disposition :: ingest_disposition
  ir_detail :: string

record ordering_cursor =
  oc_source_sequence :: int
  oc_source_item_index :: int
  oc_source_timestamp :: datetime
  oc_received_at :: datetime

type_synonym ordering_key = "string \<times> string \<times> string \<times> string"

record event_order_fence =
  ef_current_session_id :: "string option"
  ef_seen_hashes :: "(string, string) dict"
  ef_ordering :: "(ordering_key, ordering_cursor) dict"
  ef_latest_observation :: "(string, canonical_market_event) dict"

definition empty_fence :: event_order_fence where
  "empty_fence = \<lparr>ef_current_session_id = None, ef_seen_hashes = [], ef_ordering = [],
     ef_latest_observation = []\<rparr>"

definition begin_session :: "event_order_fence \<Rightarrow> string \<Rightarrow> event_order_fence result" where
  "begin_session f session_id =
     (if session_id = [] then Inl (ValueError ''session_id'')
      else Inr (f\<lparr>ef_current_session_id := Some session_id\<rparr>))"

definition ordering_lane :: "canonical_market_event \<Rightarrow> string" where
  "ordering_lane e = (case me_data e of
     Candidate d \<Rightarrow> ''candidate:'' @ cd_condition_id d | Observation d \<Rightarrow> ''market-observation'')"

definition ordering_key :: "canonical_market_event \<Rightarrow> ordering_key" where
  "ordering_key e = (el_session_id (me_lineage e), channel_value (el_source_channel (me_lineage e)),
     me_stock_id e, ordering_lane e)"

definition position :: "canonical_market_event \<Rightarrow> int \<times> int" where
  "position e = (me_source_sequence e, el_source_item_index (me_lineage e))"

fun is_old_observation :: "canonical_market_event \<Rightarrow> canonical_market_event \<Rightarrow> bool" where
  "is_old_observation incoming latest =
     (if instant (me_source_timestamp incoming) < instant (me_source_timestamp latest) then True
      else if instant (me_source_timestamp latest) < instant (me_source_timestamp incoming) then False
      else case (me_data incoming, me_data latest) of
        (Observation i, Observation l) \<Rightarrow>
          if mo_observation_source i = REST_KA10095 \<and> mo_observation_source l = REALTIME_0B then True
          else if mo_observation_source i = REALTIME_0B \<and> mo_observation_source l = REST_KA10095 then False
          else instant (me_received_at incoming) < instant (me_received_at latest)
      | _ \<Rightarrow> False)"

definition ingest_result_of :: "canonical_market_event \<Rightarrow> ingest_disposition \<Rightarrow> string \<Rightarrow> ingest_result" where
  "ingest_result_of e d detail = \<lparr>ir_event = e, ir_disposition = d, ir_detail = detail\<rparr>"

definition fence_accept :: "event_order_fence \<Rightarrow> canonical_market_event \<Rightarrow> event_order_fence" where
  "fence_accept f e =
     f\<lparr>ef_seen_hashes := dset (me_idempotency_key e) (el_raw_payload_sha256 (me_lineage e)) (ef_seen_hashes f),
       ef_ordering := dset (ordering_key e)
         \<lparr>oc_source_sequence = me_source_sequence e,
          oc_source_item_index = el_source_item_index (me_lineage e),
          oc_source_timestamp = me_source_timestamp e, oc_received_at = me_received_at e\<rparr> (ef_ordering f),
       ef_latest_observation := (if is_candidate (me_data e) then ef_latest_observation f
         else dset (me_stock_id e) e (ef_latest_observation f))\<rparr>"

definition evaluate :: "event_order_fence \<Rightarrow> canonical_market_event \<Rightarrow> event_order_fence \<times> ingest_result" where
  "evaluate f e =
     (if Some (el_session_id (me_lineage e)) \<noteq> ef_current_session_id f
      then (f, ingest_result_of e OLD_SESSION ''old session'')
      else case dget (ef_seen_hashes f) (me_idempotency_key e) of
        Some seen_hash \<Rightarrow>
          if seen_hash = el_raw_payload_sha256 (me_lineage e)
          then (f, ingest_result_of e DUPLICATE ''duplicate'')
          else (f, ingest_result_of e CONFLICT ''conflict'')
      | None \<Rightarrow>
          if (case dget (ef_ordering f) (ordering_key e) of None \<Rightarrow> False
              | Some cursor \<Rightarrow>
                  position e \<le> (oc_source_sequence cursor, oc_source_item_index cursor)
                  \<or> instant (me_received_at e) < instant (oc_received_at cursor))
          then (f, ingest_result_of e OUT_OF_ORDER ''out of order'')
          else if \<not> is_candidate (me_data e)
              \<and> (case dget (ef_latest_observation f) (me_stock_id e) of None \<Rightarrow> False
                 | Some latest \<Rightarrow> is_old_observation e latest)
          then (f, ingest_result_of e OLD_OBSERVATION ''old observation'')
          else (fence_accept f e, ingest_result_of e ACCEPTED ''accepted''))"

section \<open>The market state\<close>

datatype connection_phase = DISCONNECTED | RECONNECTING | RECOVERING | CONNECTED

datatype stock_freshness = FRESH | LOW_CONFIDENCE | STALE | INCOMPLETE | MISSING

datatype gateway_coverage_status = COMPLETE | PARTIAL | INSUFFICIENT

record coverage_report =
  cr_status :: gateway_coverage_status
  cr_requested_count :: nat
  cr_fresh_count :: nat
  cr_low_confidence_count :: nat
  cr_stale_count :: nat
  cr_incomplete_count :: nat
  cr_missing_count :: nat
  cr_fresh_ratio :: "rat option"
  cr_fresh_stock_ids :: "string list"
  cr_low_confidence_stock_ids :: "string list"
  cr_stale_stock_ids :: "string list"
  cr_incomplete_stock_ids :: "string list"
  cr_missing_stock_ids :: "string list"

definition coverage_report_init :: "coverage_report \<Rightarrow> coverage_report result" where
  "coverage_report_init r = validate
     [(cr_fresh_count r + cr_low_confidence_count r + cr_stale_count r + cr_incomplete_count r
         + cr_missing_count r = cr_requested_count r, ValueError ''requested_count''),
      (\<not> (cr_requested_count r = 0 \<and> cr_fresh_ratio r \<noteq> None), ValueError ''fresh_ratio'')] r"

record market_state =
  mk_snapshot_fresh_for :: timedelta
  mk_snapshot_low_confidence_for :: timedelta
  mk_observations :: "(string, canonical_market_event) dict"

definition market_state_init :: "timedelta \<Rightarrow> timedelta \<Rightarrow> market_state result" where
  "market_state_init fresh low = validate
     [(0 \<le> fresh, ValueError ''snapshot freshness''), (fresh \<le> low, ValueError ''low-confidence'')]
     \<lparr>mk_snapshot_fresh_for = fresh, mk_snapshot_low_confidence_for = low, mk_observations = []\<rparr>"

definition MARKET_STATE_DEFAULT :: market_state where
  "MARKET_STATE_DEFAULT = \<lparr>mk_snapshot_fresh_for = 30000000, mk_snapshot_low_confidence_for = 60000000,
     mk_observations = []\<rparr>"

definition state_apply :: "market_state \<Rightarrow> canonical_market_event \<Rightarrow> market_state" where
  "state_apply s e = (if is_candidate (me_data e) then s
     else s\<lparr>mk_observations := dset (me_stock_id e) e (mk_observations s)\<rparr>)"

definition freshness ::
  "market_state \<Rightarrow> canonical_market_event option \<Rightarrow> datetime \<Rightarrow> connection_phase \<Rightarrow> string option
    \<Rightarrow> bool \<Rightarrow> bool \<Rightarrow> stock_freshness" where
  "freshness s event now phase current_session_id heartbeat_fresh subscribed =
     (case event of None \<Rightarrow> MISSING
      | Some e \<Rightarrow> (case me_data e of Candidate _ \<Rightarrow> MISSING
          | Observation d \<Rightarrow>
              if mo_missing_fields d \<noteq> [] then INCOMPLETE
              else if mo_observation_source d = REALTIME_0B
              then if phase = CONNECTED \<and> heartbeat_fresh \<and> subscribed
                   \<and> Some (el_session_id (me_lineage e)) = current_session_id then FRESH else STALE
              else let age = instant now - instant (me_received_at e)
                   in if age < 0 then STALE
                      else if age \<le> mk_snapshot_fresh_for s then FRESH
                      else if age \<le> mk_snapshot_low_confidence_for s then LOW_CONFIDENCE
                      else STALE))"

definition state_coverage ::
  "market_state \<Rightarrow> string list \<Rightarrow> datetime \<Rightarrow> connection_phase \<Rightarrow> string option \<Rightarrow> bool \<Rightarrow> string list
    \<Rightarrow> coverage_report result" where
  "state_coverage s stock_ids now phase current_session_id heartbeat_fresh subscriptions =
     (if \<not> is_aware now then Inl (ValueError ''now aware'')
      else let requested = sorted_set stock_ids
      in if \<not> list_all stock_id_ok requested then Inl (ValueError ''stock_id'')
      else let group = \<lambda>f. filter (\<lambda>i. freshness s (dget (mk_observations s) i) now phase
                 current_session_id heartbeat_fresh (i \<in> set subscriptions) = f) requested;
               total = length requested;
               fresh_count = length (group FRESH)
           in coverage_report_init
             \<lparr>cr_status = (if 0 < total \<and> fresh_count = total then COMPLETE
                else if 0 < fresh_count then PARTIAL else INSUFFICIENT),
              cr_requested_count = total, cr_fresh_count = fresh_count,
              cr_low_confidence_count = length (group LOW_CONFIDENCE),
              cr_stale_count = length (group STALE),
              cr_incomplete_count = length (group INCOMPLETE),
              cr_missing_count = length (group MISSING),
              cr_fresh_ratio = (if total = 0 then None
                else Some (dround 50 (of_nat fresh_count / of_nat total))),
              cr_fresh_stock_ids = group FRESH, cr_low_confidence_stock_ids = group LOW_CONFIDENCE,
              cr_stale_stock_ids = group STALE, cr_incomplete_stock_ids = group INCOMPLETE,
              cr_missing_stock_ids = group MISSING\<rparr>)"


section \<open>The gateway\<close>

text \<open>The protocol of the port: each call may change the state of the port and may raise.\<close>

record 's kiwoom_port =
  po_capabilities :: adapter_capabilities
  po_connect :: "'s \<Rightarrow> datetime \<Rightarrow> 's \<times> kiwoom_connection result"
  po_read :: "'s \<Rightarrow> string \<Rightarrow> 's \<times> kiwoom_source_envelope option result"
  po_replace_trade_subscriptions :: "'s \<Rightarrow> string \<Rightarrow> string list \<Rightarrow> 's \<times> unit result"
  po_fetch_watchlist_snapshots ::
    "'s \<Rightarrow> string \<Rightarrow> string list \<Rightarrow> datetime \<Rightarrow> 's \<times> kiwoom_source_envelope list result"
  po_close_session :: "'s \<Rightarrow> string \<Rightarrow> 's \<times> unit result"

type_synonym normalizer = "kiwoom_source_envelope \<Rightarrow> canonical_market_event list result"

datatype gateway_data_status = LIVE | DELAYED_STALE | DEGRADED

datatype supplement_reason = RECONNECT | GAP | COVERAGE | UNSUBSCRIBED_RELATED

record gateway_health =
  gh_data_status :: gateway_data_status
  gh_connection_phase :: connection_phase
  gh_session_id :: "string option"
  gh_last_heartbeat_at :: "datetime option"
  gh_coverage :: coverage_report

record supplement_outcome =
  sx_reason :: supplement_reason
  sx_requested_stock_ids :: "string list"
  sx_ingest_results :: "ingest_result list"
  sx_coverage :: coverage_report

record reconnect_outcome =
  rc_connected :: bool
  rc_connection :: "kiwoom_connection option"
  rc_subscription_plan :: "subscription_plan option"
  rc_supplement :: "supplement_outcome option"
  rc_next_schedule :: "reconnect_schedule option"

record 's market_gateway =
  mg_port :: 's
  mg_subscriptions :: subscription_manager
  mg_reconnect :: reconnect_controller
  mg_heartbeat_timeout :: timedelta
  mg_order_fence :: event_order_fence
  mg_state :: market_state
  mg_phase :: connection_phase
  mg_connection :: "kiwoom_connection option"
  mg_last_heartbeat_at :: "datetime option"
  mg_accepted_events :: "canonical_market_event list"

definition market_gateway_init ::
  "'s kiwoom_port \<Rightarrow> 's \<Rightarrow> subscription_manager \<Rightarrow> reconnect_controller \<Rightarrow> timedelta
    \<Rightarrow> 's market_gateway result" where
  "market_gateway_init P port subscriptions reconnect heartbeat_timeout = validate
     [(ac_read_only (po_capabilities P) \<and> \<not> ac_orders (po_capabilities P)
         \<and> \<not> ac_accounts (po_capabilities P), ValueError ''read-only''),
      (0 < heartbeat_timeout, ValueError ''heartbeat_timeout'')]
     \<lparr>mg_port = port, mg_subscriptions = subscriptions, mg_reconnect = reconnect,
      mg_heartbeat_timeout = heartbeat_timeout, mg_order_fence = empty_fence,
      mg_state = MARKET_STATE_DEFAULT, mg_phase = DISCONNECTED, mg_connection = None,
      mg_last_heartbeat_at = None, mg_accepted_events = []\<rparr>"

definition heartbeat_fresh :: "'s market_gateway \<Rightarrow> datetime \<Rightarrow> bool result" where
  "heartbeat_fresh g now =
     (if \<not> is_aware now then Inl (ValueError ''now aware'')
      else Inr (case mg_last_heartbeat_at g of None \<Rightarrow> False
        | Some t \<Rightarrow> 0 \<le> instant now - instant t \<and> instant now - instant t \<le> mg_heartbeat_timeout g))"

definition gateway_coverage :: "'s market_gateway \<Rightarrow> string list \<Rightarrow> datetime \<Rightarrow> coverage_report result" where
  "gateway_coverage g stock_ids now = bind_result (heartbeat_fresh g now) (\<lambda>fresh.
     state_coverage (mg_state g) stock_ids now (mg_phase g) (ef_current_session_id (mg_order_fence g))
       fresh (su_current (mg_subscriptions g)))"

definition health :: "'s market_gateway \<Rightarrow> string list \<Rightarrow> datetime \<Rightarrow> gateway_health result" where
  "health g stock_ids now = bind_result (gateway_coverage g stock_ids now) (\<lambda>coverage.
     bind_result (heartbeat_fresh g now) (\<lambda>fresh. Inr
       \<lparr>gh_data_status = (if mg_phase g \<noteq> CONNECTED \<or> \<not> fresh then DELAYED_STALE else LIVE),
        gh_connection_phase = mg_phase g, gh_session_id = map_option kc_session_id (mg_connection g),
        gh_last_heartbeat_at = mg_last_heartbeat_at g, gh_coverage = coverage\<rparr>))"

subsection \<open>Connecting\<close>

text \<open>What \<open>connect\<close> and \<open>recover\<close> do with a new connection; only the phase differs.\<close>

definition enter_session ::
  "'s market_gateway \<Rightarrow> kiwoom_connection \<Rightarrow> connection_phase \<Rightarrow> 's market_gateway \<times> unit result" where
  "enter_session g connection phase =
     (let g1 = g\<lparr>mg_connection := Some connection\<rparr>
      in case begin_session (mg_order_fence g1) (kc_session_id connection) of
           Inl e \<Rightarrow> (g1, Inl e)
         | Inr fence \<Rightarrow> (g1\<lparr>mg_order_fence := fence, mg_phase := phase,
             mg_last_heartbeat_at := Some (kc_connected_at connection),
             mg_reconnect := mark_connected (mg_reconnect g1)\<rparr>, Inr ()))"

definition connect ::
  "'s kiwoom_port \<Rightarrow> 's market_gateway \<Rightarrow> datetime \<Rightarrow> 's market_gateway \<times> kiwoom_connection result" where
  "connect P g now =
     (if \<not> is_aware now then (g, Inl (ValueError ''now aware''))
      else case po_connect P (mg_port g) now of (port, r) \<Rightarrow>
        let g1 = g\<lparr>mg_port := port\<rparr>
        in case r of Inl e \<Rightarrow> (g1, Inl e)
           | Inr connection \<Rightarrow>
               (case enter_session g1 connection CONNECTED of
                  (g2, Inl e) \<Rightarrow> (g2, Inl e) | (g2, Inr _) \<Rightarrow> (g2, Inr connection)))"

definition mark_heartbeat :: "'s market_gateway \<Rightarrow> datetime \<Rightarrow> 's market_gateway \<times> unit result" where
  "mark_heartbeat g beat =
     (if \<not> is_aware beat then (g, Inl (ValueError ''at aware''))
      else if mg_connection g = None then (g, Inl (KiwoomConnectionLost ''heartbeat''))
      else if (case mg_last_heartbeat_at g of None \<Rightarrow> True | Some t \<Rightarrow> instant t < instant beat)
      then (g\<lparr>mg_last_heartbeat_at := Some beat\<rparr>, Inr ())
      else (g, Inr ()))"

definition mark_disconnected ::
  "'s kiwoom_port \<Rightarrow> hash \<Rightarrow> 's market_gateway \<Rightarrow> datetime \<Rightarrow> string
    \<Rightarrow> 's market_gateway \<times> reconnect_schedule result" where
  "mark_disconnected P H g now reason =
     (if \<not> is_aware now then (g, Inl (ValueError ''now aware''))
      else let session_id = (case mg_connection g of Some c \<Rightarrow> kc_session_id c | None \<Rightarrow> ''initial'')
      in case (case mg_connection g of None \<Rightarrow> (mg_port g, Inr ())
               | Some c \<Rightarrow> po_close_session P (mg_port g) (kc_session_id c)) of
           (port, Inl e) \<Rightarrow> (g\<lparr>mg_port := port\<rparr>, Inl e)
         | (port, Inr _) \<Rightarrow>
             (case schedule_failure H (mg_reconnect g) now reason session_id of (controller, r) \<Rightarrow>
               (g\<lparr>mg_port := port, mg_connection := None, mg_phase := RECONNECTING,
                  mg_reconnect := controller\<rparr>, r)))"

subsection \<open>Reading\<close>

definition accept_event ::
  "'s market_gateway \<Rightarrow> canonical_market_event \<Rightarrow> 's market_gateway \<times> ingest_result" where
  "accept_event g e = (case evaluate (mg_order_fence g) e of (fence, r) \<Rightarrow>
     let g1 = g\<lparr>mg_order_fence := fence\<rparr>
     in (if ir_disposition r = ACCEPTED
         then g1\<lparr>mg_accepted_events := mg_accepted_events g1 @ [e], mg_state := state_apply (mg_state g1) e\<rparr>
         else g1, r))"

fun accept_events ::
  "'s market_gateway \<Rightarrow> canonical_market_event list \<Rightarrow> 's market_gateway \<times> ingest_result list" where
  "accept_events g [] = (g, [])"
| "accept_events g (e # es) =
     (case accept_event g e of (g1, r) \<Rightarrow> case accept_events g1 es of (g2, rs) \<Rightarrow> (g2, r # rs))"

definition ingest ::
  "normalizer \<Rightarrow> 's market_gateway \<Rightarrow> kiwoom_source_envelope \<Rightarrow> 's market_gateway \<times> ingest_result list result" where
  "ingest N g envelope =
     (case N envelope of Inl e \<Rightarrow> (g, Inl e)
      | Inr events \<Rightarrow>
          (case accept_events g events of (g1, results) \<Rightarrow>
             (if Some (ke_session_id envelope) = ef_current_session_id (mg_order_fence g1)
                 \<and> (case mg_last_heartbeat_at g1 of None \<Rightarrow> True
                    | Some t \<Rightarrow> instant t < instant (ke_received_at envelope))
              then g1\<lparr>mg_last_heartbeat_at := Some (ke_received_at envelope)\<rparr> else g1, Inr results)))"

fun ingest_all ::
  "normalizer \<Rightarrow> 's market_gateway \<Rightarrow> kiwoom_source_envelope list
    \<Rightarrow> 's market_gateway \<times> ingest_result list result" where
  "ingest_all N g [] = (g, Inr [])"
| "ingest_all N g (x # xs) =
     (case ingest N g x of
        (g1, Inl e) \<Rightarrow> (g1, Inl e)
      | (g1, Inr rs) \<Rightarrow> (case ingest_all N g1 xs of (g2, r) \<Rightarrow> (g2, map_sum id (\<lambda>qs. rs @ qs) r)))"

definition poll_once ::
  "'s kiwoom_port \<Rightarrow> normalizer \<Rightarrow> hash \<Rightarrow> 's market_gateway \<Rightarrow> datetime
    \<Rightarrow> 's market_gateway \<times> ingest_result list result" where
  "poll_once P N H g now =
     (if \<not> is_aware now then (g, Inl (ValueError ''now aware''))
      else case mg_connection g of None \<Rightarrow> (g, Inl (KiwoomConnectionLost ''no session''))
        | Some c \<Rightarrow>
            (case po_read P (mg_port g) (kc_session_id c) of (port, r) \<Rightarrow>
               let g1 = g\<lparr>mg_port := port\<rparr>
               in case r of
                    Inl (KiwoomConnectionLost reason) \<Rightarrow>
                      (case mark_disconnected P H g1 now reason of (g2, s) \<Rightarrow> (g2, map_sum id (\<lambda>_. []) s))
                  | Inl e \<Rightarrow> (g1, Inl e)
                  | Inr None \<Rightarrow> (g1, Inr [])
                  | Inr (Some envelope) \<Rightarrow> ingest N g1 envelope))"

subsection \<open>Subscriptions, supplements and recovery\<close>

definition reconcile_subscriptions ::
  "'s kiwoom_port \<Rightarrow> 's market_gateway \<Rightarrow> subscription_demand list \<Rightarrow> datetime \<Rightarrow> bool
    \<Rightarrow> 's market_gateway \<times> subscription_plan result" where
  "reconcile_subscriptions P g demands now force =
     (case mg_connection g of None \<Rightarrow> (g, Inl (KiwoomConnectionLost ''subscriptions''))
      | Some c \<Rightarrow>
          (case reconcile (mg_subscriptions g) demands now force of (manager, r) \<Rightarrow>
             let g1 = g\<lparr>mg_subscriptions := manager\<rparr>
             in case r of Inl e \<Rightarrow> (g1, Inl e)
                | Inr plan \<Rightarrow>
                    if force \<or> pl_added plan \<noteq> [] \<or> pl_removed plan \<noteq> []
                    then (case po_replace_trade_subscriptions P (mg_port g1) (kc_session_id c) (pl_subscriptions plan) of
                            (port, Inl e) \<Rightarrow> (g1\<lparr>mg_port := port\<rparr>, Inl e)
                          | (port, Inr _) \<Rightarrow> (g1\<lparr>mg_port := port\<rparr>, Inr plan))
                    else (g1, Inr plan)))"

definition supplement ::
  "'s kiwoom_port \<Rightarrow> normalizer \<Rightarrow> 's market_gateway \<Rightarrow> string list \<Rightarrow> supplement_reason \<Rightarrow> datetime
    \<Rightarrow> 's market_gateway \<times> supplement_outcome result" where
  "supplement P N g stock_ids reason now =
     (if \<not> is_aware now then (g, Inl (ValueError ''now aware''))
      else case mg_connection g of None \<Rightarrow> (g, Inl (KiwoomConnectionLost ''snapshot''))
        | Some c \<Rightarrow>
            let requested = sorted_set stock_ids
            in if \<not> list_all stock_id_ok requested then (g, Inl (ValueError ''stock_id''))
               else case po_fetch_watchlist_snapshots P (mg_port g) (kc_session_id c) requested now of
                 (port, Inl e) \<Rightarrow> (g\<lparr>mg_port := port\<rparr>, Inl e)
               | (port, Inr responses) \<Rightarrow>
                   (case ingest_all N (g\<lparr>mg_port := port\<rparr>) responses of
                      (g1, Inl e) \<Rightarrow> (g1, Inl e)
                    | (g1, Inr results) \<Rightarrow>
                        (case gateway_coverage g1 requested now of
                           Inl e \<Rightarrow> (g1, Inl e)
                         | Inr coverage \<Rightarrow> (g1, Inr
                             \<lparr>sx_reason = reason, sx_requested_stock_ids = requested,
                              sx_ingest_results = results, sx_coverage = coverage\<rparr>))))"

text \<open>\<open>except KiwoomConnectionError\<close> also catches its subclass.\<close>

fun connection_error :: "py_error \<Rightarrow> string option" where
  "connection_error (KiwoomConnectionError reason) = Some reason"
| "connection_error (KiwoomConnectionLost reason) = Some reason"
| "connection_error _ = None"

text \<open>The part of \<open>recover\<close> after the new session was entered.\<close>

definition restore_session ::
  "'s kiwoom_port \<Rightarrow> normalizer \<Rightarrow> 's market_gateway \<Rightarrow> subscription_demand list \<Rightarrow> string list \<Rightarrow> datetime
    \<Rightarrow> kiwoom_connection \<Rightarrow> 's market_gateway \<times> reconnect_outcome result" where
  "restore_session P N g demands supplement_stock_ids now connection =
     (case reconcile_subscriptions P g demands now True of
        (g1, Inl e) \<Rightarrow> (g1, Inl e)
      | (g1, Inr plan) \<Rightarrow>
          (case supplement P N g1 (pl_subscriptions plan @ supplement_stock_ids) RECONNECT now of
             (g2, Inl e) \<Rightarrow> (g2, Inl e)
           | (g2, Inr outcome) \<Rightarrow> (g2\<lparr>mg_phase := CONNECTED\<rparr>, Inr
               \<lparr>rc_connected = True, rc_connection = Some connection, rc_subscription_plan = Some plan,
                rc_supplement = Some outcome, rc_next_schedule = None\<rparr>)))"

definition recover ::
  "'s kiwoom_port \<Rightarrow> normalizer \<Rightarrow> hash \<Rightarrow> 's market_gateway \<Rightarrow> subscription_demand list \<Rightarrow> string list
    \<Rightarrow> datetime \<Rightarrow> 's market_gateway \<times> reconnect_outcome result" where
  "recover P N H g demands supplement_stock_ids now =
     (case is_due (mg_reconnect g) now of
        Inl e \<Rightarrow> (g, Inl e)
      | Inr False \<Rightarrow> (g, Inl ReconnectNotDue)
      | Inr True \<Rightarrow>
          (case po_connect P (mg_port g) now of (port, r) \<Rightarrow>
             let g1 = g\<lparr>mg_port := port\<rparr>
             in case r of
                  Inl e \<Rightarrow>
                    (case connection_error e of None \<Rightarrow> (g1, Inl e)
                     | Some reason \<Rightarrow>
                         (case schedule_failure H (mg_reconnect g1) now reason ''kiwoom-reconnect'' of
                            (controller, s) \<Rightarrow> (g1\<lparr>mg_reconnect := controller\<rparr>, map_sum id (\<lambda>schedule.
                              \<lparr>rc_connected = False, rc_connection = None, rc_subscription_plan = None,
                               rc_supplement = None, rc_next_schedule = Some schedule\<rparr>) s)))
                | Inr connection \<Rightarrow>
                    (case enter_session g1 connection RECOVERING of
                       (g2, Inl e) \<Rightarrow> (g2, Inl e)
                     | (g2, Inr _) \<Rightarrow>
                         restore_session P N g2 demands supplement_stock_ids now connection)))"


section \<open>The log of accepted events\<close>

definition last_option :: "'a list \<Rightarrow> 'a option" where
  "last_option xs = (if xs = [] then None else Some (last xs))"

lemma last_option_simps [simp]: "last_option [] = None" "last_option (xs @ [x]) = Some x"
  by (simp_all add: last_option_def)

lemma last_option_in: "last_option xs = Some x \<Longrightarrow> x \<in> set xs"
  by (auto simp: last_option_def split: if_splits)

lemma sorted_wrt_snoc:
  assumes "sorted_wrt R xs" and "transp R" and "\<And>l. last_option xs = Some l \<Longrightarrow> R l x"
  shows "sorted_wrt R (xs @ [x])"
proof (cases xs rule: rev_cases)
  case (snoc ys l)
  then have "R l x" using assms(3) by simp
  with assms(1,2) snoc show ?thesis by (auto simp: sorted_wrt_append dest: transpD)
qed simp

definition observation_log :: "string \<Rightarrow> canonical_market_event list \<Rightarrow> canonical_market_event list" where
  "observation_log stock_id xs = filter (\<lambda>e. \<not> is_candidate (me_data e) \<and> me_stock_id e = stock_id) xs"

definition lane_log :: "ordering_key \<Rightarrow> canonical_market_event list \<Rightarrow> canonical_market_event list" where
  "lane_log k xs = filter (\<lambda>e. ordering_key e = k) xs"

definition follows :: "canonical_market_event \<Rightarrow> canonical_market_event \<Rightarrow> bool" where
  "follows a b \<longleftrightarrow> position a < position b \<and> instant (me_received_at a) \<le> instant (me_received_at b)"

definition not_earlier :: "canonical_market_event \<Rightarrow> canonical_market_event \<Rightarrow> bool" where
  "not_earlier a b \<longleftrightarrow> instant (me_source_timestamp a) \<le> instant (me_source_timestamp b)"

text \<open>
  An ordered log: every key once, the observations of a stock in the order of their source times, and
  the events of a lane of a session by increasing position and receipt.
\<close>

definition log_ordered :: "canonical_market_event list \<Rightarrow> bool" where
  "log_ordered xs \<longleftrightarrow> distinct (map me_idempotency_key xs)
     \<and> (\<forall>i. sorted_wrt not_earlier (observation_log i xs))
     \<and> (\<forall>k. sorted_wrt follows (lane_log k xs))"

definition cursor_of :: "canonical_market_event \<Rightarrow> ordering_cursor" where
  "cursor_of e = \<lparr>oc_source_sequence = me_source_sequence e,
     oc_source_item_index = el_source_item_index (me_lineage e),
     oc_source_timestamp = me_source_timestamp e, oc_received_at = me_received_at e\<rparr>"

text \<open>The dictionaries of the fence, as the log determines them.\<close>

definition fence_of_log :: "event_order_fence \<Rightarrow> canonical_market_event list \<Rightarrow> bool" where
  "fence_of_log f xs \<longleftrightarrow>
     (\<forall>k. dget (ef_seen_hashes f) k
        = map_option (\<lambda>e. el_raw_payload_sha256 (me_lineage e)) (find (\<lambda>e. me_idempotency_key e = k) xs))
     \<and> (\<forall>k. dget (ef_ordering f) k = map_option cursor_of (last_option (lane_log k xs)))
     \<and> (\<forall>i. dget (ef_latest_observation f) i = last_option (observation_log i xs))"

lemma fence_of_log_seen: "fence_of_log f xs \<Longrightarrow> dget (ef_seen_hashes f) k
    = map_option (\<lambda>e. el_raw_payload_sha256 (me_lineage e)) (find (\<lambda>e. me_idempotency_key e = k) xs)"
  unfolding fence_of_log_def by blast

lemma fence_of_log_ordering:
  "fence_of_log f xs \<Longrightarrow> dget (ef_ordering f) k = map_option cursor_of (last_option (lane_log k xs))"
  unfolding fence_of_log_def by blast

lemma fence_of_log_latest:
  "fence_of_log f xs \<Longrightarrow> dget (ef_latest_observation f) i = last_option (observation_log i xs)"
  unfolding fence_of_log_def by blast

lemma fence_of_empty_log: "fence_of_log empty_fence []"
  by (simp add: fence_of_log_def empty_fence_def observation_log_def lane_log_def)

lemma observation_log_snoc:
  "observation_log i (xs @ [e])
     = observation_log i xs @ (if \<not> is_candidate (me_data e) \<and> me_stock_id e = i then [e] else [])"
  by (simp add: observation_log_def)

lemma lane_log_snoc: "lane_log k (xs @ [e]) = lane_log k xs @ (if ordering_key e = k then [e] else [])"
  by (simp add: lane_log_def)

lemma find_snoc: "find P (xs @ [x]) = (case find P xs of None \<Rightarrow> if P x then Some x else None | Some y \<Rightarrow> Some y)"
  by (induction xs) simp_all

lemma fence_accept_log:
  assumes "fence_of_log f xs" and "find (\<lambda>x. me_idempotency_key x = me_idempotency_key e) xs = None"
  shows "fence_of_log (fence_accept f e) (xs @ [e])"
proof -
  have "dget (ef_seen_hashes (fence_accept f e)) k = map_option (\<lambda>e. el_raw_payload_sha256 (me_lineage e))
      (find (\<lambda>x. me_idempotency_key x = k) (xs @ [e]))" for k
    using fence_of_log_seen [OF assms(1), of k] assms(2)
    by (auto simp: fence_accept_def find_snoc split: option.split)
  moreover have "dget (ef_ordering (fence_accept f e)) k = map_option cursor_of (last_option (lane_log k (xs @ [e])))" for k
    using fence_of_log_ordering [OF assms(1), of k]
    by (simp add: fence_accept_def lane_log_snoc cursor_of_def)
  moreover have "dget (ef_latest_observation (fence_accept f e)) i = last_option (observation_log i (xs @ [e]))" for i
    using fence_of_log_latest [OF assms(1), of i]
    by (auto simp: fence_accept_def observation_log_snoc)
  ultimately show ?thesis unfolding fence_of_log_def by blast
qed

lemma transp_follows: "transp follows"
  by (rule transpI) (auto simp: follows_def)

lemma transp_not_earlier: "transp not_earlier"
  by (rule transpI) (auto simp: not_earlier_def)

lemma not_old_not_earlier: "\<not> is_old_observation e l \<Longrightarrow> not_earlier l e"
  by (auto simp: not_earlier_def split: if_splits)

text \<open>The fence accepts an event exactly by appending it to an ordered log.\<close>

lemma evaluate_log:
  assumes "fence_of_log f xs" and "log_ordered xs"
  shows "if ir_disposition (snd (evaluate f e)) = ACCEPTED
     then fence_of_log (fst (evaluate f e)) (xs @ [e]) \<and> log_ordered (xs @ [e])
       \<and> ef_current_session_id (fst (evaluate f e)) = ef_current_session_id f
       \<and> ef_current_session_id f = Some (el_session_id (me_lineage e))
     else fst (evaluate f e) = f"
proof (cases "ir_disposition (snd (evaluate f e)) = ACCEPTED")
  case True
  then have acc: "evaluate f e = (fence_accept f e, ingest_result_of e ACCEPTED ''accepted'')"
    and session: "ef_current_session_id f = Some (el_session_id (me_lineage e))"
    and unseen: "dget (ef_seen_hashes f) (me_idempotency_key e) = None"
    and order: "\<And>c. dget (ef_ordering f) (ordering_key e) = Some c \<Longrightarrow>
       (oc_source_sequence c, oc_source_item_index c) < position e
       \<and> instant (oc_received_at c) \<le> instant (me_received_at e)"
    and fresh: "\<And>l. \<not> is_candidate (me_data e) \<Longrightarrow> dget (ef_latest_observation f) (me_stock_id e) = Some l
       \<Longrightarrow> \<not> is_old_observation e l"
    by (auto simp: evaluate_def ingest_result_of_def not_le simp del: is_old_observation.simps
        split: if_splits option.splits)
  have new: "find (\<lambda>x. me_idempotency_key x = me_idempotency_key e) xs = None"
    using fence_of_log_seen [OF assms(1), of "me_idempotency_key e"] unseen by simp
  have "sorted_wrt not_earlier (observation_log i (xs @ [e]))" for i
  proof -
    have "sorted_wrt not_earlier (observation_log i xs)" using assms(2) by (simp add: log_ordered_def)
    moreover have "not_earlier l e"
      if "\<not> is_candidate (me_data e)" "me_stock_id e = i" "last_option (observation_log i xs) = Some l" for l
      using fresh [OF that(1)] that fence_of_log_latest [OF assms(1), of i] not_old_not_earlier by simp
    ultimately show ?thesis by (auto simp: observation_log_snoc intro!: sorted_wrt_snoc transp_not_earlier)
  qed
  moreover have "sorted_wrt follows (lane_log k (xs @ [e]))" for k
  proof -
    have "sorted_wrt follows (lane_log k xs)" using assms(2) unfolding log_ordered_def by blast
    moreover have "follows l e" if "ordering_key e = k" "last_option (lane_log k xs) = Some l" for l
      using order [of "cursor_of l"] that fence_of_log_ordering [OF assms(1), of k]
      by (simp add: follows_def cursor_of_def position_def)
    ultimately show ?thesis by (auto simp: lane_log_snoc intro!: sorted_wrt_snoc transp_follows)
  qed
  moreover have "distinct (map me_idempotency_key (xs @ [e]))"
    using assms(2) new by (auto simp: log_ordered_def find_None_iff)
  ultimately have "log_ordered (xs @ [e])" unfolding log_ordered_def by blast
  with True acc session fence_accept_log [OF assms(1) new] show ?thesis
    by (simp add: fence_accept_def)
next
  case False
  then show ?thesis
    by (auto simp: evaluate_def ingest_result_of_def simp del: is_old_observation.simps split: option.splits)
qed


section \<open>Invariants of the gateway\<close>

definition log_inv :: "'s market_gateway \<Rightarrow> bool" where
  "log_inv g \<longleftrightarrow> log_ordered (mg_accepted_events g)
     \<and> fence_of_log (mg_order_fence g) (mg_accepted_events g)
     \<and> (\<forall>i. dget (mk_observations (mg_state g)) i = last_option (observation_log i (mg_accepted_events g)))
     \<and> mk_snapshot_fresh_for (mg_state g) = 30000000 \<and> mk_snapshot_low_confidence_for (mg_state g) = 60000000"

lemma log_inv_observation:
  "log_inv g \<Longrightarrow> dget (mk_observations (mg_state g)) i = last_option (observation_log i (mg_accepted_events g))"
  unfolding log_inv_def by blast

text \<open>What reading, subscribing and supplementing leave as it is.\<close>

definition same_session :: "'s market_gateway \<Rightarrow> 's market_gateway \<Rightarrow> bool" where
  "same_session g g' \<longleftrightarrow> mg_phase g' = mg_phase g \<and> mg_connection g' = mg_connection g
     \<and> ef_current_session_id (mg_order_fence g') = ef_current_session_id (mg_order_fence g)
     \<and> mg_reconnect g' = mg_reconnect g \<and> mg_heartbeat_timeout g' = mg_heartbeat_timeout g
     \<and> (mg_last_heartbeat_at g \<noteq> None \<longrightarrow> mg_last_heartbeat_at g' \<noteq> None)"

definition reads :: "'s market_gateway \<Rightarrow> 's market_gateway \<Rightarrow> bool" where
  "reads g g' \<longleftrightarrow> same_session g g' \<and> (log_inv g \<longrightarrow> log_inv g')"

lemma reads_refl [simp, intro]: "reads g g"
  by (simp add: reads_def same_session_def)

lemma reads_trans: "reads a b \<Longrightarrow> reads b c \<Longrightarrow> reads a c"
  by (auto simp: reads_def same_session_def)

lemma reads_update [simp]:
  "reads g (g'\<lparr>mg_port := port\<rparr>) = reads g g'"
  "reads g (g'\<lparr>mg_subscriptions := m\<rparr>) = reads g g'"
  "reads (g\<lparr>mg_port := port\<rparr>) g' = reads g g'"
  "reads (g\<lparr>mg_subscriptions := m\<rparr>) g' = reads g g'"
  by (simp_all add: reads_def same_session_def log_inv_def)

lemma reads_heartbeat: "reads g g' \<Longrightarrow> reads g (g'\<lparr>mg_last_heartbeat_at := Some t\<rparr>)"
  by (simp add: reads_def same_session_def log_inv_def)

lemma accept_event_reads: "reads g (fst (accept_event g e))"
proof -
  let ?f = "mg_order_fence g" and ?xs = "mg_accepted_events g"
  have inv: "log_inv (fst (accept_event g e))" if "log_inv g"
  proof -
    from that have "fence_of_log ?f ?xs" "log_ordered ?xs" by (auto simp: log_inv_def)
    from evaluate_log [OF this, of e] that show ?thesis
      by (auto simp: accept_event_def Let_def log_inv_def state_apply_def observation_log_snoc
          split: prod.split if_splits)
  qed
  have "ef_current_session_id (fst (evaluate ?f e)) = ef_current_session_id ?f"
    by (simp add: evaluate_def fence_accept_def split: option.split)
  with inv show ?thesis
    by (auto simp: reads_def same_session_def accept_event_def Let_def split: prod.split)
qed

lemma accept_events_reads: "reads g (fst (accept_events g es))"
proof (induction es arbitrary: g)
  case (Cons e es)
  obtain g1 r where g1: "accept_event g e = (g1, r)" by (cases "accept_event g e")
  obtain g2 rs where g2: "accept_events g1 es = (g2, rs)" by (cases "accept_events g1 es")
  from accept_event_reads [of g e] Cons [of g1] g1 g2 show ?case by (auto intro: reads_trans)
qed simp

lemma ingest_reads: "reads g (fst (ingest N g x))"
proof (cases "N x")
  case (Inr es)
  obtain g1 rs where g1: "accept_events g es = (g1, rs)" by (cases "accept_events g es")
  have "reads g g1" using accept_events_reads [of g es] g1 by simp
  then show ?thesis by (simp add: ingest_def Inr g1 reads_heartbeat)
qed (simp add: ingest_def)

lemma ingest_all_reads: "reads g (fst (ingest_all N g xs))"
proof (induction xs arbitrary: g)
  case (Cons x xs)
  obtain g1 r where g1: "ingest N g x = (g1, r)" by (cases "ingest N g x")
  obtain g2 q where g2: "ingest_all N g1 xs = (g2, q)" by (cases "ingest_all N g1 xs")
  from ingest_reads [of g N x] Cons [of g1] g1 g2 show ?case
    by (cases r) (auto intro: reads_trans)
qed simp

lemma reconcile_subscriptions_reads: "reads g (fst (reconcile_subscriptions P g demands now force))"
  by (auto simp: reconcile_subscriptions_def Let_def split: option.split sum.split prod.split)

lemma supplement_reads: "reads g (fst (supplement P N g ids reason now))"
proof (cases "mg_connection g")
  case (Some c)
  obtain port r where f: "po_fetch_watchlist_snapshots P (mg_port g) (kc_session_id c) (sorted_set ids) now = (port, r)"
    by (cases "po_fetch_watchlist_snapshots P (mg_port g) (kc_session_id c) (sorted_set ids) now")
  show ?thesis
  proof (cases r)
    case (Inr xs)
    obtain g1 q where g1: "ingest_all N (g\<lparr>mg_port := port\<rparr>) xs = (g1, q)"
      by (cases "ingest_all N (g\<lparr>mg_port := port\<rparr>) xs")
    have "reads g g1" using ingest_all_reads [of "g\<lparr>mg_port := port\<rparr>" N xs] g1 by simp
    then show ?thesis
      by (cases q) (simp_all add: supplement_def Let_def Some f Inr g1 split: sum.split)
  qed (simp add: supplement_def Let_def Some f)
qed (simp add: supplement_def)

lemma mark_heartbeat_reads: "reads g (fst (mark_heartbeat g t))"
  by (simp add: mark_heartbeat_def reads_heartbeat)

text \<open>The phases, and what holds of the session in each.\<close>

definition phase_inv :: "'s market_gateway \<Rightarrow> bool" where
  "phase_inv g \<longleftrightarrow> (case mg_connection g of
     None \<Rightarrow> mg_phase g \<in> {DISCONNECTED, RECONNECTING}
   | Some c \<Rightarrow> mg_phase g \<in> {RECOVERING, CONNECTED}
       \<and> ef_current_session_id (mg_order_fence g) = Some (kc_session_id c)
       \<and> rk_schedule (mg_reconnect g) = None \<and> mg_last_heartbeat_at g \<noteq> None)"

lemma reads_phase_inv: "reads g g' \<Longrightarrow> phase_inv g \<Longrightarrow> phase_inv g'"
  by (auto simp: reads_def same_session_def phase_inv_def split: option.splits)

lemma reads_log_inv: "reads g g' \<Longrightarrow> log_inv g \<Longrightarrow> log_inv g'"
  by (simp add: reads_def)

lemma enter_session_result:
  assumes "kiwoom_connection_init c = Inr c" and "phase \<in> {RECOVERING, CONNECTED}"
  shows "snd (enter_session g c phase) = Inr ()" and "phase_inv (fst (enter_session g c phase))"
    and "mg_phase (fst (enter_session g c phase)) = phase"
    and "mg_connection (fst (enter_session g c phase)) = Some c"
  using assms unfolding kiwoom_connection_init_def validate_Inr_iff
  by (auto simp: enter_session_def Let_def begin_session_def phase_inv_def mark_connected_def)

lemma enter_session_log_inv: "log_inv g \<Longrightarrow> log_inv (fst (enter_session g c phase))"
  by (auto simp: enter_session_def Let_def begin_session_def log_inv_def fence_of_log_def)

lemma mark_disconnected_log_inv: "log_inv g \<Longrightarrow> log_inv (fst (mark_disconnected P H g now reason))"
  by (auto simp: mark_disconnected_def Let_def log_inv_def split: option.split sum.split prod.split)

lemma mark_disconnected_phase_inv: "phase_inv g \<Longrightarrow> phase_inv (fst (mark_disconnected P H g now reason))"
  by (auto simp: mark_disconnected_def Let_def phase_inv_def split: option.split sum.split prod.split)

lemma port_phase_inv [simp]: "phase_inv (g\<lparr>mg_port := port\<rparr>) = phase_inv g"
  by (simp add: phase_inv_def cong: option.case_cong)

lemma port_log_inv [simp]: "log_inv (g\<lparr>mg_port := port\<rparr>) = log_inv g"
  by (simp add: log_inv_def)

text \<open>After the session was entered, a recovery ends in the phase CONNECTED or stops with an exception.\<close>

lemma restore_session_result:
  "reads g (fst (restore_session P N g demands ids now c))
     \<and> (\<exists>e. snd (restore_session P N g demands ids now c) = Inl e)
   \<or> (\<exists>g'. reads g g' \<and> fst (restore_session P N g demands ids now c) = g'\<lparr>mg_phase := CONNECTED\<rparr>)
     \<and> (\<exists>out. snd (restore_session P N g demands ids now c) = Inr out)"
proof -
  obtain g1 r where g1: "reconcile_subscriptions P g demands now True = (g1, r)"
    by (cases "reconcile_subscriptions P g demands now True")
  have r1: "reads g g1" using reconcile_subscriptions_reads [of g P demands now True] g1 by simp
  show ?thesis
  proof (cases r)
    case (Inr plan)
    let ?s = "supplement P N g1 (pl_subscriptions plan @ ids) RECONNECT now"
    have r2: "reads g (fst ?s)" using r1 supplement_reads reads_trans by blast
    obtain g2 q where g2: "?s = (g2, q)" by (cases ?s)
    from r2 g1 g2 Inr show ?thesis by (cases q) (auto simp: restore_session_def)
  qed (use r1 g1 in \<open>simp add: restore_session_def\<close>)
qed

end
