(* ===== verification/Kiwoom_Fixture.thy ===== *)
theory Kiwoom_Fixture
  imports Gateway
begin

text \<open>
  \<open>packages/adapters/kiwoom/fixture.py\<close>: the deterministic adapter, a port that plays back recorded
  sessions and snapshot responses, and the contract of a port that the gateway relies on, which the
  adapter meets.  Reading a fixture file is not modelled.
\<close>

section \<open>The recorded sessions\<close>

datatype fixture_call_kind = CONNECT | REPLACE_SUBSCRIPTIONS | FETCH_SNAPSHOTS | CLOSE_SESSION

record fixture_session =
  fs_connection :: kiwoom_connection
  fs_messages :: "kiwoom_source_envelope list"
  fs_disconnect_after_messages :: bool

definition fixture_session_init :: "fixture_session \<Rightarrow> fixture_session result" where
  "fixture_session_init x = validate
     [(list_all (\<lambda>m. ke_session_id m = kc_session_id (fs_connection x)) (fs_messages x),
       FixtureContractError ''session message'')] x"

record fixture_snapshot_call =
  fc_session_id :: string
  fc_responses :: "kiwoom_source_envelope list"

definition fixture_snapshot_call_init :: "fixture_snapshot_call \<Rightarrow> fixture_snapshot_call result" where
  "fixture_snapshot_call_init x = validate
     [(list_all (\<lambda>m. ke_session_id m = fc_session_id x) (fc_responses x),
       FixtureContractError ''snapshot response'')] x"

record fixture_call =
  fx_kind :: fixture_call_kind
  fx_session_id :: string
  fx_occurred_at :: datetime
  fx_stock_ids :: "string list"

record fixture_adapter =
  fa_sessions :: "fixture_session list"
  fa_snapshot_calls :: "fixture_snapshot_call list"
  fa_session_position :: nat
  fa_snapshot_position :: nat
  fa_message_positions :: "(string, nat) dict"
  fa_active_session_id :: "string option"
  fa_calls :: "fixture_call list"

definition fixture_adapter_init :: "fixture_session list \<Rightarrow> fixture_snapshot_call list \<Rightarrow> fixture_adapter" where
  "fixture_adapter_init sessions snapshot_calls =
     \<lparr>fa_sessions = sessions, fa_snapshot_calls = snapshot_calls, fa_session_position = 0,
      fa_snapshot_position = 0, fa_message_positions = [], fa_active_session_id = None, fa_calls = []\<rparr>"

definition FIXTURE_CAPABILITIES :: adapter_capabilities where
  "FIXTURE_CAPABILITIES = \<lparr>ac_read_only = True, ac_market_data = True, ac_condition_search = True,
     ac_snapshot_supplement = True, ac_orders = False, ac_accounts = False\<rparr>"

section \<open>The operations\<close>

definition record_call ::
  "fixture_adapter \<Rightarrow> fixture_call_kind \<Rightarrow> string \<Rightarrow> datetime \<Rightarrow> string list \<Rightarrow> fixture_adapter" where
  "record_call a kind session_id occurred_at stock_ids =
     a\<lparr>fa_calls := fa_calls a @ [\<lparr>fx_kind = kind, fx_session_id = session_id,
        fx_occurred_at = occurred_at, fx_stock_ids = stock_ids\<rparr>]\<rparr>"

definition session_by_id :: "fixture_adapter \<Rightarrow> string \<Rightarrow> fixture_session result" where
  "session_by_id a session_id =
     (case find (\<lambda>x. kc_session_id (fs_connection x) = session_id) (fa_sessions a) of
        None \<Rightarrow> Inl (KiwoomConnectionError ''unknown session'') | Some x \<Rightarrow> Inr x)"

definition active_session :: "fixture_adapter \<Rightarrow> string \<Rightarrow> fixture_session result" where
  "active_session a session_id =
     (if fa_active_session_id a \<noteq> Some session_id then Inl (KiwoomConnectionLost ''not active'')
      else session_by_id a session_id)"

definition fixture_connect :: "fixture_adapter \<Rightarrow> datetime \<Rightarrow> fixture_adapter \<times> kiwoom_connection result" where
  "fixture_connect a now =
     (if \<not> is_aware now then (a, Inl (ValueError ''now aware''))
      else if fa_active_session_id a \<noteq> None then (a, Inl (KiwoomConnectionError ''open session''))
      else if length (fa_sessions a) \<le> fa_session_position a
      then (a, Inl (KiwoomConnectionError ''no session left''))
      else let session = fa_sessions a ! fa_session_position a;
               sid = kc_session_id (fs_connection session);
               a1 = a\<lparr>fa_session_position := fa_session_position a + 1, fa_active_session_id := Some sid,
                 fa_message_positions := (case dget (fa_message_positions a) sid of
                    None \<Rightarrow> dset sid 0 (fa_message_positions a) | Some _ \<Rightarrow> fa_message_positions a)\<rparr>
           in (record_call a1 CONNECT sid now [], Inr (fs_connection session)))"

definition fixture_read ::
  "fixture_adapter \<Rightarrow> string \<Rightarrow> fixture_adapter \<times> kiwoom_source_envelope option result" where
  "fixture_read a session_id =
     (case active_session a session_id of Inl e \<Rightarrow> (a, Inl e)
      | Inr session \<Rightarrow>
          (case dget (fa_message_positions a) session_id of
             None \<Rightarrow> (a, Inl (KeyError session_id))
           | Some n \<Rightarrow>
               if n < length (fs_messages session)
               then (a\<lparr>fa_message_positions := dset session_id (n + 1) (fa_message_positions a)\<rparr>,
                     Inr (Some (fs_messages session ! n)))
               else if fs_disconnect_after_messages session
               then (a\<lparr>fa_active_session_id := None\<rparr>, Inl (KiwoomConnectionLost ''injected''))
               else (a, Inr None)))"

definition fixture_replace_trade_subscriptions ::
  "fixture_adapter \<Rightarrow> string \<Rightarrow> string list \<Rightarrow> fixture_adapter \<times> unit result" where
  "fixture_replace_trade_subscriptions a session_id stock_ids =
     (case active_session a session_id of Inl e \<Rightarrow> (a, Inl e)
      | Inr session \<Rightarrow>
          if 200 < length stock_ids then (a, Inl (FixtureContractError ''200''))
          else if \<not> distinct stock_ids then (a, Inl (FixtureContractError ''duplicate stock_id''))
          else if \<not> list_all stock_id_ok stock_ids then (a, Inl (ValueError ''stock_id''))
          else (record_call a REPLACE_SUBSCRIPTIONS session_id (kc_connected_at (fs_connection session)) stock_ids,
                Inr ()))"

definition snapshot_code :: "(json \<Rightarrow> string) \<Rightarrow> (string \<times> json) list \<Rightarrow> string result" where
  "snapshot_code R row =
     (let code = removeprefix ''A'' (text_of R (py_or (field row ''stk_cd'') (field row ''code'')))
      in if length code \<noteq> 6 \<or> \<not> list_all is_digit code then Inl (FixtureContractError ''snapshot code'')
         else Inr code)"

definition snapshot_codes :: "(json \<Rightarrow> string) \<Rightarrow> (string \<times> json) list \<Rightarrow> string list result" where
  "snapshot_codes R payload =
     (case (if field payload ''rows'' = JNull then field payload ''atn_stk_infr'' else field payload ''rows'') of
        JList values \<Rightarrow> map_result (\<lambda>v. case v of JObj row \<Rightarrow> snapshot_code R row
          | _ \<Rightarrow> Inl (FixtureContractError ''snapshot row'')) values
      | _ \<Rightarrow> Inl (FixtureContractError ''snapshot rows''))"

definition fixture_fetch_watchlist_snapshots ::
  "(json \<Rightarrow> string) \<Rightarrow> fixture_adapter \<Rightarrow> string \<Rightarrow> string list \<Rightarrow> datetime
    \<Rightarrow> fixture_adapter \<times> kiwoom_source_envelope list result" where
  "fixture_fetch_watchlist_snapshots R a session_id stock_ids requested_at =
     (case active_session a session_id of Inl e \<Rightarrow> (a, Inl e)
      | Inr session \<Rightarrow>
          if \<not> is_aware requested_at then (a, Inl (ValueError ''requested_at aware''))
          else if \<not> distinct stock_ids then (a, Inl (FixtureContractError ''duplicate stock_id''))
          else if \<not> list_all stock_id_ok stock_ids then (a, Inl (ValueError ''stock_id''))
          else let a1 = record_call a FETCH_SNAPSHOTS session_id requested_at stock_ids
               in if length (fa_snapshot_calls a1) \<le> fa_snapshot_position a1 then (a1, Inr [])
                  else let call = fa_snapshot_calls a1 ! fa_snapshot_position a1
                       in if fc_session_id call \<noteq> session_id then (a1, Inr [])
                          else let a2 = a1\<lparr>fa_snapshot_position := fa_snapshot_position a1 + 1\<rparr>
                               in case map_result (\<lambda>r. snapshot_codes R (ke_payload r)) (fc_responses call) of
                                    Inl e \<Rightarrow> (a2, Inl e)
                                  | Inr codes \<Rightarrow>
                                      if set (concat codes) \<subseteq> (\<lambda>i. removeprefix ''KRX:'' i) ` set stock_ids
                                      then (a2, Inr (fc_responses call))
                                      else (a2, Inl (FixtureContractError ''unrequested stock'')))"

definition fixture_close_session :: "fixture_adapter \<Rightarrow> string \<Rightarrow> fixture_adapter \<times> unit result" where
  "fixture_close_session a session_id =
     (case session_by_id a session_id of Inl e \<Rightarrow> (a, Inl e)
      | Inr session \<Rightarrow>
          let a1 = record_call a CLOSE_SESSION session_id (kc_connected_at (fs_connection session)) []
          in (if fa_active_session_id a1 = Some session_id then a1\<lparr>fa_active_session_id := None\<rparr> else a1,
              Inr ()))"

definition fixture_port :: "(json \<Rightarrow> string) \<Rightarrow> fixture_adapter kiwoom_port" where
  "fixture_port R =
     \<lparr>po_capabilities = FIXTURE_CAPABILITIES, po_connect = fixture_connect, po_read = fixture_read,
      po_replace_trade_subscriptions = fixture_replace_trade_subscriptions,
      po_fetch_watchlist_snapshots = fixture_fetch_watchlist_snapshots R,
      po_close_session = fixture_close_session\<rparr>"

text \<open>\<open>_assert_no_sensitive_keys\<close>: no object of a fixture has a key that names a secret or an order.\<close>

definition FORBIDDEN_KEYS :: "string list" where
  "FORBIDDEN_KEYS = [''account'', ''accountnumber'', ''appkey'', ''appsecret'', ''credential'', ''order'',
     ''orderapi'', ''ordertype'', ''password'', ''secret'', ''token'']"

definition lower_char :: "char \<Rightarrow> char" where
  "lower_char c = (let n = of_char c :: nat in if 65 \<le> n \<and> n \<le> 90 then char_of (n + 32) else c)"

definition normalized_key :: "string \<Rightarrow> string" where
  "normalized_key k = filter (\<lambda>c. is_digit c \<or> (let n = of_char c :: nat in 97 \<le> n \<and> n \<le> 122)) (map lower_char k)"

fun no_sensitive_keys :: "json \<Rightarrow> bool" where
  "no_sensitive_keys (JObj fs) =
     list_all (\<lambda>(k, v). normalized_key k \<notin> set FORBIDDEN_KEYS \<and> no_sensitive_keys v) fs"
| "no_sensitive_keys (JList xs) = list_all no_sensitive_keys xs"
| "no_sensitive_keys _ = True"

section \<open>The contract of a port\<close>

text \<open>
  What the gateway may rely on: an invariant of the port that every call keeps, connections and
  envelopes that their constructors accept, and messages of the session asked for.
\<close>

locale market_port =
  fixes P :: "'s kiwoom_port" and port_ok :: "'s \<Rightarrow> bool"
  assumes connect_ok: "port_ok s \<Longrightarrow> po_connect P s now = (s', rc) \<Longrightarrow>
      port_ok s' \<and> (\<forall>c. rc = Inr c \<longrightarrow> kiwoom_connection_init c = Inr c)"
    and read_ok: "port_ok s \<Longrightarrow> po_read P s i = (s', rr) \<Longrightarrow>
      port_ok s' \<and> (\<forall>x. rr = Inr (Some x) \<longrightarrow> kiwoom_source_envelope_init x = Inr x \<and> ke_session_id x = i)"
    and replace_ok: "port_ok s \<Longrightarrow> po_replace_trade_subscriptions P s i ids = (s', r) \<Longrightarrow> port_ok s'"
    and fetch_ok: "port_ok s \<Longrightarrow> po_fetch_watchlist_snapshots P s i ids now = (s', rf) \<Longrightarrow>
      port_ok s' \<and> (\<forall>xs. rf = Inr xs \<longrightarrow>
        list_all (\<lambda>x. kiwoom_source_envelope_init x = Inr x \<and> ke_session_id x = i) xs)"
    and close_ok: "port_ok s \<Longrightarrow> po_close_session P s i = (s', r) \<Longrightarrow> port_ok s'"

text \<open>A fixture whose sessions and responses were made by their constructors.\<close>

definition fixture_session_ok :: "fixture_session \<Rightarrow> bool" where
  "fixture_session_ok x \<longleftrightarrow> fixture_session_init x = Inr x
     \<and> kiwoom_connection_init (fs_connection x) = Inr (fs_connection x)
     \<and> list_all (\<lambda>m. kiwoom_source_envelope_init m = Inr m) (fs_messages x)"

definition fixture_call_ok :: "fixture_snapshot_call \<Rightarrow> bool" where
  "fixture_call_ok x \<longleftrightarrow> fixture_snapshot_call_init x = Inr x
     \<and> list_all (\<lambda>m. kiwoom_source_envelope_init m = Inr m) (fc_responses x)"

definition fixture_ok :: "fixture_adapter \<Rightarrow> bool" where
  "fixture_ok a \<longleftrightarrow> list_all fixture_session_ok (fa_sessions a) \<and> list_all fixture_call_ok (fa_snapshot_calls a)"

lemma session_by_id_ok:
  assumes "fixture_ok a" and "session_by_id a i = Inr x"
  shows "fixture_session_ok x" and "kc_session_id (fs_connection x) = i"
proof -
  have "find (\<lambda>x. kc_session_id (fs_connection x) = i) (fa_sessions a) = Some x"
    using assms(2) by (auto simp: session_by_id_def split: option.splits)
  then show "fixture_session_ok x" "kc_session_id (fs_connection x) = i"
    using assms(1) by (auto simp: find_Some_iff fixture_ok_def list_all_length)
qed

lemma active_session_ok:
  "fixture_ok a \<Longrightarrow> active_session a i = Inr x \<Longrightarrow> fixture_session_ok x \<and> kc_session_id (fs_connection x) = i"
  using session_by_id_ok by (auto simp: active_session_def split: if_splits)

lemma record_call_ok [simp]: "fixture_ok (record_call a kind i t ids) = fixture_ok a"
  by (simp add: record_call_def fixture_ok_def)

lemma fixture_connect_ok:
  "fixture_ok a \<Longrightarrow> fixture_connect a now = (a', r) \<Longrightarrow>
     fixture_ok a' \<and> (\<forall>c. r = Inr c \<longrightarrow> kiwoom_connection_init c = Inr c)"
  by (auto simp: fixture_connect_def Let_def record_call_def fixture_ok_def fixture_session_ok_def list_all_length
      split: if_splits)

lemma fixture_read_ok:
  assumes "fixture_ok a" and "fixture_read a i = (a', r)"
  shows "fixture_ok a' \<and> (\<forall>x. r = Inr (Some x) \<longrightarrow> kiwoom_source_envelope_init x = Inr x \<and> ke_session_id x = i)"
proof (cases "active_session a i")
  case (Inr session)
  from active_session_ok [OF assms(1) Inr] have
    "list_all (\<lambda>m. kiwoom_source_envelope_init m = Inr m \<and> ke_session_id m = i) (fs_messages session)"
    unfolding fixture_session_ok_def fixture_session_init_def validate_Inr_iff by (auto simp: list_all_iff)
  with assms Inr show ?thesis
    by (auto simp: fixture_read_def fixture_ok_def list_all_length split: option.splits if_splits)
qed (use assms in \<open>auto simp: fixture_read_def\<close>)

lemma fixture_fetch_ok:
  assumes "fixture_ok a" and "fixture_fetch_watchlist_snapshots R a i ids now = (a', r)"
  shows "fixture_ok a' \<and> (\<forall>xs. r = Inr xs \<longrightarrow>
    list_all (\<lambda>x. kiwoom_source_envelope_init x = Inr x \<and> ke_session_id x = i) xs)"
proof -
  have calls: "list_all (\<lambda>x. kiwoom_source_envelope_init x = Inr x \<and> ke_session_id x = fc_session_id c) (fc_responses c)"
    if "n < length (fa_snapshot_calls a)" "c = fa_snapshot_calls a ! n" for n c
    using assms(1) that unfolding fixture_ok_def list_all_length [of fixture_call_ok]
      fixture_call_ok_def fixture_snapshot_call_init_def validate_Inr_iff by (auto simp: list_all_iff)
  show ?thesis
  proof (cases "active_session a i")
    case (Inr session)
    with assms(2) assms(1) calls show ?thesis
      by (auto simp: fixture_fetch_watchlist_snapshots_def Let_def record_call_def fixture_ok_def
          split: if_splits sum.splits)
  qed (use assms in \<open>auto simp: fixture_fetch_watchlist_snapshots_def\<close>)
qed

interpretation fixture: market_port "fixture_port R" fixture_ok for R
proof
  show "fixture_ok s'"
    if "fixture_ok s" "po_replace_trade_subscriptions (fixture_port R) s i ids = (s', r)" for s i ids s' r
    using that by (auto simp: fixture_port_def fixture_replace_trade_subscriptions_def split: sum.splits if_splits)
  show "fixture_ok s'" if "fixture_ok s" "po_close_session (fixture_port R) s i = (s', r)" for s i s' r
    using that by (auto simp: fixture_port_def fixture_close_session_def Let_def fixture_ok_def record_call_def
        split: sum.splits if_splits)
  show "fixture_ok s' \<and> (\<forall>c. r = Inr c \<longrightarrow> kiwoom_connection_init c = Inr c)"
    if "fixture_ok s" "po_connect (fixture_port R) s now = (s', r)" for s now s' r
    using that by (simp add: fixture_port_def fixture_connect_ok)
  show "fixture_ok s' \<and> (\<forall>x. r = Inr (Some x) \<longrightarrow> kiwoom_source_envelope_init x = Inr x \<and> ke_session_id x = i)"
    if "fixture_ok s" "po_read (fixture_port R) s i = (s', r)" for s i s' r
    using that by (simp add: fixture_port_def fixture_read_ok)
  show "fixture_ok s' \<and> (\<forall>xs. r = Inr xs \<longrightarrow>
      list_all (\<lambda>x. kiwoom_source_envelope_init x = Inr x \<and> ke_session_id x = i) xs)"
    if "fixture_ok s" "po_fetch_watchlist_snapshots (fixture_port R) s i ids now = (s', r)" for s i ids now s' r
    using that by (simp add: fixture_port_def fixture_fetch_ok [of s])
qed

end
