(* ===== verification/Gateway_Safety.thy ===== *)
theory Gateway_Safety
  imports Kiwoom_Fixture
begin

text \<open>
  What holds of the gateway whatever it is asked to do: the log of accepted events stays ordered, the
  phase agrees with the connection, LIVE health and FRESH stocks have their grounds, and what happens
  to a recovery that an exception interrupts.
\<close>

section \<open>Sequences of operations\<close>

datatype gateway_op =
    Connect datetime
  | Ingest kiwoom_source_envelope
  | PollOnce datetime
  | ReconcileSubscriptions "subscription_demand list" datetime bool
  | MarkHeartbeat datetime
  | MarkDisconnected datetime string
  | Recover "subscription_demand list" "string list" datetime
  | SupplementStocks "string list" supplement_reason datetime

definition op_outcome :: "'s \<times> 'a result \<Rightarrow> 's \<times> unit result" where
  "op_outcome = map_prod id (map_sum id (\<lambda>_. ()))"

lemma fst_outcome [simp]: "fst (op_outcome x) = fst x"
  by (simp add: op_outcome_def)

fun gateway_step ::
  "'s kiwoom_port \<Rightarrow> normalizer \<Rightarrow> hash \<Rightarrow> 's market_gateway \<Rightarrow> gateway_op \<Rightarrow> 's market_gateway \<times> unit result" where
  "gateway_step P N H g (Connect now) = op_outcome (connect P g now)"
| "gateway_step P N H g (Ingest x) = op_outcome (ingest N g x)"
| "gateway_step P N H g (PollOnce now) = op_outcome (poll_once P N H g now)"
| "gateway_step P N H g (ReconcileSubscriptions ds now force) = op_outcome (reconcile_subscriptions P g ds now force)"
| "gateway_step P N H g (MarkHeartbeat t) = op_outcome (mark_heartbeat g t)"
| "gateway_step P N H g (MarkDisconnected now reason) = op_outcome (mark_disconnected P H g now reason)"
| "gateway_step P N H g (Recover ds ids now) = op_outcome (recover P N H g ds ids now)"
| "gateway_step P N H g (SupplementStocks ids reason now) = op_outcome (supplement P N g ids reason now)"

subsection \<open>The log\<close>

lemma fst_connect:
  "fst (connect P g now) = (if \<not> is_aware now then g
     else case po_connect P (mg_port g) now of
       (port, Inl e) \<Rightarrow> g\<lparr>mg_port := port\<rparr>
     | (port, Inr c) \<Rightarrow> fst (enter_session (g\<lparr>mg_port := port\<rparr>) c CONNECTED))"
  by (simp add: connect_def Let_def split: prod.split sum.split)

lemma fst_poll_once:
  "fst (poll_once P N H g now) = (if \<not> is_aware now then g
     else case mg_connection g of None \<Rightarrow> g
     | Some c \<Rightarrow> (case po_read P (mg_port g) (kc_session_id c) of
         (port, Inl (KiwoomConnectionLost reason)) \<Rightarrow> fst (mark_disconnected P H (g\<lparr>mg_port := port\<rparr>) now reason)
       | (port, Inr (Some x)) \<Rightarrow> fst (ingest N (g\<lparr>mg_port := port\<rparr>) x)
       | (port, _) \<Rightarrow> g\<lparr>mg_port := port\<rparr>))"
  by (simp add: poll_once_def Let_def split: prod.split sum.split option.split py_error.split)

lemma fst_recover:
  "fst (recover P N H g ds ids now) = (if is_due (mg_reconnect g) now \<noteq> Inr True then g
     else case po_connect P (mg_port g) now of
       (port, Inl e) \<Rightarrow> (case connection_error e of None \<Rightarrow> g\<lparr>mg_port := port\<rparr>
         | Some reason \<Rightarrow> g\<lparr>mg_port := port,
             mg_reconnect := fst (schedule_failure H (mg_reconnect g) now reason ''kiwoom-reconnect'')\<rparr>)
     | (port, Inr c) \<Rightarrow>
         (case enter_session (g\<lparr>mg_port := port\<rparr>) c RECOVERING of
            (g2, Inl e) \<Rightarrow> g2 | (g2, Inr _) \<Rightarrow> fst (restore_session P N g2 ds ids now c)))"
  by (simp add: recover_def Let_def split: prod.split sum.split option.split bool.split)

lemma connect_log_inv: "log_inv g \<Longrightarrow> log_inv (fst (connect P g now))"
  by (simp add: fst_connect enter_session_log_inv split: prod.split sum.split)

lemma reads_ingest_port: "log_inv g \<Longrightarrow> log_inv (fst (ingest N (g\<lparr>mg_port := port\<rparr>) x))"
  by (rule reads_log_inv [OF ingest_reads]) simp

lemma poll_once_log_inv: "log_inv g \<Longrightarrow> log_inv (fst (poll_once P N H g now))"
  by (simp add: fst_poll_once mark_disconnected_log_inv reads_ingest_port
      split: option.split prod.split sum.split py_error.split)

lemma restore_session_log_inv: "log_inv g \<Longrightarrow> log_inv (fst (restore_session P N g ds ids now c))"
  using restore_session_result [of g P N ds ids now c] by (auto simp: reads_def log_inv_def)

lemma entered_log_inv: "log_inv g \<Longrightarrow> enter_session (g\<lparr>mg_port := port\<rparr>) c phase = (g2, r) \<Longrightarrow> log_inv g2"
  using enter_session_log_inv [of "g\<lparr>mg_port := port\<rparr>" c phase] by simp

lemma recover_log_inv: "log_inv g \<Longrightarrow> log_inv (fst (recover P N H g ds ids now))"
  by (auto simp: fst_recover dest: entered_log_inv intro: restore_session_log_inv
      split: prod.split sum.split option.split) (simp_all add: log_inv_def)

lemma gateway_step_log_inv: "log_inv g \<Longrightarrow> log_inv (fst (gateway_step P N H g op))"
  by (cases op) (simp_all add: connect_log_inv poll_once_log_inv recover_log_inv mark_disconnected_log_inv
    reads_log_inv [OF ingest_reads] reads_log_inv [OF reconcile_subscriptions_reads]
    reads_log_inv [OF mark_heartbeat_reads] reads_log_inv [OF supplement_reads])

interpretation gateway_log: invariant_machine "gateway_step P N H" log_inv for P N H
  by unfold_locales (rule gateway_step_log_inv)

lemma gateway_init_log_inv: "market_gateway_init P port m k t = Inr g \<Longrightarrow> log_inv g"
  unfolding market_gateway_init_def validate_Inr_iff
  by (auto simp: log_inv_def log_ordered_def lane_log_def observation_log_def fence_of_empty_log
      MARKET_STATE_DEFAULT_def)

text \<open>
  C22. Whatever a gateway is asked to do, with any port and any normalizer: no idempotency key is
  accepted twice, the accepted observations of a stock never go back in source time, the events of a
  lane of a session come with increasing positions and receipts, and the market state of a stock is
  its last accepted observation.
\<close>

theorem accepted_log:
  assumes "market_gateway_init P port manager controller timeout = Inr g0"
    and "g = run (gateway_step P N H) g0 ops"
  shows "log_ordered (mg_accepted_events g)
    \<and> dget (mk_observations (mg_state g)) stock_id = last_option (observation_log stock_id (mg_accepted_events g))"
proof -
  have "log_inv g" unfolding assms(2) by (rule gateway_log.run_inv [OF gateway_init_log_inv [OF assms(1)]])
  then show ?thesis using log_inv_observation by (auto simp: log_inv_def)
qed


section \<open>The phases over a port that keeps its contract\<close>

definition gateway_inv :: "('s \<Rightarrow> bool) \<Rightarrow> 's market_gateway \<Rightarrow> bool" where
  "gateway_inv port_ok g \<longleftrightarrow> port_ok (mg_port g) \<and> phase_inv g"

lemma accept_event_port [simp]: "mg_port (fst (accept_event g e)) = mg_port g"
  by (simp add: accept_event_def Let_def split: prod.split)

lemma accept_events_port [simp]: "mg_port (fst (accept_events g es)) = mg_port g"
proof (induction es arbitrary: g)
  case (Cons e es)
  show ?case using Cons [of "fst (accept_event g e)"] by (simp add: split_beta)
qed simp

lemma ingest_port [simp]: "mg_port (fst (ingest N g x)) = mg_port g"
  using accept_events_port [of g] by (simp add: ingest_def split_beta split: sum.split)

lemma ingest_all_port [simp]: "mg_port (fst (ingest_all N g xs)) = mg_port g"
proof (induction xs arbitrary: g)
  case (Cons x xs)
  show ?case using Cons [of "fst (ingest N g x)"] ingest_port [of N g x]
    by (auto simp: split_beta split: sum.split prod.split)
qed simp

lemma mark_heartbeat_port [simp]: "mg_port (fst (mark_heartbeat g t)) = mg_port g"
  by (simp add: mark_heartbeat_def)

lemma enter_session_port [simp]: "mg_port (fst (enter_session g c phase)) = mg_port g"
  by (simp add: enter_session_def Let_def split: sum.split)

context market_port
begin

lemma reconcile_subscriptions_port:
  "port_ok (mg_port g) \<Longrightarrow> port_ok (mg_port (fst (reconcile_subscriptions P g ds now force)))"
  by (auto simp: reconcile_subscriptions_def Let_def replace_ok split: option.split prod.split sum.split)

lemma supplement_port: "port_ok (mg_port g) \<Longrightarrow> port_ok (mg_port (fst (supplement P N g ids reason now)))"
proof (cases "mg_connection g")
  case (Some c)
  assume ok: "port_ok (mg_port g)"
  obtain port r where f: "po_fetch_watchlist_snapshots P (mg_port g) (kc_session_id c) (sorted_set ids) now = (port, r)"
    by (cases "po_fetch_watchlist_snapshots P (mg_port g) (kc_session_id c) (sorted_set ids) now")
  from fetch_ok [OF ok f] have port: "port_ok port" by simp
  show ?thesis
  proof (cases r)
    case (Inr xs)
    obtain g1 q where g1: "ingest_all N (g\<lparr>mg_port := port\<rparr>) xs = (g1, q)"
      by (cases "ingest_all N (g\<lparr>mg_port := port\<rparr>) xs")
    have "mg_port g1 = port" using ingest_all_port [of N "g\<lparr>mg_port := port\<rparr>" xs] g1 by simp
    then show ?thesis using ok port
      by (cases q) (simp_all add: supplement_def Let_def Some f Inr g1 split: sum.split)
  qed (use ok port in \<open>simp add: supplement_def Let_def Some f\<close>)
qed (simp add: supplement_def)

lemma restore_session_port: "port_ok (mg_port g) \<Longrightarrow> port_ok (mg_port (fst (restore_session P N g ds ids now c)))"
proof -
  assume ok: "port_ok (mg_port g)"
  obtain g1 r where g1: "reconcile_subscriptions P g ds now True = (g1, r)"
    by (cases "reconcile_subscriptions P g ds now True")
  have ok1: "port_ok (mg_port g1)" using reconcile_subscriptions_port [OF ok, of ds now True] g1 by simp
  show ?thesis
  proof (cases r)
    case (Inr plan)
    obtain g2 q where g2: "supplement P N g1 (pl_subscriptions plan @ ids) RECONNECT now = (g2, q)"
      by (cases "supplement P N g1 (pl_subscriptions plan @ ids) RECONNECT now")
    have "port_ok (mg_port g2)"
      using supplement_port [OF ok1, of N "pl_subscriptions plan @ ids" RECONNECT now] g2 by simp
    then show ?thesis by (cases q) (simp_all add: restore_session_def g1 g2 Inr)
  qed (use ok1 g1 in \<open>simp add: restore_session_def\<close>)
qed

lemma mark_disconnected_port: "port_ok (mg_port g) \<Longrightarrow> port_ok (mg_port (fst (mark_disconnected P H g now reason)))"
  by (auto simp: mark_disconnected_def Let_def close_ok split: option.split prod.split sum.split)

lemma connect_inv:
  assumes "gateway_inv port_ok g" shows "gateway_inv port_ok (fst (connect P g now))"
proof -
  obtain port r where con: "po_connect P (mg_port g) now = (port, r)" by (cases "po_connect P (mg_port g) now")
  with assms connect_ok [of "mg_port g" now port r]
  have "port_ok port" "\<And>c. r = Inr c \<Longrightarrow> kiwoom_connection_init c = Inr c" by (auto simp: gateway_inv_def)
  then show ?thesis
    using assms enter_session_result(2) [where phase = CONNECTED and g = "g\<lparr>mg_port := port\<rparr>"]
    by (auto simp: fst_connect con gateway_inv_def split: sum.split)
qed

lemma poll_once_inv:
  assumes "gateway_inv port_ok g" shows "gateway_inv port_ok (fst (poll_once P N H g now))"
proof (cases "mg_connection g")
  case (Some c)
  obtain port r where read: "po_read P (mg_port g) (kc_session_id c) = (port, r)"
    by (cases "po_read P (mg_port g) (kc_session_id c)")
  let ?g = "g\<lparr>mg_port := port\<rparr>"
  have g: "port_ok (mg_port ?g)" "phase_inv ?g"
    using assms read_ok [OF _ read] by (simp_all add: gateway_inv_def)
  have "gateway_inv port_ok (fst (ingest N ?g x))" for x
    using g reads_phase_inv [OF ingest_reads g(2)] by (simp add: gateway_inv_def)
  moreover have "gateway_inv port_ok (fst (mark_disconnected P H ?g now reason))" for reason
    using mark_disconnected_port [OF g(1)] mark_disconnected_phase_inv [OF g(2)] by (simp add: gateway_inv_def)
  ultimately show ?thesis
    using assms g by (simp add: fst_poll_once Some read gateway_inv_def split: sum.split option.split py_error.split)
qed (use assms in \<open>simp add: fst_poll_once\<close>)

lemma restore_session_phase_inv:
  assumes "phase_inv g" and "mg_connection g \<noteq> None"
  shows "phase_inv (fst (restore_session P N g ds ids now c))"
  using restore_session_result [of g P N ds ids now c] assms
  by (auto simp: reads_def same_session_def phase_inv_def split: option.splits)

lemma recover_inv:
  assumes "gateway_inv port_ok g" shows "gateway_inv port_ok (fst (recover P N H g ds ids now))"
proof -
  obtain port r where con: "po_connect P (mg_port g) now = (port, r)" by (cases "po_connect P (mg_port g) now")
  from assms connect_ok [OF _ con]
  have port: "port_ok port" "\<And>c. r = Inr c \<Longrightarrow> kiwoom_connection_init c = Inr c" by (auto simp: gateway_inv_def)
  show ?thesis
  proof (cases "is_due (mg_reconnect g) now = Inr True")
    case due: True
    show ?thesis
    proof (cases r)
      case (Inr c)
      let ?e = "enter_session (g\<lparr>mg_port := port\<rparr>) c RECOVERING"
      note entered = enter_session_result [OF port(2) [OF Inr], of RECOVERING "g\<lparr>mg_port := port\<rparr>"]
      obtain g2 where g2: "?e = (g2, Inr ())" using entered(1) by (cases ?e) simp
      have "phase_inv g2" "mg_connection g2 \<noteq> None" "port_ok (mg_port g2)"
        using entered(2,4) g2 port(1) enter_session_port [of "g\<lparr>mg_port := port\<rparr>" c RECOVERING] by simp_all
      then have "gateway_inv port_ok (fst (restore_session P N g2 ds ids now c))"
        by (simp add: gateway_inv_def restore_session_port restore_session_phase_inv)
      then show ?thesis by (simp add: fst_recover due con Inr g2)
    next
      case (Inl e)
      have "mg_connection g = None"
        using assms due by (auto simp: gateway_inv_def phase_inv_def is_due_def split: option.splits if_splits)
      then show ?thesis
        using assms port(1) by (simp add: fst_recover due con Inl gateway_inv_def phase_inv_def split: option.split)
    qed
  qed (use assms in \<open>simp add: fst_recover\<close>)
qed

lemma gateway_step_inv:
  assumes "gateway_inv port_ok g" shows "gateway_inv port_ok (fst (gateway_step P N H g op))"
proof -
  have g: "port_ok (mg_port g)" "phase_inv g" using assms by (simp_all add: gateway_inv_def)
  show ?thesis
    using connect_inv [OF assms] poll_once_inv [OF assms] recover_inv [OF assms] g
      mark_disconnected_port [OF g(1)] mark_disconnected_phase_inv [OF g(2)]
      reads_phase_inv [OF ingest_reads g(2)] reads_phase_inv [OF reconcile_subscriptions_reads g(2)]
      reads_phase_inv [OF mark_heartbeat_reads g(2)] reads_phase_inv [OF supplement_reads g(2)]
      reconcile_subscriptions_port [OF g(1)] supplement_port [OF g(1)]
    by (cases op) (simp_all add: gateway_inv_def)
qed

end

sublocale market_port \<subseteq> gateway: invariant_machine "gateway_step P N H" "gateway_inv port_ok" for N H
  by unfold_locales (rule gateway_step_inv)


context market_port
begin

lemma gateway_run_inv: "gateway_inv port_ok g \<Longrightarrow> gateway_inv port_ok (run (gateway_step P N H) g ops)"
  by (rule gateway.run_inv)

end

lemma gateway_init_inv:
  "market_gateway_init P port m k t = Inr g \<Longrightarrow> port_ok port \<Longrightarrow> gateway_inv port_ok g"
  unfolding market_gateway_init_def validate_Inr_iff by (auto simp: gateway_inv_def phase_inv_def)

section \<open>Health and coverage\<close>

lemma freshness_groups:
  "length (filter (\<lambda>i. f i = FRESH) xs) + length (filter (\<lambda>i. f i = LOW_CONFIDENCE) xs)
     + length (filter (\<lambda>i. f i = STALE) xs) + length (filter (\<lambda>i. f i = INCOMPLETE) xs)
     + length (filter (\<lambda>i. f i = MISSING) xs) = length xs" for f :: "'a \<Rightarrow> stock_freshness"
proof (induction xs)
  case (Cons x xs)
  then show ?case by (cases "f x") simp_all
qed simp

lemma state_coverage_total:
  assumes "is_aware now" and "list_all stock_id_ok ids"
  shows "\<exists>r. state_coverage s ids now phase session fresh subs = Inr r
    \<and> (\<forall>i\<in>set (cr_fresh_stock_ids r).
         freshness s (dget (mk_observations s) i) now phase session fresh (i \<in> set subs) = FRESH)
    \<and> set ids = set (cr_fresh_stock_ids r) \<union> set (cr_low_confidence_stock_ids r)
        \<union> set (cr_stale_stock_ids r) \<union> set (cr_incomplete_stock_ids r) \<union> set (cr_missing_stock_ids r)"
proof -
  let ?f = "\<lambda>i. freshness s (dget (mk_observations s) i) now phase session fresh (i \<in> set subs)"
  have ids: "list_all stock_id_ok (sorted_set ids)" using assms(2) by (simp add: list_all_iff)
  have "i \<in> set ids \<Longrightarrow> ?f i = FRESH \<or> ?f i = LOW_CONFIDENCE \<or> ?f i = STALE \<or> ?f i = INCOMPLETE \<or> ?f i = MISSING" for i
    by (cases "?f i") simp_all
  then show ?thesis
    unfolding state_coverage_def Let_def coverage_report_init_def
    using assms(1) ids freshness_groups [of ?f "sorted_set ids"] by auto
qed

lemma fresh_reason:
  assumes "freshness s event now phase session hb sub = FRESH"
  shows "\<exists>e d. event = Some e \<and> me_data e = Observation d \<and> mo_missing_fields d = []
    \<and> (if mo_observation_source d = REALTIME_0B
       then phase = CONNECTED \<and> hb \<and> sub \<and> session = Some (el_session_id (me_lineage e))
       else 0 \<le> instant now - instant (me_received_at e)
          \<and> instant now - instant (me_received_at e) \<le> mk_snapshot_fresh_for s)"
  using assms by (auto simp: freshness_def Let_def split: option.splits event_data.splits if_splits)

text \<open>
  C23. Over a port that keeps its contract, health is always reported for valid stock ids; every stock
  is in a group; health is LIVE only in the phase CONNECTED, within the current session and with a
  heartbeat inside the timeout; and a stock is FRESH only if its last accepted observation is complete
  and either comes in real time from the current session, for a subscribed stock under LIVE health, or
  is a snapshot received at most thirty seconds ago.
\<close>

theorem health_grounds:
  assumes "market_port P port_ok" and "port_ok port"
    and "market_gateway_init P port manager controller timeout = Inr g0"
    and "g = run (gateway_step P N H) g0 ops" and "is_aware now" and "list_all stock_id_ok ids"
  shows "\<exists>h. health g ids now = Inr h
    \<and> set ids = set (cr_fresh_stock_ids (gh_coverage h)) \<union> set (cr_low_confidence_stock_ids (gh_coverage h))
        \<union> set (cr_stale_stock_ids (gh_coverage h)) \<union> set (cr_incomplete_stock_ids (gh_coverage h))
        \<union> set (cr_missing_stock_ids (gh_coverage h))
    \<and> (gh_data_status h = LIVE \<longrightarrow> (\<exists>c t. mg_phase g = CONNECTED \<and> mg_connection g = Some c
         \<and> ef_current_session_id (mg_order_fence g) = Some (kc_session_id c)
         \<and> mg_last_heartbeat_at g = Some t
         \<and> instant t \<le> instant now \<and> instant now - instant t \<le> mg_heartbeat_timeout g))
    \<and> (\<forall>i\<in>set (cr_fresh_stock_ids (gh_coverage h)). \<exists>e d.
         last_option (observation_log i (mg_accepted_events g)) = Some e
         \<and> me_data e = Observation d \<and> mo_missing_fields d = []
         \<and> (if mo_observation_source d = REALTIME_0B
            then gh_data_status h = LIVE \<and> i \<in> set (su_current (mg_subscriptions g))
              \<and> gh_session_id h = Some (el_session_id (me_lineage e))
            else 0 \<le> instant now - instant (me_received_at e)
              \<and> instant now - instant (me_received_at e) \<le> 30000000))"
proof -
  have inv: "phase_inv g"
    using market_port.gateway_run_inv [OF assms(1), of g0 N H ops] assms(2)
      gateway_init_inv [OF assms(3), of port_ok] by (simp add: assms(4) gateway_inv_def)
  have log: "log_inv g"
    unfolding assms(4) by (rule gateway_log.run_inv [OF gateway_init_log_inv [OF assms(3)]])
  obtain fresh where fresh: "heartbeat_fresh g now = Inr fresh"
    using assms(5) by (simp add: heartbeat_fresh_def)
  let ?session = "ef_current_session_id (mg_order_fence g)" and ?subs = "su_current (mg_subscriptions g)"
  obtain r where r: "state_coverage (mg_state g) ids now (mg_phase g) ?session fresh ?subs = Inr r"
      "\<And>i. i \<in> set (cr_fresh_stock_ids r) \<Longrightarrow> freshness (mg_state g) (dget (mk_observations (mg_state g)) i)
         now (mg_phase g) ?session fresh (i \<in> set ?subs) = FRESH"
      "set ids = set (cr_fresh_stock_ids r) \<union> set (cr_low_confidence_stock_ids r)
        \<union> set (cr_stale_stock_ids r) \<union> set (cr_incomplete_stock_ids r) \<union> set (cr_missing_stock_ids r)"
    using state_coverage_total [OF assms(5,6), of "mg_state g" "mg_phase g" ?session fresh ?subs] by blast
  define h where "h = \<lparr>gh_data_status = (if mg_phase g \<noteq> CONNECTED \<or> \<not> fresh then DELAYED_STALE else LIVE),
        gh_connection_phase = mg_phase g, gh_session_id = map_option kc_session_id (mg_connection g),
        gh_last_heartbeat_at = mg_last_heartbeat_at g, gh_coverage = r\<rparr>"
  have "health g ids now = Inr h" by (simp add: health_def gateway_coverage_def fresh r(1) h_def)
  moreover have connected: "\<exists>c t. mg_connection g = Some c \<and> ?session = Some (kc_session_id c)
      \<and> mg_last_heartbeat_at g = Some t \<and> instant t \<le> instant now \<and> instant now - instant t \<le> mg_heartbeat_timeout g"
    if "mg_phase g = CONNECTED" "fresh"
    using inv fresh that assms(5) by (auto simp: phase_inv_def heartbeat_fresh_def split: option.splits)
  moreover have "\<exists>e d. last_option (observation_log i (mg_accepted_events g)) = Some e
         \<and> me_data e = Observation d \<and> mo_missing_fields d = []
         \<and> (if mo_observation_source d = REALTIME_0B
            then gh_data_status h = LIVE \<and> i \<in> set ?subs \<and> gh_session_id h = Some (el_session_id (me_lineage e))
            else 0 \<le> instant now - instant (me_received_at e)
              \<and> instant now - instant (me_received_at e) \<le> 30000000)"
    if "i \<in> set (cr_fresh_stock_ids r)" for i
  proof -
    from fresh_reason [OF r(2) [OF that]] obtain e d where e:
      "dget (mk_observations (mg_state g)) i = Some e" "me_data e = Observation d" "mo_missing_fields d = []"
      "if mo_observation_source d = REALTIME_0B
       then mg_phase g = CONNECTED \<and> fresh \<and> i \<in> set ?subs \<and> ?session = Some (el_session_id (me_lineage e))
       else 0 \<le> instant now - instant (me_received_at e)
          \<and> instant now - instant (me_received_at e) \<le> mk_snapshot_fresh_for (mg_state g)" by blast
    moreover have "last_option (observation_log i (mg_accepted_events g)) = Some e"
      using log_inv_observation [OF log, of i] e(1) by simp
    moreover have "mk_snapshot_fresh_for (mg_state g) = 30000000" using log by (simp add: log_inv_def)
    moreover have "mg_phase g = CONNECTED \<and> fresh \<Longrightarrow> gh_data_status h = LIVE
        \<and> gh_session_id h = ?session" using connected by (auto simp: h_def)
    ultimately show ?thesis by (intro exI [of _ e] exI [of _ d]) (simp split: if_splits)
  qed
  ultimately show ?thesis by (intro exI [of _ h]) (auto simp: h_def r(3))
qed


section \<open>A recovery that an exception interrupts\<close>

fun is_connect :: "gateway_op \<Rightarrow> bool" where
  "is_connect (Connect now) = True"
| "is_connect _ = False"

definition recovering :: "'s market_gateway \<Rightarrow> bool" where
  "recovering g \<longleftrightarrow> mg_phase g = RECOVERING \<and> rk_schedule (mg_reconnect g) = None"

lemma reads_recovering: "reads g g' \<Longrightarrow> recovering g \<Longrightarrow> recovering g'"
  by (simp add: reads_def same_session_def recovering_def)

lemma not_due: "recovering g \<Longrightarrow> is_due (mg_reconnect g) now \<noteq> Inr True"
  by (simp add: recovering_def is_due_def)

lemma mark_disconnected_recovering:
  "recovering g \<Longrightarrow> mg_connection (fst (mark_disconnected P H g now reason)) \<noteq> None
     \<Longrightarrow> recovering (fst (mark_disconnected P H g now reason))"
  by (auto simp: mark_disconnected_def Let_def recovering_def split: option.splits prod.splits sum.splits if_splits)

lemma step_recovering:
  assumes "recovering g" and "\<not> is_connect op" and "mg_connection (fst (gateway_step P N H g op)) \<noteq> None"
  shows "recovering (fst (gateway_step P N H g op))"
proof (cases op)
  case (PollOnce now)
  have port: "recovering (g\<lparr>mg_port := p\<rparr>)" for p using assms(1) by (simp add: recovering_def)
  have "recovering (fst (ingest N (g\<lparr>mg_port := p\<rparr>) x))" for p x
    by (rule reads_recovering [OF ingest_reads port])
  with port assms(1,3) show ?thesis
    by (auto simp: PollOnce fst_poll_once intro: mark_disconnected_recovering
        split: option.splits prod.splits sum.splits py_error.splits if_splits)
next
  case (Recover ds ids now)
  then show ?thesis using assms(1) not_due [OF assms(1)] by (simp add: fst_recover)
next
  case (MarkDisconnected now reason)
  with assms(3) show ?thesis
    by (simp only: gateway_step.simps fst_outcome) (rule mark_disconnected_recovering [OF assms(1)])
qed (use assms in \<open>auto intro: reads_recovering ingest_reads reconcile_subscriptions_reads
  mark_heartbeat_reads supplement_reads\<close>)

lemma run_recovering:
  assumes "recovering g" and "list_all (\<lambda>op. \<not> is_connect op) ops"
    and "\<And>n. n \<le> length ops \<Longrightarrow> mg_connection (run (gateway_step P N H) g (take n ops)) \<noteq> None"
  shows "recovering (run (gateway_step P N H) g ops)"
  using assms
proof (induction ops arbitrary: g)
  case (Cons op ops)
  have "mg_connection (run (gateway_step P N H) g (take 1 (op # ops))) \<noteq> None" by (rule Cons.prems(3)) simp
  then have "recovering (fst (gateway_step P N H g op))" using Cons.prems by (intro step_recovering) simp_all
  moreover have "mg_connection (run (gateway_step P N H) (fst (gateway_step P N H g op)) (take n ops)) \<noteq> None"
    if "n \<le> length ops" for n
    using Cons.prems(3) [of "Suc n"] that by simp
  ultimately show ?case using Cons.IH Cons.prems(2) by simp
qed simp

lemma interrupted_recovering:
  assumes "market_port P port_ok" and "gateway_inv port_ok g"
    and "recover P N H g ds ids now = (g1, Inl e)" and "mg_connection g = None" and "mg_connection g1 \<noteq> None"
  shows "recovering g1"
proof -
  obtain port r where con: "po_connect P (mg_port g) now = (port, r)" by (cases "po_connect P (mg_port g) now")
  have due: "is_due (mg_reconnect g) now = Inr True"
    using assms(3-5) by (auto simp: recover_def split: sum.splits bool.splits)
  obtain c where c: "r = Inr c"
    using assms(3-5) due by (cases r) (auto simp: recover_def con Let_def split: option.splits prod.splits)
  have "kiwoom_connection_init c = Inr c"
    using market_port.connect_ok [OF assms(1) _ con] assms(2) c by (simp add: gateway_inv_def)
  note entered = enter_session_result [OF this, of RECOVERING "g\<lparr>mg_port := port\<rparr>"]
  obtain g2 where g2: "enter_session (g\<lparr>mg_port := port\<rparr>) c RECOVERING = (g2, Inr ())"
    using entered(1) by (cases "enter_session (g\<lparr>mg_port := port\<rparr>) c RECOVERING") simp
  have "recovering g2"
    using entered(2-4) g2 by (simp add: recovering_def phase_inv_def)
  moreover have "restore_session P N g2 ds ids now c = (g1, Inl e)"
    using assms(3) by (simp add: recover_def due con c Let_def g2)
  ultimately show ?thesis
    using restore_session_result [of g2 P N ds ids now c] reads_recovering by auto
qed

text \<open>
  C24. When an exception leaves \<open>recover\<close> after the new session was entered, nothing but a lost
  connection ends the phase RECOVERING: as long as the connection is kept, whatever is read,
  subscribed or supplemented, every later \<open>recover\<close> is refused as not due and health is never LIVE.
\<close>

theorem interrupted_recovery_stays:
  assumes "market_port P port_ok" and "port_ok port"
    and "market_gateway_init P port manager controller timeout = Inr g0"
    and "g = run (gateway_step P N H) g0 earlier" and "mg_connection g = None"
    and "recover P N H g demands stocks now = (g1, Inl e)" and "mg_connection g1 \<noteq> None"
    and "list_all (\<lambda>op. \<not> is_connect op) ops"
    and "\<And>n. n \<le> length ops \<Longrightarrow> mg_connection (run (gateway_step P N H) g1 (take n ops)) \<noteq> None"
    and "g2 = run (gateway_step P N H) g1 ops"
  shows "mg_phase g2 = RECOVERING
    \<and> (is_aware at2 \<longrightarrow> recover P N H g2 demands2 stocks2 at2 = (g2, Inl ReconnectNotDue))
    \<and> (health g2 ids at2 = Inr h \<longrightarrow> gh_data_status h = DELAYED_STALE)"
proof -
  have "gateway_inv port_ok g"
    using market_port.gateway_run_inv [OF assms(1), of g0 N H earlier] assms(2)
      gateway_init_inv [OF assms(3), of port_ok] by (simp add: assms(4))
  from interrupted_recovering [OF assms(1) this assms(6,5,7)]
  have "recovering g2" unfolding assms(10) by (rule run_recovering [OF _ assms(8,9)])
  then show ?thesis
    by (auto simp: recovering_def recover_def is_due_def health_def bind_result_Inr_iff)
qed


section \<open>A recorded day\<close>

text \<open>Two sessions without messages; the only snapshot response comes in the second and has no \<open>apiId\<close>.\<close>

definition sample_connection :: "string \<Rightarrow> int \<Rightarrow> kiwoom_connection" where
  "sample_connection i t = \<lparr>kc_session_id = i, kc_connected_at = Aware t 0\<rparr>"

definition sample_response :: kiwoom_source_envelope where
  "sample_response = (sample_envelope [] 5)\<lparr>ke_session_id := ''s2'', ke_payload := [(''rows'', JList [])]\<rparr>"

definition sample_session :: "string \<Rightarrow> int \<Rightarrow> fixture_session" where
  "sample_session i t = \<lparr>fs_connection = sample_connection i t, fs_messages = [],
     fs_disconnect_after_messages = False\<rparr>"

definition sample_fixture :: fixture_adapter where
  "sample_fixture = fixture_adapter_init [sample_session ''s1'' 0, sample_session ''s2'' 3000000]
     [\<lparr>fc_session_id = ''s2'', fc_responses = [sample_response]\<rparr>]"

definition sample_gateway :: "fixture_adapter market_gateway" where
  "sample_gateway = \<lparr>mg_port = sample_fixture, mg_subscriptions = sample_manager,
      mg_reconnect = reconnect_controller_init RECONNECT_POLICY_DEFAULT, mg_heartbeat_timeout = 10000000,
      mg_order_fence = empty_fence, mg_state = MARKET_STATE_DEFAULT, mg_phase = DISCONNECTED,
      mg_connection = None, mg_last_heartbeat_at = None, mg_accepted_events = []\<rparr>"

abbreviation sample_port :: "fixture_adapter kiwoom_port" where
  "sample_port \<equiv> fixture_port (\<lambda>_. [])"

definition sample_normalizer :: normalizer where
  "sample_normalizer = normalize sample_digest (\<lambda>_. [])"

definition zero_hash :: hash where
  "zero_hash x = ''0''"

lemma sample_gateway_init:
  "market_gateway_init sample_port sample_fixture sample_manager
     (reconnect_controller_init RECONNECT_POLICY_DEFAULT) 10000000 = Inr sample_gateway"
  by (simp add: market_gateway_init_def sample_gateway_def fixture_port_def FIXTURE_CAPABILITIES_def)

lemma sample_fixture_ok: "fixture_ok sample_fixture"
  by (simp add: fixture_ok_def sample_fixture_def fixture_adapter_init_def fixture_session_ok_def
      fixture_session_init_def sample_session_def fixture_call_ok_def fixture_snapshot_call_init_def
      kiwoom_connection_init_def sample_connection_def kiwoom_source_envelope_init_def
      sample_response_def sample_envelope_def)

definition sample_reading :: "gateway_op list" where
  "sample_reading = [Connect (Aware 0 0), Ingest (sample_envelope [sample_row ''000010''] 1),
     Ingest (sample_envelope [sample_row ''000010''] 1)]"

lemma sample_reading_accepted:
  "length (mg_accepted_events (run (gateway_step sample_port sample_normalizer zero_hash) sample_gateway sample_reading)) = 1"
  by code_simp

theorem accepted_log_witness:
  "length (mg_accepted_events (run (gateway_step sample_port sample_normalizer zero_hash) sample_gateway sample_reading)) = 1
   \<and> dget (mk_observations (mg_state (run (gateway_step sample_port sample_normalizer zero_hash) sample_gateway sample_reading))) ''KRX:000010''
     = last_option (observation_log ''KRX:000010''
         (mg_accepted_events (run (gateway_step sample_port sample_normalizer zero_hash) sample_gateway sample_reading)))"
  using accepted_log [OF sample_gateway_init refl, of sample_normalizer zero_hash sample_reading "''KRX:000010''"]
    sample_reading_accepted by blast

theorem health_grounds_witness:
  "\<exists>h. health (run (gateway_step sample_port sample_normalizer zero_hash) sample_gateway sample_reading)
       [''KRX:000010''] (Aware 20 0) = Inr h
     \<and> {''KRX:000010''} = set (cr_fresh_stock_ids (gh_coverage h)) \<union> set (cr_low_confidence_stock_ids (gh_coverage h))
        \<union> set (cr_stale_stock_ids (gh_coverage h)) \<union> set (cr_incomplete_stock_ids (gh_coverage h))
        \<union> set (cr_missing_stock_ids (gh_coverage h))"
proof -
  have ids: "list_all stock_id_ok [''KRX:000010'']" by code_simp
  have aware: "is_aware (Aware 20 0)" by simp
  from health_grounds [OF fixture.market_port_axioms sample_fixture_ok sample_gateway_init refl aware ids,
      of sample_normalizer zero_hash sample_reading]
  show ?thesis by auto
qed

definition sample_loss :: "gateway_op list" where
  "sample_loss = [Connect (Aware 0 0), MarkDisconnected (Aware 1000000 0) ''lost'']"

lemma sample_interruption:
  "mg_connection (run (gateway_step sample_port sample_normalizer zero_hash) sample_gateway sample_loss) = None"
  "(case recover sample_port sample_normalizer zero_hash
       (run (gateway_step sample_port sample_normalizer zero_hash) sample_gateway sample_loss) [] [] (Aware 3000000 0) of
     (g1, Inl e) \<Rightarrow> mg_connection g1 = Some (sample_connection ''s2'' 3000000) | (g1, Inr out) \<Rightarrow> False)"
  by code_simp+

theorem interrupted_recovery_stays_witness:
  "mg_phase (fst (recover sample_port sample_normalizer zero_hash
     (run (gateway_step sample_port sample_normalizer zero_hash) sample_gateway sample_loss) [] [] (Aware 3000000 0))) = RECOVERING"
proof -
  let ?step = "gateway_step sample_port sample_normalizer zero_hash"
  obtain g1 e where g1: "recover sample_port sample_normalizer zero_hash (run ?step sample_gateway sample_loss)
      [] [] (Aware 3000000 0) = (g1, Inl e)" "mg_connection g1 \<noteq> None"
    using sample_interruption(2)
    by (cases "recover sample_port sample_normalizer zero_hash (run ?step sample_gateway sample_loss)
      [] [] (Aware 3000000 0)") (auto split: sum.splits)
  have none: "list_all (\<lambda>op. \<not> is_connect op) []" by simp
  have kept: "mg_connection (run ?step g1 (take n [])) \<noteq> None" if "n \<le> length ([] :: gateway_op list)" for n
    using g1(2) by simp
  from interrupted_recovery_stays [OF fixture.market_port_axioms sample_fixture_ok sample_gateway_init refl
      sample_interruption(1) g1 none kept refl]
  show ?thesis by (simp add: g1(1))
qed

end
