(* ===== verification/Live_Runner.thy ===== *)
theory Live_Runner
  imports Gateway_Safety Hot_State
begin

text \<open>
  \<open>packages/pipeline/live.py\<close>: the runner that drives the gateway once per tick.  It connects or
  recovers, drains the gateway, turns condition-search candidates into subscription demands,
  supplements what is not subscribed and hands the accepted observations over as updates of the hot
  state.  The clock is a sequence of readings.  What its ticks hand over is shown in
  \<open>Live_Handover\<close>.
\<close>

section \<open>The runner\<close>

record candidate_state =
  cs_condition_ids :: "string list"
  cs_last_observed_at :: datetime

text \<open>What the runner is built over: the port, the normalizer, the clock.\<close>

record 's runner_env =
  en_port :: "'s kiwoom_port"
  en_normalizer :: normalizer
  en_hash :: hash
  en_clock :: "nat \<Rightarrow> datetime"
  en_last_message_at :: "'s \<Rightarrow> datetime option"

record 's live_runner =
  lv_gateway :: "'s market_gateway"
  lv_market_date :: date
  lv_theme_members :: "(string, string list) dict"
  lv_stock_to_themes :: "(string, string list) dict"
  lv_candidate_ttl :: timedelta
  lv_supplement_interval :: timedelta
  lv_max_poll_per_tick :: nat
  lv_candidates :: "(string, candidate_state) dict"
  lv_last_supplement_at :: "datetime option"
  lv_normalization_errors :: nat
  lv_readings :: nat

definition stock_themes :: "(string, string list) dict \<Rightarrow> (string, string list) dict" where
  "stock_themes members = map (\<lambda>(i, ts). (i, sorted_set ts))
     (foldl (\<lambda>d (t, stocks). foldl (\<lambda>d i. dset i ((case dget d i of None \<Rightarrow> [] | Some ts \<Rightarrow> ts) @ [t]) d) d stocks)
       [] members)"

definition live_runner_init ::
  "'s market_gateway \<Rightarrow> date \<Rightarrow> (string, string list) dict \<Rightarrow> timedelta \<Rightarrow> timedelta \<Rightarrow> nat
    \<Rightarrow> 's live_runner result" where
  "live_runner_init g market_date members ttl interval max_poll = validate
     [(0 < ttl, ValueError ''candidate_ttl''), (0 \<le> interval, ValueError ''supplement_interval''),
      (1 \<le> max_poll, ValueError ''max_poll_per_tick'')]
     \<lparr>lv_gateway = g, lv_market_date = market_date, lv_theme_members = members,
      lv_stock_to_themes = stock_themes members, lv_candidate_ttl = ttl, lv_supplement_interval = interval,
      lv_max_poll_per_tick = max_poll, lv_candidates = [], lv_last_supplement_at = None,
      lv_normalization_errors = 0, lv_readings = 0\<rparr>"

text \<open>\<open>self._clock()\<close>.\<close>

definition read_clock :: "'s runner_env \<Rightarrow> 's live_runner \<Rightarrow> 's live_runner \<times> datetime" where
  "read_clock env r = (r\<lparr>lv_readings := lv_readings r + 1\<rparr>, en_clock env (lv_readings r))"

section \<open>Updates and candidates\<close>

definition to_update :: "date \<Rightarrow> canonical_market_event \<Rightarrow> market_observation \<Rightarrow> stock_realtime_update result" where
  "to_update market_date e d =
     bind_result (lineage_ref_init \<lparr>lr_kind = ''market-event'', lr_identifier = me_event_id e,
       lr_version = Some (me_schema_version e), lr_content_hash = None\<rparr>) (\<lambda>lineage.
     stock_realtime_update_init
       \<lparr>ru_message_id = me_event_id e, ru_stock_id = me_stock_id e, ru_market_date = market_date,
        ru_source = ''kiwoom:'' @ el_session_id (me_lineage e), ru_source_sequence = me_source_sequence e,
        ru_occurred_at = (if instant (me_received_at e) < instant (me_source_timestamp e)
          then me_received_at e else me_source_timestamp e),
        ru_received_at = me_received_at e, ru_current_price = mo_current_price d,
        ru_cumulative_trading_value = mo_cumulative_trading_value d, ru_base_price = mo_base_price d,
        ru_fresh = True, ru_trading_halted = False, ru_corporate_action_unresolved = False,
        ru_lineage = [lineage]\<rparr>)"

text \<open>The updates of the observations among accepted events; the first invalid one raises.\<close>

fun to_updates :: "date \<Rightarrow> canonical_market_event list \<Rightarrow> stock_realtime_update list result" where
  "to_updates market_date [] = Inr []"
| "to_updates market_date (e # es) = (case me_data e of
     Candidate _ \<Rightarrow> to_updates market_date es
   | Observation d \<Rightarrow> bind_result (to_update market_date e d) (\<lambda>u.
       bind_result (to_updates market_date es) (\<lambda>us. Inr (u # us))))"

definition accepted_of :: "ingest_result list \<Rightarrow> canonical_market_event list" where
  "accepted_of rs = map ir_event (filter (\<lambda>r. ir_disposition r = ACCEPTED) rs)"

definition apply_candidate ::
  "(string, candidate_state) dict \<Rightarrow> canonical_market_event \<Rightarrow> candidate_data \<Rightarrow> (string, candidate_state) dict" where
  "apply_candidate cs e d =
     (case cd_action d of
        ENTER \<Rightarrow>
          let ids = (case dget cs (me_stock_id e) of None \<Rightarrow> [] | Some c \<Rightarrow> cs_condition_ids c)
          in dset (me_stock_id e) \<lparr>cs_condition_ids = List.insert (cd_condition_id d) ids,
               cs_last_observed_at = me_received_at e\<rparr> cs
      | EXIT \<Rightarrow> (case dget cs (me_stock_id e) of None \<Rightarrow> cs
          | Some c \<Rightarrow>
              let ids = remove1 (cd_condition_id d) (cs_condition_ids c)
              in if ids = [] then ddel (me_stock_id e) cs
                 else dset (me_stock_id e) (c\<lparr>cs_condition_ids := ids\<rparr>) cs))"

text \<open>The loop over the accepted events of the drain.\<close>

fun process_accepted ::
  "date \<Rightarrow> (string, candidate_state) dict \<Rightarrow> canonical_market_event list
    \<Rightarrow> (string, candidate_state) dict \<times> stock_realtime_update list result" where
  "process_accepted market_date cs [] = (cs, Inr [])"
| "process_accepted market_date cs (e # es) = (case me_data e of
     Candidate d \<Rightarrow> process_accepted market_date (apply_candidate cs e d) es
   | Observation d \<Rightarrow>
       (case to_update market_date e d of
          Inl x \<Rightarrow> (cs, Inl x)
        | Inr u \<Rightarrow> (case process_accepted market_date cs es of (cs1, q) \<Rightarrow> (cs1, map_sum id ((#) u) q))))"

definition prune_candidates ::
  "(string, candidate_state) dict \<Rightarrow> datetime \<Rightarrow> timedelta \<Rightarrow> (string, candidate_state) dict" where
  "prune_candidates cs now ttl =
     filter (\<lambda>(i, c). \<not> ttl < instant now - instant (cs_last_observed_at c)) cs"

section \<open>Demands\<close>

definition candidate_demand :: "'s live_runner \<Rightarrow> string \<times> candidate_state \<Rightarrow> subscription_demand result" where
  "candidate_demand r x = (case x of (i, c) \<Rightarrow> subscription_demand_init
     \<lparr>sd_stock_id = i,
      sd_priority = (if 2 \<le> length (cs_condition_ids c) then MULTI_SIGNAL_CANDIDATE else SINGLE_SIGNAL_CANDIDATE),
      sd_observed_at = cs_last_observed_at c,
      sd_signal_count = max 1 (int (length (cs_condition_ids c))),
      sd_theme_ids = (case dget (lv_stock_to_themes r) i of None \<Rightarrow> [] | Some ts \<Rightarrow> ts)\<rparr>)"

definition active_themes :: "'s live_runner \<Rightarrow> (string, datetime) dict" where
  "active_themes r = foldl (\<lambda>d (i, c). foldl (\<lambda>d t.
       case dget d t of None \<Rightarrow> dset t (cs_last_observed_at c) d
       | Some seen \<Rightarrow> if instant seen < instant (cs_last_observed_at c) then dset t (cs_last_observed_at c) d else d)
       d (case dget (lv_stock_to_themes r) i of None \<Rightarrow> [] | Some ts \<Rightarrow> ts))
     [] (sort_key fst (lv_candidates r))"

definition related_demands ::
  "'s live_runner \<Rightarrow> string \<times> datetime \<Rightarrow> subscription_demand list result" where
  "related_demands r x = (case x of (theme_id, observed_at) \<Rightarrow>
     map_result (\<lambda>i. subscription_demand_init
       \<lparr>sd_stock_id = i, sd_priority = ACTIVE_RELATED, sd_observed_at = observed_at,
        sd_signal_count = 1, sd_theme_ids = [theme_id]\<rparr>)
      (filter (\<lambda>i. dget (lv_candidates r) i = None)
        (case dget (lv_theme_members r) theme_id of None \<Rightarrow> [] | Some ms \<Rightarrow> ms)))"

definition build_demands :: "'s live_runner \<Rightarrow> subscription_demand list result" where
  "build_demands r =
     bind_result (map_result (candidate_demand r) (sort_key fst (lv_candidates r))) (\<lambda>own.
     bind_result (map_result (related_demands r) (sort_key fst (active_themes r))) (\<lambda>related.
     Inr (own @ concat related)))"

definition demand_stock_ids :: "'s live_runner \<Rightarrow> string list" where
  "demand_stock_ids r = dkeys (lv_candidates r)
     @ concat (map (\<lambda>i. concat (map (\<lambda>t. case dget (lv_theme_members r) t of None \<Rightarrow> [] | Some ms \<Rightarrow> ms)
         (case dget (lv_stock_to_themes r) i of None \<Rightarrow> [] | Some ts \<Rightarrow> ts))) (dkeys (lv_candidates r)))"

section \<open>A tick\<close>

definition ensure_connection ::
  "'s runner_env \<Rightarrow> 's live_runner \<Rightarrow> datetime \<Rightarrow> 's live_runner \<times> stock_realtime_update list result" where
  "ensure_connection env r now =
     (let g = lv_gateway r
      in if mg_connection g \<noteq> None then (r, Inr [])
         else if rk_schedule (mg_reconnect g) = None
         then (case connect (en_port env) g now of
             (g1, Inr _) \<Rightarrow> (r\<lparr>lv_gateway := g1\<rparr>, Inr [])
           | (g1, Inl e) \<Rightarrow>
               (case connection_error e of None \<Rightarrow> (r\<lparr>lv_gateway := g1\<rparr>, Inl e)
                | Some reason \<Rightarrow>
                    (case schedule_failure (en_hash env) (mg_reconnect g1) now reason ''kiwoom-live-initial'' of
                       (controller, s) \<Rightarrow>
                         (r\<lparr>lv_gateway := g1\<lparr>mg_phase := RECONNECTING, mg_reconnect := controller\<rparr>\<rparr>,
                          map_sum id (\<lambda>_. []) s))))
         else case is_due (mg_reconnect g) now of
           Inl e \<Rightarrow> (r, Inl e)
         | Inr False \<Rightarrow> (r, Inr [])
         | Inr True \<Rightarrow>
             (case build_demands r of Inl e \<Rightarrow> (r, Inl e)
              | Inr demands \<Rightarrow>
                  (case recover (en_port env) (en_normalizer env) (en_hash env) g demands
                       (sorted_set (demand_stock_ids r)) now of
                     (g1, Inl e) \<Rightarrow> (r\<lparr>lv_gateway := g1\<rparr>, if e = ReconnectNotDue then Inr [] else Inl e)
                   | (g1, Inr outcome) \<Rightarrow>
                       (case rc_supplement outcome of
                          None \<Rightarrow> (r\<lparr>lv_gateway := g1\<rparr>, Inr [])
                        | Some s \<Rightarrow>
                            if \<not> rc_connected outcome then (r\<lparr>lv_gateway := g1\<rparr>, Inr [])
                            else (r\<lparr>lv_gateway := g1, lv_last_supplement_at := Some now\<rparr>,
                                  to_updates (lv_market_date r) (accepted_of (sx_ingest_results s)))))))"

text \<open>The polling loop; an envelope that cannot be normalized is counted and dropped.\<close>

fun drain_gateway ::
  "'s runner_env \<Rightarrow> nat \<Rightarrow> 's live_runner \<Rightarrow> canonical_market_event list
    \<Rightarrow> 's live_runner \<times> canonical_market_event list result" where
  "drain_gateway env 0 r accepted = (r, Inr accepted)"
| "drain_gateway env (Suc n) r accepted =
     (case read_clock env r of (r1, now) \<Rightarrow>
        case poll_once (en_port env) (en_normalizer env) (en_hash env) (lv_gateway r1) now of
          (g, Inl (NormalizationError _)) \<Rightarrow>
            drain_gateway env n (r1\<lparr>lv_gateway := g, lv_normalization_errors := lv_normalization_errors r1 + 1\<rparr>) accepted
        | (g, Inl e) \<Rightarrow> (r1\<lparr>lv_gateway := g\<rparr>, Inl e)
        | (g, Inr []) \<Rightarrow> (r1\<lparr>lv_gateway := g\<rparr>, Inr accepted)
        | (g, Inr results) \<Rightarrow> drain_gateway env n (r1\<lparr>lv_gateway := g\<rparr>) (accepted @ accepted_of results))"

definition runner_heartbeat :: "'s runner_env \<Rightarrow> 's live_runner \<Rightarrow> 's live_runner \<times> unit result" where
  "runner_heartbeat env r =
     (let g = lv_gateway r
      in case en_last_message_at env (mg_port g) of
           None \<Rightarrow> (r, Inr ())
         | Some t \<Rightarrow>
             if mg_connection g = None then (r, Inr ())
             else (case mark_heartbeat g t of
                 (g1, Inl (KiwoomConnectionLost _)) \<Rightarrow> (r\<lparr>lv_gateway := g1\<rparr>, Inr ())
               | (g1, q) \<Rightarrow> (r\<lparr>lv_gateway := g1\<rparr>, q)))"

definition maybe_supplement ::
  "'s runner_env \<Rightarrow> 's live_runner \<Rightarrow> subscription_plan \<Rightarrow> 's live_runner \<times> stock_realtime_update list result" where
  "maybe_supplement env r plan =
     (if pl_snapshot_supplement plan = [] then (r, Inr [])
      else case read_clock env r of (r1, now) \<Rightarrow>
        if (case lv_last_supplement_at r1 of None \<Rightarrow> False
            | Some t \<Rightarrow> instant now - instant t < lv_supplement_interval r1)
        then (r1, Inr [])
        else let r2 = r1\<lparr>lv_last_supplement_at := Some now\<rparr>
             in case supplement (en_port env) (en_normalizer env) (lv_gateway r2)
                    (pl_snapshot_supplement plan) UNSUBSCRIBED_RELATED now of
                  (g, Inl e) \<Rightarrow> (r2\<lparr>lv_gateway := g\<rparr>, Inl e)
                | (g, Inr outcome) \<Rightarrow> (r2\<lparr>lv_gateway := g\<rparr>,
                    to_updates (lv_market_date r2) (accepted_of (sx_ingest_results outcome))))"

text \<open>The body of the \<open>try\<close>, and the handler of a lost connection.\<close>

definition subscribe_and_supplement ::
  "'s runner_env \<Rightarrow> 's live_runner \<Rightarrow> subscription_demand list \<Rightarrow> 's live_runner \<times> stock_realtime_update list result" where
  "subscribe_and_supplement env r demands =
     (case read_clock env r of (r1, now) \<Rightarrow>
        case reconcile_subscriptions (en_port env) (lv_gateway r1) demands now False of
          (g, Inl e) \<Rightarrow> (r1\<lparr>lv_gateway := g\<rparr>, Inl e)
        | (g, Inr plan) \<Rightarrow> maybe_supplement env (r1\<lparr>lv_gateway := g\<rparr>) plan)"

definition serve_demands ::
  "'s runner_env \<Rightarrow> 's live_runner \<Rightarrow> 's live_runner \<times> stock_realtime_update list result" where
  "serve_demands env r =
     (case build_demands r of Inl e \<Rightarrow> (r, Inl e)
      | Inr demands \<Rightarrow>
          if demands = [] then (r, Inr [])
          else case subscribe_and_supplement env r demands of
            (r1, Inl (KiwoomConnectionLost reason)) \<Rightarrow>
              (case read_clock env r1 of (r2, now) \<Rightarrow>
                 case mark_disconnected (en_port env) (en_hash env) (lv_gateway r2) now reason of
                   (g, s) \<Rightarrow> (r2\<lparr>lv_gateway := g\<rparr>, map_sum id (\<lambda>_. []) s))
          | (r1, q) \<Rightarrow> (r1, q))"

text \<open>What follows the drain: the candidates, the updates, the demands.\<close>

definition finish_tick ::
  "'s runner_env \<Rightarrow> 's live_runner \<Rightarrow> stock_realtime_update list \<Rightarrow> canonical_market_event list
    \<Rightarrow> 's live_runner \<times> stock_realtime_update list result" where
  "finish_tick env r updates accepted =
     (case process_accepted (lv_market_date r) (lv_candidates r) accepted of (cs, p) \<Rightarrow>
        let r0 = r\<lparr>lv_candidates := cs\<rparr>
        in case p of Inl e \<Rightarrow> (r0, Inl e)
      | Inr drained \<Rightarrow>
          (case read_clock env r0 of (r1, now) \<Rightarrow>
             let r2 = r1\<lparr>lv_candidates := prune_candidates (lv_candidates r1) now (lv_candidate_ttl r1)\<rparr>
             in if mg_connection (lv_gateway r2) = None then (r2, Inr (updates @ drained))
                else (case serve_demands env r2 of (r3, q) \<Rightarrow>
                        (r3, map_sum id (\<lambda>more. updates @ drained @ more) q))))"

definition poll_updates ::
  "'s runner_env \<Rightarrow> 's live_runner \<Rightarrow> 's live_runner \<times> stock_realtime_update list result" where
  "poll_updates env r =
     (case read_clock env r of (r0, now) \<Rightarrow>
        case ensure_connection env r0 now of
          (r1, Inl e) \<Rightarrow> (r1, Inl e)
        | (r1, Inr updates) \<Rightarrow>
            if mg_connection (lv_gateway r1) = None then (r1, Inr updates)
            else (case drain_gateway env (lv_max_poll_per_tick r1) r1 [] of
                (r2, Inl e) \<Rightarrow> (r2, Inl e)
              | (r2, Inr accepted) \<Rightarrow>
                  (case runner_heartbeat env r2 of
                     (r3, Inl e) \<Rightarrow> (r3, Inl e)
                   | (r3, Inr _) \<Rightarrow> finish_tick env r3 updates accepted)))"

fun gateway_data_status_of :: "gateway_data_status \<Rightarrow> data_status" where
  "gateway_data_status_of gateway_data_status.LIVE = data_status.LIVE"
| "gateway_data_status_of DELAYED_STALE = DELAYED"
| "gateway_data_status_of gateway_data_status.DEGRADED = data_status.DEGRADED"

definition runner_data_status :: "'s runner_env \<Rightarrow> 's live_runner \<Rightarrow> 's live_runner \<times> data_status result" where
  "runner_data_status env r = (case read_clock env r of (r1, now) \<Rightarrow>
     (r1, map_sum id (\<lambda>h. gateway_data_status_of (gh_data_status h))
        (health (lv_gateway r1) (su_current (mg_subscriptions (lv_gateway r1))) now)))"

end
