(* ===== verification/Live_Handover.thy ===== *)
theory Live_Handover
  imports Live_Runner
begin

text \<open>
  What the ticks of the live runner hand over: exactly the observations the gateway accepted in a tick
  that returns, and nothing of a tick that raised.
\<close>

section \<open>Accepted events and their results\<close>

lemma map_sum_id_iff [simp]:
  "map_sum id f x = Inr y \<longleftrightarrow> (\<exists>z. x = Inr z \<and> y = f z)"
  "map_sum id f x = Inl e \<longleftrightarrow> x = Inl e"
  by (cases x; auto)+

lemma evaluate_event [simp]: "ir_event (snd (evaluate f e)) = e"
  by (simp add: evaluate_def ingest_result_of_def split: option.split)

lemma accepted_of_append [simp]: "accepted_of (xs @ ys) = accepted_of xs @ accepted_of ys"
  by (simp add: accepted_of_def)

lemma accepted_of_simps [simp]:
  "accepted_of [] = []"
  "accepted_of (r # rs) = (if ir_disposition r = ACCEPTED then ir_event r # accepted_of rs else accepted_of rs)"
  by (simp_all add: accepted_of_def)

lemma accept_events_accepted:
  "mg_accepted_events (fst (accept_events g es)) = mg_accepted_events g @ accepted_of (snd (accept_events g es))"
proof (induction es arbitrary: g)
  case (Cons e es)
  have "mg_accepted_events (fst (accept_event g e)) = mg_accepted_events g @ accepted_of [snd (accept_event g e)]"
    by (simp add: accept_event_def Let_def split_beta)
  with Cons [of "fst (accept_event g e)"] show ?case by (simp add: split_beta)
qed simp

text \<open>How the log grows: by the accepted results of a call, or by some events when it raises.\<close>

definition grows :: "'s market_gateway \<Rightarrow> canonical_market_event list \<Rightarrow> 's market_gateway \<Rightarrow> bool" where
  "grows g new g' \<longleftrightarrow> mg_accepted_events g' = mg_accepted_events g @ new \<and> (log_inv g \<longrightarrow> log_inv g')"

lemma grows_refl [simp]: "grows g [] g"
  by (simp add: grows_def)

lemma grows_trans: "grows a xs b \<Longrightarrow> grows b ys c \<Longrightarrow> grows a (xs @ ys) c"
  by (simp add: grows_def)

lemma grows_update [simp]:
  "grows g new (g'\<lparr>mg_port := p\<rparr>) = grows g new g'"
  "grows g new (g'\<lparr>mg_subscriptions := m\<rparr>) = grows g new g'"
  "grows g new (g'\<lparr>mg_last_heartbeat_at := t\<rparr>) = grows g new g'"
  "grows g new (g'\<lparr>mg_phase := ph\<rparr>) = grows g new g'"
  "grows g new (g'\<lparr>mg_reconnect := k\<rparr>) = grows g new g'"
  "grows g new (g'\<lparr>mg_connection := c\<rparr>) = grows g new g'"
  "grows (g\<lparr>mg_port := p\<rparr>) new g' = grows g new g'"
  "grows (g\<lparr>mg_reconnect := k\<rparr>) new g' = grows g new g'"
  by (simp_all add: grows_def log_inv_def)

lemma ingest_grows:
  "grows g (case snd (ingest N g x) of Inl e \<Rightarrow> [] | Inr rs \<Rightarrow> accepted_of rs) (fst (ingest N g x))"
proof (cases "N x")
  case (Inr es)
  then show ?thesis using accept_events_accepted [of g es] reads_log_inv [OF ingest_reads [of g N x]]
    by (simp add: ingest_def split_beta grows_def)
qed (simp add: ingest_def)

lemma ingest_all_grows:
  "\<exists>new. grows g new (fst (ingest_all N g xs))
     \<and> (\<forall>rs. snd (ingest_all N g xs) = Inr rs \<longrightarrow> new = accepted_of rs)"
proof (induction xs arbitrary: g)
  case (Cons x xs)
  obtain g1 r where g1: "ingest N g x = (g1, r)" by (cases "ingest N g x")
  note step = ingest_grows [of g N x]
  show ?case
  proof (cases r)
    case (Inr rs)
    obtain new where new: "grows g1 new (fst (ingest_all N g1 xs))"
        "\<And>qs. snd (ingest_all N g1 xs) = Inr qs \<Longrightarrow> new = accepted_of qs"
      using Cons [of g1] by blast
    have "grows g (accepted_of rs @ new) (fst (ingest_all N g (x # xs)))"
      using grows_trans [OF _ new(1), of g "accepted_of rs"] step by (simp add: g1 Inr split_beta)
    moreover have "accepted_of rs @ new = accepted_of ps" if "snd (ingest_all N g (x # xs)) = Inr ps" for ps
      using that new(2) by (cases "snd (ingest_all N g1 xs)") (auto simp: g1 Inr split_beta)
    ultimately show ?thesis by blast
  next
    case (Inl e)
    then show ?thesis using step g1 by (intro exI [of _ "[]"]) simp
  qed
qed (auto intro: exI [of _ "[]"])

lemma enter_session_grows: "grows g [] (fst (enter_session g c phase))"
  using enter_session_log_inv [of g c phase]
  by (simp add: grows_def) (simp add: enter_session_def Let_def split: sum.split)

lemma connect_grows: "grows g [] (fst (connect P g now))"
proof -
  have "grows g [] (fst (enter_session (g\<lparr>mg_port := port\<rparr>) c CONNECTED))" for port c
    using enter_session_grows [of "g\<lparr>mg_port := port\<rparr>" c CONNECTED] by simp
  then show ?thesis by (simp add: fst_connect split: prod.split sum.split)
qed

lemma mark_disconnected_grows: "grows g [] (fst (mark_disconnected P H g now reason))"
  by (simp add: mark_disconnected_def Let_def split: option.split prod.split sum.split)

lemma reconcile_subscriptions_grows: "grows g [] (fst (reconcile_subscriptions P g ds now force))"
  by (simp add: reconcile_subscriptions_def Let_def split: option.split prod.split sum.split)

lemma mark_heartbeat_grows: "grows g [] (fst (mark_heartbeat g t))"
  by (simp add: mark_heartbeat_def)

text \<open>
  The exceptions of a normalizer: none that the callers take for a lost connection or for a recovery
  that is not due.
\<close>

definition ordinary :: "py_error \<Rightarrow> bool" where
  "ordinary e \<longleftrightarrow> connection_error e = None \<and> e \<noteq> ReconnectNotDue"

definition ordinary_errors :: "normalizer \<Rightarrow> bool" where
  "ordinary_errors N \<longleftrightarrow> (\<forall>x e. N x = Inl e \<longrightarrow> ordinary e)"

lemma ordinary_ValueError [simp]: "ordinary (ValueError t)" "ordinary (NormalizationError t)"
  by (simp_all add: ordinary_def)

lemma ingest_all_error:
  "ordinary_errors N \<Longrightarrow> snd (ingest_all N g xs) = Inl e \<Longrightarrow> ordinary e"
proof (induction xs arbitrary: g)
  case (Cons x xs)
  obtain g1 r where g1: "ingest N g x = (g1, r)" by (cases "ingest N g x")
  show ?case
  proof (cases r)
    case (Inl e')
    then have "N x = Inl e'" using g1 by (auto simp: ingest_def split: sum.splits prod.splits)
    with Cons.prems Inl g1 show ?thesis by (auto simp: ordinary_errors_def)
  next
    case (Inr rs)
    with Cons.prems g1 have "snd (ingest_all N g1 xs) = Inl e"
      by (cases "snd (ingest_all N g1 xs)") (auto simp: split_beta)
    with Cons show ?thesis by blast
  qed
qed simp

lemma gateway_coverage_error: "gateway_coverage g ids now = Inl e \<Longrightarrow> ordinary e"
  by (auto simp: gateway_coverage_def heartbeat_fresh_def state_coverage_def coverage_report_init_def Let_def
      split: if_splits)

lemma poll_once_grows:
  "grows g (case snd (poll_once P N H g now) of Inl e \<Rightarrow> [] | Inr rs \<Rightarrow> accepted_of rs) (fst (poll_once P N H g now))"
proof (cases "mg_connection g")
  case (Some c)
  obtain port r where read: "po_read P (mg_port g) (kc_session_id c) = (port, r)"
    by (cases "po_read P (mg_port g) (kc_session_id c)")
  show ?thesis
  proof (cases r)
    case (Inr x)
    then show ?thesis
      using ingest_grows [of "g\<lparr>mg_port := port\<rparr>" N] by (cases x) (simp_all add: poll_once_def Some read Let_def)
  next
    case (Inl e)
    obtain g2 s where md: "mark_disconnected P H (g\<lparr>mg_port := port\<rparr>) now reason = (g2 reason, s reason)" for reason
      using that [of "\<lambda>reason. fst (mark_disconnected P H (g\<lparr>mg_port := port\<rparr>) now reason)"
        "\<lambda>reason. snd (mark_disconnected P H (g\<lparr>mg_port := port\<rparr>) now reason)"] by simp
    have "grows g [] (g2 reason)" for reason
      using mark_disconnected_grows [of "g\<lparr>mg_port := port\<rparr>" P H now reason] md by simp
    then show ?thesis
      by (cases e) (simp_all add: poll_once_def Some read Inl Let_def md split: sum.split)
  qed
qed (simp add: poll_once_def)

lemma supplement_refused:
  "\<not> (is_aware now \<and> list_all stock_id_ok (sorted_set ids)) \<Longrightarrow>
     \<exists>e. supplement P N g ids reason now = (g, Inl e)"
  by (auto simp: supplement_def Let_def split: option.split)

lemma supplement_grows:
  assumes "ordinary_errors N"
  shows "\<exists>new. grows g new (fst (supplement P N g ids reason now))
    \<and> (case snd (supplement P N g ids reason now) of
         Inr out \<Rightarrow> new = accepted_of (sx_ingest_results out)
       | Inl e \<Rightarrow> ordinary e \<or> new = [])"
proof (cases "mg_connection g = None \<or> \<not> (is_aware now \<and> list_all stock_id_ok (sorted_set ids))")
  case False
  then obtain c where Some: "mg_connection g = Some c" and
    valid: "is_aware now" "list_all stock_id_ok (sorted_set ids)" by auto
  obtain port r where f: "po_fetch_watchlist_snapshots P (mg_port g) (kc_session_id c) (sorted_set ids) now = (port, r)"
    by (cases "po_fetch_watchlist_snapshots P (mg_port g) (kc_session_id c) (sorted_set ids) now")
  show ?thesis
  proof (cases r)
    case (Inr xs)
    obtain g1 q where g1: "ingest_all N (g\<lparr>mg_port := port\<rparr>) xs = (g1, q)"
      by (cases "ingest_all N (g\<lparr>mg_port := port\<rparr>) xs")
    obtain new where new: "grows g new g1" "\<And>rs. q = Inr rs \<Longrightarrow> new = accepted_of rs"
      using ingest_all_grows [of "g\<lparr>mg_port := port\<rparr>" N xs] g1 by auto
    have err: "ordinary e" if "q = Inl e" for e
      using ingest_all_error [OF assms] g1 that by (metis snd_conv)
    show ?thesis
      using new err gateway_coverage_error [of g1 "sorted_set ids" now]
      by (cases q) (auto simp: supplement_def Let_def Some valid f Inr g1 split: sum.split intro!: exI [of _ new])
  qed (auto simp: supplement_def Let_def Some valid f intro!: exI [of _ "[]"])
next
  case True
  then have "\<exists>e. supplement P N g ids reason now = (g, Inl e)"
    using supplement_refused [of now ids P N g reason] by (auto simp: supplement_def)
  then show ?thesis by (auto intro!: exI [of _ "[]"])
qed

lemma restore_session_grows:
  assumes "ordinary_errors N"
  shows "\<exists>new. grows g new (fst (restore_session P N g ds ids now c))
    \<and> (case snd (restore_session P N g ds ids now c) of
         Inr out \<Rightarrow> rc_connected out \<and> (\<exists>s. rc_supplement out = Some s \<and> new = accepted_of (sx_ingest_results s))
       | Inl e \<Rightarrow> ordinary e \<or> new = [])"
proof -
  obtain g1 r where g1: "reconcile_subscriptions P g ds now True = (g1, r)"
    by (cases "reconcile_subscriptions P g ds now True")
  have g: "grows g [] g1" using reconcile_subscriptions_grows [of g P ds now True] g1 by simp
  show ?thesis
  proof (cases r)
    case (Inr plan)
    obtain g2 q where g2: "supplement P N g1 (pl_subscriptions plan @ ids) RECONNECT now = (g2, q)"
      by (cases "supplement P N g1 (pl_subscriptions plan @ ids) RECONNECT now")
    obtain new where new: "grows g1 new g2" "case q of Inr out \<Rightarrow> new = accepted_of (sx_ingest_results out)
       | Inl e \<Rightarrow> ordinary e \<or> new = []"
      using supplement_grows [OF assms, of g1 P "pl_subscriptions plan @ ids" RECONNECT now] g2 by auto
    with grows_trans [OF g new(1)] show ?thesis
      by (cases q) (auto simp: restore_session_def g1 g2 Inr intro!: exI [of _ new])
  qed (use g in \<open>auto simp: restore_session_def g1 intro!: exI [of _ "[]"]\<close>)
qed

lemma recover_grows:
  assumes "ordinary_errors N"
  shows "\<exists>new. grows g new (fst (recover P N H g ds ids now))
    \<and> (case snd (recover P N H g ds ids now) of
         Inr out \<Rightarrow> new = (if rc_connected out then case rc_supplement out of None \<Rightarrow> []
             | Some s \<Rightarrow> accepted_of (sx_ingest_results s) else [])
       | Inl e \<Rightarrow> ordinary e \<or> new = [])"
proof -
  obtain port r where con: "po_connect P (mg_port g) now = (port, r)" by (cases "po_connect P (mg_port g) now")
  show ?thesis
  proof (cases "is_due (mg_reconnect g) now = Inr True")
    case due: True
    show ?thesis
    proof (cases r)
      case (Inr c)
      obtain g2 s where g2: "enter_session (g\<lparr>mg_port := port\<rparr>) c RECOVERING = (g2, s)"
        by (cases "enter_session (g\<lparr>mg_port := port\<rparr>) c RECOVERING")
      have g: "grows g [] g2" using enter_session_grows [of "g\<lparr>mg_port := port\<rparr>" c RECOVERING] g2 by simp
      show ?thesis
      proof (cases s)
        case [simp]: (Inr u)
        obtain new where new: "grows g2 new (fst (restore_session P N g2 ds ids now c))"
          "case snd (restore_session P N g2 ds ids now c) of
             Inr out \<Rightarrow> rc_connected out \<and> (\<exists>s. rc_supplement out = Some s \<and> new = accepted_of (sx_ingest_results s))
           | Inl e \<Rightarrow> ordinary e \<or> new = []" using restore_session_grows [OF assms] by blast
        with grows_trans [OF g new(1)] show ?thesis
          by (cases "snd (restore_session P N g2 ds ids now c)")
            (auto simp: recover_def due con \<open>r = Inr c\<close> g2 Let_def intro!: exI [of _ new])
      qed (use g in \<open>auto simp: recover_def due con Inr g2 Let_def intro!: exI [of _ "[]"]\<close>)
    next
      case (Inl e)
      then show ?thesis
        by (auto simp: recover_def due con Let_def split: option.split prod.split sum.split intro!: exI [of _ "[]"])
    qed
  next
    case False
    then show ?thesis
      by (auto simp: recover_def split: sum.split bool.split intro!: exI [of _ "[]"])
  qed
qed

section \<open>What a tick hands over\<close>

lemma to_updates_append:
  "to_updates d (xs @ ys) = bind_result (to_updates d xs) (\<lambda>us. bind_result (to_updates d ys) (\<lambda>vs. Inr (us @ vs)))"
proof (induction xs)
  case (Cons e xs)
  then show ?case
    by (auto simp: bind_result_def split: event_data.split sum.split)
qed (simp add: bind_result_def split: sum.split)

lemma snd_process_accepted: "snd (process_accepted d cs es) = to_updates d es"
proof (induction es arbitrary: cs)
  case (Cons e es)
  then show ?case
    by (auto simp: bind_result_def split_beta split: event_data.split sum.split)
qed simp

lemma to_updates_error: "to_updates d es = Inl e \<Longrightarrow> ordinary e"
proof (induction es)
  case (Cons x es)
  have "ordinary e'" if "to_update d x o' = Inl e'" for o' e'
    using that
    by (auto simp: to_update_def bind_result_def lineage_ref_init_def stock_realtime_update_init_def
        update_to_observation_def stock_market_observation_init_def split: sum.splits if_splits)
  with Cons show ?case by (auto simp: bind_result_def split: event_data.splits sum.splits)
qed simp

text \<open>
  A part of a tick hands over the observations it accepted; an exception that its caller handles as a
  lost connection has accepted none.
\<close>

definition hands_over ::
  "'s live_runner \<Rightarrow> 's live_runner \<times> stock_realtime_update list result \<Rightarrow> bool" where
  "hands_over r x \<longleftrightarrow> lv_market_date (fst x) = lv_market_date r
     \<and> (\<exists>new. grows (lv_gateway r) new (lv_gateway (fst x))
         \<and> (case snd x of Inr us \<Rightarrow> to_updates (lv_market_date r) new = Inr us | Inl e \<Rightarrow> ordinary e \<or> new = []))"

lemma hands_overI:
  assumes "grows (lv_gateway r) new (lv_gateway r')" and "lv_market_date r' = lv_market_date r"
    and "\<And>us. q = Inr us \<Longrightarrow> to_updates (lv_market_date r) new = Inr us"
    and "\<And>e. q = Inl e \<Longrightarrow> ordinary e \<or> new = []"
  shows "hands_over r (r', q)"
  using assms unfolding hands_over_def by (cases q) auto

lemma ensure_connection_hands_over:
  assumes "ordinary_errors (en_normalizer env)"
  shows "hands_over r (ensure_connection env r now)"
proof -
  let ?g = "lv_gateway r"
  have con: "grows ?g [] (fst (connect (en_port env) ?g now))" by (rule connect_grows)
  obtain g1 q where g1: "connect (en_port env) ?g now = (g1, q)" by (cases "connect (en_port env) ?g now")
  have rec: "hands_over r (case recover (en_port env) (en_normalizer env) (en_hash env) ?g ds ids now of
                     (g1, Inl e) \<Rightarrow> (r\<lparr>lv_gateway := g1\<rparr>, if e = ReconnectNotDue then Inr [] else Inl e)
                   | (g1, Inr outcome) \<Rightarrow>
                       (case rc_supplement outcome of
                          None \<Rightarrow> (r\<lparr>lv_gateway := g1\<rparr>, Inr [])
                        | Some s \<Rightarrow>
                            if \<not> rc_connected outcome then (r\<lparr>lv_gateway := g1\<rparr>, Inr [])
                            else (r\<lparr>lv_gateway := g1, lv_last_supplement_at := Some now\<rparr>,
                                  to_updates (lv_market_date r) (accepted_of (sx_ingest_results s)))))" for ds ids
  proof -
    obtain g2 p where g2: "recover (en_port env) (en_normalizer env) (en_hash env) ?g ds ids now = (g2, p)"
      by (cases "recover (en_port env) (en_normalizer env) (en_hash env) ?g ds ids now")
    obtain new where "grows ?g new g2" "case p of
         Inr out \<Rightarrow> new = (if rc_connected out then case rc_supplement out of None \<Rightarrow> []
             | Some s \<Rightarrow> accepted_of (sx_ingest_results s) else [])
       | Inl e \<Rightarrow> ordinary e \<or> new = []"
      using recover_grows [OF assms, of ?g "en_port env" "en_hash env" ds ids now] g2 by auto
    then show ?thesis
      by (cases p) (auto simp: g2 ordinary_def split: option.split intro!: hands_overI dest: to_updates_error)
  qed
  have none: "hands_over r (r, Inr [])" "\<And>e. hands_over r (r, Inl e)"
    by (auto intro!: hands_overI [where new = "[]"])
  show ?thesis
  proof (cases "mg_connection ?g = None")
    case unconnected: True
    show ?thesis
    proof (cases "rk_schedule (mg_reconnect ?g) = None")
      case True
      have "hands_over r (ensure_connection env r now)" if "q = Inr c" for c
        using con unconnected True that
        by (auto simp: ensure_connection_def Let_def g1 intro!: hands_overI [where new = "[]"])
      moreover have "hands_over r (ensure_connection env r now)" if "q = Inl e" for e
        using con unconnected True that
        by (auto simp: ensure_connection_def Let_def g1 intro!: hands_overI [where new = "[]"] split: option.split prod.split)
      ultimately show ?thesis by (cases q) blast+
    next
      case False
      note reconnecting = ensure_connection_def Let_def unconnected False
      show ?thesis
      proof (cases "is_due (mg_reconnect ?g) now")
        case due: (Inr d)
        show ?thesis
        proof (cases "build_demands r")
          case (Inr ds)
          show ?thesis
            using rec [of ds "sorted_set (demand_stock_ids r)"] none(1)
            by (cases d) (simp_all only: reconnecting due Inr simp_thms if_False sum.case bool.case if_True)
        qed (use none in \<open>simp add: reconnecting due split: bool.split\<close>)
      qed (use none in \<open>simp add: reconnecting\<close>)
    qed
  qed (use none in \<open>simp add: ensure_connection_def Let_def\<close>)
qed

lemma drain_gateway_grows:
  "lv_market_date (fst (drain_gateway env n r as)) = lv_market_date r
   \<and> (\<exists>new. grows (lv_gateway r) new (lv_gateway (fst (drain_gateway env n r as)))
       \<and> (\<forall>bs. snd (drain_gateway env n r as) = Inr bs \<longrightarrow> bs = as @ new))"
proof (induction n arbitrary: r as)
  case (Suc n)
  let ?now = "en_clock env (lv_readings r)"
  obtain g q where g: "poll_once (en_port env) (en_normalizer env) (en_hash env) (lv_gateway r) ?now = (g, q)"
    by (cases "poll_once (en_port env) (en_normalizer env) (en_hash env) (lv_gateway r) ?now")
  have step: "grows (lv_gateway r) (case q of Inl e \<Rightarrow> [] | Inr rs \<Rightarrow> accepted_of rs) g"
    using poll_once_grows [of "lv_gateway r" "en_port env" "en_normalizer env" "en_hash env" ?now] g by simp
  have next': "\<exists>new. grows (lv_gateway r) new (lv_gateway (fst (drain_gateway env n r' (as @ xs))))
       \<and> (\<forall>bs. snd (drain_gateway env n r' (as @ xs)) = Inr bs \<longrightarrow> bs = as @ new)"
    if now: "lv_gateway r' = g" and first: "grows (lv_gateway r) xs g" for r' xs
  proof -
    obtain new where "grows g new (lv_gateway (fst (drain_gateway env n r' (as @ xs))))"
        "\<forall>bs. snd (drain_gateway env n r' (as @ xs)) = Inr bs \<longrightarrow> bs = (as @ xs) @ new"
      using Suc [of r' "as @ xs"] unfolding now by blast
    with grows_trans [OF first] show ?thesis by (intro exI [of _ "xs @ new"]) simp
  qed
  have date: "lv_market_date (fst (drain_gateway env n r' xs)) = lv_market_date r'" for r' xs
    using Suc by blast
  show ?case
  proof (cases q)
    case (Inl e)
    with step next' [of _ "[]"] date show ?thesis
      by (cases e) (auto simp: read_clock_def g split: prod.split)
  next
    case (Inr rs)
    with step next' [of _ "accepted_of rs"] date show ?thesis
      by (cases rs) (auto simp: read_clock_def g split: prod.split)
  qed
qed (auto intro!: exI [of _ "[]"])

lemma maybe_supplement_hands_over:
  assumes "ordinary_errors (en_normalizer env)"
  shows "hands_over r (maybe_supplement env r plan)"
proof -
  let ?now = "en_clock env (lv_readings r)" and ?ids = "pl_snapshot_supplement plan"
  obtain g q where g: "supplement (en_port env) (en_normalizer env) (lv_gateway r) ?ids UNSUBSCRIBED_RELATED ?now = (g, q)"
    by (cases "supplement (en_port env) (en_normalizer env) (lv_gateway r) ?ids UNSUBSCRIBED_RELATED ?now")
  obtain new where new: "grows (lv_gateway r) new g" "case q of
         Inr out \<Rightarrow> new = accepted_of (sx_ingest_results out) | Inl e \<Rightarrow> ordinary e \<or> new = []"
    using supplement_grows [OF assms, of "lv_gateway r" "en_port env" ?ids UNSUBSCRIBED_RELATED ?now] g by auto
  have none: "hands_over r (r\<lparr>lv_readings := n\<rparr>, Inr [])" "hands_over r (r, Inr [])" for n
    by (auto intro!: hands_overI [where new = "[]"])
  show ?thesis
    using none new
    by (cases q) (auto simp: maybe_supplement_def read_clock_def Let_def g intro: hands_overI dest: to_updates_error)
qed

lemma subscribe_hands_over:
  assumes "ordinary_errors (en_normalizer env)"
  shows "hands_over r (subscribe_and_supplement env r ds)"
proof -
  let ?now = "en_clock env (lv_readings r)"
  obtain g q where g: "reconcile_subscriptions (en_port env) (lv_gateway r) ds ?now False = (g, q)"
    by (cases "reconcile_subscriptions (en_port env) (lv_gateway r) ds ?now False")
  have grow: "grows (lv_gateway r) [] g"
    using reconcile_subscriptions_grows [of "lv_gateway r" "en_port env" ds ?now False] g by simp
  show ?thesis
  proof (cases q)
    case (Inr plan)
    let ?r = "r\<lparr>lv_readings := Suc (lv_readings r), lv_gateway := g\<rparr>"
    have "hands_over ?r (maybe_supplement env ?r plan)" by (rule maybe_supplement_hands_over [OF assms])
    then obtain new where new: "lv_market_date (fst (maybe_supplement env ?r plan)) = lv_market_date r"
        "grows g new (lv_gateway (fst (maybe_supplement env ?r plan)))"
        "case snd (maybe_supplement env ?r plan) of
           Inr us \<Rightarrow> to_updates (lv_market_date r) new = Inr us | Inl e \<Rightarrow> ordinary e \<or> new = []"
      unfolding hands_over_def by (cases "snd (maybe_supplement env ?r plan)") auto
    have "subscribe_and_supplement env r ds = maybe_supplement env ?r plan"
      by (simp add: subscribe_and_supplement_def read_clock_def g Inr)
    with new grows_trans [OF grow new(2)] show ?thesis unfolding hands_over_def by auto
  qed (use grow in \<open>auto simp: subscribe_and_supplement_def read_clock_def g intro!: hands_overI [where new = "[]"]\<close>)
qed

lemma serve_demands_hands_over:
  assumes "ordinary_errors (en_normalizer env)"
  shows "hands_over r (serve_demands env r)"
proof (cases "build_demands r")
  case (Inr ds)
  obtain r1 q where r1: "subscribe_and_supplement env r ds = (r1, q)" by (cases "subscribe_and_supplement env r ds")
  have over: "hands_over r (r1, q)" using subscribe_hands_over [OF assms, of r ds] r1 by simp
  obtain g s where g: "mark_disconnected (en_port env) (en_hash env) (lv_gateway r1) (en_clock env (lv_readings r1)) reason
      = (g reason, s reason)" for reason
    using that [of "\<lambda>reason. fst (mark_disconnected (en_port env) (en_hash env) (lv_gateway r1) (en_clock env (lv_readings r1)) reason)"
        "\<lambda>reason. snd (mark_disconnected (en_port env) (en_hash env) (lv_gateway r1) (en_clock env (lv_readings r1)) reason)"] by simp
  have lost: "grows (lv_gateway r1) [] (g reason)" for reason
    using mark_disconnected_grows [of "lv_gateway r1" "en_port env" "en_hash env" _ reason] g [of reason] by (metis fst_conv)
  have "hands_over r (r1\<lparr>lv_readings := n, lv_gateway := g reason\<rparr>, map_sum id (\<lambda>_. []) p)"
    if "q = Inl (KiwoomConnectionLost reason)" for reason n p
  proof -
    have "grows (lv_gateway r) [] (lv_gateway r1)" "lv_market_date r1 = lv_market_date r"
      using over that by (auto simp: hands_over_def ordinary_def)
    with grows_trans [OF this(1) lost] show ?thesis by (auto intro!: hands_overI [where new = "[]"])
  qed
  note disconnected = this
  show ?thesis
  proof (cases "ds = [] \<or> \<not> (\<exists>reason. q = Inl (KiwoomConnectionLost reason))")
    case True
    with over show ?thesis
      by (cases q) (auto simp: serve_demands_def Inr r1 split: py_error.split intro!: hands_overI [where new = "[]"])
  next
    case False
    then obtain reason where q: "q = Inl (KiwoomConnectionLost reason)" "ds \<noteq> []" by blast
    from disconnected [OF q(1), of "lv_readings r1 + 1" "s reason"] show ?thesis
      by (simp add: serve_demands_def Inr r1 read_clock_def g q)
  qed
qed (auto simp: serve_demands_def intro!: hands_overI [where new = "[]"])

lemma runner_heartbeat_grows:
  "grows (lv_gateway r) [] (lv_gateway (fst (runner_heartbeat env r)))
   \<and> lv_market_date (fst (runner_heartbeat env r)) = lv_market_date r"
proof (cases "en_last_message_at env (mg_port (lv_gateway r))")
  case (Some t)
  obtain g q where g: "mark_heartbeat (lv_gateway r) t = (g, q)" by (cases "mark_heartbeat (lv_gateway r) t")
  have "grows (lv_gateway r) [] g" using mark_heartbeat_grows [of "lv_gateway r" t] g by simp
  then show ?thesis
    by (simp add: runner_heartbeat_def Let_def Some g split: sum.split py_error.split)
qed (simp add: runner_heartbeat_def Let_def)

text \<open>What a tick hands over, without regard to the exceptions.\<close>

definition tick_hands_over :: "'s live_runner \<Rightarrow> 's live_runner \<times> stock_realtime_update list result \<Rightarrow> bool" where
  "tick_hands_over r x \<longleftrightarrow> lv_market_date (fst x) = lv_market_date r
     \<and> (\<exists>new. grows (lv_gateway r) new (lv_gateway (fst x))
         \<and> (\<forall>us. snd x = Inr us \<longrightarrow> to_updates (lv_market_date r) new = Inr us))"

lemma finish_tick_hands_over:
  assumes "ordinary_errors (en_normalizer env)"
  shows "\<exists>new. grows (lv_gateway r) new (lv_gateway (fst (finish_tick env r us es)))
    \<and> lv_market_date (fst (finish_tick env r us es)) = lv_market_date r
    \<and> (\<forall>vs. snd (finish_tick env r us es) = Inr vs \<longrightarrow>
        (\<exists>ws. vs = us @ ws \<and> to_updates (lv_market_date r) (es @ new) = Inr ws))"
proof -
  obtain cs p where p: "process_accepted (lv_market_date r) (lv_candidates r) es = (cs, p)"
    by (cases "process_accepted (lv_market_date r) (lv_candidates r) es")
  have es: "to_updates (lv_market_date r) es = p" using snd_process_accepted p by (metis snd_conv)
  show ?thesis
  proof (cases p)
    case (Inr drained)
    define r2 where "r2 = r\<lparr>lv_readings := Suc (lv_readings r),
      lv_candidates := prune_candidates cs (en_clock env (lv_readings r)) (lv_candidate_ttl r)\<rparr>"
    have r2: "lv_gateway r2 = lv_gateway r" "lv_market_date r2 = lv_market_date r" by (simp_all add: r2_def)
    have eq: "finish_tick env r us es = (if mg_connection (lv_gateway r) = None then (r2, Inr (us @ drained))
        else map_prod id (map_sum id (\<lambda>more. us @ drained @ more)) (serve_demands env r2))"
      by (simp add: finish_tick_def p Inr read_clock_def Let_def r2_def split_beta map_prod_def)
    obtain new where new: "grows (lv_gateway r) new (lv_gateway (fst (serve_demands env r2)))"
        "lv_market_date (fst (serve_demands env r2)) = lv_market_date r"
        "\<And>more. snd (serve_demands env r2) = Inr more \<Longrightarrow> to_updates (lv_market_date r) new = Inr more"
      using serve_demands_hands_over [OF assms, of r2] unfolding hands_over_def r2 by force
    show ?thesis
    proof (cases "mg_connection (lv_gateway r) = None")
      case True
      then show ?thesis by (intro exI [of _ "[]"]) (simp add: eq r2 es Inr)
    next
      case False
      then show ?thesis
        using new by (intro exI [of _ new]) (auto simp: eq to_updates_append es Inr)
    qed
  qed (auto simp: finish_tick_def p Let_def intro!: exI [of _ "[]"])
qed

lemma poll_updates_hands_over:
  assumes "ordinary_errors (en_normalizer env)"
  shows "tick_hands_over r (poll_updates env r)"
proof -
  define r0 where "r0 = r\<lparr>lv_readings := lv_readings r + 1\<rparr>"
  have r0: "lv_gateway r0 = lv_gateway r" "lv_market_date r0 = lv_market_date r" by (simp_all add: r0_def)
  obtain r1 q where r1: "ensure_connection env r0 (en_clock env (lv_readings r)) = (r1, q)"
    by (cases "ensure_connection env r0 (en_clock env (lv_readings r))")
  obtain new1 where new1: "grows (lv_gateway r) new1 (lv_gateway r1)" "lv_market_date r1 = lv_market_date r"
      "\<And>us. q = Inr us \<Longrightarrow> to_updates (lv_market_date r) new1 = Inr us"
    using ensure_connection_hands_over [OF assms, of r0 "en_clock env (lv_readings r)"] r1
    unfolding hands_over_def r0 by (cases q) auto
  have start: "poll_updates env r = (case (r1, q) of (r1, Inl e) \<Rightarrow> (r1, Inl e)
        | (r1, Inr updates) \<Rightarrow>
            if mg_connection (lv_gateway r1) = None then (r1, Inr updates)
            else (case drain_gateway env (lv_max_poll_per_tick r1) r1 [] of
                (r2, Inl e) \<Rightarrow> (r2, Inl e)
              | (r2, Inr accepted) \<Rightarrow>
                  (case runner_heartbeat env r2 of
                     (r3, Inl e) \<Rightarrow> (r3, Inl e)
                   | (r3, Inr _) \<Rightarrow> finish_tick env r3 updates accepted)))"
    using r1 by (simp add: poll_updates_def read_clock_def r0_def)
  show ?thesis
  proof (cases "\<exists>us. q = Inr us \<and> mg_connection (lv_gateway r1) \<noteq> None")
    case False
    then show ?thesis
      using new1 by (cases q) (auto simp: start tick_hands_over_def)
  next
    case True
    then obtain us where us: "q = Inr us" "mg_connection (lv_gateway r1) \<noteq> None" by blast
    obtain r2 a where r2: "drain_gateway env (lv_max_poll_per_tick r1) r1 [] = (r2, a)"
      by (cases "drain_gateway env (lv_max_poll_per_tick r1) r1 []")
    obtain new2 where new2: "grows (lv_gateway r1) new2 (lv_gateway r2)" "\<And>bs. a = Inr bs \<Longrightarrow> bs = new2"
        "lv_market_date r2 = lv_market_date r1"
      using drain_gateway_grows [of env "lv_max_poll_per_tick r1" r1 "[]"] r2 by auto
    obtain r3 h where r3: "runner_heartbeat env r2 = (r3, h)" by (cases "runner_heartbeat env r2")
    have new3: "grows (lv_gateway r2) [] (lv_gateway r3)" "lv_market_date r3 = lv_market_date r2"
      using runner_heartbeat_grows [of r2 env] r3 by simp_all
    obtain new4 where new4: "grows (lv_gateway r3) new4 (lv_gateway (fst (finish_tick env r3 us new2)))"
        "lv_market_date (fst (finish_tick env r3 us new2)) = lv_market_date r3"
        "\<And>vs. snd (finish_tick env r3 us new2) = Inr vs \<Longrightarrow>
          \<exists>ws. vs = us @ ws \<and> to_updates (lv_market_date r3) (new2 @ new4) = Inr ws"
      using finish_tick_hands_over [OF assms, of r3 us new2] by blast
    note g2 = grows_trans [OF new1(1) new2(1)]
    note g3 = grows_trans [OF g2 new3(1)]
    note g4 = grows_trans [OF g3 new4(1)]
    have dates: "lv_market_date r2 = lv_market_date r" "lv_market_date r3 = lv_market_date r"
        "lv_market_date (fst (finish_tick env r3 us new2)) = lv_market_date r"
      using new1(2) new2(3) new3(2) new4(2) by simp_all
    show ?thesis
    proof (cases "\<exists>as u. a = Inr as \<and> h = Inr u")
      case True
      then obtain u where a: "a = Inr new2" and h: "h = Inr u" using new2(2) by blast
      have eq: "poll_updates env r = finish_tick env r3 us new2"
        by (simp add: start us r2 a r3 h)
      have "to_updates (lv_market_date r) (new1 @ new2 @ new4) = Inr vs"
        if "snd (finish_tick env r3 us new2) = Inr vs" for vs
        using new4(3) [OF that] new1(3) [OF us(1)] dates by (auto simp: to_updates_append [of _ new1])
      with g4 dates show ?thesis by (auto simp: eq tick_hands_over_def)
    next
      case False
      then show ?thesis
        using g2 g3 dates us by (cases a; cases h) (auto simp: start r2 r3 tick_hands_over_def)
    qed
  qed
qed

section \<open>The exceptions of the normalizer\<close>

definition ordinary_result :: "'a result \<Rightarrow> bool" where
  "ordinary_result r \<longleftrightarrow> (\<forall>e. r = Inl e \<longrightarrow> ordinary e)"

lemma ordinary_result_simps [simp]: "ordinary_result (Inr x)" "ordinary_result (Inl e) = ordinary e"
  by (simp_all add: ordinary_result_def)

lemma normalizes_ordinary: "normalizes r P \<Longrightarrow> ordinary_result r"
  by (cases r) auto

lemma ordinary_bind: "ordinary_result r \<Longrightarrow> (\<And>x. ordinary_result (f x)) \<Longrightarrow> ordinary_result (bind_result r f)"
  by (cases r) simp_all

lemma ordinary_map_sum: "ordinary_result r \<Longrightarrow> ordinary_result (map_sum id f r)"
  by (cases r) simp_all

lemma ordinary_map_result: "(\<And>x. ordinary_result (f x)) \<Longrightarrow> ordinary_result (map_result f xs)"
  by (induction xs) (simp_all add: ordinary_bind)

lemma ordinary_validate: "\<forall>g\<in>set gs. ordinary (snd g) \<Longrightarrow> ordinary_result (validate gs x)"
  by (induction gs x rule: validate.induct) simp_all

lemmas ordinary_fields = normalizes [THEN normalizes_ordinary]

lemma make_event_ordinary: "ordinary_result (make_event H x item i t code data)"
  unfolding make_event_def Let_def event_lineage_init_def canonical_market_event_init_def
  by (rule ordinary_bind; rule ordinary_validate) simp_all

lemma observation_of_ordinary: "ordinary_result (observation_of s c a b d e f g h i j k l)"
  unfolding observation_of_def Let_def market_observation_init_def by (rule ordinary_validate) simp

lemma candidate_event_ordinary: "ordinary_result (candidate_event H R x row i c action)"
  unfolding candidate_event_def Let_def candidate_data_init_def
  by (rule ordinary_bind ordinary_fields make_event_ordinary
      | simp add: ordinary_bind ordinary_validate make_event_ordinary)+

lemma trade_event_ordinary: "ordinary_result (trade_event H R x item vals i)"
  unfolding trade_event_def Let_def
  by (rule ordinary_bind ordinary_fields make_event_ordinary observation_of_ordinary)+

lemma snapshot_event_ordinary: "ordinary_result (snapshot_event H R x row i)"
  unfolding snapshot_event_def Let_def
  by (rule ordinary_bind ordinary_fields make_event_ordinary observation_of_ordinary)+

lemma real_event_ordinary: "ordinary_result (real_event H R x i item)"
  unfolding real_event_def Let_def
  by (rule ordinary_bind ordinary_fields)+
    (auto split: option.split intro!: ordinary_map_sum candidate_event_ordinary trade_event_ordinary)

lemma normalize_ordinary: "ordinary_errors (normalize H R)"
proof -
  have "ordinary_result (normalize_websocket H R x)" for x
    unfolding normalize_websocket_def Let_def
    by (auto intro!: ordinary_bind ordinary_fields ordinary_map_result ordinary_map_sum
        candidate_event_ordinary real_event_ordinary)
  moreover have "ordinary_result (normalize_snapshot H R x)" for x
    unfolding normalize_snapshot_def Let_def
    by (auto intro!: ordinary_bind ordinary_fields ordinary_map_result snapshot_event_ordinary)
  ultimately have "ordinary_result (normalize H R x)" for x
    unfolding normalize_def by (simp split: source_channel.split)
  then show ?thesis by (simp add: ordinary_errors_def ordinary_result_def)
qed

section \<open>Ticks that raise\<close>

abbreviation tick :: "'s runner_env \<Rightarrow> 's live_runner \<Rightarrow> 's live_runner" where
  "tick env r \<equiv> fst (poll_updates env r)"

abbreviation accepted_events :: "'s live_runner \<Rightarrow> canonical_market_event list" where
  "accepted_events r \<equiv> mg_accepted_events (lv_gateway r)"

lemma grows_log_inv: "grows g new g' \<Longrightarrow> log_inv g \<Longrightarrow> log_inv g'"
  by (simp add: grows_def)

lemma ticks_grow:
  assumes "ordinary_errors (en_normalizer env)"
  shows "\<exists>new. grows (lv_gateway r) new (lv_gateway ((tick env ^^ n) r))"
proof (induction n)
  case (Suc n)
  then obtain new where "grows (lv_gateway r) new (lv_gateway ((tick env ^^ n) r))" by blast
  moreover obtain more where "grows (lv_gateway ((tick env ^^ n) r)) more (lv_gateway (tick env ((tick env ^^ n) r)))"
    using poll_updates_hands_over [OF assms, of "(tick env ^^ n) r"] unfolding tick_hands_over_def by blast
  ultimately show ?case by (auto dest: grows_trans)
qed (auto intro: exI [of _ "[]"])

text \<open>
  C25. A tick that returns hands over exactly the observations the gateway accepted in it, in their
  order.  So the observations accepted in a tick that raised (a failed supplement, a response that
  cannot be normalized) are in no later hand-over: the fence has their keys, and they are lost.
\<close>

theorem lost_observations:
  assumes "ordinary_errors (en_normalizer env)"
    and "market_gateway_init P port manager controller timeout = Inr g0"
    and "live_runner_init g0 market_date members ttl interval max_poll = Inr r0"
    and "r1 = (tick env ^^ n) r0" and "poll_updates env r1 = (r2, Inl err)"
    and "e \<in> set (drop (length (accepted_events r1)) (accepted_events r2))"
    and "r3 = (tick env ^^ m) r2" and "poll_updates env r3 = (r4, Inr us)"
  shows "\<exists>new. accepted_events r4 = accepted_events r3 @ new
    \<and> to_updates (lv_market_date r3) new = Inr us
    \<and> me_idempotency_key e \<notin> me_idempotency_key ` set new"
proof -
  have "lv_gateway r0 = g0"
    using assms(3) unfolding live_runner_init_def validate_Inr_iff by auto
  then have "log_inv (lv_gateway r0)" using gateway_init_log_inv [OF assms(2)] by simp
  moreover obtain new1 where "grows (lv_gateway r0) new1 (lv_gateway r1)"
    using ticks_grow [OF assms(1), of r0 n] by (auto simp: assms(4))
  moreover obtain new2 where "grows (lv_gateway r1) new2 (lv_gateway r2)"
    using poll_updates_hands_over [OF assms(1), of r1] by (auto simp: assms(5) tick_hands_over_def)
  moreover obtain new3 where new3: "grows (lv_gateway r2) new3 (lv_gateway r3)"
    using ticks_grow [OF assms(1), of r2 m] by (auto simp: assms(7))
  moreover obtain new where new: "grows (lv_gateway r3) new (lv_gateway r4)"
      "to_updates (lv_market_date r3) new = Inr us"
    using poll_updates_hands_over [OF assms(1), of r3] by (auto simp: assms(8) tick_hands_over_def)
  ultimately have "log_inv (lv_gateway r4)" by (meson grows_log_inv)
  then have "log_ordered (accepted_events r4)" by (simp add: log_inv_def)
  then have "distinct (map me_idempotency_key (accepted_events r3 @ new))"
    using new(1) by (simp add: log_ordered_def grows_def)
  moreover have "e \<in> set (accepted_events r3)"
    using in_set_dropD [OF assms(6)] new3 by (simp add: grows_def)
  ultimately have "me_idempotency_key e \<notin> me_idempotency_key ` set new" by auto
  with new show ?thesis by (auto simp: grows_def)
qed

text \<open>A tick that reads a price and a candidate, and whose supplement for the theme fails.\<close>

definition sample_candidate_envelope :: kiwoom_source_envelope where
  "sample_candidate_envelope = (sample_envelope [] 2)\<lparr>ke_source_schema_version := ''kiwoom.websocket.v1'',
     ke_channel := WEBSOCKET, ke_payload := [(''trnm'', JStr ''CNSRREQ''), (''seq'', JStr ''1''),
       (''data'', JList [sample_row ''000010''])]\<rparr>"

definition sample_live_fixture :: fixture_adapter where
  "sample_live_fixture = fixture_adapter_init
     [\<lparr>fs_connection = sample_connection ''s1'' 0,
       fs_messages = [sample_envelope [sample_row ''000010''] 1, sample_candidate_envelope],
       fs_disconnect_after_messages = False\<rparr>]
     [\<lparr>fc_session_id = ''s1'', fc_responses = [sample_response\<lparr>ke_session_id := ''s1''\<rparr>]\<rparr>]"

text \<open>A digest that tells a candidate's key from an observation's.\<close>

definition key_digest :: hash where
  "key_digest x = (case x of Dump (JObj ((k, v) # fs)) \<Rightarrow>
       if k = ''conditionId'' then replicate 64 CHR ''2'' else replicate 64 CHR ''0''
     | _ \<Rightarrow> replicate 64 CHR ''1'')"

definition sample_live_gateway :: "fixture_adapter market_gateway" where
  "sample_live_gateway = sample_gateway\<lparr>mg_port := sample_live_fixture\<rparr>"

definition sample_env :: "fixture_adapter runner_env" where
  "sample_env = \<lparr>en_port = sample_port, en_normalizer = normalize key_digest (\<lambda>_. []), en_hash = zero_hash,
     en_clock = (\<lambda>n. Aware (100 * int n) 0), en_last_message_at = (\<lambda>_. None)\<rparr>"

definition sample_runner :: "fixture_adapter live_runner" where
  "sample_runner = \<lparr>lv_gateway = sample_live_gateway, lv_market_date = 1,
      lv_theme_members = [(''t'', [''KRX:000010'', ''KRX:000020''])],
      lv_stock_to_themes = stock_themes [(''t'', [''KRX:000010'', ''KRX:000020''])],
      lv_candidate_ttl = 1800000000, lv_supplement_interval = 30000000,
      lv_max_poll_per_tick = 3, lv_candidates = [], lv_last_supplement_at = None,
      lv_normalization_errors = 0, lv_readings = 0\<rparr>"

lemma sample_runner_init:
  "market_gateway_init sample_port sample_live_fixture sample_manager
     (reconnect_controller_init RECONNECT_POLICY_DEFAULT) 10000000 = Inr sample_live_gateway"
  "live_runner_init sample_live_gateway 1 [(''t'', [''KRX:000010'', ''KRX:000020''])] 1800000000 30000000 3
     = Inr sample_runner"
  by (simp_all add: market_gateway_init_def sample_live_gateway_def sample_gateway_def fixture_port_def
      FIXTURE_CAPABILITIES_def live_runner_init_def sample_runner_def)

lemma sample_ticks:
  "snd (poll_updates sample_env sample_runner) = Inl (NormalizationError ''apiId'')"
  "snd (poll_updates sample_env (tick sample_env sample_runner)) = Inr []"
  "map me_event_id (accepted_events sample_runner) = []"
  "map me_event_id (accepted_events (tick sample_env sample_runner))
     = [''mkt_00000000000000000000000000'', ''mkt_22222222222222222222222222'']"
  by code_simp+

theorem lost_observations_witness:
  "\<exists>e. e \<in> set (accepted_events (tick sample_env sample_runner))
    \<and> me_event_id e = ''mkt_00000000000000000000000000''
    \<and> (\<exists>new. accepted_events (tick sample_env (tick sample_env sample_runner))
          = accepted_events (tick sample_env sample_runner) @ new
        \<and> me_idempotency_key e \<notin> me_idempotency_key ` set new)"
proof -
  let ?r = "tick sample_env sample_runner"
  have none: "accepted_events sample_runner = []" using sample_ticks(3) by simp
  obtain e where e: "e \<in> set (accepted_events ?r)" "me_event_id e = ''mkt_00000000000000000000000000''"
    using sample_ticks(4) by (cases "accepted_events ?r") auto
  have env: "ordinary_errors (en_normalizer sample_env)"
    by (simp add: sample_env_def normalize_ordinary)
  have first: "poll_updates sample_env sample_runner = (?r, Inl (NormalizationError ''apiId''))"
    and second: "poll_updates sample_env ?r = (tick sample_env ?r, Inr [])"
    by (simp_all add: prod_eq_iff sample_ticks(1,2))
  have "e \<in> set (drop (length (accepted_events sample_runner)) (accepted_events ?r))"
    using e(1) by (simp add: none)
  from lost_observations [OF env sample_runner_init, where n = 0 and m = 0, simplified, OF refl first this refl second] e
  show ?thesis by blast
qed

end
