(* ===== verification/Actions.thy ===== *)
theory Actions
  imports Prelude
begin

text \<open>
  Stateful Python code as actions: from a state to the state it leaves and its value or exception.
  An exception keeps the changes made before it, as in Python.  The rules of \<open>triple\<close> split a
  property of a method into one fact per call: \<open>triple P m Q E\<close> says that from a state with \<open>P\<close>,
  \<open>m\<close> ends with \<open>Q\<close> of its value, or raises and leaves a state with \<open>E\<close>.
\<close>

named_theorems triple_rules \<open>decomposition of triples along the code\<close>

type_synonym ('s, 'a) action = "'s \<Rightarrow> 's \<times> 'a result"

definition ret :: "'a \<Rightarrow> ('s, 'a) action" where
  "ret x s = (s, Inr x)"

definition raise_act :: "py_error \<Rightarrow> ('s, 'a) action" where
  "raise_act e s = (s, Inl e)"

definition bind_act :: "('s, 'a) action \<Rightarrow> ('a \<Rightarrow> ('s, 'b) action) \<Rightarrow> ('s, 'b) action" where
  "bind_act m f s = (case m s of (s1, Inl e) \<Rightarrow> (s1, Inl e) | (s1, Inr x) \<Rightarrow> f x s1)"

abbreviation seq_act :: "('s, 'a) action \<Rightarrow> ('s, 'b) action \<Rightarrow> ('s, 'b) action" where
  "seq_act m n \<equiv> bind_act m (\<lambda>_. n)"

text \<open>Reading the state, changing it, a fallible pure call, and a call on a part of the state.\<close>

definition reading :: "('s \<Rightarrow> 'a) \<Rightarrow> ('s, 'a) action" where
  "reading f s = (s, Inr (f s))"

definition changing :: "('s \<Rightarrow> 's) \<Rightarrow> ('s, unit) action" where
  "changing f s = (f s, Inr ())"

definition pure_act :: "'a result \<Rightarrow> ('s, 'a) action" where
  "pure_act r s = (s, r)"

definition zoom :: "('s \<Rightarrow> 't) \<Rightarrow> ('t \<Rightarrow> 's \<Rightarrow> 's) \<Rightarrow> ('t, 'a) action \<Rightarrow> ('s, 'a) action" where
  "zoom part put m s = (case m (part s) of (t, r) \<Rightarrow> (put t s, r))"

definition when_act :: "bool \<Rightarrow> ('s, unit) action \<Rightarrow> ('s, unit) action" where
  "when_act c m = (if c then m else ret ())"

text \<open>A loop over a list stops at the first exception.\<close>

primrec for_each :: "('a \<Rightarrow> ('s, unit) action) \<Rightarrow> 'a list \<Rightarrow> ('s, unit) action" where
  "for_each f [] = ret ()"
| "for_each f (x # xs) = seq_act (f x) (for_each f xs)"

primrec collecting :: "('a \<Rightarrow> ('s, 'b) action) \<Rightarrow> 'a list \<Rightarrow> ('s, 'b list) action" where
  "collecting f [] = ret []"
| "collecting f (x # xs) = bind_act (f x) (\<lambda>y. bind_act (collecting f xs) (\<lambda>ys. ret (y # ys)))"

lemmas act_defs = ret_def raise_act_def reading_def changing_def pure_act_def

lemma bind_act_ret [simp]: "bind_act (ret x) f = f x"
  by (simp add: fun_eq_iff bind_act_def ret_def)

lemma bind_act_raise [simp]: "bind_act (raise_act e) f = raise_act e"
  by (simp add: fun_eq_iff bind_act_def raise_act_def)

lemma bind_act_Inr_iff: "bind_act m f s = (s2, Inr y) \<longleftrightarrow> (\<exists>s1 x. m s = (s1, Inr x) \<and> f x s1 = (s2, Inr y))"
  by (auto simp: bind_act_def split: prod.splits sum.splits)

lemma ret_Inr_iff: "ret x s = (s1, r) \<longleftrightarrow> s1 = s \<and> r = Inr x"
  by (auto simp: ret_def)

lemma reading_Inr_iff: "reading f s = (s1, r) \<longleftrightarrow> s1 = s \<and> r = Inr (f s)"
  by (auto simp: reading_def)

lemma changing_Inr_iff: "changing f s = (s1, r) \<longleftrightarrow> s1 = f s \<and> r = Inr ()"
  by (auto simp: changing_def)

lemma pure_act_iff: "pure_act q s = (s1, r) \<longleftrightarrow> s1 = s \<and> q = r"
  by (auto simp: pure_act_def)

lemma zoom_iff: "zoom part put m s = (s1, r) \<longleftrightarrow> (\<exists>t. m (part s) = (t, r) \<and> s1 = put t s)"
  by (auto simp: zoom_def split: prod.splits)

lemmas act_iffs = bind_act_Inr_iff ret_Inr_iff reading_Inr_iff changing_Inr_iff pure_act_iff zoom_iff

lemma for_each_append: "for_each f (xs @ ys) = seq_act (for_each f xs) (for_each f ys)"
  by (induction xs) (simp_all add: fun_eq_iff bind_act_def split: prod.split sum.split)

section \<open>Triples\<close>

definition triple ::
  "('s \<Rightarrow> bool) \<Rightarrow> ('s, 'a) action \<Rightarrow> ('a \<Rightarrow> 's \<Rightarrow> bool) \<Rightarrow> (py_error \<Rightarrow> 's \<Rightarrow> bool) \<Rightarrow> bool" where
  "triple P m Q E \<longleftrightarrow> (\<forall>s. P s \<longrightarrow> (case m s of (s1, Inr x) \<Rightarrow> Q x s1 | (s1, Inl e) \<Rightarrow> E e s1))"

lemma tripleI:
  assumes "\<And>s s1 x. P s \<Longrightarrow> m s = (s1, Inr x) \<Longrightarrow> Q x s1" "\<And>s s1 e. P s \<Longrightarrow> m s = (s1, Inl e) \<Longrightarrow> E e s1"
  shows "triple P m Q E"
  using assms by (auto simp: triple_def split: prod.split sum.split)

lemma triple_Inr: "triple P m Q E \<Longrightarrow> P s \<Longrightarrow> m s = (s1, Inr x) \<Longrightarrow> Q x s1"
  by (auto simp: triple_def dest: spec [of _ s])

lemma triple_Inl: "triple P m Q E \<Longrightarrow> P s \<Longrightarrow> m s = (s1, Inl e) \<Longrightarrow> E e s1"
  by (auto simp: triple_def dest: spec [of _ s])

lemma triple_weaken:
  assumes "triple P' m Q' E'" "\<And>s. P s \<Longrightarrow> P' s" "\<And>x s. Q' x s \<Longrightarrow> Q x s" "\<And>e s. E' e s \<Longrightarrow> E e s"
  shows "triple P m Q E"
  using assms by (fastforce simp: triple_def split: prod.splits sum.splits)

lemma triple_ret [triple_rules]: "(\<And>s. P s \<Longrightarrow> Q x s) \<Longrightarrow> triple P (ret x) Q E"
  by (simp add: triple_def ret_def)

lemma triple_raise [triple_rules]: "(\<And>s. P s \<Longrightarrow> E e s) \<Longrightarrow> triple P (raise_act e) Q E"
  by (simp add: triple_def raise_act_def)

lemma triple_bind [triple_rules]:
  assumes "triple P m R E" and "\<And>x. triple (R x) (f x) Q E"
  shows "triple P (bind_act m f) Q E"
proof (rule tripleI)
  fix s s1 x
  assume "P s" "bind_act m f s = (s1, Inr x)"
  then obtain s0 y where "m s = (s0, Inr y)" "f y s0 = (s1, Inr x)"
    by (auto simp: bind_act_def split: prod.splits sum.splits)
  with \<open>P s\<close> show "Q x s1" using triple_Inr [OF assms(1)] triple_Inr [OF assms(2)] by metis
next
  fix s s1 e
  assume P: "P s" and "bind_act m f s = (s1, Inl e)"
  then consider "m s = (s1, Inl e)" | s0 y where "m s = (s0, Inr y)" "f y s0 = (s1, Inl e)"
    by (auto simp: bind_act_def split: prod.splits sum.splits)
  then show "E e s1"
    using triple_Inl [OF assms(1) P] triple_Inr [OF assms(1) P] triple_Inl [OF assms(2)] by cases metis+
qed

lemma triple_reading [triple_rules]: "(\<And>s. P s \<Longrightarrow> Q (f s) s) \<Longrightarrow> triple P (reading f) Q E"
  by (simp add: triple_def reading_def)

lemma triple_read_bind:
  "(\<And>x. triple (\<lambda>s. P s \<and> x = f s) (g x) Q E) \<Longrightarrow> triple P (bind_act (reading f) g) Q E"
  by (rule triple_bind [where R = "\<lambda>x s. P s \<and> x = f s"]) (simp_all add: triple_reading)

lemma triple_changing [triple_rules]: "(\<And>s. P s \<Longrightarrow> Q () (f s)) \<Longrightarrow> triple P (changing f) Q E"
  by (simp add: triple_def changing_def)

lemma triple_pure [triple_rules]:
  "(\<And>s x. P s \<Longrightarrow> r = Inr x \<Longrightarrow> Q x s) \<Longrightarrow> (\<And>s e. P s \<Longrightarrow> r = Inl e \<Longrightarrow> E e s) \<Longrightarrow> triple P (pure_act r) Q E"
  by (auto simp: triple_def pure_act_def split: sum.split)

lemma triple_when [triple_rules]:
  "(c \<Longrightarrow> triple P m (\<lambda>_. Q ()) E) \<Longrightarrow> (\<And>s. \<not> c \<Longrightarrow> P s \<Longrightarrow> Q () s) \<Longrightarrow> triple P (when_act c m) Q E"
  by (auto simp: when_act_def triple_def ret_def split: prod.splits sum.splits)

lemma triple_if [triple_rules]:
  "(c \<Longrightarrow> triple P m Q E) \<Longrightarrow> (\<not> c \<Longrightarrow> triple P n Q E) \<Longrightarrow> triple P (if c then m else n) Q E"
  by simp

lemma triple_for_each [triple_rules]:
  assumes "\<And>x. x \<in> set xs \<Longrightarrow> triple I (f x) (\<lambda>_. I) E"
  shows "triple I (for_each f xs) (\<lambda>_. I) E"
  using assms by (induction xs) (auto intro!: triple_ret intro: triple_bind)

lemma triple_collecting [triple_rules]:
  assumes "\<And>x. x \<in> set xs \<Longrightarrow> triple I (f x) (\<lambda>_. I) E"
  shows "triple I (collecting f xs) (\<lambda>_. I) E"
  using assms by (induction xs) (auto intro!: triple_ret intro: triple_bind)

text \<open>An action that keeps \<open>I\<close> whether it returns or raises.\<close>

abbreviation keeps :: "('s \<Rightarrow> bool) \<Rightarrow> ('s, 'a) action \<Rightarrow> bool" where
  "keeps I m \<equiv> triple I m (\<lambda>_. I) (\<lambda>_. I)"

lemma keeps_fst: "keeps I m \<Longrightarrow> I s \<Longrightarrow> I (fst (m s))"
  by (cases "m s"; cases "snd (m s)") (auto simp: triple_def split: prod.splits sum.splits)

end
