(* ===== verification/Trading_Day.thy ===== *)
theory Trading_Day
  imports Prelude
begin

text \<open>
  \<open>packages/pipeline/trading_day.py\<close>: the trading day a moment belongs to in Korea.  A date is its
  proleptic ordinal, of which 719163 is 1970-01-01; a time of day is its microseconds.  A naive
  moment has no defined zone there, so the moments are aware.  Shown here: the search for the next
  trading day finds the first one or exhausts its bound, and the opening and closing times of a day
  belong to that day.
\<close>

definition day_length :: timedelta where
  "day_length = 86400000000"

definition KST_OFFSET :: timedelta where
  "KST_OFFSET = 32400000000"

definition EPOCH_ORDINAL :: date where
  "EPOCH_ORDINAL = 719163"

definition MAX_ORDINAL :: date where
  "MAX_ORDINAL = 3652059"

definition SATURDAY :: int where
  "SATURDAY = 5"

definition market_date_for :: "datetime \<Rightarrow> date" where
  "market_date_for now = EPOCH_ORDINAL + (instant now + KST_OFFSET) div day_length"

definition weekday :: "date \<Rightarrow> int" where
  "weekday d = (d + 6) mod 7"

definition is_weekend :: "date \<Rightarrow> bool" where
  "is_weekend market_date \<longleftrightarrow> SATURDAY \<le> weekday market_date"

type_synonym trading_calendar = "(date \<Rightarrow> bool option) option"

definition is_trading_day :: "date \<Rightarrow> trading_calendar \<Rightarrow> bool" where
  "is_trading_day market_date known_trading_days =
     (if is_weekend market_date then False
      else (case known_trading_days of None \<Rightarrow> True
          | Some known \<Rightarrow> (case known market_date of None \<Rightarrow> True | Some b \<Rightarrow> b)))"

text \<open>The loop over the offsets; a date past the year 9999 raises.\<close>

fun trading_day_search :: "date \<Rightarrow> trading_calendar \<Rightarrow> int list \<Rightarrow> date result" where
  "trading_day_search market_date known [] = Inl (ValueError ''trading day'')"
| "trading_day_search market_date known (i # is) =
     (if MAX_ORDINAL < market_date + i then Inl (ArithmeticError ''OverflowError'')
      else if is_trading_day (market_date + i) known then Inr (market_date + i)
      else trading_day_search market_date known is)"

definition next_trading_day :: "date \<Rightarrow> trading_calendar \<Rightarrow> int \<Rightarrow> date result" where
  "next_trading_day market_date known_trading_days max_lookahead_days =
     (if max_lookahead_days \<le> 0 then Inl (ValueError ''max_lookahead_days'')
      else trading_day_search market_date known_trading_days [1..max_lookahead_days])"

definition session_open_at :: "date \<Rightarrow> int \<Rightarrow> datetime" where
  "session_open_at market_date open_time =
     Aware ((market_date - EPOCH_ORDINAL) * day_length + open_time - KST_OFFSET) 0"

definition session_close_at :: "date \<Rightarrow> int \<Rightarrow> datetime" where
  "session_close_at market_date close_time =
     Aware ((market_date - EPOCH_ORDINAL) * day_length + close_time - KST_OFFSET) 0"

section \<open>The day of a moment\<close>

lemma market_date_for_times:
  assumes "0 \<le> t" "t < day_length"
  shows "market_date_for (session_open_at d t) = d" "market_date_for (session_close_at d t) = d"
  using assms by (simp_all add: market_date_for_def session_open_at_def session_close_at_def day_length_def)

lemma market_date_for_mono: "instant s \<le> instant t \<Longrightarrow> market_date_for s \<le> market_date_for t"
  by (simp add: market_date_for_def day_length_def zdiv_mono1)

section \<open>The next trading day\<close>

lemma trading_day_search_Inr:
  "trading_day_search d known [i..n] = Inr r \<longleftrightarrow>
     d + i \<le> r \<and> r \<le> d + n \<and> r \<le> MAX_ORDINAL \<and> is_trading_day r known
     \<and> (\<forall>x. d + i \<le> x \<and> x < r \<longrightarrow> \<not> is_trading_day x known)"
proof (induction "nat (n + 1 - i)" arbitrary: i)
  case 0
  then show ?case by simp
next
  case (Suc k)
  then have IH: "trading_day_search d known [i + 1..n] = Inr r \<longleftrightarrow>
     d + (i + 1) \<le> r \<and> r \<le> d + n \<and> r \<le> MAX_ORDINAL \<and> is_trading_day r known
     \<and> (\<forall>x. d + (i + 1) \<le> x \<and> x < r \<longrightarrow> \<not> is_trading_day x known)" by simp
  have "[i..n] = i # [i + 1..n]" using Suc.hyps(2) by (simp add: upto_rec1)
  then show ?case
  proof (cases "MAX_ORDINAL < d + i \<or> is_trading_day (d + i) known")
    case True
    with \<open>[i..n] = i # [i + 1..n]\<close> show ?thesis using Suc.hyps(2) by (auto simp: not_less)
  next
    case False
    have "d + i \<le> r \<longleftrightarrow> r = d + i \<or> d + (i + 1) \<le> r" by auto
    moreover have "(\<forall>x. d + i \<le> x \<and> x < r \<longrightarrow> \<not> is_trading_day x known)
        \<longleftrightarrow> (\<forall>x. d + (i + 1) \<le> x \<and> x < r \<longrightarrow> \<not> is_trading_day x known)"
      using False by (metis add1_zle_eq add.assoc order_le_less)
    ultimately show ?thesis using False \<open>[i..n] = i # [i + 1..n]\<close> IH by auto
  qed
qed

text \<open>
  The search returns a day exactly when it is the first trading day after the given one, within
  the bound and the range of dates; so it never skips a trading day, and it only raises when
  there is none in reach.
\<close>

theorem next_trading_day_first:
  "next_trading_day d known n = Inr r \<longleftrightarrow>
     d < r \<and> r \<le> d + n \<and> r \<le> MAX_ORDINAL \<and> is_trading_day r known
     \<and> (\<forall>x. d < x \<and> x < r \<longrightarrow> \<not> is_trading_day x known)"
  by (auto simp: next_trading_day_def trading_day_search_Inr)

theorem next_trading_day_first_witness:
  "next_trading_day 719164 None 14 = Inr 719167 \<and> is_trading_day 719167 None
   \<and> is_weekend 719165 \<and> is_weekend 719166"
proof -
  have "next_trading_day 719164 None 14 = Inr 719167" by code_simp
  moreover have "is_trading_day 719167 None" using calculation next_trading_day_first by blast
  moreover have "is_weekend 719165" "is_weekend 719166" by code_simp+
  ultimately show ?thesis by simp
qed

end
