(* ===== verification/Day_Loop.thy ===== *)
theory Day_Loop
  imports Publish_Loop
begin

text \<open>
  \<open>packages/pipeline/runner.py\<close>, \<open>TradingDayLoop\<close>: one session per trading day.  A session is
  anything that ticks and closes; \<open>build_session\<close> may answer None or raise.  The loop is proved
  against an acceptor of its calls: sessions run only on their own trading day, a day is closed
  before the next one is assembled, and assembling again waits.
\<close>

definition SESSION_RETRY_INTERVAL :: timedelta where
  "SESSION_RETRY_INTERVAL = 300000000"

record ('w, 's, 'v) day_env =
  de_build_session :: "date \<Rightarrow> ('w, 's option) action"
  de_session_tick :: "('w \<times> 's, 'v) action"
  de_session_close :: "('w \<times> 's, unit) action"
  de_clock :: "('w, datetime) action"
  de_known_trading_days :: trading_calendar

record ('w, 's) trading_day_loop =
  td_world :: 'w
  td_interval :: timedelta
  td_market_date :: "date option"
  td_session :: "'s option"
  td_retry_at :: "datetime option"

definition trading_day_loop_init :: "'w \<Rightarrow> timedelta \<Rightarrow> ('w, 's) trading_day_loop result" where
  "trading_day_loop_init w interval = validate [(0 < interval, ValueError ''interval'')]
     \<lparr>td_world = w, td_interval = interval, td_market_date = None, td_session = None, td_retry_at = None\<rparr>"

definition outside :: "('w, 'a) action \<Rightarrow> (('w, 's) trading_day_loop, 'a) action" where
  "outside = zoom td_world (\<lambda>w l. l\<lparr>td_world := w\<rparr>)"

text \<open>A call on the session object, when there is one.\<close>

definition on_session :: "('w \<times> 's, 'a) action \<Rightarrow> (('w, 's) trading_day_loop, 'a option) action" where
  "on_session m = (\<lambda>l. case td_session l of None \<Rightarrow> (l, Inr None)
     | Some s \<Rightarrow> (case m (td_world l, s) of ((w, s1), r) \<Rightarrow>
         (l\<lparr>td_world := w, td_session := Some s1\<rparr>, map_sum id Some r)))"

definition assemble :: "('w, 's, 'v) day_env \<Rightarrow> date \<Rightarrow> datetime \<Rightarrow> (('w, 's) trading_day_loop, unit) action" where
  "assemble env today now =
     seq_act (changing (\<lambda>l. l\<lparr>td_retry_at := Some (shift now SESSION_RETRY_INTERVAL)\<rparr>))
       (bind_act (outside (de_build_session env today)) (\<lambda>s. changing (\<lambda>l. l\<lparr>td_session := s\<rparr>)))"

definition roll_over :: "('w, 's, 'v) day_env \<Rightarrow> date \<Rightarrow> datetime \<Rightarrow> (('w, 's) trading_day_loop, unit) action" where
  "roll_over env today now =
     seq_act (on_session (de_session_close env)) (
     seq_act (changing (\<lambda>l. l\<lparr>td_session := None, td_market_date := Some today, td_retry_at := None\<rparr>))
       (when_act (is_trading_day today (de_known_trading_days env)) (assemble env today now)))"

definition retry_due :: "datetime \<Rightarrow> ('w, 's) trading_day_loop \<Rightarrow> bool" where
  "retry_due now l \<longleftrightarrow> td_session l = None \<and> is_past now (td_retry_at l)"

definition day_tick :: "('w, 's, 'v) day_env \<Rightarrow> (('w, 's) trading_day_loop, 'v option) action" where
  "day_tick env =
     bind_act (outside (de_clock env)) (\<lambda>now.
     let today = market_date_for now in
     seq_act (bind_act (reading (\<lambda>l. (td_market_date l \<noteq> Some today, retry_due now l))) (\<lambda>(other_day, due).
         if other_day then roll_over env today now else when_act due (assemble env today now)))
       (on_session (de_session_tick env)))"

section \<open>The calls of the loop\<close>

datatype day_call =
    Reading datetime
  | Building date bool
  | Ending date bool
  | Running date

text \<open>The world keeps a log of the calls, and a session the day it was assembled for.\<close>

definition watched :: "('w, 's, 'v) day_env \<Rightarrow> ('w \<times> day_call list, date \<times> 's, 'v) day_env" where
  "watched env =
     \<lparr>de_build_session = (\<lambda>d (w, cs). case de_build_session env d w of
         (w1, Inl e) \<Rightarrow> ((w1, cs @ [Building d False]), Inl e)
       | (w1, Inr s) \<Rightarrow> ((w1, cs @ [Building d (s \<noteq> None)]), Inr (map_option (Pair d) s))),
      de_session_tick = (\<lambda>((w, cs), (d, s)). case de_session_tick env (w, s) of
         ((w1, s1), r) \<Rightarrow> (((w1, cs @ [Running d]), (d, s1)), r)),
      de_session_close = (\<lambda>((w, cs), (d, s)). case de_session_close env (w, s) of
         ((w1, s1), r) \<Rightarrow> (((w1, cs @ [Ending d (succeeded r)]), (d, s1)), r)),
      de_clock = (\<lambda>(w, cs). case de_clock env w of
         (w1, Inl e) \<Rightarrow> ((w1, cs), Inl e) | (w1, Inr t) \<Rightarrow> ((w1, cs @ [Reading t]), Inr t)),
      de_known_trading_days = de_known_trading_days env\<rparr>"

text \<open>
  The specification: the last moment read, the day of the session that is open, and the last
  attempt to assemble one that day.
\<close>

record day_spec =
  sp_now :: "datetime option"
  sp_open :: "date option"
  sp_attempt :: "datetime option"

definition today_of :: "day_spec \<Rightarrow> date option" where
  "today_of p = map_option market_date_for (sp_now p)"

fun spec_call :: "trading_calendar \<Rightarrow> day_spec option \<Rightarrow> day_call \<Rightarrow> day_spec option" where
  "spec_call known None call = None"
| "spec_call known (Some p) (Reading t) =
     Some (p\<lparr>sp_now := Some t,
       sp_attempt := (if today_of p = Some (market_date_for t) then sp_attempt p else None)\<rparr>)"
| "spec_call known (Some p) (Building d built) =
     (if today_of p = Some d \<and> is_trading_day d known \<and> sp_open p = None
         \<and> (\<forall>t\<in>set_option (sp_attempt p). \<forall>now\<in>set_option (sp_now p).
              instant t + SESSION_RETRY_INTERVAL \<le> instant now)
      then Some (p\<lparr>sp_open := (if built then Some d else None), sp_attempt := sp_now p\<rparr>) else None)"
| "spec_call known (Some p) (Ending d ok) =
     (if sp_open p = Some d \<and> today_of p \<noteq> Some d
      then Some (p\<lparr>sp_open := (if ok then None else Some d)\<rparr>) else None)"
| "spec_call known (Some p) (Running d) =
     (if sp_open p = Some d \<and> today_of p = Some d then Some p else None)"

definition spec_calls :: "trading_calendar \<Rightarrow> day_call list \<Rightarrow> day_spec option" where
  "spec_calls known calls = foldl (spec_call known) (Some \<lparr>sp_now = None, sp_open = None, sp_attempt = None\<rparr>) calls"

text \<open>
  The simulation: the loop holds the open session of the specification, on its trading day, and its
  retry time is at least the interval after the last attempt of the day.  Two intermediate points of
  a tick: a moment was read, and the loop is ready to assemble a session for its day.
\<close>

type_synonym ('w, 's) watched_loop = "('w \<times> day_call list, date \<times> 's) trading_day_loop"

definition sim_with :: "trading_calendar \<Rightarrow> ('w, 's) watched_loop \<Rightarrow> day_spec \<Rightarrow> bool" where
  "sim_with known l p \<longleftrightarrow>
     spec_calls known (snd (td_world l)) = Some p \<and> sp_open p = map_option fst (td_session l)
     \<and> (\<forall>d. sp_open p = Some d \<longrightarrow> td_market_date l = Some d \<and> is_trading_day d known)
     \<and> (td_retry_at l \<noteq> None \<longrightarrow> (\<exists>d. td_market_date l = Some d \<and> is_trading_day d known))
     \<and> (\<forall>t. sp_attempt p = Some t \<longrightarrow>
          today_of p = Some (market_date_for t) \<and> td_market_date l = Some (market_date_for t)
          \<and> (\<exists>r. td_retry_at l = Some r \<and> instant t + SESSION_RETRY_INTERVAL \<le> instant r))"

definition day_sim :: "trading_calendar \<Rightarrow> ('w, 's) watched_loop \<Rightarrow> bool" where
  "day_sim known l \<longleftrightarrow> (\<exists>p. sim_with known l p)"

definition sim_at :: "trading_calendar \<Rightarrow> datetime \<Rightarrow> ('w, 's) watched_loop \<Rightarrow> bool" where
  "sim_at known now l \<longleftrightarrow> (\<exists>p. sim_with known l p \<and> sp_now p = Some now)"

definition ready_at :: "trading_calendar \<Rightarrow> datetime \<Rightarrow> ('w, 's) watched_loop \<Rightarrow> bool" where
  "ready_at known now l \<longleftrightarrow> td_session l = None \<and> td_market_date l = Some (market_date_for now)
     \<and> (\<exists>p. spec_calls known (snd (td_world l)) = Some p \<and> sp_now p = Some now \<and> sp_open p = None
          \<and> (\<forall>t. sp_attempt p = Some t \<longrightarrow> instant t + SESSION_RETRY_INTERVAL \<le> instant now))"

lemma sim_at_sim: "sim_at known now l \<Longrightarrow> day_sim known l"
  by (auto simp: sim_at_def day_sim_def)

lemma spec_calls_snoc [simp]: "spec_calls known (cs @ [c]) = spec_call known (spec_calls known cs) c"
  by (simp add: spec_calls_def)

lemma read_sim:
  "triple (day_sim (de_known_trading_days env)) (outside (de_clock (watched env)))
     (sim_at (de_known_trading_days env)) (\<lambda>_. day_sim (de_known_trading_days env))"
  by (fastforce simp: triple_def outside_def zoom_def watched_def day_sim_def sim_at_def sim_with_def today_of_def
      split: prod.splits sum.splits if_splits)

lemma assemble_sim:
  "triple (\<lambda>l. ready_at (de_known_trading_days env) now l \<and> is_trading_day (market_date_for now) (de_known_trading_days env))
     (assemble (watched env) (market_date_for now) now)
     (\<lambda>_ l. sim_at (de_known_trading_days env) now l \<and> td_market_date l = Some (market_date_for now))
     (\<lambda>_. day_sim (de_known_trading_days env))"
  by (auto simp: triple_def assemble_def bind_act_def changing_def outside_def zoom_def watched_def
      ready_at_def sim_at_def day_sim_def sim_with_def today_of_def split: prod.splits sum.splits if_splits option.splits)

lemma roll_over_ready:
  "triple (\<lambda>l. sim_at (de_known_trading_days env) now l \<and> td_market_date l \<noteq> Some (market_date_for now))
     (on_session (de_session_close (watched env)))
     (\<lambda>_ l. \<exists>p. spec_calls (de_known_trading_days env) (snd (td_world l)) = Some p \<and> sp_now p = Some now
        \<and> sp_open p = None \<and> sp_attempt p = None)
     (\<lambda>_. day_sim (de_known_trading_days env))"
proof -
  let ?known = "de_known_trading_days env"
  have "case on_session (de_session_close (watched env)) l of
      (l1, Inr x) \<Rightarrow> \<exists>p. spec_calls ?known (snd (td_world l1)) = Some p \<and> sp_now p = Some now
        \<and> sp_open p = None \<and> sp_attempt p = None
    | (l1, Inl e) \<Rightarrow> day_sim ?known l1"
    if l: "sim_at ?known now l" "td_market_date l \<noteq> Some (market_date_for now)" for l :: "('a, 'b) watched_loop"
  proof -
    obtain p where p: "sim_with ?known l p" "sp_now p = Some now" using l(1) by (auto simp: sim_at_def)
    have attempt: "sp_attempt p = None"
      using p l(2) by (cases "sp_attempt p") (auto simp: sim_with_def today_of_def)
    show ?thesis
    proof (cases "td_session l")
      case None
      with p attempt show ?thesis by (auto simp: on_session_def sim_with_def)
    next
      case (Some x)
      obtain d s where x: "x = (d, s)" by (cases x)
      obtain w cs where w: "td_world l = (w, cs)" by (cases "td_world l")
      obtain w1 s1 r where r: "de_session_close env (w, s) = ((w1, s1), r)"
        by (metis prod.exhaust)
      have "sp_open p = Some d" "d \<noteq> market_date_for now" "spec_calls ?known cs = Some p"
        using p(1) l(2) Some x w by (auto simp: sim_with_def)
      then have "spec_calls ?known (cs @ [Ending d (succeeded r)])
          = Some (p\<lparr>sp_open := (if succeeded r then None else Some d)\<rparr>)"
        using p(2) by (simp add: today_of_def)
      with p attempt Some x w r show ?thesis
        by (cases r) (auto simp: on_session_def watched_def succeeded_def day_sim_def sim_with_def)
    qed
  qed
  then show ?thesis by (auto simp: triple_def)
qed

lemma roll_over_sim:
  "triple (\<lambda>l. sim_at (de_known_trading_days env) now l \<and> td_market_date l \<noteq> Some (market_date_for now))
     (roll_over (watched env) (market_date_for now) now)
     (\<lambda>_ l. sim_at (de_known_trading_days env) now l \<and> td_market_date l = Some (market_date_for now))
     (\<lambda>_. day_sim (de_known_trading_days env))"
  unfolding roll_over_def
proof (rule triple_bind [OF roll_over_ready], rule triple_bind)
  let ?known = "de_known_trading_days env"
  show "triple (\<lambda>l. \<exists>p. spec_calls ?known (snd (td_world l)) = Some p \<and> sp_now p = Some now
        \<and> sp_open p = None \<and> sp_attempt p = None)
      (changing (\<lambda>l. l\<lparr>td_session := None, td_market_date := Some (market_date_for now), td_retry_at := None\<rparr>))
      (\<lambda>_ l. ready_at ?known now l \<and> sim_at ?known now l) (\<lambda>_. day_sim ?known)"
    by (fastforce simp: triple_def changing_def ready_at_def sim_at_def sim_with_def)
  show "triple (\<lambda>l. ready_at ?known now l \<and> sim_at ?known now l)
      (when_act (is_trading_day (market_date_for now) (de_known_trading_days (watched env)))
        (assemble (watched env) (market_date_for now) now))
      (\<lambda>_ l. sim_at ?known now l \<and> td_market_date l = Some (market_date_for now)) (\<lambda>_. day_sim ?known)"
    by (rule triple_when, rule triple_weaken [OF assemble_sim]) (auto simp: watched_def ready_at_def)
qed

lemma retry_ready:
  "sim_at known now l \<Longrightarrow> td_market_date l = Some (market_date_for now) \<Longrightarrow> retry_due now l
    \<Longrightarrow> ready_at known now l \<and> is_trading_day (market_date_for now) known"
  by (fastforce simp: sim_at_def sim_with_def retry_due_def ready_at_def is_past_def split: option.splits)

lemma run_sim:
  "triple (\<lambda>l. sim_at (de_known_trading_days env) now l \<and> td_market_date l = Some (market_date_for now))
     (on_session (de_session_tick (watched env)))
     (\<lambda>_. day_sim (de_known_trading_days env)) (\<lambda>_. day_sim (de_known_trading_days env))"
  by (fastforce simp: triple_def on_session_def watched_def sim_at_def day_sim_def sim_with_def today_of_def
      split: prod.splits sum.splits if_splits option.splits)

lemma day_tick_sim: "keeps (day_sim (de_known_trading_days env)) (day_tick (watched env))"
  unfolding day_tick_def Let_def
proof (rule triple_bind [OF read_sim], rule triple_bind [OF triple_read_bind run_sim])
  let ?known = "de_known_trading_days env"
  fix now and c :: "bool \<times> bool"
  obtain b d where c: "c = (b, d)" by (cases c)
  have "triple (\<lambda>l. sim_at ?known now l \<and> b = (td_market_date l \<noteq> Some (market_date_for now)) \<and> d = retry_due now l)
      (if b then roll_over (watched env) (market_date_for now) now
       else when_act d (assemble (watched env) (market_date_for now) now))
      (\<lambda>_ l. sim_at ?known now l \<and> td_market_date l = Some (market_date_for now)) (\<lambda>_. day_sim ?known)"
  proof (rule triple_if)
    assume b
    then show "triple (\<lambda>l. sim_at ?known now l \<and> b = (td_market_date l \<noteq> Some (market_date_for now)) \<and> d = retry_due now l)
        (roll_over (watched env) (market_date_for now) now)
        (\<lambda>_ l. sim_at ?known now l \<and> td_market_date l = Some (market_date_for now)) (\<lambda>_. day_sim ?known)"
      by (auto intro: triple_weaken [OF roll_over_sim])
  next
    assume "\<not> b"
    then show "triple (\<lambda>l. sim_at ?known now l \<and> b = (td_market_date l \<noteq> Some (market_date_for now)) \<and> d = retry_due now l)
        (when_act d (assemble (watched env) (market_date_for now) now))
        (\<lambda>_ l. sim_at ?known now l \<and> td_market_date l = Some (market_date_for now)) (\<lambda>_. day_sim ?known)"
      by (auto intro!: triple_when triple_weaken [OF assemble_sim] dest: retry_ready)
  qed
  then show "triple (\<lambda>l. sim_at ?known now l \<and> c = (td_market_date l \<noteq> Some (market_date_for now), retry_due now l))
      (case c of (other_day, due) \<Rightarrow> if other_day then roll_over (watched env) (market_date_for now) now
         else when_act due (assemble (watched env) (market_date_for now) now))
      (\<lambda>_ l. sim_at ?known now l \<and> td_market_date l = Some (market_date_for now)) (\<lambda>_. day_sim ?known)"
    unfolding c prod.case by (rule triple_weaken) auto
qed

abbreviation day_step :: "('w, 's, 'v) day_env \<Rightarrow> (('w, 's) trading_day_loop, unit, 'v option) step" where
  "day_step env \<equiv> \<lambda>l _. day_tick env l"

interpretation day_loop: invariant_machine "day_step (watched env)" "day_sim (de_known_trading_days env)" for env
  by unfold_locales (rule keeps_fst [OF day_tick_sim])

text \<open>
  C39. Whatever the sessions, the preparation and the clock do, and although a tick that raises is
  followed by the next: a session runs only on the trading day it was prepared for, it is ended
  only on another day, a session is only prepared on a trading day when none is open, and two
  preparations of a day lie at least five minutes apart.
\<close>

theorem sessions_match_days:
  assumes "trading_day_loop_init (w, []) interval = Inr l"
  shows "spec_calls (de_known_trading_days env) (snd (td_world (run (day_step (watched env)) l ticks))) \<noteq> None"
proof -
  have "day_sim (de_known_trading_days env) l" using assms
    unfolding trading_day_loop_init_def validate_Inr_iff by (auto simp: day_sim_def sim_with_def spec_calls_def)
  from day_loop.run_inv [OF this, of ticks] show ?thesis by (auto simp: day_sim_def sim_with_def)
qed

text \<open>Two days around midnight; the first preparation of the second day raises.\<close>

definition sample_days :: "(nat, nat, unit) day_env" where
  "sample_days =
     \<lparr>de_build_session = (\<lambda>d n. (n, if n = 3 then Inl (ValueError ''reference'') else Inr (Some 0))),
      de_session_tick = (\<lambda>s. (s, Inr ())), de_session_close = (\<lambda>s. (s, Inr ())),
      de_clock = (\<lambda>n. (n + 1, Inr (Aware (int n * 43200000000) 0))), de_known_trading_days = None\<rparr>"

definition sample_day_loop :: "(nat \<times> day_call list, date \<times> nat) trading_day_loop" where
  "sample_day_loop = \<lparr>td_world = (0, []), td_interval = 1, td_market_date = None, td_session = None, td_retry_at = None\<rparr>"

lemma sample_day_calls:
  "snd (td_world (run (day_step (watched sample_days)) sample_day_loop [(), (), (), ()]))
   = [Reading (Aware 0 0), Building 719163 True, Running 719163,
      Reading (Aware 43200000000 0), Running 719163,
      Reading (Aware 86400000000 0), Ending 719163 True, Building 719164 False,
      Reading (Aware 129600000000 0), Building 719164 True, Running 719164]"
  by code_simp

theorem sessions_match_days_witness:
  "snd (td_world (run (day_step (watched sample_days)) sample_day_loop [(), (), (), ()]))
   = [Reading (Aware 0 0), Building 719163 True, Running 719163,
      Reading (Aware 43200000000 0), Running 719163,
      Reading (Aware 86400000000 0), Ending 719163 True, Building 719164 False,
      Reading (Aware 129600000000 0), Building 719164 True, Running 719164]
   \<and> spec_calls None (snd (td_world (run (day_step (watched sample_days)) sample_day_loop [(), (), (), ()]))) \<noteq> None"
proof -
  have "trading_day_loop_init (0, []) 1 = Inr sample_day_loop"
    by (simp add: trading_day_loop_init_def sample_day_loop_def)
  from sessions_match_days [OF this, of sample_days "[(), (), (), ()]"] sample_day_calls show ?thesis
    by (simp add: sample_days_def)
qed

end
