(* ===== verification/Public_Views.thy ===== *)
theory Public_Views
  imports Theme_Metrics Event_Models
begin

text \<open>
  The dictionaries the read side shows: \<open>to_public_dict\<close> of \<open>packages/domain/coverage.py\<close> and
  \<open>packages/events/models.py\<close>, the ranking fields and the current reaction of
  \<open>packages/calculations/theme_metrics.py\<close>, and the evidence of \<open>packages/catalyst/projection.py\<close>.
  A \<open>Decimal\<close> becomes a double there.
\<close>

section \<open>Doubles\<close>

text \<open>The exponent of the leading bit, by the sizes of numerator and denominator.\<close>

function bit_count :: "int \<Rightarrow> int" where
  "bit_count n = (if n \<le> 0 then 0 else 1 + bit_count (n div 2))"
  by pat_completeness auto
termination
  by (relation "measure nat") auto

declare bit_count.simps [simp del]

definition leading_bit :: "rat \<Rightarrow> int" where
  "leading_bit x =
     (let (n, d) = quotient_of x; k = bit_count n - bit_count d
      in if 2 powi k \<le> x then k else k - 1)"

text \<open>
  \<open>float(value)\<close>: the nearest multiple of the unit of the last of 53 bits, ties to even; below the
  normal numbers the unit is the smallest double.  Numbers past the largest double are outside the
  model.
\<close>

definition to_double :: "rat \<Rightarrow> rat" where
  "to_double x =
     (if x = 0 then 0
      else let u = 2 powi (max (leading_bit \<bar>x\<bar> - 52) (- 1074))
           in of_int (round_half_even (x / u)) * u)"

definition decimal_to_number :: "rat option \<Rightarrow> json" where
  "decimal_to_number v = json_opt (\<lambda>x. JNum (to_double x)) v"

section \<open>Coverage, classification and metrics\<close>

definition coverage_part_to_public :: "coverage_part \<Rightarrow> bool \<Rightarrow> json" where
  "coverage_part_to_public c include_weight = JObj
     ([(''observedCount'', JInt (cp_observed_count c)), (''totalCount'', JInt (cp_total_count c)),
       (''countRatio'', decimal_to_number (cp_count_ratio c))]
      @ (if include_weight
         then [(''observedWeightRatio'', decimal_to_number (map_option dval (cp_observed_weight_ratio c)))]
         else []))"

definition coverage_to_public :: "coverage \<Rightarrow> json" where
  "coverage_to_public c = JObj
     [(''status'', JStr (case cov_status c of SUFFICIENT \<Rightarrow> ''SUFFICIENT'' | PARTIAL \<Rightarrow> ''PARTIAL''
         | INSUFFICIENT \<Rightarrow> ''INSUFFICIENT'')),
      (''core'', coverage_part_to_public (cov_core c) True),
      (''related'', coverage_part_to_public (cov_related c) False)]"

definition classification_to_public :: "event_classification \<Rightarrow> json" where
  "classification_to_public c = JObj
     [(''classificationVersion'', JInt (ec_classification_version c)),
      (''themeId'', JStr (ec_theme_id c)), (''displayName'', JStr (ec_display_name c)),
      (''kind'', JStr (kind_value (ec_kind c))), (''certainty'', JStr (certainty_value (ec_certainty c))),
      (''source'', JStr (source_value (ec_source c))), (''changedAt'', JTime (ec_changed_at c))]"

definition ranking_fields :: "theme_metrics \<Rightarrow> string list \<Rightarrow> (string \<times> json) list" where
  "ranking_fields m additional_quality_flags =
     [(''weightedReturn'', decimal_to_number (mt_weighted_return m)),
      (''weightMethod'', JStr ''FREE_FLOAT_CAPPED''),
      (''advancingCount'', json_opt (JInt \<circ> int) (mt_advancing_count m)),
      (''validCount'', json_opt (JInt \<circ> int) (mt_valid_count m)),
      (''coverage'', coverage_to_public (mt_coverage m)),
      (''qualityFlags'', JList (map JStr (sorted_set (mt_quality_flags m @ additional_quality_flags))))]"

text \<open>The gap is counted, so it is never negative and the check of the code cannot fail.\<close>

definition current_reaction :: "theme_metrics \<Rightarrow> rat option \<Rightarrow> nat option \<Rightarrow> json" where
  "current_reaction m turnover_multiple attention_gap_trading_days = JObj
     [(''weightedReturn'', decimal_to_number (mt_weighted_return m)),
      (''weightMethod'', JStr ''FREE_FLOAT_CAPPED''),
      (''advancingCount'', json_opt (JInt \<circ> int) (mt_advancing_count m)),
      (''validCount'', json_opt (JInt \<circ> int) (mt_valid_count m)),
      (''turnoverMultiple'', decimal_to_number turnover_multiple),
      (''attentionGapTradingDays'', json_opt (JInt \<circ> int) attention_gap_trading_days)]"

section \<open>Evidence\<close>

datatype evidence_status =
  SEARCHING | SINGLE_SOURCE | MULTI_SOURCE_CONFIRMED | NO_NEW_CATALYST | REEMERGENCE | AFTER_CLOSE_CONFIRMED

fun evidence_value :: "evidence_status \<Rightarrow> string" where
  "evidence_value SEARCHING = ''SEARCHING''"
| "evidence_value SINGLE_SOURCE = ''SINGLE_SOURCE''"
| "evidence_value MULTI_SOURCE_CONFIRMED = ''MULTI_SOURCE_CONFIRMED''"
| "evidence_value NO_NEW_CATALYST = ''NO_NEW_CATALYST''"
| "evidence_value REEMERGENCE = ''REEMERGENCE''"
| "evidence_value AFTER_CLOSE_CONFIRMED = ''AFTER_CLOSE_CONFIRMED''"

datatype match_basis = MATCH_THEME | MATCH_STOCK | MATCH_TIME

fun basis_value :: "match_basis \<Rightarrow> string" where
  "basis_value MATCH_THEME = ''THEME''"
| "basis_value MATCH_STOCK = ''STOCK''"
| "basis_value MATCH_TIME = ''TIME''"

datatype extraction_method = RULE | LLM_GROUNDED

record catalyst_evidence =
  ca_news_id :: string
  ca_event_id :: string
  ca_publisher :: string
  ca_title :: string
  ca_summary :: string
  ca_match_basis :: "match_basis list"
  ca_entities :: "string list"
  ca_published_at :: "datetime option"
  ca_received_at :: datetime
  ca_original_url :: string
  ca_quality_flags :: "string list"
  ca_extraction_method :: extraction_method
  ca_model_name :: "string option"
  ca_prompt_version :: "string option"
  ca_confidence :: "rat option"
  ca_generated_at :: datetime

record evidence_revision =
  vr_event_id :: string
  vr_revision :: int
  vr_evidence_status :: evidence_status
  vr_summary :: "string option"
  vr_news_ids :: "string list"
  vr_catalyst_key :: "string option"
  vr_reason :: string
  vr_policy_version :: string
  vr_decided_at :: datetime
  vr_evidence_confirmed_at :: "datetime option"

definition evidence_revision_init :: "evidence_revision \<Rightarrow> evidence_revision result" where
  "evidence_revision_init r = validate [(1 \<le> vr_revision r, ValueError ''revision'')] r"

definition DEFAULT_PAGE_LIMIT :: nat where
  "DEFAULT_PAGE_LIMIT = 20"

definition evidence_item :: "catalyst_evidence \<Rightarrow> json" where
  "evidence_item x = JObj
     [(''newsId'', JStr (ca_news_id x)), (''sourceName'', JStr (ca_publisher x)),
      (''title'', JStr (ca_title x)), (''publishedAt'', json_opt JTime (ca_published_at x)),
      (''receivedAt'', JTime (ca_received_at x)), (''originalUrl'', JStr (ca_original_url x)),
      (''matchBasis'', JList (map (JStr \<circ> basis_value) (ca_match_basis x))),
      (''summary'', JStr (ca_summary x)), (''qualityFlags'', JList (map JStr (ca_quality_flags x)))]"

definition selected_evidence :: "evidence_revision \<Rightarrow> catalyst_evidence list \<Rightarrow> catalyst_evidence list" where
  "selected_evidence r evidence = filter (\<lambda>x. ca_news_id x \<in> set (vr_news_ids r)) evidence"

definition evidence_list_data :: "evidence_revision \<Rightarrow> catalyst_evidence list \<Rightarrow> nat \<Rightarrow> json" where
  "evidence_list_data r evidence limit =
     (let selected = selected_evidence r evidence; page = take limit selected; more = limit < length selected
      in JObj
       [(''eventId'', JStr (vr_event_id r)), (''evidenceStatus'', JStr (evidence_value (vr_evidence_status r))),
        (''items'', JList (map evidence_item page)),
        (''page'', JObj [(''nextCursor'', if more then JStr (ca_news_id (last page)) else JNull),
           (''hasMore'', JBool more), (''limit'', JInt (int limit))])])"

text \<open>
  The publishers are compared after \<open>strip().casefold()\<close>, a function of the text that is a
  parameter; \<open>max\<close> of the publication times keeps the first of equal ones.
\<close>

record evidence_summary_data =
  sy_evidence_status :: evidence_status
  sy_summary :: "string option"
  sy_source_count :: nat
  sy_latest_published_at :: "datetime option"

definition evidence_summary ::
  "(string \<Rightarrow> string) \<Rightarrow> evidence_revision \<Rightarrow> catalyst_evidence list \<Rightarrow> evidence_summary_data" where
  "evidence_summary folded r evidence =
     (let selected = selected_evidence r evidence
      in \<lparr>sy_evidence_status = vr_evidence_status r, sy_summary = vr_summary r,
          sy_source_count = length (remdups
            (map (folded \<circ> ca_publisher) (filter (\<lambda>x. \<not> blank (ca_publisher x)) selected))),
          sy_latest_published_at = (case List.map_filter ca_published_at selected of [] \<Rightarrow> None
            | t # ts \<Rightarrow> Some (foldl later t ts))\<rparr>)"

definition evidence_summary_to_public :: "evidence_summary_data \<Rightarrow> json" where
  "evidence_summary_to_public s = JObj
     [(''evidenceStatus'', JStr (evidence_value (sy_evidence_status s))),
      (''summary'', json_opt JStr (sy_summary s)), (''sourceCount'', JInt (int (sy_source_count s))),
      (''latestPublishedAt'', json_opt JTime (sy_latest_published_at s))]"

text \<open>What a ranking shows of it, and what is shown before anything was decided.\<close>

definition searching_summary :: evidence_summary_data where
  "searching_summary = \<lparr>sy_evidence_status = SEARCHING, sy_summary = None, sy_source_count = 0,
     sy_latest_published_at = None\<rparr>"

end
