(* ===== verification/Intraday_History.thy ===== *)
theory Intraday_History
  imports Attention Trading_Day
begin

text \<open>
  \<open>packages/pipeline/history.py\<close>: the files of each trading day, from which later days take their
  baselines.  A directory per day holds one file per minute, the membership of the day and its
  attention signals; a file is replaced as a whole.  The rows of a file are what \<open>json.dumps\<close> wrote
  and \<open>json.loads\<close> gives back: texts, truth values, whole numbers, and decimals and timestamps as
  their exact texts.  Shown here: what was recorded for a minute of a day is what later days load
  for that minute, whatever was recorded before or after for other minutes and days.
\<close>

section \<open>Rows\<close>

record turnover_row =
  hr_stock_id :: string
  hr_observed_at :: datetime
  hr_cumulative_trading_value :: "decimal option"
  hr_comparable :: bool
  hr_fresh :: bool
  hr_trading_halted :: bool
  hr_corporate_action_unresolved :: bool

record membership_row =
  hm_theme_id :: string
  hm_version :: string
  hm_effective_from :: date
  hm_known_at :: datetime
  hm_members :: "(string \<times> membership_role) list"

record attention_row =
  ha_is_attention :: "bool option"
  ha_membership_version :: "string option"
  ha_calculation_version :: string
  ha_baseline_version :: string
  ha_attention_policy_version :: string
  ha_turnover_multiple :: "rat option"
  ha_high_interest_count :: "nat option"
  ha_valid_count :: "nat option"
  ha_high_interest_ratio :: "rat option"
  ha_weighted_return :: "rat option"
  ha_unavailable_reason :: "unavailable_reason option"

text \<open>A minute names its file by hour and minute.\<close>

record day_files =
  df_buckets :: "(int, turnover_row list) dict"
  df_membership :: "membership_row list option"
  df_attention :: "(string, attention_row) dict option"

type_synonym history = "(date, day_files) dict"

definition empty_day :: day_files where
  "empty_day = \<lparr>df_buckets = [], df_membership = None, df_attention = None\<rparr>"

definition day_of :: "history \<Rightarrow> date \<Rightarrow> day_files" where
  "day_of h d = (case dget h d of None \<Rightarrow> empty_day | Some f \<Rightarrow> f)"

definition bucket_name :: "int \<Rightarrow> int" where
  "bucket_name time_bucket = time_bucket div 60000000"

definition trading_days :: "history \<Rightarrow> date list" where
  "trading_days h = sorted_set (dkeys h)"

section \<open>Recording\<close>

definition turnover_row_of :: "stock_trading_value_observation \<Rightarrow> turnover_row" where
  "turnover_row_of x =
     \<lparr>hr_stock_id = sv_stock_id x, hr_observed_at = sv_observed_at x,
      hr_cumulative_trading_value = sv_cumulative_trading_value x, hr_comparable = sv_comparable x,
      hr_fresh = sv_fresh x, hr_trading_halted = sv_trading_halted x,
      hr_corporate_action_unresolved = sv_corporate_action_unresolved x\<rparr>"

definition membership_row_of :: "theme_membership_snapshot \<Rightarrow> membership_row" where
  "membership_row_of s =
     \<lparr>hm_theme_id = ms_theme_id s, hm_version = ms_version s, hm_effective_from = ms_effective_from s,
      hm_known_at = ms_known_at s, hm_members = map (\<lambda>m. (tm_stock_id m, tm_role m)) (ms_members s)\<rparr>"

definition attention_row_of :: "attention_day_signal \<Rightarrow> attention_row" where
  "attention_row_of s =
     \<lparr>ha_is_attention = as_is_attention s, ha_membership_version = as_membership_version s,
      ha_calculation_version = as_calculation_version s, ha_baseline_version = as_baseline_version s,
      ha_attention_policy_version = as_attention_policy_version s,
      ha_turnover_multiple = as_turnover_multiple s, ha_high_interest_count = as_high_interest_count s,
      ha_valid_count = as_valid_count s, ha_high_interest_ratio = as_high_interest_ratio s,
      ha_weighted_return = as_weighted_return s, ha_unavailable_reason = as_unavailable_reason s\<rparr>"

definition record_turnover ::
  "history \<Rightarrow> date \<Rightarrow> int \<Rightarrow> stock_trading_value_observation list \<Rightarrow> history" where
  "record_turnover h market_date time_bucket observations =
     (let f = day_of h market_date
      in dset market_date (f\<lparr>df_buckets :=
           dset (bucket_name time_bucket) (map turnover_row_of observations) (df_buckets f)\<rparr>) h)"

definition record_membership :: "history \<Rightarrow> date \<Rightarrow> theme_membership_snapshot list \<Rightarrow> history" where
  "record_membership h market_date snapshots =
     dset market_date ((day_of h market_date)\<lparr>df_membership := Some (map membership_row_of snapshots)\<rparr>) h"

text \<open>\<open>sort_keys\<close> writes the object of the signals with its keys sorted.\<close>

definition record_attention :: "history \<Rightarrow> date \<Rightarrow> (string, attention_day_signal) dict \<Rightarrow> history" where
  "record_attention h market_date signals =
     dset market_date ((day_of h market_date)\<lparr>df_attention :=
       Some (sort_key fst (map (map_prod id attention_row_of) signals))\<rparr>) h"

section \<open>Loading\<close>

definition observation_of_row :: "date \<Rightarrow> int \<Rightarrow> turnover_row \<Rightarrow> stock_trading_value_observation result" where
  "observation_of_row market_date time_bucket r = stock_trading_value_observation_init
     \<lparr>sv_stock_id = hr_stock_id r, sv_market_date = market_date, sv_observed_at = hr_observed_at r,
      sv_time_bucket = time_bucket, sv_cumulative_trading_value = hr_cumulative_trading_value r,
      sv_comparable = hr_comparable r, sv_fresh = hr_fresh r, sv_trading_halted = hr_trading_halted r,
      sv_corporate_action_unresolved = hr_corporate_action_unresolved r\<rparr>"

definition load_turnover_day ::
  "history \<Rightarrow> int \<Rightarrow> date \<Rightarrow> stock_trading_value_observation list result" where
  "load_turnover_day h time_bucket d =
     (case dget (df_buckets (day_of h d)) (bucket_name time_bucket) of
        None \<Rightarrow> Inr []
      | Some rows \<Rightarrow> map_result (observation_of_row d time_bucket) rows)"

definition load_turnover ::
  "history \<Rightarrow> int \<Rightarrow> date list \<Rightarrow> stock_trading_value_observation list result" where
  "load_turnover h time_bucket days = bind_result (map_result (load_turnover_day h time_bucket) days) (Inr \<circ> concat)"

definition membership_of_row :: "membership_row \<Rightarrow> theme_membership_snapshot result" where
  "membership_of_row r =
     bind_result (map_result (\<lambda>(i, role). theme_member_init \<lparr>tm_stock_id = i, tm_role = role\<rparr>) (hm_members r))
       (\<lambda>members. theme_membership_snapshot_init
         \<lparr>ms_theme_id = hm_theme_id r, ms_version = hm_version r, ms_effective_from = hm_effective_from r,
          ms_known_at = hm_known_at r, ms_members = members\<rparr>)"

definition load_membership :: "history \<Rightarrow> date list \<Rightarrow> theme_membership_snapshot list result" where
  "load_membership h days = bind_result
     (map_result (\<lambda>d. case df_membership (day_of h d) of None \<Rightarrow> Inr []
        | Some rows \<Rightarrow> map_result membership_of_row rows) days) (Inr \<circ> concat)"

definition signal_of_row :: "date \<Rightarrow> attention_row \<Rightarrow> attention_day_signal" where
  "signal_of_row d r =
     \<lparr>as_market_date = d, as_is_attention = ha_is_attention r,
      as_membership_version = ha_membership_version r, as_calculation_version = ha_calculation_version r,
      as_baseline_version = ha_baseline_version r,
      as_attention_policy_version = ha_attention_policy_version r,
      as_turnover_multiple = ha_turnover_multiple r, as_high_interest_count = ha_high_interest_count r,
      as_valid_count = ha_valid_count r, as_high_interest_ratio = ha_high_interest_ratio r,
      as_weighted_return = ha_weighted_return r, as_unavailable_reason = ha_unavailable_reason r\<rparr>"

definition signals_at :: "(string, attention_day_signal list) dict \<Rightarrow> string \<Rightarrow> attention_day_signal list" where
  "signals_at b theme_id = (case dget b theme_id of None \<Rightarrow> [] | Some ss \<Rightarrow> ss)"

definition load_attention :: "history \<Rightarrow> date list \<Rightarrow> (string, attention_day_signal list) dict" where
  "load_attention h days = foldl (\<lambda>by_theme d. case df_attention (day_of h d) of None \<Rightarrow> by_theme
     | Some rows \<Rightarrow> foldl (\<lambda>b (theme_id, r). dset theme_id
         (signals_at b theme_id @ [signal_of_row d r]) b) by_theme rows) [] days"

section \<open>What was recorded is loaded\<close>

datatype history_op =
    RecordTurnover date int "stock_trading_value_observation list"
  | RecordMembership date "theme_membership_snapshot list"
  | RecordAttention date "(string, attention_day_signal) dict"

fun history_step :: "history \<Rightarrow> history_op \<Rightarrow> history" where
  "history_step h (RecordTurnover d t xs) = record_turnover h d t xs"
| "history_step h (RecordMembership d ss) = record_membership h d ss"
| "history_step h (RecordAttention d s) = record_attention h d s"

definition history_of :: "history_op list \<Rightarrow> history" where
  "history_of ops = foldl history_step [] ops"

text \<open>The last recording of a minute, of the membership and of the signals of a day.\<close>

fun last_turnover :: "date \<Rightarrow> int \<Rightarrow> history_op list \<Rightarrow> stock_trading_value_observation list option" where
  "last_turnover d b [] = None"
| "last_turnover d b (op # ops) = (case last_turnover d b ops of Some xs \<Rightarrow> Some xs
     | None \<Rightarrow> (case op of RecordTurnover d' t xs \<Rightarrow> if d' = d \<and> bucket_name t = b then Some xs else None
         | _ \<Rightarrow> None))"

fun last_membership :: "date \<Rightarrow> history_op list \<Rightarrow> theme_membership_snapshot list option" where
  "last_membership d [] = None"
| "last_membership d (op # ops) = (case last_membership d ops of Some xs \<Rightarrow> Some xs
     | None \<Rightarrow> (case op of RecordMembership d' xs \<Rightarrow> if d' = d then Some xs else None | _ \<Rightarrow> None))"

fun last_attention :: "date \<Rightarrow> history_op list \<Rightarrow> (string, attention_day_signal) dict option" where
  "last_attention d [] = None"
| "last_attention d (op # ops) = (case last_attention d ops of Some xs \<Rightarrow> Some xs
     | None \<Rightarrow> (case op of RecordAttention d' xs \<Rightarrow> if d' = d then Some xs else None | _ \<Rightarrow> None))"

definition day_matches :: "history \<Rightarrow> (int \<Rightarrow> stock_trading_value_observation list option)
    \<Rightarrow> theme_membership_snapshot list option \<Rightarrow> (string, attention_day_signal) dict option \<Rightarrow> date \<Rightarrow> bool" where
  "day_matches h turnover membership attention d \<longleftrightarrow>
     dget (df_buckets (day_of h d)) = (\<lambda>b. map_option (map turnover_row_of) (turnover b))
     \<and> df_membership (day_of h d) = map_option (map membership_row_of) membership
     \<and> df_attention (day_of h d) = map_option (\<lambda>s. sort_key fst (map (map_prod id attention_row_of) s)) attention"

lemma day_of_record [simp]: "day_of (dset d f h) d' = (if d' = d then f else day_of h d')"
  by (simp add: day_of_def)

lemma foldl_history_matches:
  assumes "\<And>d. day_matches h (\<lambda>b. tv d b) (mem d) (att d) d"
  shows "day_matches (foldl history_step h ops)
    (\<lambda>b. case last_turnover d b ops of None \<Rightarrow> tv d b | Some xs \<Rightarrow> Some xs)
    (case last_membership d ops of None \<Rightarrow> mem d | Some xs \<Rightarrow> Some xs)
    (case last_attention d ops of None \<Rightarrow> att d | Some xs \<Rightarrow> Some xs) d"
  using assms
proof (induction ops arbitrary: h tv mem att)
  case (Cons op ops)
  let ?tv = "\<lambda>d b. case op of RecordTurnover d' t xs \<Rightarrow> if d' = d \<and> bucket_name t = b then Some xs else tv d b | _ \<Rightarrow> tv d b"
  let ?mem = "\<lambda>d. case op of RecordMembership d' xs \<Rightarrow> if d' = d then Some xs else mem d | _ \<Rightarrow> mem d"
  let ?att = "\<lambda>d. case op of RecordAttention d' xs \<Rightarrow> if d' = d then Some xs else att d | _ \<Rightarrow> att d"
  have "day_matches (history_step h op) (\<lambda>b. ?tv d b) (?mem d) (?att d) d" for d
    using Cons.prems [of d]
    by (cases op) (auto simp: day_matches_def record_turnover_def record_membership_def record_attention_def
        Let_def fun_eq_iff)
  note * = Cons.IH [of "history_step h op" ?tv ?mem ?att, OF this]
  show ?case
    unfolding day_matches_def
  proof (intro conjI)
    show "dget (df_buckets (day_of (foldl history_step h (op # ops)) d))
        = (\<lambda>b. map_option (map turnover_row_of) (case last_turnover d b (op # ops) of None \<Rightarrow> tv d b | Some xs \<Rightarrow> Some xs))"
      using * by (auto simp: day_matches_def fun_eq_iff split: option.split history_op.split)
    show "df_membership (day_of (foldl history_step h (op # ops)) d)
        = map_option (map membership_row_of) (case last_membership d (op # ops) of None \<Rightarrow> mem d | Some xs \<Rightarrow> Some xs)"
      using * by (auto simp: day_matches_def split: option.split history_op.split)
    show "df_attention (day_of (foldl history_step h (op # ops)) d)
        = map_option (\<lambda>s. sort_key fst (map (map_prod id attention_row_of) s))
            (case last_attention d (op # ops) of None \<Rightarrow> att d | Some xs \<Rightarrow> Some xs)"
      using * by (auto simp: day_matches_def split: option.split history_op.split)
  qed
qed simp

lemma case_option_id: "(case x of None \<Rightarrow> None | Some y \<Rightarrow> Some y) = x"
  by (cases x) simp_all

lemma history_matches:
  "day_matches (history_of ops) (\<lambda>b. last_turnover d b ops) (last_membership d ops) (last_attention d ops) d"
proof -
  have "day_matches [] (\<lambda>b. None) None None d" for d
    by (simp add: day_matches_def day_of_def empty_day_def fun_eq_iff)
  from foldl_history_matches [OF this, of ops d] show ?thesis
    by (simp only: history_of_def case_option_id)
qed

fun op_day :: "history_op \<Rightarrow> date" where
  "op_day (RecordTurnover d t xs) = d"
| "op_day (RecordMembership d ss) = d"
| "op_day (RecordAttention d s) = d"

lemma history_step_days: "fst ` set (history_step h op) = insert (op_day op) (fst ` set h)"
  by (cases op) (simp_all only: history_step.simps op_day.simps record_turnover_def record_membership_def
    record_attention_def Let_def set_dkeys_dset)

lemma trading_days_history: "set (trading_days (history_of ops)) = op_day ` set ops"
proof -
  have "fst ` set (foldl history_step h ops) = fst ` set h \<union> op_day ` set ops" for h
    by (induction ops arbitrary: h) (simp_all only: foldl.simps history_step_days, auto)
  then show ?thesis by (simp add: trading_days_def history_of_def)
qed

text \<open>The observations and the snapshots that can be constructed are constructed again.\<close>

definition recordable :: "history_op \<Rightarrow> bool" where
  "recordable op = (case op of
     RecordTurnover d t xs \<Rightarrow> t mod 60000000 = 0 \<and> (\<forall>x\<in>set xs. stock_trading_value_observation_init x = Inr x
       \<and> sv_market_date x = d \<and> sv_time_bucket x = t)
   | RecordMembership d ss \<Rightarrow> (\<forall>s\<in>set ss. theme_membership_snapshot_init s = Inr s
       \<and> (\<forall>m\<in>set (ms_members s). theme_member_init m = Inr m))
   | RecordAttention d ss \<Rightarrow> distinct (dkeys ss) \<and> (\<forall>e\<in>set ss. as_market_date (snd e) = d))"

lemma map_result_same: "(\<And>x. x \<in> set xs \<Longrightarrow> f x = Inr (g x)) \<Longrightarrow> map_result f xs = Inr (map g xs)"
  by (induction xs) simp_all

lemma map_result_rows: "(\<And>x. x \<in> set xs \<Longrightarrow> f (g x) = Inr x) \<Longrightarrow> map_result f (map g xs) = Inr xs"
  by (induction xs) simp_all

lemma observation_row:
  "stock_trading_value_observation_init x = Inr x \<Longrightarrow>
   observation_of_row (sv_market_date x) (sv_time_bucket x) (turnover_row_of x) = Inr x"
  by (cases x) (simp add: observation_of_row_def turnover_row_of_def)

lemma membership_row:
  "theme_membership_snapshot_init s = Inr s \<Longrightarrow> \<forall>m\<in>set (ms_members s). theme_member_init m = Inr m \<Longrightarrow>
   membership_of_row (membership_row_of s) = Inr s"
proof -
  assume s: "theme_membership_snapshot_init s = Inr s" "\<forall>m\<in>set (ms_members s). theme_member_init m = Inr m"
  have same: "\<lparr>tm_stock_id = tm_stock_id m, tm_role = tm_role m\<rparr> = m" for m :: theme_member
    by (cases m) simp
  have "map_result (\<lambda>(i, role). theme_member_init \<lparr>tm_stock_id = i, tm_role = role\<rparr>)
      (map (\<lambda>m. (tm_stock_id m, tm_role m)) (ms_members s)) = Inr (ms_members s)"
    using s(2) by (intro map_result_rows) (simp add: same)
  with s(1) show ?thesis by (cases s) (simp add: membership_of_row_def membership_row_of_def)
qed

lemma last_turnover_recorded:
  "last_turnover d b ops = Some xs \<Longrightarrow> \<exists>t. RecordTurnover d t xs \<in> set ops \<and> bucket_name t = b"
  by (induction ops) (auto split: option.splits history_op.splits if_splits)

lemma last_membership_recorded: "last_membership d ops = Some xs \<Longrightarrow> RecordMembership d xs \<in> set ops"
  by (induction ops) (auto split: option.splits history_op.splits if_splits)

lemma last_attention_recorded: "last_attention d ops = Some xs \<Longrightarrow> RecordAttention d xs \<in> set ops"
  by (induction ops) (auto split: option.splits history_op.splits if_splits)

lemma minute_name: "t mod 60000000 = 0 \<Longrightarrow> u mod 60000000 = 0 \<Longrightarrow> bucket_name t = bucket_name u \<Longrightarrow> t = u"
  unfolding bucket_name_def by (metis add.right_neutral mult_div_mod_eq)

lemma load_turnover_day_recorded:
  assumes "list_all recordable ops" and "t mod 60000000 = 0"
  shows "load_turnover_day (history_of ops) t d
    = Inr (case last_turnover d (bucket_name t) ops of None \<Rightarrow> [] | Some xs \<Rightarrow> xs)"
proof (cases "last_turnover d (bucket_name t) ops")
  case None
  with history_matches [of ops d] show ?thesis by (simp add: load_turnover_day_def day_matches_def)
next
  case (Some xs)
  from last_turnover_recorded [OF this] obtain u where u: "RecordTurnover d u xs \<in> set ops" "bucket_name u = bucket_name t"
    by blast
  with assms(1) have "u mod 60000000 = 0" "\<forall>x\<in>set xs. stock_trading_value_observation_init x = Inr x
      \<and> sv_market_date x = d \<and> sv_time_bucket x = u"
    by (auto simp: list_all_iff recordable_def)
  moreover have "u = t" using minute_name [OF calculation(1) assms(2) u(2)] .
  ultimately have "map_result (observation_of_row d t) (map turnover_row_of xs) = Inr xs"
    by (intro map_result_rows) (use observation_row in fastforce)
  with Some history_matches [of ops d] show ?thesis by (simp add: load_turnover_day_def day_matches_def)
qed

lemma load_membership_recorded:
  assumes "list_all recordable ops"
  shows "load_membership (history_of ops) days
    = Inr (concat (map (\<lambda>d. case last_membership d ops of None \<Rightarrow> [] | Some ss \<Rightarrow> ss) days))"
proof -
  have "(case df_membership (day_of (history_of ops) d) of None \<Rightarrow> Inr []
      | Some rows \<Rightarrow> map_result membership_of_row rows)
    = Inr (case last_membership d ops of None \<Rightarrow> [] | Some ss \<Rightarrow> ss)" for d
  proof (cases "last_membership d ops")
    case None
    with history_matches [of ops d] show ?thesis by (simp add: day_matches_def)
  next
    case (Some ss)
    then have "map_result membership_of_row (map membership_row_of ss) = Inr ss"
      using assms last_membership_recorded [OF Some]
      by (intro map_result_rows membership_row) (auto simp: list_all_iff recordable_def)
    with Some history_matches [of ops d] show ?thesis by (simp add: day_matches_def)
  qed
  then show ?thesis by (simp add: load_membership_def map_result_same)
qed

lemma load_turnover_recorded:
  assumes "list_all recordable ops" and "t mod 60000000 = 0"
  shows "load_turnover (history_of ops) t days
    = Inr (concat (map (\<lambda>d. case last_turnover d (bucket_name t) ops of None \<Rightarrow> [] | Some xs \<Rightarrow> xs) days))"
  by (simp add: load_turnover_def map_result_same load_turnover_day_recorded [OF assms])

text \<open>The signals of a theme are collected in the order of the days.\<close>

definition theme_signals :: "history_op list \<Rightarrow> string \<Rightarrow> date list \<Rightarrow> attention_day_signal list" where
  "theme_signals ops theme_id days =
     List.map_filter (\<lambda>d. Option.bind (last_attention d ops) (\<lambda>s. dget s theme_id)) days"

lemma signal_row: "as_market_date s = d \<Longrightarrow> signal_of_row d (attention_row_of s) = s"
  by (cases s) (simp add: signal_of_row_def attention_row_of_def)

lemma foldl_rows:
  assumes "distinct (map fst rows)"
  shows "signals_at (foldl (\<lambda>b (theme_id, r). dset theme_id (signals_at b theme_id @ [signal_of_row d r]) b) b rows) x
    = signals_at b x @ (case dget rows x of None \<Rightarrow> [] | Some r \<Rightarrow> [signal_of_row d r])"
  using assms
proof (induction rows arbitrary: b)
  case (Cons row rows)
  obtain i r where row: "row = (i, r)" by (cases row)
  have "dget rows i = None" using Cons.prems row by (simp add: map_of_eq_None_iff)
  with Cons row show ?case by (auto simp: signals_at_def)
qed simp

lemma distinct_fst_sort: "distinct (map fst xs) \<Longrightarrow> distinct (map fst (sort_key k xs))"
  by (simp add: distinct_map)

lemma dget_sorted_map:
  "distinct (dkeys s) \<Longrightarrow> dget (sort_key fst (map (map_prod id f) s)) k = map_option f (dget s k)"
proof -
  assume d: "distinct (dkeys s)"
  have "map_of (sort_key fst (map (map_prod id f) s)) = map_of (map (map_prod id f) s)"
    using d by (subst map_of_inject_set) (simp_all add: distinct_fst_sort comp_def)
  moreover have "map_of (map (map_prod id f) s) k = map_option f (map_of s k)"
    by (induction s) auto
  ultimately show ?thesis by simp
qed

lemma load_attention_recorded:
  assumes "list_all recordable ops"
  shows "signals_at (load_attention (history_of ops) days) x = theme_signals ops x days"
proof -
  let ?step = "\<lambda>by_theme d. case df_attention (day_of (history_of ops) d) of None \<Rightarrow> by_theme
     | Some rows \<Rightarrow> foldl (\<lambda>b (theme_id, r). dset theme_id (signals_at b theme_id @ [signal_of_row d r]) b) by_theme rows"
  have step: "signals_at (?step b d) x = signals_at b x @ theme_signals ops x [d]" for b d
  proof (cases "last_attention d ops")
    case None
    with history_matches [of ops d] show ?thesis
      by (simp add: day_matches_def theme_signals_def List.map_filter_simps)
  next
    case (Some s)
    have "recordable (RecordAttention d s)"
      using assms last_attention_recorded [OF Some] by (simp add: list_all_iff)
    then have s: "distinct (dkeys s)" "\<forall>e\<in>set s. as_market_date (snd e) = d"
      by (simp_all add: recordable_def)
    have "signal_of_row d (attention_row_of v) = v" if "dget s x = Some v" for v
      using s(2) map_of_SomeD [OF that] by (intro signal_row) auto
    moreover have "distinct (map fst (sort_key fst (map (map_prod id attention_row_of) s)))"
      using s(1) by (intro distinct_fst_sort) (simp add: comp_def)
    ultimately show ?thesis
      using Some history_matches [of ops d]
      by (simp add: day_matches_def theme_signals_def List.map_filter_simps foldl_rows dget_sorted_map [OF s(1)]
          split: option.split)
  qed
  have "signals_at (foldl ?step b days) x = signals_at b x @ theme_signals ops x days" for b
  proof (induction days arbitrary: b)
    case (Cons d days)
    have "theme_signals ops x (d # days) = theme_signals ops x [d] @ theme_signals ops x days"
      by (simp add: theme_signals_def List.map_filter_simps split: option.split)
    with Cons step show ?case by simp
  qed (simp add: theme_signals_def List.map_filter_simps)
  from this [of "[]"] show ?thesis by (simp add: load_attention_def) (simp add: signals_at_def)
qed

text \<open>
  C40. Whatever is recorded in whatever order: the trading days are the days with a recording, in
  order, and for any days the values of a minute, the memberships and the signals of a theme that
  are loaded are the ones recorded last for each day, in the order of the days.
\<close>

theorem history_roundtrip:
  assumes "list_all recordable ops" and "t mod 60000000 = 0"
  shows "trading_days (history_of ops) = sorted_set (map op_day ops)
    \<and> load_turnover (history_of ops) t days
      = Inr (concat (map (\<lambda>d. case last_turnover d (bucket_name t) ops of None \<Rightarrow> [] | Some xs \<Rightarrow> xs) days))
    \<and> load_membership (history_of ops) days
      = Inr (concat (map (\<lambda>d. case last_membership d ops of None \<Rightarrow> [] | Some ss \<Rightarrow> ss) days))
    \<and> signals_at (load_attention (history_of ops) days) theme_id = theme_signals ops theme_id days"
proof -
  have "set (dkeys (history_of ops)) = set (map op_day ops)"
    using trading_days_history [of ops] by (simp add: trading_days_def)
  then have "trading_days (history_of ops) = sorted_set (map op_day ops)"
    unfolding trading_days_def by (rule sorted_set_cong)
  with load_turnover_recorded [OF assms] load_membership_recorded [OF assms(1)]
    load_attention_recorded [OF assms(1)] show ?thesis by blast
qed

definition sample_bucket :: "date \<Rightarrow> int \<Rightarrow> rat \<Rightarrow> stock_trading_value_observation" where
  "sample_bucket d t v = \<lparr>sv_stock_id = ''s'', sv_market_date = d, sv_observed_at = Aware 0 0, sv_time_bucket = t,
     sv_cumulative_trading_value = Some (Fin v), sv_comparable = True, sv_fresh = True,
     sv_trading_halted = False, sv_corporate_action_unresolved = False\<rparr>"

definition sample_records :: "history_op list" where
  "sample_records = [RecordTurnover 2 60000000 [sample_bucket 2 60000000 5],
     RecordTurnover 1 60000000 [sample_bucket 1 60000000 3], RecordTurnover 2 60000000 [sample_bucket 2 60000000 7],
     RecordTurnover 2 120000000 [sample_bucket 2 120000000 9]]"

theorem history_roundtrip_witness:
  "list_all recordable sample_records
   \<and> trading_days (history_of sample_records) = [1, 2]
   \<and> load_turnover (history_of sample_records) 60000000 [1, 2] = Inr [sample_bucket 1 60000000 3, sample_bucket 2 60000000 7]"
proof -
  have "list_all recordable sample_records"
    by (simp add: sample_records_def recordable_def sample_bucket_def stock_trading_value_observation_init_def)
  moreover from history_roundtrip [OF this, of 60000000 "[1, 2]"]
  have "trading_days (history_of sample_records) = sorted_set (map op_day sample_records)
    \<and> load_turnover (history_of sample_records) 60000000 [1, 2] = Inr (concat (map
        (\<lambda>d. case last_turnover d (bucket_name 60000000) sample_records of None \<Rightarrow> [] | Some xs \<Rightarrow> xs) [1, 2]))"
    by simp
  ultimately show ?thesis
    by (simp add: sample_records_def sorted_set_def bucket_name_def)
qed

end
