(* ===== verification/Market_Pipeline.thy ===== *)
theory Market_Pipeline
  imports Public_Views Intraday_History Actions Hysteresis Event_Writer Aggregation Snapshots
begin

text \<open>
  \<open>packages/pipeline/market.py\<close>: the pipeline of one trading day, which wires the modelled parts
  together.  An observation goes into the hot state and marks its themes; a publication recomputes
  the marked themes, evaluates the lifecycle of every theme with metrics, writes Events, keeps the
  baselines and publishes the rankings and the treemap.  Methods are actions on the state of the
  pipeline, which holds the hot state, the aggregator, the event store, the snapshot repository and
  the history.  Reasons are the tags of the hysteresis.
\<close>

section \<open>State\<close>

text \<open>What the constructor is given and never changes.\<close>

record market_setup =
  mc_market_date :: date
  mc_stream_id :: string
  mc_schema_version :: string
  mc_catalog :: theme_catalog
  mc_membership_version :: string
  mc_theme_names :: "(string, string) dict"
  mc_stock_names :: "(string, string) dict"
  mc_historical_theme_ids :: "string list"
  mc_hysteresis_policy :: hysteresis_policy

type_synonym ranks = "(string, nat \<times> rat option) dict"

record market_pipeline =
  mp_setup :: market_setup
  mp_hot :: hot_store
  mp_references :: "stock_reference list"
  mp_base_price_filled :: "string list"
  mp_aggregator :: aggregator
  mp_event_store :: event_store
  mp_snapshots :: snapshot_repository
  mp_hysteresis :: "(string, hysteresis_state) dict"
  mp_event_ids :: "(string, string) dict"
  mp_theme_by_event :: "(string, string) dict"
  mp_activated_at :: "(string, datetime) dict"
  mp_evidence :: "(string, evidence_summary_data) dict"
  mp_evidence_documents :: "(string, json) dict"
  mp_latest_metrics :: "(string, theme_metric_update) dict"
  mp_history :: "history option"
  mp_observed_stock_ids :: "string list"
  mp_membership_recorded :: bool
  mp_recorded_bucket :: "int option"
  mp_baseline_key :: "(int \<times> string list) option"
  mp_turnover :: "(string, theme_turnover_result) dict"
  mp_attention_gap :: "(string, nat option) dict"
  mp_rank_history :: "(datetime \<times> ranks) list"
  mp_input_sequence :: int
  mp_command_sequence :: int
  mp_publication_index :: int
  mp_latest_rankings :: "read_snapshot option"
  mp_latest_treemap :: "read_snapshot option"
  mp_last_as_of :: "datetime option"
  mp_last_data_status :: data_status
  mp_market_closed :: bool

definition RANKING_MODEL_VERSION :: string where
  "RANKING_MODEL_VERSION = ''theme-rank-2026.08.1''"

definition INTRADAY_STRENGTH_KEY :: string where
  "INTRADAY_STRENGTH_KEY = ''INTRADAY_STRENGTH''"

definition RANKINGS_PARAMS :: json where
  "RANKINGS_PARAMS = JObj [(''limit'', JInt 10)]"

definition TREEMAP_PARAMS :: json where
  "TREEMAP_PARAMS = JObj [(''limit'', JInt 12)]"

definition RANK_CHANGE_WINDOW :: timedelta where
  "RANK_CHANGE_WINDOW = 60000000"

definition RISING_RETURN_WINDOW :: timedelta where
  "RISING_RETURN_WINDOW = 300000000"

definition RISING_FAST_RANK_GAIN :: int where
  "RISING_FAST_RANK_GAIN = 3"

definition RISING_FAST_BADGE :: string where
  "RISING_FAST_BADGE = ''RISING_FAST''"

definition market_pipeline_init ::
  "market_setup \<Rightarrow> stock_reference list \<Rightarrow> event_store \<Rightarrow> snapshot_repository \<Rightarrow> history option
    \<Rightarrow> market_pipeline result" where
  "market_pipeline_init setup references events snapshots h = validate
     [(\<not> blank (mc_stream_id setup), ValueError ''stream_id'')]
     \<lparr>mp_setup = setup, mp_hot = empty_hot_store, mp_references = references, mp_base_price_filled = [],
      mp_aggregator = aggregator_init (mc_catalog setup) references THEME_CALCULATION_POLICY_V1,
      mp_event_store = events, mp_snapshots = snapshots, mp_hysteresis = [], mp_event_ids = [],
      mp_theme_by_event = [], mp_activated_at = [], mp_evidence = [], mp_evidence_documents = [],
      mp_latest_metrics = [], mp_history = h, mp_observed_stock_ids = [], mp_membership_recorded = False,
      mp_recorded_bucket = None, mp_baseline_key = None, mp_turnover = [], mp_attention_gap = [],
      mp_rank_history = [], mp_input_sequence = 0, mp_command_sequence = 0, mp_publication_index = 0,
      mp_latest_rankings = None, mp_latest_treemap = None, mp_last_as_of = None,
      mp_last_data_status = PREOPEN, mp_market_closed = False\<rparr>"

type_synonym 'a pipeline_action = "(market_pipeline, 'a) action"

abbreviation market_date :: "market_pipeline \<Rightarrow> date" where
  "market_date p \<equiv> mc_market_date (mp_setup p)"

definition read_event :: "market_pipeline \<Rightarrow> string \<Rightarrow> canonical_event option" where
  "read_event p event_id = dget (es_events (mp_event_store p)) event_id"

definition event_of_theme :: "market_pipeline \<Rightarrow> string \<Rightarrow> canonical_event option" where
  "event_of_theme p theme_id = Option.bind (dget (mp_event_ids p) theme_id) (read_event p)"

section \<open>Observations\<close>

text \<open>
  An observation of a stock without a previous close brings the base price of the day; the
  reference is added, never replaced.
\<close>

definition day_references :: "market_pipeline \<Rightarrow> string \<Rightarrow> stock_reference list" where
  "day_references p stock_id = filter (\<lambda>r. sr_stock_id r = stock_id \<and> sr_effective_for r = market_date p) (mp_references p)"

definition supplemented_reference :: "market_pipeline \<Rightarrow> stock_realtime_update \<Rightarrow> stock_reference" where
  "supplemented_reference p u =
     (let current = (case day_references p (ru_stock_id u) of [] \<Rightarrow> None | r # rs \<Rightarrow> Some r)
      in \<lparr>sr_stock_id = ru_stock_id u, sr_effective_for = market_date p, sr_known_at = ru_received_at u,
          sr_previous_adjusted_close = ru_base_price u,
          sr_listed_shares = Option.bind current sr_listed_shares,
          sr_free_float_ratio = Option.bind current sr_free_float_ratio,
          sr_free_float_validated = (case current of None \<Rightarrow> False | Some r \<Rightarrow> sr_free_float_validated r),
          sr_version = (case current of None \<Rightarrow> ''reference'' | Some r \<Rightarrow> sr_version r) @ ''+base-price'',
          sr_corporate_action_resolved = True\<rparr>)"

definition base_price_filled :: "string \<Rightarrow> market_pipeline \<Rightarrow> market_pipeline" where
  "base_price_filled stock_id p = p\<lparr>mp_base_price_filled := List.insert stock_id (mp_base_price_filled p)\<rparr>"

definition supplement_base_price :: "stock_realtime_update \<Rightarrow> unit pipeline_action" where
  "supplement_base_price u p =
     (if ru_base_price u = None \<or> ru_stock_id u \<in> set (mp_base_price_filled p) then (p, Inr ())
      else if \<exists>r\<in>set (day_references p (ru_stock_id u)). sr_previous_adjusted_close r \<noteq> None
      then (base_price_filled (ru_stock_id u) p, Inr ())
      else case stock_reference_init (supplemented_reference p u) of
          Inl e \<Rightarrow> (p, Inl e)
        | Inr r \<Rightarrow> (base_price_filled (ru_stock_id u)
            (p\<lparr>mp_references := mp_references p @ [r], mp_aggregator := add_reference (mp_aggregator p) r\<rparr>), Inr ()))"

definition mark_update :: "stock_realtime_update \<Rightarrow> unit pipeline_action" where
  "mark_update u = bind_act (zoom mp_aggregator (\<lambda>a p. p\<lparr>mp_aggregator := a\<rparr>)
     (\<lambda>a. mark_stock a (ru_stock_id u) (ru_market_date u) (ru_received_at u))) (\<lambda>_. ret ())"

definition apply_update :: "hash \<Rightarrow> stock_realtime_update \<Rightarrow> hot_apply_result pipeline_action" where
  "apply_update H u =
     bind_act (reading market_date) (\<lambda>day.
     if ru_market_date u \<noteq> day then raise_act (ValueError ''market_date'')
     else seq_act (supplement_base_price u) (
       bind_act (zoom mp_hot (\<lambda>h p. p\<lparr>mp_hot := h\<rparr>) (\<lambda>h. hot_apply H h u)) (\<lambda>r.
       seq_act (changing (\<lambda>p. p\<lparr>mp_observed_stock_ids := List.insert (ru_stock_id u) (mp_observed_stock_ids p)\<rparr>)) (
       seq_act (when_act (hot_changed r) (mark_update u)) (ret r)))))"

section \<open>Events\<close>

text \<open>\<open>min(update.as_of, now)\<close> keeps the first of two equal moments.\<close>

definition earlier :: "datetime \<Rightarrow> datetime \<Rightarrow> datetime" where
  "earlier a b = (if instant b < instant a then b else a)"

definition next_metadata :: "theme_metric_update \<Rightarrow> datetime \<Rightarrow> event_input_metadata pipeline_action" where
  "next_metadata u now =
     seq_act (changing (\<lambda>p. p\<lparr>mp_command_sequence := mp_command_sequence p + 1\<rparr>)) (
     bind_act (reading (\<lambda>p. (mc_stream_id (mp_setup p), mp_command_sequence p))) (\<lambda>(stream_id, n).
       pure_act (event_input_metadata_init
         \<lparr>em_message_id = stream_id @ '':cmd:'' @ digits_of (nat n), em_source = stream_id,
          em_source_sequence = n, em_occurred_at = earlier (tu_as_of u) now, em_received_at = now,
          em_correlation_id = stream_id, em_causation_id = None, em_lineage = []\<rparr>)))"

definition pipeline_write :: "hash \<Rightarrow> event_command \<Rightarrow> event_write_result pipeline_action" where
  "pipeline_write H c = zoom mp_event_store (\<lambda>s p. p\<lparr>mp_event_store := s\<rparr>) (\<lambda>s. write_event H s c)"

definition theme_identity :: "market_pipeline \<Rightarrow> string \<Rightarrow> canonical_event_identity" where
  "theme_identity p theme_id = \<lparr>ei_market_date = market_date p, ei_canonical_theme_id = theme_id,
     ei_catalyst_key = INTRADAY_STRENGTH_KEY\<rparr>"

definition create_theme_event :: "hash \<Rightarrow> theme_metric_update \<Rightarrow> datetime \<Rightarrow> string pipeline_action" where
  "create_theme_event H u now =
     bind_act (reading (\<lambda>p. (theme_identity p (tu_theme_id u),
         case dget (mc_theme_names (mp_setup p)) (tu_theme_id u) of None \<Rightarrow> tu_theme_id u | Some n \<Rightarrow> n)))
       (\<lambda>(identity, display_name).
     bind_act (pure_act (canonical_event_identity_init identity)) (\<lambda>identity.
     bind_act (next_metadata u now) (\<lambda>metadata.
     bind_act (pure_act (event_versions_init
         \<lparr>ev_calculation_version = mt_calculation_version (tu_metrics u),
          ev_ranking_model_version = RANKING_MODEL_VERSION,
          ev_membership_version = tu_membership_version u, ev_baseline_version = None\<rparr>)) (\<lambda>versions.
     bind_act (pure_act (create_event_command_init
         \<lparr>cc_metadata = metadata, cc_identity = identity, cc_display_name = display_name,
          cc_versions = versions, cc_classification_kind = INFOSTOCK_THEME,
          cc_classification_certainty = PROVISIONAL_CLASS, cc_classification_source = LIVE_ENGINE\<rparr>)) (\<lambda>command.
     bind_act (pipeline_write H (CreateEventCommand command)) (\<lambda>r.
       ret (ce_event_id (er_event r))))))))"

definition transition_theme_event ::
  "hash \<Rightarrow> string \<Rightarrow> lifecycle_status \<Rightarrow> string \<Rightarrow> theme_metric_update \<Rightarrow> datetime \<Rightarrow> unit pipeline_action" where
  "transition_theme_event H event_id target reason u now =
     bind_act (reading (\<lambda>p. (read_event p event_id, hp_version (mc_hysteresis_policy (mp_setup p))))) (\<lambda>(found, version).
     case found of None \<Rightarrow> raise_act (RuntimeError ''event'')
     | Some event \<Rightarrow>
         bind_act (next_metadata u now) (\<lambda>metadata.
         bind_act (pure_act (transition_lifecycle_command_init
             \<lparr>tc_metadata = metadata, tc_event_id = event_id, tc_target = target,
              tc_expected_state_version = ce_state_version event, tc_reason = reason,
              tc_policy_version = version\<rparr>)) (\<lambda>command.
         bind_act (pipeline_write H (TransitionLifecycleCommand command)) (\<lambda>_. ret ()))))"

section \<open>Lifecycle\<close>

definition next_evaluation ::
  "string \<Rightarrow> theme_metric_update \<Rightarrow> datetime \<Rightarrow> bool option \<Rightarrow> bool \<Rightarrow> activation_evaluation pipeline_action" where
  "next_evaluation theme_id u now qualifies closing =
     seq_act (changing (\<lambda>p. p\<lparr>mp_input_sequence := mp_input_sequence p + 1\<rparr>)) (
     bind_act (reading (\<lambda>p. (mp_setup p, mp_input_sequence p))) (\<lambda>(setup, n).
       pure_act (activation_evaluation_init
         \<lparr>ae_input_id = mc_stream_id setup @ '':'' @ theme_id @ '':'' @ digits_of (nat n), ae_sequence = n,
          ae_evaluated_at = now, ae_policy_version = hp_version (mc_hysteresis_policy setup),
          ae_coverage_status = cov_status (mt_coverage (tu_metrics u)), ae_qualifies = qualifies,
          ae_market_closed = closing, ae_candidate_expired = False\<rparr>)))"

text \<open>The evaluation of a state; the new state is stored before anything is written.\<close>

definition decide ::
  "hash \<Rightarrow> string \<Rightarrow> hysteresis_state \<Rightarrow> activation_evaluation \<Rightarrow> hysteresis_transition option pipeline_action" where
  "decide H theme_id state evaluation =
     bind_act (reading (\<lambda>p. evaluate_hysteresis H (mc_hysteresis_policy (mp_setup p)) state evaluation)) (\<lambda>r.
     bind_act (pure_act r) (\<lambda>decision.
     seq_act (changing (\<lambda>p. p\<lparr>mp_hysteresis := dset theme_id (hd_state decision) (mp_hysteresis p)\<rparr>))
       (ret (hd_transition decision))))"

definition advance_as_of :: "theme_metric_update \<Rightarrow> market_pipeline \<Rightarrow> market_pipeline" where
  "advance_as_of u p =
     (if (case mp_last_as_of p of None \<Rightarrow> True | Some t \<Rightarrow> instant t < instant (tu_as_of u))
      then p\<lparr>mp_last_as_of := Some (tu_as_of u)\<rparr> else p)"

definition ensure_event :: "hash \<Rightarrow> theme_metric_update \<Rightarrow> datetime \<Rightarrow> string pipeline_action" where
  "ensure_event H u now =
     bind_act (reading (\<lambda>p. dget (mp_event_ids p) (tu_theme_id u))) (\<lambda>known. case known of
       Some event_id \<Rightarrow> ret event_id
     | None \<Rightarrow> bind_act (create_theme_event H u now) (\<lambda>event_id.
         seq_act (changing (\<lambda>p. p\<lparr>mp_event_ids := dset (tu_theme_id u) event_id (mp_event_ids p),
             mp_theme_by_event := dset event_id (tu_theme_id u) (mp_theme_by_event p)\<rparr>)) (ret event_id)))"

definition current_state :: "string \<Rightarrow> hysteresis_state pipeline_action" where
  "current_state theme_id =
     bind_act (reading (\<lambda>p. case dget (mp_hysteresis p) theme_id of Some s \<Rightarrow> Inr s
       | None \<Rightarrow> hysteresis_candidate theme_id (mc_hysteresis_policy (mp_setup p)))) pure_act"

definition qualifies :: "theme_metrics \<Rightarrow> bool option" where
  "qualifies m = map_option (\<lambda>r. 0 < r) (mt_weighted_return m)"

definition record_activation :: "string \<Rightarrow> lifecycle_status \<Rightarrow> datetime \<Rightarrow> market_pipeline \<Rightarrow> market_pipeline" where
  "record_activation theme_id target now p =
     (if target = ACTIVE \<and> dget (mp_activated_at p) theme_id = None
      then p\<lparr>mp_activated_at := dset theme_id now (mp_activated_at p)\<rparr> else p)"

definition evaluate_theme :: "hash \<Rightarrow> datetime \<Rightarrow> theme_metric_update \<Rightarrow> unit pipeline_action" where
  "evaluate_theme H now u =
     seq_act (changing (advance_as_of u)) (
     bind_act (ensure_event H u now) (\<lambda>event_id.
     bind_act (current_state (tu_theme_id u)) (\<lambda>state.
     bind_act (next_evaluation (tu_theme_id u) u now (qualifies (tu_metrics u)) False) (\<lambda>evaluation.
     bind_act (decide H (tu_theme_id u) state evaluation) (\<lambda>transition. case transition of
       None \<Rightarrow> ret ()
     | Some t \<Rightarrow>
         seq_act (changing (record_activation (tu_theme_id u) (ht_to_status t) now))
           (transition_theme_event H event_id (ht_to_status t) (ht_reason t) u now))))))"

definition sorted_updates :: "market_pipeline \<Rightarrow> theme_metric_update list" where
  "sorted_updates p = sorted_values (mp_latest_metrics p)"

definition close_theme :: "hash \<Rightarrow> datetime \<Rightarrow> theme_metric_update \<Rightarrow> unit pipeline_action" where
  "close_theme H now u =
     bind_act (reading (\<lambda>p. dget (mp_hysteresis p) (tu_theme_id u))) (\<lambda>found. case found of None \<Rightarrow> ret ()
     | Some state \<Rightarrow>
         if hs_lifecycle_status state = CLOSED \<or> hs_lifecycle_status state = DISCARDED then ret ()
         else bind_act (next_evaluation (tu_theme_id u) u now None True) (\<lambda>evaluation.
              bind_act (decide H (tu_theme_id u) state evaluation) (\<lambda>transition. case transition of
                None \<Rightarrow> ret ()
              | Some t \<Rightarrow> bind_act (reading (\<lambda>p. dget (mp_event_ids p) (tu_theme_id u))) (\<lambda>known. case known of
                    None \<Rightarrow> ret ()
                  | Some event_id \<Rightarrow> transition_theme_event H event_id (ht_to_status t) (ht_reason t) u now))))"

section \<open>Baselines\<close>

definition minute_of :: "datetime \<Rightarrow> int" where
  "minute_of t = (let time = (instant t + KST_OFFSET) mod day_length in time - time mod 60000000)"

definition is_public :: "lifecycle_status \<Rightarrow> bool" where
  "is_public s \<longleftrightarrow> s = ACTIVE \<or> s = WEAKENING \<or> s = CLOSED"

definition public_theme_ids :: "market_pipeline \<Rightarrow> string list" where
  "public_theme_ids p = filter (\<lambda>t. case event_of_theme p t of None \<Rightarrow> False
     | Some e \<Rightarrow> is_public (ce_lifecycle_status e)) (sort (dkeys (mp_latest_metrics p)))"

definition attention_signal ::
  "market_pipeline \<Rightarrow> string \<Rightarrow> theme_turnover_result \<Rightarrow> attention_day_signal option result" where
  "attention_signal p theme_id turnover = (case dget (mp_latest_metrics p) theme_id of None \<Rightarrow> Inr None
     | Some u \<Rightarrow> map_sum id Some (evaluate_attention_day (market_date p) (tu_metrics u) turnover ATTENTION_POLICY_V1))"

definition current_attention_gap ::
  "market_pipeline \<Rightarrow> string \<Rightarrow> theme_turnover_result \<Rightarrow> attention_day_signal list \<Rightarrow> date list \<Rightarrow> nat option result" where
  "current_attention_gap p theme_id turnover stored_signals days =
     bind_result (attention_signal p theme_id turnover) (\<lambda>today. case today of None \<Rightarrow> Inr None
     | Some s \<Rightarrow> map_sum id current_gap_trading_days (build_attention_timeline
         (filter (\<lambda>x. as_attention_policy_version x = ap_version ATTENTION_POLICY_V1) stored_signals @ [s])
         (days @ [market_date p]) ATTENTION_POLICY_V1))"

text \<open>\<open>stored[-n:]\<close>.\<close>

definition last_days :: "nat \<Rightarrow> date list \<Rightarrow> date list" where
  "last_days n ds = drop (length ds - n) ds"

definition bucket_observation ::
  "date \<Rightarrow> int \<Rightarrow> hot_stock_state \<Rightarrow> stock_trading_value_observation result" where
  "bucket_observation day bucket s = stock_trading_value_observation_init
     \<lparr>sv_stock_id = hk_stock_id s, sv_market_date = day, sv_observed_at = hk_occurred_at s,
      sv_time_bucket = bucket, sv_cumulative_trading_value = hk_cumulative_trading_value s,
      sv_comparable = True, sv_fresh = hk_fresh s, sv_trading_halted = hk_trading_halted s,
      sv_corporate_action_unresolved = hk_corporate_action_unresolved s\<rparr>"

definition record_bucket :: "int \<Rightarrow> history \<Rightarrow> unit pipeline_action" where
  "record_bucket bucket h =
     seq_act (changing (\<lambda>p. if mp_membership_recorded p then p else
         p\<lparr>mp_history := Some (record_membership h (market_date p) (tc_snapshots (mc_catalog (mp_setup p)))),
           mp_membership_recorded := True\<rparr>)) (
     bind_act (reading (\<lambda>p. map_result (bucket_observation (market_date p) bucket)
         (states_for (mp_hot p) (market_date p) (mp_observed_stock_ids p)))) (\<lambda>r.
     bind_act (pure_act r) (\<lambda>observations.
       changing (\<lambda>p. p\<lparr>mp_history := map_option
         (\<lambda>h. record_turnover h (market_date p) bucket observations) (mp_history p)\<rparr>))))"

definition recalculate_theme ::
  "int \<Rightarrow> datetime \<Rightarrow> date list \<Rightarrow> date list \<Rightarrow> theme_membership_snapshot list
    \<Rightarrow> stock_trading_value_observation list \<Rightarrow> (string, attention_day_signal list) dict \<Rightarrow> string \<Rightarrow> unit pipeline_action" where
  "recalculate_theme bucket as_of turnover_days attention_days snapshots observations signals theme_id =
     bind_act (reading (\<lambda>p. calculate_theme_turnover theme_id (market_date p) as_of bucket
         (turnover_days @ [market_date p]) (filter (\<lambda>s. ms_theme_id s = theme_id) snapshots) observations
         RANKING_BASELINE_POLICY_V1)) (\<lambda>r.
     bind_act (pure_act r) (\<lambda>turnover.
     seq_act (changing (\<lambda>p. p\<lparr>mp_turnover := dset theme_id turnover (mp_turnover p)\<rparr>)) (
     bind_act (reading (\<lambda>p. current_attention_gap p theme_id turnover (signals_at signals theme_id) attention_days)) (\<lambda>g.
     bind_act (pure_act g) (\<lambda>gap.
       changing (\<lambda>p. p\<lparr>mp_attention_gap := dset theme_id gap (mp_attention_gap p)\<rparr>))))))"

definition recalculate_baselines :: "string list \<Rightarrow> int \<Rightarrow> datetime \<Rightarrow> history \<Rightarrow> unit pipeline_action" where
  "recalculate_baselines theme_ids bucket as_of h =
     (if theme_ids = [] then ret ()
      else bind_act (reading (\<lambda>p. (market_date p, tc_snapshots (mc_catalog (mp_setup p))))) (\<lambda>(day, catalog).
        let stored = filter (\<lambda>d. d < day) (trading_days h);
            turnover_days = last_days (bp_lookback_trading_days RANKING_BASELINE_POLICY_V1) stored;
            attention_days = last_days (bp_lookback_trading_days ATTENTION_BASELINE_POLICY_V1) stored
        in bind_act (pure_act (load_turnover h bucket (turnover_days @ [day]))) (\<lambda>observations.
           bind_act (pure_act (load_membership h turnover_days)) (\<lambda>memberships.
             for_each (recalculate_theme bucket as_of turnover_days attention_days (memberships @ catalog)
               observations (load_attention h attention_days)) theme_ids))))"

definition accumulate :: "datetime \<Rightarrow> unit pipeline_action" where
  "accumulate as_of =
     bind_act (reading mp_history) (\<lambda>h. case h of None \<Rightarrow> ret ()
     | Some h \<Rightarrow>
         let bucket = minute_of as_of
         in seq_act (bind_act (reading (\<lambda>p. mp_recorded_bucket p \<noteq> Some bucket)) (\<lambda>new. when_act new
              (seq_act (changing (\<lambda>p. p\<lparr>mp_recorded_bucket := Some bucket\<rparr>)) (record_bucket bucket h)))) (
            bind_act (reading public_theme_ids) (\<lambda>theme_ids.
            bind_act (reading (\<lambda>p. (mp_baseline_key p = Some (bucket, theme_ids), mp_history p))) (\<lambda>(same, h1).
              case h1 of None \<Rightarrow> ret () | Some h1 \<Rightarrow>
              when_act (\<not> same) (seq_act (changing (\<lambda>p. p\<lparr>mp_baseline_key := Some (bucket, theme_ids)\<rparr>))
                (recalculate_baselines theme_ids bucket as_of h1))))))"

text \<open>At the close the signals of the day are recorded for the days to come.\<close>

definition record_attention_day :: "unit pipeline_action" where
  "record_attention_day =
     bind_act (reading (\<lambda>p. mp_turnover p \<noteq> [] \<and> mp_history p \<noteq> None)) (\<lambda>some. when_act some
       (bind_act (reading (\<lambda>p. map_result (\<lambda>(t, turnover). map_sum id (map_option (Pair t))
            (attention_signal p t turnover)) (mp_turnover p))) (\<lambda>r.
        bind_act (pure_act r) (\<lambda>signals.
          changing (\<lambda>p. p\<lparr>mp_history := map_option (\<lambda>h. record_attention h (market_date p)
            (List.map_filter id signals)) (mp_history p)\<rparr>)))))"

definition close_market :: "hash \<Rightarrow> datetime \<Rightarrow> unit pipeline_action" where
  "close_market H now =
     seq_act (changing (\<lambda>p. p\<lparr>mp_market_closed := True\<rparr>)) (
     bind_act (reading sorted_updates) (\<lambda>updates.
     seq_act (for_each (close_theme H now) updates) record_attention_day))"

section \<open>Rankings\<close>

definition reference_close :: "market_pipeline \<Rightarrow> string \<Rightarrow> theme_metric_update \<Rightarrow> rat option" where
  "reference_close p stock_id u =
     (case List.map_filter (\<lambda>r. adjusted_return_reference r (tu_market_date u) (tu_as_of u))
         (filter (\<lambda>r. sr_stock_id r = stock_id) (mp_references p)) of [] \<Rightarrow> None | c # cs \<Rightarrow> Some c)"

definition leader_return :: "market_pipeline \<Rightarrow> theme_metric_update \<Rightarrow> capped_weight \<Rightarrow> (rat \<times> string) option" where
  "leader_return p u w =
     Option.bind (hot_get (mp_hot p) (tu_market_date u) (cw_stock_id w)) (\<lambda>state.
     Option.bind (hk_current_price state) (\<lambda>price.
     map_option (\<lambda>reference. (dround 28 (dround 28 (dval price / reference) - 1), cw_stock_id w))
       (reference_close p (cw_stock_id w) u)))"

definition leader_returns :: "market_pipeline \<Rightarrow> string \<Rightarrow> (rat \<times> string) list" where
  "leader_returns p theme_id = (case dget (mp_latest_metrics p) theme_id of None \<Rightarrow> []
     | Some u \<Rightarrow> sort_key (\<lambda>(r, i). (- r, i))
         (List.map_filter (leader_return p u) (mt_capped_weights (tu_metrics u))))"

definition symbol_of :: "string \<Rightarrow> string" where
  "symbol_of stock_id = (if take 4 stock_id = ''KRX:'' then drop 4 stock_id else stock_id)"

definition stock_name :: "market_pipeline \<Rightarrow> string \<Rightarrow> string" where
  "stock_name p stock_id = (case dget (mc_stock_names (mp_setup p)) stock_id of None \<Rightarrow> stock_id | Some n \<Rightarrow> n)"

definition leader_fields :: "market_pipeline \<Rightarrow> rat \<times> string \<Rightarrow> (string \<times> json) list" where
  "leader_fields p x = (case x of (r, stock_id) \<Rightarrow>
     [(''stockId'', JStr stock_id), (''symbol'', JStr (symbol_of stock_id)),
      (''name'', JStr (stock_name p stock_id)), (''return'', JNum (to_double r))])"

definition leaders :: "market_pipeline \<Rightarrow> string \<Rightarrow> nat \<Rightarrow> (string \<times> json) list list" where
  "leaders p theme_id limit = map (leader_fields p) (take limit (leader_returns p theme_id))"

text \<open>The history of published ranks, pruned to what the last five minutes need.\<close>

fun prune_ranks :: "datetime \<Rightarrow> (datetime \<times> ranks) list \<Rightarrow> (datetime \<times> ranks) list" where
  "prune_ranks cutoff (a # b # rest) =
     (if instant (fst b) \<le> instant cutoff then prune_ranks cutoff (b # rest) else a # b # rest)"
| "prune_ranks cutoff h = h"

definition remember_ranks :: "datetime \<Rightarrow> ranks \<Rightarrow> (datetime \<times> ranks) list \<Rightarrow> (datetime \<times> ranks) list" where
  "remember_ranks now ranks h = prune_ranks (shift now (- RISING_RETURN_WINDOW)) (h @ [(now, ranks)])"

fun ranks_scan :: "ranks option \<Rightarrow> (datetime \<times> ranks) list \<Rightarrow> datetime \<Rightarrow> ranks option" where
  "ranks_scan found [] moment = found"
| "ranks_scan found ((stamp, ranks) # h) moment =
     (if instant moment < instant stamp then found else ranks_scan (Some ranks) h moment)"

definition ranks_at :: "(datetime \<times> ranks) list \<Rightarrow> datetime \<Rightarrow> ranks option" where
  "ranks_at h moment = ranks_scan None h moment"

definition rank_change :: "(datetime \<times> ranks) list \<Rightarrow> string \<Rightarrow> nat \<Rightarrow> datetime \<Rightarrow> int option" where
  "rank_change h event_id rank now =
     Option.bind (ranks_at h (shift now (- RANK_CHANGE_WINDOW))) (\<lambda>previous.
     map_option (\<lambda>prior. int (fst prior) - int rank) (dget previous event_id))"

definition badges ::
  "(datetime \<times> ranks) list \<Rightarrow> string \<Rightarrow> int option \<Rightarrow> rat option \<Rightarrow> datetime \<Rightarrow> string list" where
  "badges h event_id change weighted_return now =
     (if (case change of None \<Rightarrow> True | Some n \<Rightarrow> n < RISING_FAST_RANK_GAIN) then []
      else case Option.bind (ranks_at h (shift now (- RISING_RETURN_WINDOW))) (\<lambda>prior. dget prior event_id) of
          None \<Rightarrow> []
        | Some (_, prior) \<Rightarrow>
            (case (weighted_return, prior) of
               (Some r, Some b) \<Rightarrow> if b < r then [RISING_FAST_BADGE] else []
             | _ \<Rightarrow> []))"

record rank_candidate =
  rn_weighted_return :: rat
  rn_theme_id :: string
  rn_event :: canonical_event
  rn_metrics :: theme_metrics

definition rankable :: "bool \<Rightarrow> lifecycle_status \<Rightarrow> bool" where
  "rankable market_closed s \<longleftrightarrow> s = ACTIVE \<or> s = WEAKENING \<or> market_closed \<and> s = CLOSED"

definition rank_candidate_of :: "market_pipeline \<Rightarrow> string \<times> theme_metric_update \<Rightarrow> rank_candidate option" where
  "rank_candidate_of p x = (case x of (theme_id, u) \<Rightarrow>
     Option.bind (event_of_theme p theme_id) (\<lambda>event.
       if \<not> rankable (mp_market_closed p) (ce_lifecycle_status event) \<or> \<not> rank_eligible (tu_metrics u) then None
       else Option.bind (mt_weighted_return (tu_metrics u)) (\<lambda>r.
         if r \<le> 0 then None
         else Some \<lparr>rn_weighted_return = r, rn_theme_id = theme_id, rn_event = event, rn_metrics = tu_metrics u\<rparr>)))"

definition rank_candidates :: "market_pipeline \<Rightarrow> rank_candidate list" where
  "rank_candidates p = sort_key (\<lambda>c. (- rn_weighted_return c, rn_theme_id c))
     (List.map_filter (rank_candidate_of p) (mp_latest_metrics p))"

definition ranking_item :: "market_pipeline \<Rightarrow> datetime \<Rightarrow> nat \<times> rank_candidate \<Rightarrow> (string \<times> json) list" where
  "ranking_item p now x = (case x of (rank, c) \<Rightarrow>
     let event = rn_event c; event_id = ce_event_id event; m = rn_metrics c;
         change = rank_change (mp_rank_history p) event_id rank now;
         evidence = (case dget (mp_evidence p) event_id of None \<Rightarrow> searching_summary | Some s \<Rightarrow> s)
     in [(''eventId'', JStr event_id),
         (''lifecycleStatus'', JStr (lifecycle_value (ce_lifecycle_status event))),
         (''reconciliationStatus'', JStr (reconciliation_value RECONCILIATION_PENDING)),
         (''classification'', classification_to_public (ce_classification event)),
         (''rank'', JInt (int rank)), (''rankChange60s'', json_opt JInt change),
         (''badges'', JList (map JStr (badges (mp_rank_history p) event_id change (mt_weighted_return m) now)))]
        @ ranking_fields m []
        @ [(''leader'', case leaders p (rn_theme_id c) 1 of [] \<Rightarrow> JNull | l # ls \<Rightarrow> JObj l),
           (''evidence'', JObj [(''evidenceStatus'', JStr (evidence_value (sy_evidence_status evidence))),
              (''summary'', json_opt JStr (sy_summary evidence)),
              (''publishedAt'', json_opt JTime (sy_latest_published_at evidence))])])"

definition current_ranks :: "(nat \<times> rank_candidate) list \<Rightarrow> ranks" where
  "current_ranks xs = foldl (\<lambda>d (rank, c). dset (ce_event_id (rn_event c)) (rank, mt_weighted_return (rn_metrics c)) d) [] xs"

definition ranking_items :: "datetime \<Rightarrow> (string \<times> json) list list pipeline_action" where
  "ranking_items now =
     bind_act (reading (\<lambda>p. let ranked = enumerate 1 (rank_candidates p)
         in (map (ranking_item p now) ranked, current_ranks ranked))) (\<lambda>(items, ranks).
     seq_act (changing (\<lambda>p. p\<lparr>mp_rank_history := remember_ranks now ranks (mp_rank_history p)\<rparr>)) (ret items))"

text \<open>The keys read here are in every item.\<close>

definition item_field :: "(string \<times> json) list \<Rightarrow> string \<Rightarrow> json" where
  "item_field fs k = (case map_of fs k of None \<Rightarrow> JNull | Some v \<Rightarrow> v)"

definition inner_field :: "json \<Rightarrow> string \<Rightarrow> json" where
  "inner_field v k = (case v of JObj fs \<Rightarrow> item_field fs k | _ \<Rightarrow> JNull)"

definition treemap_item :: "(string \<times> json) list \<Rightarrow> json" where
  "treemap_item item = JObj
     [(''eventId'', item_field item ''eventId''),
      (''themeId'', inner_field (item_field item ''classification'') ''themeId''),
      (''displayName'', inner_field (item_field item ''classification'') ''displayName''),
      (''lifecycleStatus'', item_field item ''lifecycleStatus''),
      (''weightedReturn'', item_field item ''weightedReturn''),
      (''advancingCount'', item_field item ''advancingCount''),
      (''validCount'', item_field item ''validCount''),
      (''coverageStatus'', inner_field (item_field item ''coverage'') ''status''),
      (''qualityFlags'', item_field item ''qualityFlags'')]"

section \<open>Publication\<close>

record published_view =
  pw_rankings :: read_snapshot
  pw_treemap :: read_snapshot
  pw_events :: "canonical_event list"

definition current_events :: "market_pipeline \<Rightarrow> canonical_event list" where
  "current_events p = List.map_filter (read_event p) (sort (map snd (mp_event_ids p)))"

definition publish_snapshot ::
  "hash \<Rightarrow> snapshot_topic \<Rightarrow> json \<Rightarrow> json \<Rightarrow> datetime \<Rightarrow> datetime \<Rightarrow> data_status \<Rightarrow> read_snapshot pipeline_action" where
  "publish_snapshot H topic params payload now as_of status =
     seq_act (changing (\<lambda>p. p\<lparr>mp_publication_index := mp_publication_index p + 1\<rparr>)) (
     bind_act (reading (\<lambda>p. bind_result (snapshot_versions_init
         \<lparr>vs_schema_version = mc_schema_version (mp_setup p),
          vs_calculation_version = tp_version THEME_CALCULATION_POLICY_V1,
          vs_ranking_model_version = RANKING_MODEL_VERSION,
          vs_membership_version = mc_membership_version (mp_setup p), vs_baseline_version = None\<rparr>)
       (\<lambda>versions. snapshot_publication_init
         \<lparr>pb_publication_id = mc_stream_id (mp_setup p) @ '':pub:'' @ digits_of (nat (mp_publication_index p)),
          pb_stream_id = mc_stream_id (mp_setup p), pb_topic = topic, pb_params = params,
          pb_market_date = market_date p, pb_generated_at = later now as_of, pb_as_of = as_of,
          pb_data_status = status, pb_quality_flags = [], pb_payload = payload,
          pb_versions = versions\<rparr>))) (\<lambda>r.
     bind_act (pure_act r) (\<lambda>publication.
       zoom mp_snapshots (\<lambda>s p. p\<lparr>mp_snapshots := s\<rparr>) (\<lambda>s. publish H s publication))))"

definition drain_themes :: "theme_metric_update list pipeline_action" where
  "drain_themes p = (case drain (mp_aggregator p) (mp_hot p) of (a, r) \<Rightarrow> (p\<lparr>mp_aggregator := a\<rparr>, r))"

definition keep_metrics :: "theme_metric_update list \<Rightarrow> market_pipeline \<Rightarrow> market_pipeline" where
  "keep_metrics updates p = p\<lparr>mp_latest_metrics :=
     foldl (\<lambda>d u. dset (tu_theme_id u) u d) (mp_latest_metrics p) updates\<rparr>"

definition pipeline_publish :: "hash \<Rightarrow> datetime \<Rightarrow> data_status \<Rightarrow> published_view pipeline_action" where
  "pipeline_publish H now status =
     bind_act drain_themes (\<lambda>updates.
     seq_act (changing (keep_metrics updates)) (
     bind_act (reading (\<lambda>p. if mp_market_closed p then [] else sorted_updates p)) (\<lambda>evaluated.
     seq_act (for_each (evaluate_theme H now) evaluated) (
     seq_act (changing (\<lambda>p. p\<lparr>mp_last_data_status := status\<rparr>)) (
     bind_act (reading (\<lambda>p. case mp_last_as_of p of None \<Rightarrow> now | Some t \<Rightarrow> t)) (\<lambda>as_of.
     seq_act (accumulate as_of) (
     bind_act (ranking_items now) (\<lambda>items.
     bind_act (publish_snapshot H THEME_RANK RANKINGS_PARAMS (JObj [(''items'', JList (map JObj items))])
       now as_of status) (\<lambda>rankings.
     bind_act (publish_snapshot H THEME_TREEMAP TREEMAP_PARAMS
       (JObj [(''items'', JList (map treemap_item (take 12 items)))]) now as_of status) (\<lambda>treemap.
     seq_act (changing (\<lambda>p. p\<lparr>mp_latest_rankings := Some rankings, mp_latest_treemap := Some treemap\<rparr>))
       (reading (\<lambda>p. \<lparr>pw_rankings = rankings, pw_treemap = treemap, pw_events = current_events p\<rparr>))))))))))))"

definition restore_final_snapshots ::
  "read_snapshot \<Rightarrow> read_snapshot \<Rightarrow> datetime \<Rightarrow> published_view pipeline_action" where
  "restore_final_snapshots rankings treemap close_at =
     bind_act (reading market_date) (\<lambda>day.
     if rs_market_date rankings \<noteq> day then raise_act (ValueError ''market_date'')
     else bind_act (pure_act (read_snapshot_init (rankings\<lparr>rs_data_status := STATUS_CLOSED\<rparr>))) (\<lambda>r.
       bind_act (pure_act (read_snapshot_init (treemap\<lparr>rs_data_status := STATUS_CLOSED\<rparr>))) (\<lambda>t.
       seq_act (changing (\<lambda>p. p\<lparr>mp_market_closed := True, mp_latest_rankings := Some r,
           mp_latest_treemap := Some t, mp_last_as_of := Some close_at, mp_last_data_status := STATUS_CLOSED\<rparr>))
         (reading (\<lambda>p. \<lparr>pw_rankings = r, pw_treemap = t, pw_events = current_events p\<rparr>)))))"

end
