(* ===== verification/Market_Ranks.thy ===== *)
theory Market_Ranks
  imports Market_Pipeline
begin

text \<open>
  The rankings of the pipeline (\<open>_ranking_items\<close>, \<open>_remember_ranks\<close>, \<open>_ranks_at\<close> of
  \<open>packages/pipeline/market.py\<close>): their order and content, and that the history of ranks, which is
  pruned after every publication, answers as the whole history would.
\<close>

section \<open>The pruned history\<close>

text \<open>What a sequence of publications leaves in the history.\<close>

definition kept_history :: "(datetime \<times> ranks) list \<Rightarrow> (datetime \<times> ranks) list" where
  "kept_history pubs = foldl (\<lambda>h (now, ranks). remember_ranks now ranks h) [] pubs"

abbreviation in_time :: "(datetime \<times> ranks) list \<Rightarrow> bool" where
  "in_time h \<equiv> sorted (map (\<lambda>x. instant (fst x)) h)"

lemma ranks_scan_append:
  "in_time (h @ [x]) \<Longrightarrow> ranks_scan found (h @ [x]) moment
     = (if instant moment < instant (fst x) then ranks_scan found h moment else Some (snd x))"
proof (induction h arbitrary: found)
  case Nil
  then show ?case by (cases x) simp
next
  case (Cons y h)
  then show ?case by (cases y) (auto simp: sorted_append)
qed

lemma prune_ranks_scan:
  assumes "in_time h" and "instant cutoff \<le> instant moment"
  shows "ranks_scan None (prune_ranks cutoff h) moment = ranks_scan None h moment"
  using assms
proof (induction cutoff h rule: prune_ranks.induct)
  case (1 cutoff a b rest)
  obtain s r s' r' where ab: "a = (s, r)" "b = (s', r')" by (cases a, cases b) auto
  show ?case
  proof (cases "instant (fst b) \<le> instant cutoff")
    case True
    then have "ranks_scan None (prune_ranks cutoff (a # b # rest)) moment = ranks_scan None (b # rest) moment"
      using 1 by simp
    also have "\<dots> = ranks_scan None (a # b # rest) moment"
      using True 1(2,3) ab by simp
    finally show ?thesis .
  qed simp
qed simp_all

lemma prune_ranks_in_time: "in_time h \<Longrightarrow> in_time (prune_ranks cutoff h)"
  by (induction cutoff h rule: prune_ranks.induct) auto

lemma prune_ranks_set: "set (prune_ranks cutoff h) \<subseteq> set h"
  by (induction cutoff h rule: prune_ranks.induct) auto

lemma prune_ranks_recent: "in_time h \<Longrightarrow> x \<in> set (tl (prune_ranks cutoff h)) \<Longrightarrow> instant cutoff < instant (fst x)"
  by (induction cutoff h rule: prune_ranks.induct) (force split: if_splits)+

lemma kept_history_snoc: "kept_history (ps @ [(now, r)]) = remember_ranks now r (kept_history ps)"
  by (simp add: kept_history_def)

lemma kept_history_ok:
  "in_time ps \<Longrightarrow> in_time (kept_history ps) \<and> set (kept_history ps) \<subseteq> set ps
    \<and> (ps \<noteq> [] \<longrightarrow>
        (\<forall>moment. instant (fst (last ps)) - RISING_RETURN_WINDOW \<le> instant moment \<longrightarrow>
           ranks_scan None (kept_history ps) moment = ranks_scan None ps moment)
        \<and> (\<forall>x\<in>set (tl (kept_history ps)). instant (fst (last ps)) - RISING_RETURN_WINDOW < instant (fst x)))"
proof (induction ps rule: rev_induct)
  case Nil
  then show ?case by (simp add: kept_history_def)
next
  case (snoc p ps)
  obtain now r where p: "p = (now, r)" by (cases p)
  let ?k = "kept_history ps" and ?cut = "shift now (- RISING_RETURN_WINDOW)"
  have ps: "in_time ps" "\<forall>x\<in>set ps. instant (fst x) \<le> instant now"
    using snoc.prems by (auto simp: p sorted_append)
  then have k: "in_time (?k @ [(now, r)])"
    using snoc.IH by (auto simp: sorted_append)
  have kept: "kept_history (ps @ [p]) = prune_ranks ?cut (?k @ [(now, r)])"
    by (simp add: p kept_history_snoc remember_ranks_def)
  have "ranks_scan None (kept_history (ps @ [p])) moment = ranks_scan None (ps @ [p]) moment"
    if m: "instant now - RISING_RETURN_WINDOW \<le> instant moment" for moment
  proof -
    have "ranks_scan None ?k moment = ranks_scan None ps moment"
    proof (cases "ps = []")
      case False
      then have "instant (fst (last ps)) \<le> instant now" using ps(2) by simp
      then show ?thesis using snoc.IH ps(1) False m by simp
    qed (simp add: kept_history_def)
    moreover have "ranks_scan None (prune_ranks ?cut (?k @ [(now, r)])) moment = ranks_scan None (?k @ [(now, r)]) moment"
      using m by (intro prune_ranks_scan [OF k]) (simp)
    ultimately show ?thesis
      using ranks_scan_append [OF k] ranks_scan_append [OF snoc.prems] by (simp add: kept [unfolded p] p)
  qed
  moreover have "\<forall>x\<in>set (tl (kept_history (ps @ [p]))). instant now - RISING_RETURN_WINDOW < instant (fst x)"
    using prune_ranks_recent [OF k, of _ ?cut] by (auto simp: kept)
  moreover have "in_time (kept_history (ps @ [p]))"
    unfolding kept by (rule prune_ranks_in_time [OF k])
  moreover have "set (kept_history (ps @ [p])) \<subseteq> set (ps @ [p])"
    using prune_ranks_set [of ?cut "?k @ [(now, r)]"] snoc.IH ps(1) by (auto simp: kept [unfolded p] p)
  ultimately show ?case by (simp add: p)
qed

text \<open>
  Pruning is not visible.  For publications in the order of the clock, the rank changes and the
  badges of the next publication are those of the whole history, although at most one of the kept
  entries is older than the window.
\<close>

theorem pruned_history_equivalent:
  assumes "in_time pubs" and "\<forall>x\<in>set pubs. instant (fst x) \<le> instant now"
  shows "rank_change (kept_history pubs) event_id rank now = rank_change pubs event_id rank now
    \<and> badges (kept_history pubs) event_id change weighted_return now
        = badges pubs event_id change weighted_return now
    \<and> (\<forall>x\<in>set (tl (kept_history pubs)).
         instant (fst (last pubs)) - RISING_RETURN_WINDOW < instant (fst x))"
proof (cases "pubs = []")
  case False
  then have "instant (fst (last pubs)) \<le> instant now" using assms(2) by simp
  then have "ranks_at (kept_history pubs) (shift now (- RANK_CHANGE_WINDOW))
        = ranks_at pubs (shift now (- RANK_CHANGE_WINDOW))"
      "ranks_at (kept_history pubs) (shift now (- RISING_RETURN_WINDOW))
        = ranks_at pubs (shift now (- RISING_RETURN_WINDOW))"
    using kept_history_ok [OF assms(1)] False
    by (simp_all add: ranks_at_def RANK_CHANGE_WINDOW_def RISING_RETURN_WINDOW_def)
  then show ?thesis
    using kept_history_ok [OF assms(1)] False by (simp add: rank_change_def badges_def)
qed (simp add: kept_history_def)

definition sample_ranks :: "(datetime \<times> ranks) list" where
  "sample_ranks = [(Aware 0 0, [(''e'', 5, Some (1 / 10))]), (Aware 100000000 0, [(''e'', 4, Some (1 / 5))]),
     (Aware 350000000 0, [(''e'', 3, Some (1 / 5))])]"

theorem pruned_history_equivalent_witness:
  "length (kept_history (sample_ranks @ [(Aware 390000000 0, [])])) = 4
   \<and> badges (kept_history sample_ranks) ''e'' (Some 3) (Some (1 / 4)) (Aware 410000000 0) = [RISING_FAST_BADGE]
   \<and> badges sample_ranks ''e'' (Some 3) (Some (1 / 4)) (Aware 410000000 0) = [RISING_FAST_BADGE]"
proof -
  have "badges sample_ranks ''e'' (Some 3) (Some (1 / 4)) (Aware 410000000 0) = [RISING_FAST_BADGE]"
    "length (kept_history (sample_ranks @ [(Aware 390000000 0, [])])) = 4" by code_simp+
  then show ?thesis
    using pruned_history_equivalent [of sample_ranks "Aware 410000000 0" "''e''" 1 "Some 3" "Some (1 / 4)"]
    by (simp add: sample_ranks_def)
qed

section \<open>The rankings\<close>


end
