(* ===== verification/News_Text.thy ===== *)
theory News_Text
  imports Prelude "HOL-Library.Multiset"
begin

text \<open>
  Text functions of the news packages on UTF-8 bytes (\<open>packages/news/normalize.py\<close>,
  \<open>packages/catalyst/models.py\<close>): code points, \<open>strip\<close>, \<open>split\<close>, substring tests and the regular
  expressions that recognise a featured-stock title, reduce a title to its words and split a theme
  name into tokens.  The Unicode tables of \<open>casefold\<close> and \<open>lower\<close> and the URL functions of
  \<open>urllib.parse\<close> are parameters.
\<close>

section \<open>Code points, words and substrings\<close>

definition utf8 :: "int list \<Rightarrow> string" where
  "utf8 bytes = map char_of bytes"

definition continuation_byte :: "char \<Rightarrow> bool" where
  "continuation_byte c \<longleftrightarrow> (let n = of_char c :: int in 128 \<le> n \<and> n < 192)"

function code_points :: "string \<Rightarrow> string list" where
  "code_points [] = []"
| "code_points (c # s) = (c # takeWhile continuation_byte s) # code_points (dropWhile continuation_byte s)"
  by pat_completeness auto
termination
  by (relation "measure length") (auto simp: le_imp_less_Suc length_dropWhile_le)

lemma concat_code_points [simp]: "concat (code_points s) = s"
  by (induction s rule: code_points.induct) simp_all

definition lstrip_points :: "string list \<Rightarrow> string list" where
  "lstrip_points = dropWhile blank"

definition stripped :: "string \<Rightarrow> string" where
  "stripped s = concat (rev (lstrip_points (rev (lstrip_points (code_points s)))))"

text \<open>The maximal runs of points without a separator; \<open>split()\<close> is on white space.\<close>

fun runs_of :: "(string \<Rightarrow> bool) \<Rightarrow> string \<Rightarrow> string list \<Rightarrow> string list" where
  "runs_of sep w [] = (if w = [] then [] else [w])"
| "runs_of sep w (p # ps) =
     (if sep p then (if w = [] then [] else [w]) @ runs_of sep [] ps else runs_of sep (w @ p) ps)"

definition words_of :: "string \<Rightarrow> string list" where
  "words_of s = runs_of blank [] (code_points s)"

fun join :: "string \<Rightarrow> string list \<Rightarrow> string" where
  "join sep [] = []"
| "join sep [s] = s"
| "join sep (s # t # ts) = s @ sep @ join sep (t # ts)"

definition starts_with :: "'a list \<Rightarrow> 'a list \<Rightarrow> bool" where
  "starts_with p s \<longleftrightarrow> take (length p) s = p"

definition ends_with :: "string \<Rightarrow> string \<Rightarrow> bool" where
  "ends_with p s \<longleftrightarrow> starts_with (rev p) (rev s)"

fun occurs :: "'a list \<Rightarrow> 'a list \<Rightarrow> bool" where
  "occurs p [] \<longleftrightarrow> p = []"
| "occurs p (c # s) \<longleftrightarrow> starts_with p (c # s) \<or> occurs p s"

lemma starts_with_iff: "starts_with p s \<longleftrightarrow> (\<exists>t. s = p @ t)"
  unfolding starts_with_def by (metis append_eq_conv_conj)

lemma occurs_iff: "occurs p s \<longleftrightarrow> (\<exists>a b. s = a @ p @ b)"
proof (induction s)
  case (Cons c s)
  have "(\<exists>a b. c # s = a @ p @ b) \<longleftrightarrow> (\<exists>b. c # s = p @ b) \<or> (\<exists>a b. s = a @ p @ b)"
    by (metis append_Cons append_Nil list.exhaust list.inject)
  with Cons show ?case by (simp add: starts_with_iff)
qed auto

text \<open>\<open>dict.fromkeys\<close>: the first of equal elements stays.\<close>

definition first_of_each :: "'a list \<Rightarrow> 'a list" where
  "first_of_each xs = rev (remdups (rev xs))"

lemma set_first_of_each [simp]: "set (first_of_each xs) = set xs"
  by (simp add: first_of_each_def)

lemma distinct_first_of_each [simp]: "distinct (first_of_each xs)"
  by (simp add: first_of_each_def)

lemma first_of_each_Nil_iff [simp]: "first_of_each xs = [] \<longleftrightarrow> xs = []"
  by (simp add: first_of_each_def)

section \<open>Titles\<close>

text \<open>The brackets of the patterns: the two ASCII pairs and U+3010, U+3011.\<close>

definition opening_bracket :: "string \<Rightarrow> bool" where
  "opening_bracket p \<longleftrightarrow> p = ''['' \<or> p = ''('' \<or> p = utf8 [227, 128, 144]"

definition closing_bracket :: "string \<Rightarrow> bool" where
  "closing_bracket p \<longleftrightarrow> p = '']'' \<or> p = '')'' \<or> p = utf8 [227, 128, 145]"

text \<open>The word that opens a featured-stock title (U+D2B9 U+C9D5 U+C8FC).\<close>

definition FEATURED :: "string list" where
  "FEATURED = [utf8 [237, 138, 185], utf8 [236, 167, 149], utf8 [236, 163, 188]]"

definition is_featured_stock_title :: "string \<Rightarrow> bool" where
  "is_featured_stock_title title = (case lstrip_points (code_points title) of [] \<Rightarrow> False
     | p # ps \<Rightarrow> opening_bracket p \<and> starts_with FEATURED (lstrip_points ps))"

text \<open>A bracket is removed up to the next closing one; without one it stays.\<close>

function drop_brackets :: "string list \<Rightarrow> string list" where
  "drop_brackets [] = []"
| "drop_brackets (p # ps) =
     (if opening_bracket p
      then (case dropWhile (\<lambda>q. \<not> closing_bracket q) ps of [] \<Rightarrow> p # drop_brackets ps
            | q # qs \<Rightarrow> '' '' # drop_brackets qs)
      else p # drop_brackets ps)"
  by pat_completeness auto
termination
proof (relation "measure length")
  fix p :: string and ps q qs
  assume "dropWhile (\<lambda>q. \<not> closing_bracket q) ps = q # qs"
  then have "Suc (length qs) \<le> length ps" using length_dropWhile_le [of "\<lambda>q. \<not> closing_bracket q" ps] by simp
  then show "(qs, p # ps) \<in> measure length" by simp
qed simp_all

text \<open>The letters the words of a reduced title are made of: digits, a to z, U+AC00 to U+D7A3.\<close>

fun point_value :: "string \<Rightarrow> int" where
  "point_value p = foldl (\<lambda>n c. 256 * n + of_char c) 0 p"

definition word_point :: "string \<Rightarrow> bool" where
  "word_point p \<longleftrightarrow> (let n = point_value p in
     48 \<le> n \<and> n \<le> 57 \<or> 97 \<le> n \<and> n \<le> 122 \<or> 15380608 \<le> n \<and> n \<le> 15572643)"

text \<open>
  \<open>sub(" ", ...)\<close> of the runs of other letters and \<open>strip()\<close>: the words joined by one space.
\<close>

definition normalized_title :: "(string \<Rightarrow> string) \<Rightarrow> string \<Rightarrow> string" where
  "normalized_title casefold title =
     join '' '' (runs_of (\<lambda>p. \<not> word_point p) []
       (code_points (casefold (concat (drop_brackets (code_points title))))))"

definition title_hash :: "hash \<Rightarrow> (string \<Rightarrow> string) \<Rightarrow> string \<Rightarrow> string" where
  "title_hash H casefold title = H (Plain (normalized_title casefold title))"

definition news_content_hash :: "hash \<Rightarrow> (string \<Rightarrow> string) \<Rightarrow> string \<Rightarrow> string \<Rightarrow> string" where
  "news_content_hash H casefold title description =
     H (Plain (normalized_title casefold title @ [CHR 0x0A] @ normalized_title casefold description))"

definition news_id_of :: "hash \<Rightarrow> string \<Rightarrow> string" where
  "news_id_of H url = ''news_'' @ take 32 (H (Plain url))"

section \<open>Addresses\<close>

text \<open>
  What \<open>urlsplit\<close> and \<open>parse_qsl(keep_blank_values=True)\<close> read from an address; \<open>urlsplit\<close> and
  \<open>port\<close> raise \<open>ValueError\<close> for a malformed one, which is the same exception for the callers here.
\<close>

record url_parts =
  ur_scheme :: string
  ur_netloc :: string
  ur_hostname :: "string option"
  ur_port :: "int option"
  ur_path :: string
  ur_query :: "(string \<times> string) list"

record url_library =
  ul_split :: "string \<Rightarrow> url_parts result"
  ul_unsplit :: "string \<times> string \<times> string \<times> string \<times> string \<Rightarrow> string"
  ul_encode :: "(string \<times> string) list \<Rightarrow> string"
  ul_lower :: "string \<Rightarrow> string"

definition TRACKING_KEYS :: "string list" where
  "TRACKING_KEYS = [''fbclid'', ''gclid'', ''igshid'', ''spm'', ''cmpid'', ''ref'']"

definition canonical_host :: "url_parts \<Rightarrow> string" where
  "canonical_host u =
     (let host = case ur_hostname u of None \<Rightarrow> [] | Some h \<Rightarrow> h;
          host = if starts_with ''www.'' host then drop 4 host else host
      in case ur_port u of None \<Rightarrow> host
         | Some p \<Rightarrow> if p = 80 \<or> p = 443 then host else host @ '':'' @ digits_of (nat p))"

definition untracked :: "url_library \<Rightarrow> (string \<times> string) list \<Rightarrow> (string \<times> string) list" where
  "untracked L = filter (\<lambda>(k, v). ul_lower L k \<notin> set TRACKING_KEYS \<and> \<not> starts_with ''utm_'' (ul_lower L k))"

definition canonical_url :: "url_library \<Rightarrow> string \<Rightarrow> string result" where
  "canonical_url L url = bind_result (ul_split L (stripped url)) (\<lambda>u.
     if ur_scheme u \<noteq> ''http'' \<and> ur_scheme u \<noteq> ''https'' \<or> ur_netloc u = []
     then Inl (ValueError ''url'')
     else let query = sort (untracked L (ur_query u));
              path = rev (dropWhile (\<lambda>c. c = CHR ''/'') (rev (ur_path u)))
          in Inr (ul_unsplit L (''https'', canonical_host u, if path = [] then ''/'' else path,
                    ul_encode L query, [])))"

text \<open>The query without its tracking parameters, in sorted order, whatever order it came in.\<close>

lemma canonical_url_tracking:
  assumes "ul_split L (stripped url) = Inr u" "ul_split L (stripped url') = Inr (u\<lparr>ur_query := q\<rparr>)"
    and "mset (untracked L q) = mset (untracked L (ur_query u))"
  shows "canonical_url L url' = canonical_url L url"
proof -
  have "sort (untracked L q) = sort (untracked L (ur_query u))"
    by (rule properties_for_sort) (simp_all add: assms(3))
  with assms(1,2) show ?thesis
    by (simp add: canonical_url_def canonical_host_def Let_def)
qed

end
