(* ===== verification/Catalyst_Models.thy ===== *)
theory Catalyst_Models
  imports Public_Views News_Text
begin

text \<open>
  The values of \<open>packages/catalyst/models.py\<close> that evidence is searched and decided with: the
  context of a theme with its key words, and the key of a catalyst.  The evidence and its revisions
  are in \<open>Public_Views\<close>.
\<close>

section \<open>Names of themes\<close>

text \<open>
  The separators of a theme name are white space, slash, comma, parentheses and U+00B7; the suffixes
  and stop words are Korean words for "related stock", "related", "theme", "leading stock",
  "beneficiary", and "etc.", "other".
\<close>

definition name_separator :: "string \<Rightarrow> bool" where
  "name_separator p \<longleftrightarrow> blank p \<or> p = ''/'' \<or> p = '','' \<or> p = ''('' \<or> p = '')'' \<or> p = utf8 [194, 183]"

definition NAME_TOKEN_SUFFIXES :: "string list" where
  "NAME_TOKEN_SUFFIXES =
     [utf8 [234, 180, 128, 235, 160, 168, 236, 163, 188], utf8 [234, 180, 128, 235, 160, 168],
      utf8 [237, 133, 140, 235, 167, 136], utf8 [235, 140, 128, 237, 145, 156, 236, 163, 188],
      utf8 [236, 136, 152, 237, 152, 156, 236, 163, 188]]"

definition NAME_TOKEN_STOPWORDS :: "string list" where
  "NAME_TOKEN_STOPWORDS = [utf8 [235, 147, 177], utf8 [234, 184, 176, 237, 131, 128]] @ NAME_TOKEN_SUFFIXES"

text \<open>Only the first suffix that fits is cut off, and never the whole word.\<close>

fun cut_suffix :: "string list \<Rightarrow> string \<Rightarrow> string" where
  "cut_suffix [] part = part"
| "cut_suffix (x # xs) part =
     (if ends_with x part \<and> length x < length part then take (length part - length x) part
      else cut_suffix xs part)"

definition name_tokens :: "string \<Rightarrow> string list" where
  "name_tokens name =
     filter (\<lambda>part. 2 \<le> length (code_points part) \<and> part \<notin> set NAME_TOKEN_STOPWORDS)
       (map (\<lambda>part. cut_suffix NAME_TOKEN_SUFFIXES (stripped part)) (runs_of name_separator [] (code_points name)))"

section \<open>Contexts\<close>

record theme_context =
  tx_event_id :: string
  tx_theme_id :: string
  tx_display_name :: string
  tx_market_date :: date
  tx_activated_at :: datetime
  tx_synonyms :: "string list"
  tx_leader_names :: "string list"
  tx_leader_stock_ids :: "string list"
  tx_related_stock_ids :: "string list"
  tx_entities :: "string list"
  tx_known_catalyst_keys :: "string list"

definition theme_keywords :: "theme_context \<Rightarrow> string list" where
  "theme_keywords c =
     (let names = tx_display_name c # tx_synonyms c
      in first_of_each (names @ concat (map name_tokens names) @ tx_entities c))"

definition context_stock_ids :: "theme_context \<Rightarrow> string list" where
  "context_stock_ids c = first_of_each (tx_leader_stock_ids c @ tx_related_stock_ids c)"

text \<open>The key does not depend on the order, the case or the repetition of the entities.\<close>

definition catalyst_key :: "hash \<Rightarrow> (string \<Rightarrow> string) \<Rightarrow> string \<Rightarrow> string list \<Rightarrow> string" where
  "catalyst_key H casefold theme_id entities = ''cat_'' @ take 32 (H (Plain (join ''|''
     (theme_id # sorted_set (map (casefold \<circ> stripped) (filter (\<lambda>e. \<not> blank e) entities))))))"

lemma catalyst_key_cong:
  assumes "(casefold \<circ> stripped) ` {e \<in> set es. \<not> blank e} = (casefold \<circ> stripped) ` {e \<in> set es'. \<not> blank e}"
  shows "catalyst_key H casefold theme_id es = catalyst_key H casefold theme_id es'"
proof -
  have "sorted_set (map (casefold \<circ> stripped) (filter (\<lambda>e. \<not> blank e) es))
      = sorted_set (map (casefold \<circ> stripped) (filter (\<lambda>e. \<not> blank e) es'))"
    by (rule sorted_set_cong) (use assms in simp)
  then show ?thesis by (simp add: catalyst_key_def)
qed

end
