(* ===== verification/Market_Reads.thy ===== *)
theory Market_Reads
  imports Market_Pipeline Catalyst_Models
begin

text \<open>
  What the pipeline of \<open>packages/pipeline/market.py\<close> shows of a single Event: the detail document,
  the evidence document, and the contexts for which evidence is searched.
\<close>

definition baseline_flags :: "theme_turnover_result option \<Rightarrow> string list" where
  "baseline_flags turnover = (case turnover of None \<Rightarrow> []
     | Some r \<Rightarrow> if tr_baseline_status r = PROVISIONAL then [flag_value PROVISIONAL_BASELINE] else [])"

definition historical_access :: "market_pipeline \<Rightarrow> string \<Rightarrow> json" where
  "historical_access p theme_id =
     (let known = mc_historical_theme_ids (mp_setup p)
      in if known = [] then JObj [(''status'', JStr ''GATED''), (''reason'', JStr ''ONTOLOGY_VALIDATION_REQUIRED'')]
         else if theme_id \<notin> set known
         then JObj [(''status'', JStr ''UNAVAILABLE''), (''reason'', JStr ''NO_THEME_HISTORY'')]
         else JObj [(''status'', JStr ''AVAILABLE''), (''reason'', JNull)])"

definition theme_detail_of ::
  "market_pipeline \<Rightarrow> string \<Rightarrow> string \<Rightarrow> canonical_event \<Rightarrow> theme_metric_update \<Rightarrow> json" where
  "theme_detail_of p event_id theme_id event u =
     (let m = tu_metrics u; turnover = dget (mp_turnover p) theme_id
      in JObj
       [(''eventId'', JStr (ce_event_id event)), (''marketDate'', JDate (market_date p)),
        (''lifecycleStatus'', JStr (lifecycle_value (ce_lifecycle_status event))),
        (''reconciliationStatus'', JStr (reconciliation_value (ce_reconciliation_status event))),
        (''classification'', classification_to_public (ce_classification event)),
        (''currentReaction'', current_reaction m (Option.bind turnover tr_turnover_multiple)
           (Option.bind (dget (mp_attention_gap p) theme_id) id)),
        (''coverage'', coverage_to_public (mt_coverage m)),
        (''evidenceSummary'', evidence_summary_to_public
           (case dget (mp_evidence p) event_id of None \<Rightarrow> searching_summary | Some s \<Rightarrow> s)),
        (''leaders'', JList (map (\<lambda>l. JObj (l @ [(''role'', JStr ''LEADER'')])) (leaders p theme_id 3))),
        (''historicalAccess'', historical_access p theme_id),
        (''canonicalPath'', JStr (''/v1/themes/'' @ theme_id @ ''/events/'' @ event_id)),
        (''qualityFlags'', JList (map JStr (sorted_set (mt_quality_flags m @ baseline_flags turnover))))])"

definition theme_detail_document :: "market_pipeline \<Rightarrow> string \<Rightarrow> json option" where
  "theme_detail_document p event_id =
     Option.bind (dget (mp_theme_by_event p) event_id) (\<lambda>theme_id.
     Option.bind (read_event p event_id) (\<lambda>event.
     Option.bind (dget (mp_latest_metrics p) theme_id) (\<lambda>u.
       if is_public (ce_lifecycle_status event) then Some (theme_detail_of p event_id theme_id event u) else None)))"

definition record_evidence ::
  "(string \<Rightarrow> string) \<Rightarrow> evidence_revision \<Rightarrow> catalyst_evidence list \<Rightarrow> unit pipeline_action" where
  "record_evidence folded r evidence = changing (\<lambda>p. p\<lparr>
     mp_evidence := dset (vr_event_id r) (evidence_summary folded r evidence) (mp_evidence p),
     mp_evidence_documents := dset (vr_event_id r) (evidence_list_data r evidence DEFAULT_PAGE_LIMIT)
       (mp_evidence_documents p)\<rparr>)"

definition empty_evidence_document :: "string \<Rightarrow> json" where
  "empty_evidence_document event_id = JObj
     [(''eventId'', JStr event_id), (''evidenceStatus'', JStr (evidence_value SEARCHING)), (''items'', JList []),
      (''page'', JObj [(''nextCursor'', JNull), (''hasMore'', JBool False), (''limit'', JInt (int DEFAULT_PAGE_LIMIT))])]"

definition evidence_document :: "market_pipeline \<Rightarrow> string \<Rightarrow> json option" where
  "evidence_document p event_id =
     (if theme_detail_document p event_id = None then None
      else Some (case dget (mp_evidence_documents p) event_id of Some d \<Rightarrow> d
        | None \<Rightarrow> empty_evidence_document event_id))"

section \<open>Contexts for the search of evidence\<close>

text \<open>Selecting the membership raises when two snapshots tie.\<close>

definition member_stock_ids :: "market_pipeline \<Rightarrow> string \<Rightarrow> string list result" where
  "member_stock_ids p theme_id = (case dget (mp_latest_metrics p) theme_id of None \<Rightarrow> Inr []
     | Some u \<Rightarrow> map_sum id (\<lambda>m. case m of None \<Rightarrow> [] | Some m \<Rightarrow> map tm_stock_id (ms_members m))
         (catalog_select (mc_catalog (mp_setup p)) theme_id (tu_market_date u) (tu_as_of u)))"

definition leader_of :: "market_pipeline \<Rightarrow> string \<Rightarrow> string list \<times> string list" where
  "leader_of p theme_id = (case take 1 (leader_returns p theme_id) of [] \<Rightarrow> ([], [])
     | (r, stock_id) # ls \<Rightarrow> ([stock_name p stock_id], [stock_id]))"

definition theme_context_of :: "market_pipeline \<Rightarrow> string \<Rightarrow> theme_context option result" where
  "theme_context_of p theme_id = (case (event_of_theme p theme_id, dget (mp_activated_at p) theme_id) of
       (Some event, Some activated_at) \<Rightarrow>
         if ce_lifecycle_status event = ACTIVE \<or> ce_lifecycle_status event = WEAKENING
         then case leader_of p theme_id of (names, ids) \<Rightarrow>
           map_sum id (\<lambda>members. Some
             \<lparr>tx_event_id = ce_event_id event, tx_theme_id = theme_id,
              tx_display_name = ec_display_name (ce_classification event), tx_market_date = market_date p,
              tx_activated_at = activated_at, tx_synonyms = [], tx_leader_names = names,
              tx_leader_stock_ids = ids, tx_related_stock_ids = filter (\<lambda>i. i \<notin> set ids) members,
              tx_entities = [], tx_known_catalyst_keys = []\<rparr>) (member_stock_ids p theme_id)
         else Inr None
     | _ \<Rightarrow> Inr None)"

definition active_theme_contexts :: "market_pipeline \<Rightarrow> theme_context list result" where
  "active_theme_contexts p = map_sum id (List.map_filter id)
     (map_result (theme_context_of p) (sort (dkeys (mp_latest_metrics p))))"

definition theme_id_for_event :: "market_pipeline \<Rightarrow> string \<Rightarrow> string option" where
  "theme_id_for_event p event_id = dget (mp_theme_by_event p) event_id"

definition event_id_for_theme :: "market_pipeline \<Rightarrow> string \<Rightarrow> string option" where
  "event_id_for_theme p theme_id = dget (mp_event_ids p) theme_id"

end
