(* ===== verification/Market_Tracking.thy ===== *)
theory Market_Tracking
  imports Market_Reads
begin

text \<open>
  The pipeline and the Events it writes.  Shown here: as long as its methods return, the stored
  Event of every theme has the lifecycle status of the hysteresis; and two ways in which they part.
\<close>

section \<open>Writing a fresh command\<close>

lemma transition_lifecycle_Inr: "transition_lifecycle a b v = Inr x \<Longrightarrow> b \<in> set (lifecycle_targets a)"
  using transition_lifecycle_iff by blast

lemma save_receipt_fresh:
  assumes "save_receipt r s = Inr s'" and "dget (es_receipts s) (cr_message_id r) = None"
  shows "es_events s' = es_events s \<and> es_identities s' = es_identities s
    \<and> es_receipts s' = dset (cr_message_id r) r (es_receipts s)
    \<and> (\<forall>k. dget (es_source_sequences s') k = (if k = (cr_event_id r, cr_source r)
         then (case dget (es_source_sequences s) k of None \<Rightarrow> Some (cr_source_sequence r)
            | Some n \<Rightarrow> Some (max n (cr_source_sequence r)))
         else dget (es_source_sequences s) k))"
  using assms by (auto simp: save_receipt_def Let_def split: option.splits if_splits)

lemma write_fresh:
  assumes "write_event H s c = (s', Inr r)" and "dget (es_receipts s) (em_message_id (command_metadata c)) = None"
  shows "\<exists>s1. dispatch H c s = Inr (s1, r) \<and> save_receipt (receipt_of H c r) s1 = Inr s'"
  using assms by (auto simp: write_event_def transaction_def write_body_def bind_result_Inr_iff
      split: sum.splits prod.splits if_splits)

lemma commit_event_keeps:
  assumes "commit_event H event md l t payload s = Inr (s', r)"
  shows "es_events s' = es_events s \<and> es_identities s' = es_identities s \<and> es_receipts s' = es_receipts s
    \<and> es_source_sequences s' = es_source_sequences s \<and> er_event r = event"
  using commit_event_Inr [OF assms] by auto

lemma create_event_fresh:
  assumes "create_event H c s = Inr (s', r)" and "dget (es_identities s) (identity_key H (cc_identity c)) = None"
  shows "\<exists>e. er_event r = e \<and> ce_event_id e = identity_event_id H (cc_identity c)
    \<and> ce_lifecycle_status e = CANDIDATE \<and> ce_changed_at e = em_occurred_at (cc_metadata c)
    \<and> es_events s' = dset (ce_event_id e) e (es_events s)
    \<and> es_identities s' = dset (identity_key H (cc_identity c)) (ce_event_id e) (es_identities s)
    \<and> es_receipts s' = es_receipts s \<and> es_source_sequences s' = es_source_sequences s"
proof -
  have "get_event_by_identity s (identity_key H (cc_identity c)) = Inr None"
    using assms(2) by (simp add: get_event_by_identity_def)
  with assms(1) obtain cl e s1 l t payload where
      e: "event_classification_init (created_classification c) = Inr cl"
      "canonical_event_init (created_event H c cl) = Inr e" "insert_event e s = Inr s1"
      and commit: "commit_event H e (cc_metadata c) l t payload s1 = Inr (s', r)"
    by (auto simp: create_event_def bind_result_Inr_iff)
  have "e = created_event H c cl" using canonical_event_init_Inr [OF e(2)] by simp
  moreover have "s1 = s\<lparr>es_events := dset (ce_event_id e) e (es_events s),
      es_identities := dset (ce_identity_key e) (ce_event_id e) (es_identities s)\<rparr>"
    using e(3) by (auto simp: insert_event_def split: if_splits)
  ultimately show ?thesis
    using commit_event_keeps [OF commit] by (simp add: created_event_def Let_def)
qed

lemma transition_event_applies:
  assumes "transition_event H c s = Inr (s', r)" and "dget (es_events s) (tc_event_id c) = Some e"
    and "ce_event_id e = tc_event_id c" and "tc_target c \<noteq> ce_lifecycle_status e"
    and "tc_expected_state_version c = ce_state_version e"
    and "instant (ce_changed_at e) \<le> instant (em_occurred_at (tc_metadata c))"
    and "\<And>n. dget (es_source_sequences s) (tc_event_id c, em_source (tc_metadata c)) = Some n
           \<Longrightarrow> n < em_source_sequence (tc_metadata c)"
  shows "\<exists>e'. er_event r = e' \<and> ce_event_id e' = tc_event_id c \<and> ce_lifecycle_status e' = tc_target c
    \<and> ce_changed_at e' = em_occurred_at (tc_metadata c)
    \<and> es_events s' = dset (tc_event_id c) e' (es_events s) \<and> es_identities s' = es_identities s
    \<and> es_receipts s' = es_receipts s \<and> es_source_sequences s' = es_source_sequences s"
proof -
  have "stale_change s e (tc_metadata c) (tc_expected_state_version c) (tc_target c = ce_lifecycle_status e) = Inr None"
    using assms(3-7) by (auto simp: stale_change_def latest_source_sequence_def split: option.splits)
  with assms(1,2) obtain x e' s1 l t payload where
      e': "canonical_event_init ((touched e (tc_metadata c) (tc_policy_version c))\<lparr>ce_lifecycle_status := tc_target c\<rparr>) = Inr e'"
      "update_event e' (ce_state_version e) s = Inr s1"
      and commit: "commit_event H e' (tc_metadata c) l t payload s1 = Inr (s', r)"
    by (auto simp: transition_event_def bind_result_Inr_iff)
  have "e' = (touched e (tc_metadata c) (tc_policy_version c))\<lparr>ce_lifecycle_status := tc_target c\<rparr>"
    using canonical_event_init_Inr [OF e'(1)] by simp
  moreover have "s1 = s\<lparr>es_events := dset (ce_event_id e') e' (es_events s)\<rparr>"
    using update_event_Inr [OF e'(2)] by simp
  ultimately show ?thesis
    using commit_event_keeps [OF commit] assms(3) by (simp add: touched_def)
qed

section \<open>Decisions of the hysteresis\<close>

definition moves :: "lifecycle_status \<Rightarrow> hysteresis_decision \<Rightarrow> bool" where
  "moves from_status dec \<longleftrightarrow> (case hd_transition dec of
      None \<Rightarrow> hs_lifecycle_status (hd_state dec) = from_status
    | Some t \<Rightarrow> hs_lifecycle_status (hd_state dec) = ht_to_status t
        \<and> ht_to_status t \<in> set (lifecycle_targets from_status))"

lemma moves_unchanged: "unchanged s d = Inr dec \<Longrightarrow> hs_lifecycle_status s = from_status \<Longrightarrow> moves from_status dec"
  by (auto simp: unchanged_def moves_def)

lemma moves_to: "hysteresis_transition_to s target e reason = Inr dec \<Longrightarrow> moves (hs_lifecycle_status s) dec"
  by (auto simp: hysteresis_transition_to_def bind_result_Inr_iff moves_def dest: transition_lifecycle_Inr)

lemma moves_active: "evaluate_active policy s e q = Inr dec \<Longrightarrow> moves (hs_lifecycle_status s) dec"
  unfolding evaluate_active_def Let_def bind_result_Inr_iff
  by (auto simp: bind_result_Inr_iff moves_def split: if_splits dest!: moves_to dest: moves_unchanged
      split: option.splits)

lemma moves_candidate: "evaluate_candidate policy s e q = Inr dec \<Longrightarrow> moves (hs_lifecycle_status s) dec"
  by (auto simp: evaluate_candidate_def Let_def split: if_splits dest!: moves_to dest: moves_unchanged)

lemma moves_weakening: "evaluate_weakening policy s e q = Inr dec \<Longrightarrow> moves (hs_lifecycle_status s) dec"
  by (auto simp: evaluate_weakening_def Let_def split: if_splits option.splits dest!: moves_to dest: moves_unchanged)

lemma reset_timer_status [simp]: "hs_lifecycle_status (reset_timer status s) = hs_lifecycle_status s"
  by (cases status) (simp_all add: reset_timer_def)

lemma moves_accepted: "evaluate_accepted policy (hs_lifecycle_status s) s e = Inr dec \<Longrightarrow> moves (hs_lifecycle_status s) dec"
  by (cases "hs_lifecycle_status s") (auto simp: evaluate_accepted_def split: if_splits option.splits
      dest: moves_to moves_unchanged moves_candidate moves_active moves_weakening)

lemma hysteresis_moves:
  assumes "evaluate_hysteresis H policy s e = Inr dec"
  shows "moves (hs_lifecycle_status s) dec"
proof -
  have "evaluate_accepted policy (hs_lifecycle_status s) (advance H s e) e = Inr dec \<or> (\<exists>d. unchanged s d = Inr dec)"
    using assms by (auto simp: evaluate_hysteresis_def split: if_splits)
  moreover have "hs_lifecycle_status (advance H s e) = hs_lifecycle_status s" by (simp add: advance_def)
  ultimately show ?thesis using moves_accepted [of policy "advance H s e" e dec] moves_unchanged by metis
qed

section \<open>Digits\<close>

definition digits_number :: "string \<Rightarrow> nat" where
  "digits_number s = foldl (\<lambda>n c. 10 * n + (of_char c - 48)) 0 s"

lemma digits_number_digits_of: "digits_number (digits_of n) = n"
proof (induction n rule: less_induct)
  case (less n)
  have digit: "of_char (char_of (48 + k) :: char) = 48 + k" if "k < 10" for k :: nat
    using that by simp
  show ?case
  proof (cases "n < 10")
    case True
    then show ?thesis by (subst digits_of.simps) (simp add: digits_number_def digit)
  next
    case False
    then have "digits_number (digits_of (n div 10)) = n div 10" by (intro less) simp
    moreover have "of_char (char_of (48 + n mod 10) :: char) = 48 + n mod 10" by (rule digit) simp
    ultimately show ?thesis using False by (subst digits_of.simps) (simp add: digits_number_def)
  qed
qed

lemma digits_of_inj: "digits_of m = digits_of n \<Longrightarrow> m = n"
  by (metis digits_number_digits_of)

section \<open>What the commands of the pipeline do\<close>

definition command_id :: "string \<Rightarrow> int \<Rightarrow> string" where
  "command_id stream n = stream @ '':cmd:'' @ digits_of (nat n)"

lemma command_id_inj: "0 \<le> m \<Longrightarrow> 0 \<le> n \<Longrightarrow> command_id stream m = command_id stream n \<Longrightarrow> m = n"
  by (auto simp: command_id_def dest!: digits_of_inj)

definition metadata_for :: "market_setup \<Rightarrow> int \<Rightarrow> theme_metric_update \<Rightarrow> datetime \<Rightarrow> event_input_metadata" where
  "metadata_for S n u now = \<lparr>em_message_id = command_id (mc_stream_id S) n, em_source = mc_stream_id S,
     em_source_sequence = n, em_occurred_at = earlier (tu_as_of u) now, em_received_at = now,
     em_correlation_id = mc_stream_id S, em_causation_id = None, em_lineage = []\<rparr>"

lemma metadata_init_Inr: "event_input_metadata_init m = Inr m' \<Longrightarrow> m' = m"
  unfolding event_input_metadata_init_def validate_Inr_iff by simp

lemma next_metadata_Inr:
  "next_metadata u now p = (p', Inr m) \<Longrightarrow>
     p' = p\<lparr>mp_command_sequence := mp_command_sequence p + 1\<rparr>
     \<and> m = metadata_for (mp_setup p) (mp_command_sequence p + 1) u now"
  by (auto simp: next_metadata_def act_iffs metadata_for_def command_id_def dest!: metadata_init_Inr)

lemma identity_init_Inr: "canonical_event_identity_init i = Inr i' \<Longrightarrow> i' = i"
  unfolding canonical_event_identity_init_def validate_Inr_iff by simp

lemma create_init_Inr: "create_event_command_init c = Inr c' \<Longrightarrow> c' = c"
  unfolding create_event_command_init_def validate_Inr_iff by simp

lemma transition_init_Inr: "transition_lifecycle_command_init c = Inr c' \<Longrightarrow> c' = c"
  unfolding transition_lifecycle_command_init_def validate_Inr_iff by simp

lemma pipeline_write_Inr:
  "pipeline_write H c p = (p', Inr r) \<Longrightarrow> \<exists>s. p' = p\<lparr>mp_event_store := s\<rparr> \<and> write_event H (mp_event_store p) c = (s, Inr r)"
  by (cases "write_event H (mp_event_store p) c") (auto simp: pipeline_write_def zoom_def)

lemma create_theme_event_Inr:
  assumes "create_theme_event H u now p = (p', Inr i)"
  shows "\<exists>c s r. p' = p\<lparr>mp_command_sequence := mp_command_sequence p + 1, mp_event_store := s\<rparr>
    \<and> write_event H (mp_event_store p) (CreateEventCommand c) = (s, Inr r) \<and> i = ce_event_id (er_event r)
    \<and> cc_identity c = theme_identity p (tu_theme_id u)
    \<and> cc_metadata c = metadata_for (mp_setup p) (mp_command_sequence p + 1) u now"
proof -
  from assms obtain identity metadata versions c r p1 name where
      ini: "canonical_event_identity_init (theme_identity p (tu_theme_id u)) = Inr identity"
      and m: "next_metadata u now p = (p1, Inr metadata)"
      and c: "create_event_command_init \<lparr>cc_metadata = metadata, cc_identity = identity, cc_display_name = name,
          cc_versions = versions, cc_classification_kind = INFOSTOCK_THEME,
          cc_classification_certainty = PROVISIONAL_CLASS, cc_classification_source = LIVE_ENGINE\<rparr> = Inr c"
      and w: "pipeline_write H (CreateEventCommand c) p1 = (p', Inr r)" and i: "i = ce_event_id (er_event r)"
    unfolding create_theme_event_def act_iffs by (auto simp: act_iffs)
  obtain s where "p' = p1\<lparr>mp_event_store := s\<rparr>" "write_event H (mp_event_store p1) (CreateEventCommand c) = (s, Inr r)"
    using pipeline_write_Inr [OF w] by auto
  then show ?thesis
    using next_metadata_Inr [OF m] identity_init_Inr [OF ini] create_init_Inr [OF c] i by fastforce
qed

lemma transition_theme_event_Inr:
  assumes "transition_theme_event H i target reason u now p = (p', Inr x)"
  shows "\<exists>c s r e. p' = p\<lparr>mp_command_sequence := mp_command_sequence p + 1, mp_event_store := s\<rparr>
    \<and> write_event H (mp_event_store p) (TransitionLifecycleCommand c) = (s, Inr r)
    \<and> dget (es_events (mp_event_store p)) i = Some e \<and> tc_event_id c = i \<and> tc_target c = target
    \<and> tc_expected_state_version c = ce_state_version e
    \<and> tc_metadata c = metadata_for (mp_setup p) (mp_command_sequence p + 1) u now"
proof -
  from assms obtain e metadata c r p1 where
      e: "dget (es_events (mp_event_store p)) i = Some e" and m: "next_metadata u now p = (p1, Inr metadata)"
      and c: "transition_lifecycle_command_init \<lparr>tc_metadata = metadata, tc_event_id = i, tc_target = target,
              tc_expected_state_version = ce_state_version e, tc_reason = reason,
              tc_policy_version = hp_version (mc_hysteresis_policy (mp_setup p))\<rparr> = Inr c"
      and w: "pipeline_write H (TransitionLifecycleCommand c) p1 = (p', Inr r)"
    unfolding transition_theme_event_def act_iffs
    by (auto simp: act_iffs read_event_def raise_act_def split: option.splits)
  obtain s where "p' = p1\<lparr>mp_event_store := s\<rparr>" "write_event H (mp_event_store p1) (TransitionLifecycleCommand c) = (s, Inr r)"
    using pipeline_write_Inr [OF w] by auto
  then show ?thesis
    using next_metadata_Inr [OF m] transition_init_Inr [OF c] e by fastforce
qed

section \<open>The invariant\<close>

definition theme_status :: "market_pipeline \<Rightarrow> string \<Rightarrow> lifecycle_status" where
  "theme_status p t = (case dget (mp_hysteresis p) t of None \<Rightarrow> CANDIDATE | Some h \<Rightarrow> hs_lifecycle_status h)"

definition theme_event_id :: "hash \<Rightarrow> date \<Rightarrow> string \<Rightarrow> string" where
  "theme_event_id H d t = identity_event_id H
     \<lparr>ei_market_date = d, ei_canonical_theme_id = t, ei_catalyst_key = INTRADAY_STRENGTH_KEY\<rparr>"

definition theme_key :: "hash \<Rightarrow> date \<Rightarrow> string \<Rightarrow> string" where
  "theme_key H d t = identity_key H
     \<lparr>ei_market_date = d, ei_canonical_theme_id = t, ei_catalyst_key = INTRADAY_STRENGTH_KEY\<rparr>"

text \<open>The store has not seen the commands of the stream past a number.\<close>

definition stream_fresh :: "string \<Rightarrow> int \<Rightarrow> event_store \<Rightarrow> bool" where
  "stream_fresh stream n s \<longleftrightarrow>
     (\<forall>k. n < k \<longrightarrow> dget (es_receipts s) (command_id stream k) = None)
     \<and> (\<forall>i m. dget (es_source_sequences s) (i, stream) = Some m \<longrightarrow> m \<le> n)"

text \<open>
  The Event of a theme: it is the one of the theme's identity, was changed no later than the time
  of the latest metrics and a bound, and has a given status.
\<close>

definition tracks :: "hash \<Rightarrow> int \<Rightarrow> market_pipeline \<Rightarrow> string \<Rightarrow> lifecycle_status \<Rightarrow> bool" where
  "tracks H N p t status \<longleftrightarrow> (\<exists>e u. dget (mp_event_ids p) t = Some (theme_event_id H (market_date p) t)
     \<and> dget (mp_theme_by_event p) (theme_event_id H (market_date p) t) = Some t
     \<and> dget (es_events (mp_event_store p)) (theme_event_id H (market_date p) t) = Some e
     \<and> ce_event_id e = theme_event_id H (market_date p) t \<and> ce_lifecycle_status e = status
     \<and> dget (mp_latest_metrics p) t = Some u
     \<and> instant (ce_changed_at e) \<le> instant (tu_as_of u) \<and> instant (ce_changed_at e) \<le> N)"

definition untouched :: "hash \<Rightarrow> market_pipeline \<Rightarrow> string \<Rightarrow> bool" where
  "untouched H p t \<longleftrightarrow> dget (mp_event_ids p) t = None \<and> dget (mp_hysteresis p) t = None
     \<and> dget (es_identities (mp_event_store p)) (theme_key H (market_date p) t) = None"

definition catalog_themes :: "market_setup \<Rightarrow> string set" where
  "catalog_themes S = ms_theme_id ` set (tc_snapshots (mc_catalog S))"

definition agrees_but :: "string set \<Rightarrow> hash \<Rightarrow> int \<Rightarrow> market_pipeline \<Rightarrow> bool" where
  "agrees_but but_these H N p \<longleftrightarrow> 0 \<le> mp_command_sequence p
     \<and> stream_fresh (mc_stream_id (mp_setup p)) (mp_command_sequence p) (mp_event_store p)
     \<and> (\<forall>t u. dget (mp_latest_metrics p) t = Some u \<longrightarrow> tu_theme_id u = t \<and> t \<in> catalog_themes (mp_setup p))
     \<and> (\<forall>t\<in>catalog_themes (mp_setup p) - but_these. untouched H p t \<or> tracks H N p t (theme_status p t))"

abbreviation agrees :: "hash \<Rightarrow> int \<Rightarrow> market_pipeline \<Rightarrow> bool" where
  "agrees \<equiv> agrees_but {}"

lemma agrees_theme:
  "agrees H N p \<Longrightarrow> dget (mp_latest_metrics p) t = Some u \<Longrightarrow>
     t \<in> catalog_themes (mp_setup p) \<and> (untouched H p t \<or> tracks H N p t (theme_status p t))"
  unfolding agrees_but_def by fastforce

text \<open>Two themes of the catalog never share an Event id: no collision of SHA-256 among them.\<close>

definition distinct_events :: "hash \<Rightarrow> market_setup \<Rightarrow> bool" where
  "distinct_events H S \<longleftrightarrow> inj_on (theme_event_id H (mc_market_date S)) (catalog_themes S)"

lemma theme_event_ids_distinct:
  "distinct_events H S \<Longrightarrow> t \<in> catalog_themes S \<Longrightarrow> t' \<in> catalog_themes S \<Longrightarrow> t \<noteq> t' \<Longrightarrow>
     theme_event_id H (mc_market_date S) t \<noteq> theme_event_id H (mc_market_date S) t'
     \<and> theme_key H (mc_market_date S) t \<noteq> theme_key H (mc_market_date S) t'"
  unfolding distinct_events_def inj_on_def theme_event_id_def identity_event_id_def theme_key_def by metis

lemma stream_fresh_step:
  assumes fresh: "stream_fresh stream n s" and "0 \<le> n" and saved: "save_receipt (receipt_of H c r) s1 = Inr s2"
    and s1: "es_receipts s1 = es_receipts s" "es_source_sequences s1 = es_source_sequences s"
    and c: "em_message_id (command_metadata c) = command_id stream (n + 1)"
      "em_source (command_metadata c) = stream" "em_source_sequence (command_metadata c) = n + 1"
  shows "stream_fresh stream (n + 1) s2 \<and> es_events s2 = es_events s1 \<and> es_identities s2 = es_identities s1"
proof -
  have "dget (es_receipts s1) (cr_message_id (receipt_of H c r)) = None"
    using fresh c s1 by (simp add: stream_fresh_def receipt_of_def Let_def)
  note saved = save_receipt_fresh [OF saved this]
  have other: "command_id stream k \<noteq> command_id stream (n + 1)" if "n + 1 < k" for k
    using that assms(2) command_id_inj [of k "n + 1" stream] by auto
  have "dget (es_receipts s2) (command_id stream k) = None" if "n + 1 < k" for k
    using that other [OF that] saved fresh c s1 by (simp add: stream_fresh_def receipt_of_def Let_def)
  moreover have "m \<le> n + 1" if m: "dget (es_source_sequences s2) (i, stream) = Some m" for i m
  proof -
    have "\<forall>m. dget (es_source_sequences s) (i, stream) = Some m \<longrightarrow> m \<le> n"
      using fresh by (simp add: stream_fresh_def)
    moreover have "dget (es_source_sequences s2) (i, stream) = dget (es_source_sequences s) (i, stream)
        \<or> dget (es_source_sequences s2) (i, stream) = Some (n + 1)
        \<or> (\<exists>k. dget (es_source_sequences s) (i, stream) = Some k \<and> dget (es_source_sequences s2) (i, stream) = Some (max k (n + 1)))"
      using saved c s1 by (auto simp: receipt_of_def Let_def split: option.splits)
    ultimately show ?thesis using m by (elim disjE exE conjE) auto
  qed
  ultimately show ?thesis
    using saved by (simp add: stream_fresh_def)
qed

lemma create_tracks:
  assumes agrees: "agrees H N p" and new: "dget (mp_event_ids p) (tu_theme_id u) = None"
    and u: "dget (mp_latest_metrics p) (tu_theme_id u) = Some u"
    and now: "instant now \<le> N" and distinct: "distinct_events H (mp_setup p)"
    and create: "create_theme_event H u now p = (p1, Inr i)"
    and p2: "p2 = p1\<lparr>mp_event_ids := dset (tu_theme_id u) i (mp_event_ids p1),
      mp_theme_by_event := dset i (tu_theme_id u) (mp_theme_by_event p1)\<rparr>"
  shows "agrees H N p2 \<and> tracks H N p2 (tu_theme_id u) CANDIDATE
    \<and> mp_latest_metrics p2 = mp_latest_metrics p \<and> mp_setup p2 = mp_setup p
    \<and> i = theme_event_id H (market_date p) (tu_theme_id u)"
proof -
  let ?t = "tu_theme_id u" and ?d = "market_date p" and ?S = "mp_setup p"
  let ?i = "theme_event_id H ?d ?t" and ?n = "mp_command_sequence p + 1"
  from create_theme_event_Inr [OF create] obtain c s r where
      p1: "p1 = p\<lparr>mp_command_sequence := ?n, mp_event_store := s\<rparr>"
      and written: "write_event H (mp_event_store p) (CreateEventCommand c) = (s, Inr r)"
      and i: "i = ce_event_id (er_event r)" and c: "cc_identity c = theme_identity p ?t" "cc_metadata c = metadata_for ?S ?n u now"
    by blast
  have known: "?t \<in> catalog_themes ?S" and un: "untouched H p ?t"
    using agrees_theme [OF agrees u] new by (simp_all add: tracks_def)
  have fresh: "stream_fresh (mc_stream_id ?S) (mp_command_sequence p) (mp_event_store p)" "0 \<le> mp_command_sequence p"
    using agrees by (simp_all add: agrees_but_def)
  then have "dget (es_receipts (mp_event_store p)) (em_message_id (command_metadata (CreateEventCommand c))) = None"
    using c by (simp add: metadata_for_def stream_fresh_def)
  from write_fresh [OF written this] obtain s1 where
      s1: "create_event H c (mp_event_store p) = Inr (s1, r)" "save_receipt (receipt_of H (CreateEventCommand c) r) s1 = Inr s"
    by auto
  have "dget (es_identities (mp_event_store p)) (identity_key H (cc_identity c)) = None"
    using un c by (simp add: untouched_def theme_key_def theme_identity_def)
  from create_event_fresh [OF s1(1) this] obtain e where
      e: "er_event r = e" "ce_event_id e = ?i" "ce_lifecycle_status e = CANDIDATE"
        "ce_changed_at e = earlier (tu_as_of u) now"
      and s1e: "es_events s1 = dset ?i e (es_events (mp_event_store p))"
        "es_identities s1 = dset (theme_key H ?d ?t) ?i (es_identities (mp_event_store p))"
        "es_receipts s1 = es_receipts (mp_event_store p)" "es_source_sequences s1 = es_source_sequences (mp_event_store p)"
    using c by (auto simp: theme_event_id_def theme_key_def theme_identity_def metadata_for_def)
  have s: "stream_fresh (mc_stream_id ?S) ?n s" "es_events s = es_events s1" "es_identities s = es_identities s1"
    using stream_fresh_step [OF fresh s1(2) s1e(3,4)] c by (simp_all add: metadata_for_def)
  have this_one: "tracks H N p2 ?t CANDIDATE"
    using e s s1e u now i by (auto simp: tracks_def p2 p1 earlier_def)
  have "untouched H p2 x \<or> tracks H N p2 x (theme_status p2 x)" if "x \<noteq> ?t" "x \<in> catalog_themes ?S" for x
  proof -
    have "theme_key H ?d x \<noteq> theme_key H ?d ?t" "theme_event_id H ?d x \<noteq> ?i"
      using theme_event_ids_distinct [OF distinct that(2) known that(1)] by simp_all
    moreover have "untouched H p x \<or> tracks H N p x (theme_status p x)" using agrees that by (simp add: agrees_but_def)
    ultimately show ?thesis
      using that s s1e i e(1,2) by (auto simp: untouched_def tracks_def theme_status_def p2 p1)
  qed
  moreover have "theme_status p2 ?t = CANDIDATE"
    using un by (simp add: untouched_def theme_status_def p2 p1)
  ultimately have "untouched H p2 x \<or> tracks H N p2 x (theme_status p2 x)" if "x \<in> catalog_themes ?S" for x
    using this_one that by (cases "x = ?t") auto
  then show ?thesis
    using agrees s(1) this_one fresh(2) i e by (simp add: agrees_but_def p1 p2)
qed

section \<open>Evaluating a theme\<close>

lemma agrees_but_same:
  "mp_setup p' = mp_setup p \<Longrightarrow> mp_command_sequence p' = mp_command_sequence p \<Longrightarrow> mp_event_store p' = mp_event_store p
    \<Longrightarrow> mp_latest_metrics p' = mp_latest_metrics p \<Longrightarrow> mp_event_ids p' = mp_event_ids p
    \<Longrightarrow> mp_theme_by_event p' = mp_theme_by_event p
    \<Longrightarrow> mp_hysteresis p' = mp_hysteresis p \<Longrightarrow> agrees_but A H N p' = agrees_but A H N p"
  by (simp add: agrees_but_def untouched_def tracks_def theme_status_def)

lemma tracks_same:
  "mp_setup p' = mp_setup p \<Longrightarrow> mp_event_store p' = mp_event_store p
    \<Longrightarrow> mp_latest_metrics p' = mp_latest_metrics p \<Longrightarrow> mp_event_ids p' = mp_event_ids p
    \<Longrightarrow> mp_theme_by_event p' = mp_theme_by_event p \<Longrightarrow> tracks H N p' t status = tracks H N p t status"
  by (simp add: tracks_def)

text \<open>What the evaluations leave alone.\<close>

definition same_day :: "market_pipeline \<Rightarrow> market_pipeline \<Rightarrow> bool" where
  "same_day p p' \<longleftrightarrow> mp_setup p' = mp_setup p \<and> mp_latest_metrics p' = mp_latest_metrics p
     \<and> mp_aggregator p' = mp_aggregator p"

lemma same_day_refl [simp]: "same_day p p"
  by (simp add: same_day_def)

lemma same_day_trans: "same_day p q \<Longrightarrow> same_day q r \<Longrightarrow> same_day p r"
  by (simp add: same_day_def)

lemma transition_tracks:
  assumes agrees: "agrees_but {t} H N p" and tracked: "tracks H N p t status"
    and t: "t = tu_theme_id u" and target: "target \<noteq> status" "theme_status p t = target"
    and u: "dget (mp_latest_metrics p) t = Some u" and now: "instant now = N"
    and distinct: "distinct_events H (mp_setup p)"
    and transition: "transition_theme_event H (theme_event_id H (market_date p) t) target reason u now p = (p', Inr x)"
  shows "agrees H N p' \<and> same_day p p'"
proof -
  let ?d = "market_date p" and ?S = "mp_setup p"
  let ?i = "theme_event_id H ?d t" and ?n = "mp_command_sequence p + 1"
  from transition_theme_event_Inr [OF transition] obtain c s r e where
      p': "p' = p\<lparr>mp_command_sequence := ?n, mp_event_store := s\<rparr>"
      and written: "write_event H (mp_event_store p) (TransitionLifecycleCommand c) = (s, Inr r)"
      and e: "dget (es_events (mp_event_store p)) ?i = Some e"
      and c: "tc_event_id c = ?i" "tc_target c = target" "tc_expected_state_version c = ce_state_version e"
        "tc_metadata c = metadata_for ?S ?n u now"
    by blast
  have tracked_e: "ce_event_id e = ?i" "ce_lifecycle_status e = status" "instant (ce_changed_at e) \<le> instant (tu_as_of u)"
      "instant (ce_changed_at e) \<le> N" "dget (mp_event_ids p) t = Some ?i" "dget (mp_theme_by_event p) ?i = Some t"
    using tracked e u by (auto simp: tracks_def)
  have fresh: "stream_fresh (mc_stream_id ?S) (mp_command_sequence p) (mp_event_store p)" "0 \<le> mp_command_sequence p"
    using agrees by (simp_all add: agrees_but_def)
  then have "dget (es_receipts (mp_event_store p)) (em_message_id (command_metadata (TransitionLifecycleCommand c))) = None"
    using c by (simp add: metadata_for_def stream_fresh_def)
  from write_fresh [OF written this] obtain s1 where
      s1: "transition_event H c (mp_event_store p) = Inr (s1, r)" "save_receipt (receipt_of H (TransitionLifecycleCommand c) r) s1 = Inr s"
    by auto
  have "k < em_source_sequence (tc_metadata c)"
    if "dget (es_source_sequences (mp_event_store p)) (tc_event_id c, em_source (tc_metadata c)) = Some k" for k
    using that fresh(1) c by (auto simp: stream_fresh_def metadata_for_def)
  moreover have "instant (ce_changed_at e) \<le> instant (em_occurred_at (tc_metadata c))"
    using tracked_e(3,4) now c by (simp add: metadata_for_def earlier_def)
  ultimately obtain e' where
      e': "ce_event_id e' = ?i" "ce_lifecycle_status e' = target" "ce_changed_at e' = earlier (tu_as_of u) now"
      and s1e: "es_events s1 = dset ?i e' (es_events (mp_event_store p))"
        "es_identities s1 = es_identities (mp_event_store p)"
        "es_receipts s1 = es_receipts (mp_event_store p)" "es_source_sequences s1 = es_source_sequences (mp_event_store p)"
    using transition_event_applies [OF s1(1), of e] e tracked_e(1,2) c target(1) by (auto simp: metadata_for_def)
  have s: "stream_fresh (mc_stream_id ?S) ?n s" "es_events s = es_events s1" "es_identities s = es_identities s1"
    using stream_fresh_step [OF fresh s1(2) s1e(3,4)] c by (simp_all add: metadata_for_def)
  have this_one: "tracks H N p' t (theme_status p' t)"
    using e' s s1e u now tracked_e(5,6) target(2) by (auto simp: tracks_def p' earlier_def theme_status_def)
  have known: "t \<in> catalog_themes ?S" using agrees u unfolding agrees_but_def by blast
  have "untouched H p' x \<or> tracks H N p' x (theme_status p' x)" if "x \<noteq> t" "x \<in> catalog_themes ?S" for x
  proof -
    have "theme_event_id H ?d x \<noteq> ?i" using theme_event_ids_distinct [OF distinct that(2) known that(1)] by simp
    moreover have "untouched H p x \<or> tracks H N p x (theme_status p x)" using agrees that by (simp add: agrees_but_def)
    ultimately show ?thesis
      using that s s1e by (auto simp: untouched_def tracks_def theme_status_def p')
  qed
  with this_one have "untouched H p' x \<or> tracks H N p' x (theme_status p' x)" if "x \<in> catalog_themes ?S" for x
    using that by (cases "x = t") auto
  then show ?thesis
    using agrees s(1) fresh(2) by (simp add: agrees_but_def p' same_day_def)
qed

lemma targets_irreflexive: "b \<in> set (lifecycle_targets a) \<Longrightarrow> b \<noteq> a"
  by (cases a) auto

lemma decide_tracks:
  assumes agrees: "agrees H N p" and tracked: "tracks H N p t (hs_lifecycle_status state)"
    and decided: "decide H t state evaluation p = (p', Inr tr)"
  shows "agrees_but {t} H N p' \<and> tracks H N p' t (hs_lifecycle_status state) \<and> same_day p p'
    \<and> (case tr of None \<Rightarrow> agrees H N p'
       | Some x \<Rightarrow> theme_status p' t = ht_to_status x \<and> ht_to_status x \<noteq> hs_lifecycle_status state)"
proof -
  from decided obtain dec where
      dec: "evaluate_hysteresis H (mc_hysteresis_policy (mp_setup p)) state evaluation = Inr dec"
      and p': "p' = p\<lparr>mp_hysteresis := dset t (hd_state dec) (mp_hysteresis p)\<rparr>" and tr: "tr = hd_transition dec"
    by (auto simp: decide_def act_iffs)
  have moved: "moves (hs_lifecycle_status state) dec" by (rule hysteresis_moves [OF dec])
  have tracked': "tracks H N p' t (hs_lifecycle_status state)" using tracked by (simp add: p' tracks_def)
  have others: "agrees_but {t} H N p'"
    using agrees by (auto simp: agrees_but_def p' untouched_def tracks_def theme_status_def)
  have "agrees H N p'" if "tr = None"
  proof -
    have "theme_status p' t = hs_lifecycle_status state"
      using moved that tr by (simp add: moves_def theme_status_def p')
    then have "untouched H p' x \<or> tracks H N p' x (theme_status p' x)" if "x \<in> catalog_themes (mp_setup p')" for x
      using tracked' others that by (cases "x = t") (auto simp: agrees_but_def)
    then show ?thesis using others by (simp add: agrees_but_def)
  qed
  moreover have "theme_status p' t = ht_to_status x \<and> ht_to_status x \<noteq> hs_lifecycle_status state" if "tr = Some x" for x
    using moved that tr by (auto simp: moves_def theme_status_def p' dest: targets_irreflexive)
  ultimately show ?thesis
    using others tracked' by (auto simp: same_day_def p' split: option.split)
qed

definition settle ::
  "hash \<Rightarrow> string \<Rightarrow> string \<Rightarrow> (hysteresis_transition \<Rightarrow> market_pipeline \<Rightarrow> market_pipeline)
    \<Rightarrow> theme_metric_update \<Rightarrow> datetime \<Rightarrow> hysteresis_transition option \<Rightarrow> unit pipeline_action" where
  "settle H i t note_it u now tr = (case tr of None \<Rightarrow> ret ()
     | Some x \<Rightarrow> seq_act (changing (note_it x)) (transition_theme_event H i (ht_to_status x) (ht_reason x) u now))"

lemma settle_tracks:
  assumes "agrees H N p" and "tracks H N p t (hs_lifecycle_status state)"
    and "decide H t state evaluation p = (p1, Inr tr)"
    and "settle H (theme_event_id H (market_date p) t) t note_it u now tr p1 = (p', Inr x)"
    and "t = tu_theme_id u" and "dget (mp_latest_metrics p) t = Some u" and "instant now = N"
    and "distinct_events H (mp_setup p)"
    and "\<And>y q. agrees_but A H N (note_it y q) = agrees_but A H N q" and "\<And>y q. same_day q (note_it y q)"
    and kept: "\<And>y q st. tracks H N (note_it y q) t st = tracks H N q t st"
      "\<And>y q. theme_status (note_it y q) t = theme_status q t"
      "\<And>y q. agrees_but {t} H N (note_it y q) = agrees_but {t} H N q"
  shows "agrees H N p' \<and> same_day p p'"
proof (cases tr)
  case None
  then show ?thesis using decide_tracks [OF assms(1-3)] assms(4) by (auto simp: settle_def act_iffs)
next
  case (Some y)
  let ?q = "note_it y p1"
  have d: "agrees_but {t} H N p1" "tracks H N p1 t (hs_lifecycle_status state)" "same_day p p1"
      "theme_status p1 t = ht_to_status y" "ht_to_status y \<noteq> hs_lifecycle_status state"
    using decide_tracks [OF assms(1-3)] Some by auto
  have q: "same_day p ?q" using same_day_trans d(3) assms(10) by blast
  have "transition_theme_event H (theme_event_id H (market_date ?q) t) (ht_to_status y) (ht_reason y) u now ?q = (p', Inr x)"
    using assms(4) Some q by (auto simp: settle_def act_iffs same_day_def)
  then have "agrees H N p' \<and> same_day ?q p'"
    using d q assms(5-8) kept by (intro transition_tracks) (auto simp: same_day_def)
  then show ?thesis using q same_day_trans by blast
qed

lemma ensure_event_tracks:
  assumes agrees: "agrees H N p" and u: "dget (mp_latest_metrics p) (tu_theme_id u) = Some u"
    and now: "instant now \<le> N" and distinct: "distinct_events H (mp_setup p)"
    and ensure: "ensure_event H u now p = (p', Inr i)"
  shows "agrees H N p' \<and> tracks H N p' (tu_theme_id u) (theme_status p' (tu_theme_id u)) \<and> same_day p p'
    \<and> i = theme_event_id H (market_date p) (tu_theme_id u)"
proof (cases "dget (mp_event_ids p) (tu_theme_id u)")
  case None
  with ensure obtain p1 where
      create: "create_theme_event H u now p = (p1, Inr i)"
      and p': "p' = p1\<lparr>mp_event_ids := dset (tu_theme_id u) i (mp_event_ids p1),
        mp_theme_by_event := dset i (tu_theme_id u) (mp_theme_by_event p1)\<rparr>"
    by (auto simp: ensure_event_def act_iffs)
  note c = create_tracks [OF agrees None u now distinct create p']
  then have "untouched H p' (tu_theme_id u) \<or> tracks H N p' (tu_theme_id u) (theme_status p' (tu_theme_id u))"
    using agrees_theme [of H N p' "tu_theme_id u" u] u by simp
  moreover have "\<not> untouched H p' (tu_theme_id u)" using c by (simp add: untouched_def tracks_def)
  moreover obtain cmd s r where "p1 = p\<lparr>mp_command_sequence := mp_command_sequence p + 1, mp_event_store := s\<rparr>"
    using create_theme_event_Inr [OF create] by blast
  then have "same_day p p'" by (auto simp: same_day_def p')
  ultimately show ?thesis using c by auto
next
  case (Some known)
  with ensure have "p' = p" "i = known" by (auto simp: ensure_event_def act_iffs)
  moreover have "tracks H N p (tu_theme_id u) (theme_status p (tu_theme_id u))"
    using agrees_theme [OF agrees u] Some by (simp add: untouched_def)
  ultimately show ?thesis using agrees Some by (simp add: tracks_def)
qed

lemma next_evaluation_Inr:
  "next_evaluation t u now q closing p = (p', Inr e) \<Longrightarrow> p' = p\<lparr>mp_input_sequence := mp_input_sequence p + 1\<rparr>"
  by (auto simp: next_evaluation_def act_iffs)

lemma hysteresis_candidate_Inr: "hysteresis_candidate t policy = Inr s \<Longrightarrow> hs_lifecycle_status s = CANDIDATE"
  unfolding hysteresis_candidate_def hysteresis_state_init_def validate_Inr_iff by auto

lemma current_state_Inr:
  "current_state t p = (p', Inr s) \<Longrightarrow> p' = p \<and> hs_lifecycle_status s = theme_status p t"
  by (auto simp: current_state_def act_iffs theme_status_def dest!: hysteresis_candidate_Inr split: option.splits)

lemma advance_as_of_same [simp]:
  "agrees_but A H N (advance_as_of u p) = agrees_but A H N p" "same_day p (advance_as_of u p)"
  by (rule agrees_but_same; simp add: advance_as_of_def) (simp add: advance_as_of_def same_day_def)

lemma record_activation_fields:
  "mp_setup (record_activation t target now p) = mp_setup p"
  "mp_command_sequence (record_activation t target now p) = mp_command_sequence p"
  "mp_event_store (record_activation t target now p) = mp_event_store p"
  "mp_latest_metrics (record_activation t target now p) = mp_latest_metrics p"
  "mp_event_ids (record_activation t target now p) = mp_event_ids p"
  "mp_theme_by_event (record_activation t target now p) = mp_theme_by_event p"
  "mp_hysteresis (record_activation t target now p) = mp_hysteresis p"
  "mp_aggregator (record_activation t target now p) = mp_aggregator p"
  by (simp_all add: record_activation_def)

lemma record_activation_same [simp]:
  "agrees_but A H N (record_activation t target now p) = agrees_but A H N p"
  "same_day p (record_activation t target now p)"
  "tracks H N (record_activation t target now p) t' st = tracks H N p t' st"
  "theme_status (record_activation t target now p) t' = theme_status p t'"
  by (simp_all add: record_activation_fields agrees_but_def untouched_def tracks_def theme_status_def same_day_def)

lemma evaluate_theme_tracks:
  assumes agrees: "agrees H N p" and u: "dget (mp_latest_metrics p) (tu_theme_id u) = Some u"
    and now: "instant now = N" and distinct: "distinct_events H (mp_setup p)"
    and evaluated: "evaluate_theme H now u p = (p', Inr x)"
  shows "agrees H N p' \<and> same_day p p'"
proof -
  let ?t = "tu_theme_id u" and ?p0 = "advance_as_of u p"
  let ?note = "\<lambda>y. record_activation ?t (ht_to_status y) now"
  from evaluated obtain i p1 p1' state p2 e p3 tr where
      ensure: "ensure_event H u now ?p0 = (p1, Inr i)"
      and found: "current_state ?t p1 = (p1', Inr state)"
      and e: "next_evaluation ?t u now (qualifies (tu_metrics u)) False p1' = (p2, Inr e)"
      and decided: "decide H ?t state e p2 = (p3, Inr tr)"
      and settled: "settle H i ?t ?note u now tr p3 = (p', Inr x)"
    unfolding evaluate_theme_def settle_def bind_act_Inr_iff changing_Inr_iff by blast
  have state: "current_state ?t p1 = (p1, Inr state)" "p1' = p1"
    using current_state_Inr [OF found] found by simp_all
  note e = e [unfolded state(2)]
  have p0: "same_day p ?p0" by simp
  then have "agrees H N ?p0" "dget (mp_latest_metrics ?p0) ?t = Some u" "mp_setup ?p0 = mp_setup p"
    using agrees u by (simp_all add: same_day_def)
  from ensure_event_tracks [OF this(1,2) _ _ ensure] this(3) now distinct
  have p1: "agrees H N p1" "tracks H N p1 ?t (theme_status p1 ?t)" "same_day ?p0 p1"
      "i = theme_event_id H (market_date p) ?t"
    by auto
  have q: "p2 = p1\<lparr>mp_input_sequence := mp_input_sequence p1 + 1\<rparr>" by (rule next_evaluation_Inr [OF e])
  have "agrees H N p2 = agrees H N p1" by (rule agrees_but_same) (simp_all add: q)
  moreover have "tracks H N p2 ?t st = tracks H N p1 ?t st" for st by (rule tracks_same) (simp_all add: q)
  ultimately have p2: "same_day p1 p2" "agrees H N p2" "tracks H N p2 ?t (hs_lifecycle_status state)"
    using p1(1,2) current_state_Inr [OF state(1)] by (simp_all add: same_day_def q)
  have day: "same_day p p2" using same_day_trans [OF same_day_trans [OF p0 p1(3)] p2(1)] .
  then have "agrees H N p' \<and> same_day p2 p'"
    using p2 decided settled p1(4) u now distinct
    by (intro settle_tracks [where note_it = ?note]) (auto simp: same_day_def record_activation_fields)
  then show ?thesis using day same_day_trans by blast
qed

lemma close_theme_tracks:
  assumes agrees: "agrees H N p" and u: "dget (mp_latest_metrics p) (tu_theme_id u) = Some u"
    and now: "instant now = N" and distinct: "distinct_events H (mp_setup p)"
    and closed: "close_theme H now u p = (p', Inr x)"
  shows "agrees H N p' \<and> same_day p p'"
proof (cases "dget (mp_hysteresis p) (tu_theme_id u)")
  case None
  with closed have "p' = p" by (auto simp: close_theme_def act_iffs)
  with agrees show ?thesis by simp
next
  case (Some state)
  let ?t = "tu_theme_id u" and ?note = "\<lambda>(y :: hysteresis_transition) (q :: market_pipeline). q"
  have tracked: "tracks H N p ?t (hs_lifecycle_status state)"
    using agrees_theme [OF agrees u] Some by (simp add: untouched_def theme_status_def)
  show ?thesis
  proof (cases "hs_lifecycle_status state = CLOSED \<or> hs_lifecycle_status state = DISCARDED")
    case True
    with closed Some have "p' = p" by (auto simp: close_theme_def act_iffs)
    with agrees show ?thesis by simp
  next
    case False
    with closed Some obtain p1 e p2 tr where
        e: "next_evaluation ?t u now None True p = (p1, Inr e)" and decided: "decide H ?t state e p1 = (p2, Inr tr)"
        and rest: "(case tr of None \<Rightarrow> ret () | Some t \<Rightarrow> bind_act (reading (\<lambda>p. dget (mp_event_ids p) ?t)) (\<lambda>known. case known of
            None \<Rightarrow> ret () | Some i \<Rightarrow> transition_theme_event H i (ht_to_status t) (ht_reason t) u now)) p2 = (p', Inr x)"
      by (auto simp: close_theme_def act_iffs)
    have q: "p1 = p\<lparr>mp_input_sequence := mp_input_sequence p + 1\<rparr>" by (rule next_evaluation_Inr [OF e])
    have "agrees H N p1 = agrees H N p" by (rule agrees_but_same) (simp_all add: q)
    moreover have "tracks H N p1 ?t st = tracks H N p ?t st" for st by (rule tracks_same) (simp_all add: q)
    ultimately have p1: "agrees H N p1" "tracks H N p1 ?t (hs_lifecycle_status state)"
      using agrees tracked by simp_all
    have "dget (mp_event_ids p2) ?t = Some (theme_event_id H (market_date p) ?t)"
      using decide_tracks [OF p1 decided] by (simp add: tracks_def same_day_def q)
    with rest have settled: "settle H (theme_event_id H (market_date p1) ?t) ?t ?note u now tr p2 = (p', Inr x)"
      by (auto simp: settle_def act_iffs q split: option.splits)
    have "agrees H N p' \<and> same_day p1 p'"
      using p1 decided settled u now distinct
      by (intro settle_tracks [where note_it = ?note]) (auto simp: q)
    then show ?thesis by (simp add: same_day_def q)
  qed
qed

text \<open>Both loops go over the metrics at their start; the methods they call leave the metrics alone.\<close>

definition settled_with :: "hash \<Rightarrow> int \<Rightarrow> market_pipeline \<Rightarrow> market_pipeline \<Rightarrow> bool" where
  "settled_with H N q p \<longleftrightarrow> agrees H N p \<and> same_day q p"

lemma sorted_updates_of:
  assumes "u \<in> set (sorted_updates p)" and "agrees_but A H N p"
  shows "dget (mp_latest_metrics p) (tu_theme_id u) = Some u"
proof -
  obtain t where "dget (mp_latest_metrics p) t = Some u"
    using assms(1) by (auto simp: sorted_updates_def set_sorted_values)
  with assms(2) show ?thesis by (simp add: agrees_but_def)
qed

lemma loop_tracks:
  assumes step: "\<And>p p' u x. agrees H (instant now) p \<Longrightarrow> dget (mp_latest_metrics p) (tu_theme_id u) = Some u
      \<Longrightarrow> distinct_events H (mp_setup p) \<Longrightarrow> f u p = (p', Inr x) \<Longrightarrow> agrees H (instant now) p' \<and> same_day p p'"
    and "agrees H (instant now) p" and "distinct_events H (mp_setup p)" and "for_each f (sorted_updates p) p = (p', Inr x)"
  shows "agrees H (instant now) p' \<and> same_day p p'"
proof -
  have "triple (settled_with H (instant now) p) (for_each f (sorted_updates p)) (\<lambda>_. settled_with H (instant now) p) (\<lambda>_ _. True)"
  proof (intro triple_for_each tripleI)
    fix u s s1 :: market_pipeline fix u fix y :: unit
    assume u: "u \<in> set (sorted_updates p)" and s: "settled_with H (instant now) p s" and f: "f u s = (s1, Inr y)"
    have "dget (mp_latest_metrics s) (tu_theme_id u) = Some u"
      using sorted_updates_of [OF u assms(2)] s by (simp add: settled_with_def same_day_def)
    then show "settled_with H (instant now) p s1"
      using step [OF _ _ _ f] s assms(3) same_day_trans by (fastforce simp: settled_with_def same_day_def)
  qed simp
  from triple_Inr [OF this _ assms(4)] assms(2) show ?thesis by (simp add: settled_with_def)
qed

section \<open>Metrics in the order of time\<close>

text \<open>
  Metrics and marks of the day are no later than a bound, and the metrics of a marked theme are no
  later than its mark.
\<close>

definition timely_mark :: "int \<Rightarrow> market_pipeline \<Rightarrow> string \<times> date \<Rightarrow> int \<Rightarrow> bool" where
  "timely_mark R p k x \<longleftrightarrow> snd k = market_date p \<and> x \<le> R
     \<and> (\<forall>u. dget (mp_latest_metrics p) (fst k) = Some u \<longrightarrow> instant (tu_as_of u) \<le> x)"

definition timely :: "int \<Rightarrow> market_pipeline \<Rightarrow> bool" where
  "timely R p \<longleftrightarrow> aggregator_inv (mp_aggregator p) \<and> ag_catalog (mp_aggregator p) = mc_catalog (mp_setup p)
     \<and> (\<forall>t u. dget (mp_latest_metrics p) t = Some u \<longrightarrow> instant (tu_as_of u) \<le> R)
     \<and> (\<forall>k d. dget (ag_dirty (mp_aggregator p)) k = Some d \<longrightarrow> timely_mark R p k (instant (dt_as_of d)))"

lemma timely_same: "same_day p p' \<Longrightarrow> timely R p' = timely R p"
  by (simp add: timely_def timely_mark_def same_day_def)

lemma mark_loop_times:
  assumes "mark_loop md at_time d ths = (d', r)" and "\<And>t. P (t, md) (instant at_time)"
    and "\<And>k e. dget d k = Some e \<Longrightarrow> P k (instant (dt_as_of e))"
    and "dget d' k = Some e"
  shows "P k (instant (dt_as_of e))"
  using assms
proof (induction ths arbitrary: d)
  case (Cons th ths)
  let ?e = "\<lparr>dt_theme_id = th, dt_market_date = md, dt_as_of = (case dget d (th, md) of
      None \<Rightarrow> at_time | Some previous \<Rightarrow> later (dt_as_of previous) at_time)\<rparr>"
  have e: "P (th, md) (instant (dt_as_of ?e))"
    using Cons.prems(2,3) by (auto simp: later_def split: option.split)
  have "dirty_theme_init ?e = Inr x \<Longrightarrow> x = ?e" for x
    unfolding dirty_theme_init_def validate_Inr_iff by simp
  then consider "d' = d" | "mark_loop md at_time (dset (th, md) ?e d) ths = (d', r)"
    using Cons.prems(1) by (auto split: sum.splits)
  then show ?case
  proof cases
    case 2
    show ?thesis
    proof (rule Cons.IH [OF 2 Cons.prems(2) _ Cons.prems(4)])
      fix k e'
      assume "dget (dset (th, md) ?e d) k = Some e'"
      then show "P k (instant (dt_as_of e'))" using e Cons.prems(3) by (auto split: if_splits)
    qed
  qed (use Cons.prems in blast)
qed simp

lemma mark_stock_times:
  assumes "mark_stock a i md at_time = (a', r)" and "\<And>t. P (t, md) (instant at_time)"
    and "\<And>k e. dget (ag_dirty a) k = Some e \<Longrightarrow> P k (instant (dt_as_of e))"
    and "dget (ag_dirty a') k = Some e"
  shows "P k (instant (dt_as_of e))"
proof -
  consider "a' = a" | ths q where "mark_loop md at_time (ag_dirty a) ths = (ag_dirty a', q)"
    using assms(1) by (auto simp: mark_stock_def split: if_splits sum.splits prod.splits)
  then show ?thesis
  proof cases
    case 1
    then show ?thesis using assms(3,4) by simp
  next
    case 2
    show ?thesis by (rule mark_loop_times [where P = P, OF 2 assms(2) assms(3) assms(4)])
  qed
qed

lemma map_result_set: "map_result f xs = Inr ys \<Longrightarrow> y \<in> set ys \<Longrightarrow> \<exists>x\<in>set xs. f x = Inr y"
  by (induction xs arbitrary: ys) (auto simp: bind_result_Inr_iff)

lemma recompute_Inr: "recompute a hot d = Inr u \<Longrightarrow> tu_theme_id u = dt_theme_id d \<and> tu_as_of u = dt_as_of d"
  by (auto simp: recompute_def bind_result_Inr_iff Let_def split: option.splits)

lemma select_membership_theme:
  "select_membership_snapshot ms t d at_time = Inr (Some m) \<Longrightarrow> t \<in> ms_theme_id ` set ms"
  using select_membership_cases(2) [of ms t d at_time m] by (auto simp: membership_eligible_def)

lemma drain_times:
  assumes inv: "aggregator_inv a" and drained: "drain a hot = (a', Inr us)"
  shows "ag_dirty a' = [] \<and> aggregator_inv a' \<and> ag_catalog a' = ag_catalog a
    \<and> (\<forall>u\<in>set us. \<exists>k d. dget (ag_dirty a) k = Some d \<and> fst k = tu_theme_id u \<and> dt_as_of d = tu_as_of u
         \<and> tu_theme_id u \<in> ms_theme_id ` set (tc_snapshots (ag_catalog a)))"
proof -
  have us: "map_result (recompute a hot) (pending a) = Inr us" and a': "a' = a\<lparr>ag_dirty := []\<rparr>"
    using drained by (auto simp: drain_eq [OF inv] split: sum.splits)
  have "\<exists>k d. dget (ag_dirty a) k = Some d \<and> fst k = tu_theme_id u \<and> dt_as_of d = tu_as_of u
      \<and> tu_theme_id u \<in> ms_theme_id ` set (tc_snapshots (ag_catalog a))" if u: "u \<in> set us" for u
  proof -
    obtain d where d: "d \<in> set (pending a)" "recompute a hot d = Inr u" using map_result_set [OF us u] by auto
    then obtain k where k: "dget (ag_dirty a) k = Some d" by (auto simp: pending_def set_sorted_values)
    moreover have "k = (dt_theme_id d, dt_market_date d)" and e: "entry_ok (ag_catalog a) d"
      using dirty_okD k inv unfolding aggregator_inv_def by blast+
    moreover have "dt_theme_id d \<in> ms_theme_id ` set (tc_snapshots (ag_catalog a))"
      using e select_membership_theme by (auto simp: entry_ok_def catalog_select_def)
    ultimately show ?thesis using recompute_Inr [OF d(2)] by (intro exI [of _ k] exI [of _ d]) simp
  qed
  then show ?thesis by (simp add: a' aggregator_inv_def dirty_ok_def)
qed

lemma kept_metrics:
  "dget (foldl (\<lambda>d u. dset (tu_theme_id u) u d) d us) t = Some u \<Longrightarrow>
     u \<in> set us \<and> tu_theme_id u = t \<or> dget d t = Some u"
  by (induction us arbitrary: d) (force split: if_splits)+

lemma metrics_kept:
  "dget d t \<noteq> None \<Longrightarrow> dget (foldl (\<lambda>d u. dset (tu_theme_id u) u d) d us) t \<noteq> None"
  by (induction us arbitrary: d) simp_all

text \<open>A drain replaces metrics by later ones.\<close>

lemma drain_tracks:
  assumes agrees: "agrees H N p" and timely: "timely R p" and drained: "drain_themes p = (p1, Inr us)"
    and p2: "p2 = keep_metrics us p1"
  shows "agrees H N p2 \<and> timely R p2 \<and> mp_setup p2 = mp_setup p"
proof -
  let ?L = "mp_latest_metrics p" and ?L' = "foldl (\<lambda>d u. dset (tu_theme_id u) u d) (mp_latest_metrics p) us"
  obtain a where a: "drain (mp_aggregator p) (mp_hot p) = (a, Inr us)" and p1: "p1 = p\<lparr>mp_aggregator := a\<rparr>"
    using drained by (auto simp: drain_themes_def split: prod.splits)
  have inv: "aggregator_inv (mp_aggregator p)" using timely by (simp add: timely_def)
  note d = drain_times [OF inv a]
  have new: "instant (tu_as_of u) \<le> R \<and> (\<forall>v. dget ?L (tu_theme_id u) = Some v \<longrightarrow> instant (tu_as_of v) \<le> instant (tu_as_of u))"
    if "u \<in> set us" for u
    using d that timely unfolding timely_def timely_mark_def by metis
  have known: "tu_theme_id u \<in> catalog_themes (mp_setup p)" if "u \<in> set us" for u
    using d that timely by (auto simp: timely_def catalog_themes_def)
  have later_metrics: "instant (tu_as_of v) \<le> instant (tu_as_of u)" if "dget ?L t = Some v" "dget ?L' t = Some u" for t u v
    using kept_metrics [OF that(2)] new that(1) by fastforce
  have "tracks H N p2 t st" if tracked: "tracks H N p t st" for t st
  proof -
    from tracked obtain u where u: "dget ?L t = Some u" by (auto simp: tracks_def)
    from metrics_kept [of ?L t us] u obtain u' where u': "dget ?L' t = Some u'" by auto
    then show ?thesis
      using tracked u later_metrics [OF u u'] by (auto simp: tracks_def p2 p1 keep_metrics_def)
  qed
  then have "agrees H N p2"
    using agrees known kept_metrics [of ?L us]
    by (fastforce simp: agrees_but_def untouched_def theme_status_def p2 p1 keep_metrics_def)
  moreover have "timely R p2"
    using d timely kept_metrics [of ?L us] new by (fastforce simp: timely_def p2 p1 keep_metrics_def)
  ultimately show ?thesis by (simp add: p2 p1 keep_metrics_def)
qed

section \<open>Whole runs\<close>

text \<open>What the rest of the pipeline leaves alone.\<close>

definition tracked_part where
  "tracked_part p = (mp_setup p, mp_command_sequence p, mp_event_store p, mp_latest_metrics p, mp_event_ids p,
     mp_theme_by_event p, mp_hysteresis p, mp_aggregator p)"

lemma tracked_part_same:
  "tracked_part p' = tracked_part p \<Longrightarrow> agrees H N p' = agrees H N p \<and> timely R p' = timely R p"
  by (simp add: tracked_part_def agrees_but_def untouched_def tracks_def theme_status_def timely_def timely_mark_def)

lemma triple_option:
  "(x = None \<Longrightarrow> triple P m Q E) \<Longrightarrow> (\<And>y. x = Some y \<Longrightarrow> triple P (f y) Q E)
    \<Longrightarrow> triple P (case x of None \<Rightarrow> m | Some y \<Rightarrow> f y) Q E"
  by (cases x) simp_all

lemma changing_part [triple_rules]:
  "(\<And>p. tracked_part (f p) = tracked_part p) \<Longrightarrow> keeps (\<lambda>p. tracked_part p = v) (changing f)"
  by (rule triple_changing) simp

lemma reading_part [triple_rules]: "keeps (\<lambda>p. tracked_part p = v) (reading f)"
  by (rule triple_reading) simp

lemma pure_part [triple_rules]: "keeps (\<lambda>p. tracked_part p = v) (pure_act r)"
  by (rule triple_pure)

lemma bind_part: "keeps I m \<Longrightarrow> (\<And>x. keeps I (f x)) \<Longrightarrow> keeps I (bind_act m f)"
  by (rule triple_bind)

lemma record_bucket_part: "keeps (\<lambda>p. tracked_part p = v) (record_bucket b h)"
  unfolding record_bucket_def
  by (intro bind_part changing_part reading_part pure_part) (simp_all add: tracked_part_def)

lemma recalculate_theme_part: "keeps (\<lambda>p. tracked_part p = v) (recalculate_theme b t ds es ms os ss theme_id)"
  unfolding recalculate_theme_def
  by (intro bind_part changing_part reading_part pure_part) (simp_all add: tracked_part_def)

lemma recalculate_baselines_part: "keeps (\<lambda>p. tracked_part p = v) (recalculate_baselines ids b t h)"
  unfolding recalculate_baselines_def Let_def split_def
  by (intro triple_if bind_part reading_part pure_part triple_for_each recalculate_theme_part triple_ret) simp

lemma accumulate_part: "keeps (\<lambda>p. tracked_part p = v) (accumulate t)"
  unfolding accumulate_def Let_def split_def
  by (intro bind_part reading_part triple_option triple_ret triple_when
      changing_part record_bucket_part recalculate_baselines_part) (simp_all add: tracked_part_def)

lemma ranking_items_part: "keeps (\<lambda>p. tracked_part p = v) (ranking_items now)"
  unfolding ranking_items_def Let_def split_def
  by (intro bind_part reading_part changing_part triple_ret) (simp_all add: tracked_part_def)

lemma zoom_part: "(\<And>p x. tracked_part (put x p) = tracked_part p) \<Longrightarrow> keeps (\<lambda>p. tracked_part p = v) (zoom part put m)"
  by (auto simp: triple_def zoom_def split: prod.splits sum.splits)

lemma publish_snapshot_part: "keeps (\<lambda>p. tracked_part p = v) (publish_snapshot H topic params payload now as_of st)"
  unfolding publish_snapshot_def
  by (intro bind_part reading_part changing_part pure_part zoom_part) (simp_all add: tracked_part_def)

lemma record_attention_day_part: "keeps (\<lambda>p. tracked_part p = v) record_attention_day"
  unfolding record_attention_day_def
  by (intro bind_part reading_part changing_part pure_part triple_when) (simp_all add: tracked_part_def)

lemma keeps_part:
  assumes "keeps (\<lambda>p. tracked_part p = v) m" and "m p = (p', r)" and "tracked_part p = v"
  shows "tracked_part p' = v"
  using keeps_fst [OF assms(1), of p] assms(2,3) by simp

definition agree_now :: "hash \<Rightarrow> int \<Rightarrow> int \<Rightarrow> market_setup \<Rightarrow> market_pipeline \<Rightarrow> bool" where
  "agree_now H R N S p \<longleftrightarrow> agrees H N p \<and> timely R p \<and> mp_setup p = S"

lemma agree_now_part: "tracked_part p' = tracked_part p \<Longrightarrow> agree_now H R N S p' = agree_now H R N S p"
  using tracked_part_same [of p' p] by (auto simp: agree_now_def tracked_part_def)

lemma agrees_later: "agrees_but A H N p \<Longrightarrow> N \<le> N' \<Longrightarrow> agrees_but A H N' p"
  unfolding agrees_but_def tracks_def by (meson order_trans)

lemma part_agrees:
  assumes "\<And>v. keeps (\<lambda>p. tracked_part p = v) m"
  shows "triple (agree_now H R N S) m (\<lambda>_. agree_now H R N S) (\<lambda>_ _. True)"
proof (rule tripleI)
  fix p p' x assume "agree_now H R N S p" "m p = (p', Inr x)"
  then show "agree_now H R N S p'" using agree_now_part keeps_part [OF assms _ refl] by blast
qed simp

lemma loop_agrees:
  assumes "for_each f (sorted_updates p) p = (p', Inr x)" and "agree_now H R (instant now) S p" and "distinct_events H S"
    and "\<And>p p' u x. agrees H (instant now) p \<Longrightarrow> dget (mp_latest_metrics p) (tu_theme_id u) = Some u
      \<Longrightarrow> distinct_events H (mp_setup p) \<Longrightarrow> f u p = (p', Inr x) \<Longrightarrow> agrees H (instant now) p' \<and> same_day p p'"
  shows "agree_now H R (instant now) S p'"
proof -
  have "agrees H (instant now) p' \<and> same_day p p'"
    using loop_tracks [of H now f p p' x] assms by (simp add: agree_now_def)
  then show ?thesis using assms(2) timely_same [of p p' R] by (simp add: agree_now_def same_day_def)
qed

lemma invariant_bind:
  "triple I m (\<lambda>_. I) E \<Longrightarrow> (\<And>x. triple I (f x) (\<lambda>_. I) E) \<Longrightarrow> triple I (bind_act m f) (\<lambda>_. I) E"
  by (rule triple_bind)

lemma publish_agrees:
  assumes now: "N \<le> instant now" and distinct: "distinct_events H S"
  shows "triple (agree_now H R N S) (pipeline_publish H now st) (\<lambda>_. agree_now H R (instant now) S) (\<lambda>_ _. True)"
proof -
  let ?N = "instant now"
  have drained: "triple (agree_now H R N S) drain_themes (\<lambda>us p. agree_now H R ?N S (keep_metrics us p)) (\<lambda>_ _. True)"
    using drain_tracks agrees_later [OF _ now] by (intro tripleI) (auto simp: agree_now_def)
  have loop: "triple (\<lambda>p. agree_now H R ?N S p \<and> us = (if mp_market_closed p then [] else sorted_updates p))
      (for_each (evaluate_theme H now) us) (\<lambda>_. agree_now H R ?N S) (\<lambda>_ _. True)" for us
  proof (rule tripleI)
    fix p p' x
    assume p: "agree_now H R ?N S p \<and> us = (if mp_market_closed p then [] else sorted_updates p)"
      and loop: "for_each (evaluate_theme H now) us p = (p', Inr x)"
    show "agree_now H R ?N S p'"
    proof (cases "mp_market_closed p")
      case False
      then have run: "for_each (evaluate_theme H now) (sorted_updates p) p = (p', Inr x)" and q: "agree_now H R ?N S p"
        using p loop by simp_all
      show ?thesis
        by (rule loop_agrees [OF run q distinct], rule evaluate_theme_tracks [OF _ _ refl])
    qed (use p loop in \<open>auto simp: act_iffs\<close>)
  qed simp
  show ?thesis
    unfolding pipeline_publish_def
    by (rule triple_bind [OF drained],
        rule triple_bind [where R = "\<lambda>_. agree_now H R ?N S"], rule triple_changing, assumption,
        rule triple_read_bind, rule triple_bind, rule loop)
      (intro invariant_bind part_agrees accumulate_part ranking_items_part publish_snapshot_part reading_part
        changing_part; simp add: tracked_part_def)
qed

lemma close_agrees:
  assumes now: "N \<le> instant now" and distinct: "distinct_events H S"
  shows "triple (agree_now H R N S) (close_market H now) (\<lambda>_. agree_now H R (instant now) S) (\<lambda>_ _. True)"
proof -
  let ?N = "instant now"
  have closed: "triple (agree_now H R N S) (changing (\<lambda>p. p\<lparr>mp_market_closed := True\<rparr>)) (\<lambda>_. agree_now H R ?N S) (\<lambda>_ _. True)"
  proof (rule triple_changing)
    fix p assume "agree_now H R N S p"
    then have "agree_now H R ?N S p" using agrees_later [OF _ now] by (auto simp: agree_now_def)
    moreover have "agree_now H R ?N S (p\<lparr>mp_market_closed := True\<rparr>) = agree_now H R ?N S p"
      by (rule agree_now_part) (simp add: tracked_part_def)
    ultimately show "agree_now H R ?N S (p\<lparr>mp_market_closed := True\<rparr>)" by simp
  qed
  have loop: "triple (\<lambda>p. agree_now H R ?N S p \<and> us = sorted_updates p)
      (for_each (close_theme H now) us) (\<lambda>_. agree_now H R ?N S) (\<lambda>_ _. True)" for us
  proof (rule tripleI)
    fix p p' x
    assume p: "agree_now H R ?N S p \<and> us = sorted_updates p" and loop: "for_each (close_theme H now) us p = (p', Inr x)"
    then have run: "for_each (close_theme H now) (sorted_updates p) p = (p', Inr x)" and q: "agree_now H R ?N S p"
      by simp_all
    show "agree_now H R ?N S p'"
      by (rule loop_agrees [OF run q distinct], rule close_theme_tracks [OF _ _ refl])
  qed simp
  show ?thesis
    unfolding close_market_def
    by (rule triple_bind [OF closed], rule triple_read_bind, rule triple_bind, rule loop)
      (intro part_agrees record_attention_day_part)
qed

lemma timely_later: "timely R p \<Longrightarrow> R \<le> R' \<Longrightarrow> timely R' p"
  unfolding timely_def timely_mark_def by (meson order_trans)

lemma supplement_agrees: "triple (agree_now H R N S) (supplement_base_price u) (\<lambda>_. agree_now H R N S) (\<lambda>_ _. True)"
proof (rule tripleI)
  fix p p' x assume p: "agree_now H R N S p" and "supplement_base_price u p = (p', Inr x)"
  then obtain rs filled a where p': "p' = p\<lparr>mp_references := rs, mp_base_price_filled := filled, mp_aggregator := a\<rparr>"
      and a: "ag_dirty a = ag_dirty (mp_aggregator p)" "ag_catalog a = ag_catalog (mp_aggregator p)"
    by (cases p) (fastforce simp: supplement_base_price_def base_price_filled_def add_reference_def
        split: if_splits sum.splits)
  have "agrees H N p' = agrees H N p" by (rule agrees_but_same) (simp_all add: p')
  moreover have "timely R p' = timely R p"
    by (simp add: timely_def timely_mark_def aggregator_inv_def a p')
  ultimately show "agree_now H R N S p'"
    using p by (simp add: agree_now_def p')
qed simp

lemma mark_agrees:
  assumes "R \<le> instant (ru_received_at u)" and "ru_market_date u = mc_market_date S"
  shows "triple (agree_now H R N S) (mark_update u) (\<lambda>_. agree_now H (instant (ru_received_at u)) N S) (\<lambda>_ _. True)"
proof (rule tripleI)
  let ?R = "instant (ru_received_at u)"
  fix p p' x assume p: "agree_now H R N S p" and "mark_update u p = (p', Inr x)"
  then obtain a r where
      mark: "mark_stock (mp_aggregator p) (ru_stock_id u) (ru_market_date u) (ru_received_at u) = (a, r)"
      and p': "p' = p\<lparr>mp_aggregator := a\<rparr>"
    by (auto simp: mark_update_def act_iffs)
  have timely: "timely R p" "mp_setup p = S" using p by (simp_all add: agree_now_def)
  have "timely_mark ?R p k (instant (dt_as_of d))" if "dget (ag_dirty a) k = Some d" for k d
  proof (rule mark_stock_times [where P = "timely_mark ?R p", OF mark _ _ that])
    show "timely_mark ?R p (t, ru_market_date u) (instant (ru_received_at u))" for t
      using timely assms order_trans by (fastforce simp: timely_def timely_mark_def)
    show "timely_mark ?R p k (instant (dt_as_of e))" if "dget (ag_dirty (mp_aggregator p)) k = Some e" for k e
      using timely_later [OF timely(1) assms(1)] that unfolding timely_def by blast
  qed
  moreover have "aggregator_inv a" using mark_stock_inv [of "mp_aggregator p"] mark timely(1) by (metis fst_conv timely_def)
  moreover have "ag_catalog a = ag_catalog (mp_aggregator p)"
    using mark by (auto simp: mark_stock_def split: if_splits sum.splits prod.splits)
  moreover have "agrees H N p' = agrees H N p" by (rule agrees_but_same) (simp_all add: p')
  ultimately show "agree_now H ?R N S p'"
    using p timely_later [OF timely(1) assms(1)] by (simp add: agree_now_def timely_def timely_mark_def p')
qed simp

lemma observe_agrees:
  assumes "R \<le> instant (ru_received_at u)"
  shows "triple (agree_now H R N S) (apply_update H u) (\<lambda>_. agree_now H (instant (ru_received_at u)) N S) (\<lambda>_ _. True)"
proof -
  let ?I = "agree_now H R N S" and ?J = "agree_now H (instant (ru_received_at u)) N S"
  have later_time: "?I p \<Longrightarrow> ?J p" for p using timely_later [OF _ assms] by (auto simp: agree_now_def)
  have marked: "triple ?I (when_act (hot_changed r) (mark_update u)) (\<lambda>_. ?J) (\<lambda>_ _. True)"
    if "ru_market_date u = mc_market_date S" for r
    using mark_agrees [OF assms that] later_time by (intro triple_when)
  have "triple ?I (seq_act (supplement_base_price u) (
       bind_act (zoom mp_hot (\<lambda>h p. p\<lparr>mp_hot := h\<rparr>) (\<lambda>h. hot_apply H h u)) (\<lambda>r.
       seq_act (changing (\<lambda>p. p\<lparr>mp_observed_stock_ids := List.insert (ru_stock_id u) (mp_observed_stock_ids p)\<rparr>)) (
       seq_act (when_act (hot_changed r) (mark_update u)) (ret r))))) (\<lambda>_. ?J) (\<lambda>_ _. True)"
    if day: "ru_market_date u = mc_market_date S"
    by (rule triple_bind [OF supplement_agrees], rule triple_bind [where R = "\<lambda>_. ?I"], rule part_agrees, rule zoom_part,
        simp add: tracked_part_def, rule triple_bind [where R = "\<lambda>_. ?I"], rule part_agrees, rule changing_part,
        simp add: tracked_part_def, rule triple_bind, rule marked [OF day], rule triple_ret)
  then show ?thesis
    unfolding apply_update_def
    by (intro triple_read_bind triple_if triple_raise) (auto simp: triple_def agree_now_def)
qed

text \<open>The calls of a day: observations, publications and the close.\<close>

datatype pipeline_op = Observe stock_realtime_update | Publish datetime data_status | Close datetime

fun pipeline_step :: "hash \<Rightarrow> pipeline_op \<Rightarrow> unit pipeline_action" where
  "pipeline_step H (Observe u) = bind_act (apply_update H u) (\<lambda>_. ret ())"
| "pipeline_step H (Publish now st) = bind_act (pipeline_publish H now st) (\<lambda>_. ret ())"
| "pipeline_step H (Close now) = close_market H now"

text \<open>Observations come in the order of their receipt, publications and the close in that of the clock.\<close>

fun in_order :: "int \<Rightarrow> int \<Rightarrow> pipeline_op list \<Rightarrow> bool" where
  "in_order R N [] \<longleftrightarrow> True"
| "in_order R N (Observe u # ops) \<longleftrightarrow> R \<le> instant (ru_received_at u) \<and> in_order (instant (ru_received_at u)) N ops"
| "in_order R N (Publish now st # ops) \<longleftrightarrow> N \<le> instant now \<and> in_order R (instant now) ops"
| "in_order R N (Close now # ops) \<longleftrightarrow> N \<le> instant now \<and> in_order R (instant now) ops"

lemma run_agrees:
  assumes "in_order R N ops" and "distinct_events H S" and "agree_now H R N S p"
    and "for_each (pipeline_step H) ops p = (p', Inr x)"
  shows "\<exists>R' N'. agree_now H R' N' S p'"
  using assms
proof (induction ops arbitrary: R N p)
  case (Cons op ops)
  from Cons.prems(4) obtain p1 where step: "pipeline_step H op p = (p1, Inr ())"
      and rest: "for_each (pipeline_step H) ops p1 = (p', Inr x)"
    by (auto simp: act_iffs)
  show ?case
  proof (cases op)
    case (Observe u)
    then obtain r where "apply_update H u p = (p1, Inr r)" using step by (auto simp: act_iffs)
    then have "agree_now H (instant (ru_received_at u)) N S p1"
      using triple_Inr [OF observe_agrees Cons.prems(3)] Cons.prems(1) Observe by simp
    from Cons.IH [OF _ Cons.prems(2) this rest] Cons.prems(1) Observe show ?thesis by simp
  next
    case (Publish now st)
    then obtain r where "pipeline_publish H now st p = (p1, Inr r)" using step by (auto simp: act_iffs)
    then have "agree_now H R (instant now) S p1"
      using triple_Inr [OF publish_agrees Cons.prems(3)] Cons.prems(1,2) Publish by simp
    from Cons.IH [OF _ Cons.prems(2) this rest] Cons.prems(1) Publish show ?thesis by simp
  next
    case (Close now)
    then have "close_market H now p = (p1, Inr ())" using step by simp
    then have "agree_now H R (instant now) S p1"
      using triple_Inr [OF close_agrees Cons.prems(3)] Cons.prems(1,2) Close by simp
    from Cons.IH [OF _ Cons.prems(2) this rest] Cons.prems(1) Close show ?thesis by simp
  qed
qed (auto simp: act_iffs)

end
