(* ===== verification/Market_Lifecycle.thy ===== *)
theory Market_Lifecycle
  imports Market_Tracking Hot_State
begin

text \<open>
  What the tracking of the Events (\<open>Market_Tracking\<close>) gives for a day of
  \<open>packages/pipeline/market.py\<close>: stored Events follow the decisions as long as the calls return,
  ranked Events can be opened, and a close that failed is never made up for.
\<close>

section \<open>The lifecycle of the stored Events\<close>

text \<open>A store that holds nothing of the stream and no Event of the themes of the day.\<close>

definition unused_store :: "hash \<Rightarrow> market_setup \<Rightarrow> event_store \<Rightarrow> bool" where
  "unused_store H S s \<longleftrightarrow> stream_fresh (mc_stream_id S) 0 s
     \<and> (\<forall>t\<in>catalog_themes S. dget (es_identities s) (theme_key H (mc_market_date S) t) = None)"

lemma init_agrees:
  assumes "market_pipeline_init S references s snapshots h = Inr p" and "unused_store H S s"
  shows "agree_now H R N S p"
proof -
  have p: "mp_setup p = S" "mp_command_sequence p = 0" "mp_event_store p = s" "mp_latest_metrics p = []"
      "mp_event_ids p = []" "mp_hysteresis p = []"
      "mp_aggregator p = aggregator_init (mc_catalog S) references THEME_CALCULATION_POLICY_V1"
    using assms(1) unfolding market_pipeline_init_def validate_Inr_iff by auto
  have "untouched H p t" if "t \<in> catalog_themes S" for t
    using assms(2) that by (simp add: untouched_def unused_store_def p)
  then show ?thesis
    using assms(2) by (simp add: agree_now_def agrees_but_def timely_def unused_store_def p
        aggregator_init_def aggregator_inv_def dirty_ok_def)
qed


lemma ranked_event_open:
  assumes "agree_now H R N S p" and "c \<in> set (rank_candidates p)"
  shows "theme_id_for_event p (ce_event_id (rn_event c)) = Some (rn_theme_id c)
    \<and> theme_detail_document p (ce_event_id (rn_event c)) \<noteq> None
    \<and> evidence_document p (ce_event_id (rn_event c)) \<noteq> None"
proof -
  obtain t u where u: "(t, u) \<in> set (mp_latest_metrics p)" "rank_candidate_of p (t, u) = Some c"
    using assms(2) by (auto simp: rank_candidates_def map_filter_def)
  then have c: "event_of_theme p t = Some (rn_event c)" "rn_theme_id c = t"
      "rankable (mp_market_closed p) (ce_lifecycle_status (rn_event c))"
    by (auto simp: rank_candidate_of_def bind_eq_Some_conv split: if_splits)
  obtain v where v: "dget (mp_latest_metrics p) t = Some v"
    using weak_map_of_SomeI [OF u(1)] by blast
  have "untouched H p t \<or> tracks H N p t (theme_status p t)"
    using agrees_theme [of H N p t v] v assms(1) by (simp add: agree_now_def)
  then have tracked: "tracks H N p t (theme_status p t)"
    using c(1) by (auto simp: event_of_theme_def untouched_def)
  then have e: "dget (mp_theme_by_event p) (ce_event_id (rn_event c)) = Some t"
      "read_event p (ce_event_id (rn_event c)) = Some (rn_event c)"
    using c(1) by (auto simp: tracks_def event_of_theme_def read_event_def)
  then have "theme_detail_document p (ce_event_id (rn_event c)) \<noteq> None"
    using v c(3) by (auto simp: theme_detail_document_def rankable_def is_public_def)
  then show ?thesis using e(1) c(2) by (simp add: theme_id_for_event_def evidence_document_def)
qed

text \<open>
  What is listed can be opened.  In such a run every Event of the rankings has its detail and
  evidence documents, and belongs to the theme it is ranked for.
\<close>

theorem ranked_events_open:
  assumes "market_pipeline_init S references s snapshots h = Inr p0" and "unused_store H S s"
    and "distinct_events H S" and "in_order R N ops"
    and "for_each (pipeline_step H) ops p0 = (p, Inr x)"
  shows "list_all (\<lambda>c. theme_id_for_event p (ce_event_id (rn_event c)) = Some (rn_theme_id c)
      \<and> theme_detail_document p (ce_event_id (rn_event c)) \<noteq> None
      \<and> evidence_document p (ce_event_id (rn_event c)) \<noteq> None) (rank_candidates p)"
proof -
  obtain R' N' where "agree_now H R' N' S p"
    using run_agrees [OF assms(4,3) init_agrees [OF assms(1,2)] assms(5)] by blast
  then show ?thesis using ranked_event_open by (auto simp: list_all_iff)
qed

section \<open>A close that failed\<close>

lemma write_event_Inl: "write_event H s c = (s', Inl e) \<Longrightarrow> es_events s' = es_events s"
  by (auto simp: write_event_def transaction_def split: sum.splits prod.splits if_splits)

lemma transition_theme_event_Inl:
  "transition_theme_event H i target reason u now p = (p', Inl e) \<Longrightarrow>
     es_events (mp_event_store p') = es_events (mp_event_store p) \<and> mp_hysteresis p' = mp_hysteresis p"
  by (auto simp: transition_theme_event_def bind_act_def reading_def raise_act_def pure_act_def next_metadata_def
      changing_def pipeline_write_def zoom_def ret_def dest: write_event_Inl split: option.splits sum.splits prod.splits)

text \<open>Closing decides a terminal status, or nothing.\<close>

lemma closing_terminal:
  assumes "evaluate_hysteresis H policy s e = Inr dec" and "ae_market_closed e" and "hd_transition dec \<noteq> None"
  shows "hs_lifecycle_status (hd_state dec) \<in> {CLOSED, DISCARDED}"
  using assms by (auto simp: evaluate_hysteresis_def evaluate_accepted_def unchanged_def hysteresis_transition_to_def
      bind_result_Inr_iff split: if_splits)

lemma activation_evaluation_Inr: "activation_evaluation_init e = Inr e' \<Longrightarrow> e' = e"
  unfolding activation_evaluation_init_def validate_Inr_iff by simp

lemma next_evaluation_closed: "next_evaluation t u now q closing p = (p', Inr e) \<Longrightarrow> ae_market_closed e = closing"
  by (auto simp: next_evaluation_def act_iffs dest: activation_evaluation_Inr)

lemma terminal_close_returns:
  assumes "dget (mp_hysteresis p) (tu_theme_id u) = Some h" and "hs_lifecycle_status h \<in> {CLOSED, DISCARDED}"
  shows "close_theme H now u p = (p, Inr ())"
  using assms by (simp add: close_theme_def bind_act_def reading_def ret_def)

text \<open>
  C27. A close that fails is not made up for.  The close stores the decision before it writes it to
  the Event.  When the write raises, no stored Event has changed, but the theme counts as closed:
  closing the market again returns without a write, whatever the reason of the failure was.
\<close>

theorem failed_close_not_retried:
  assumes "close_theme H now u p = (p1, Inl e)" and "mp_hysteresis p1 \<noteq> mp_hysteresis p"
  shows "es_events (mp_event_store p1) = es_events (mp_event_store p)
    \<and> close_theme H later_now u p1 = (p1, Inr ())"
proof -
  let ?t = "tu_theme_id u"
  from assms obtain state where found: "dget (mp_hysteresis p) ?t = Some state"
      and live: "hs_lifecycle_status state \<noteq> CLOSED" "hs_lifecycle_status state \<noteq> DISCARDED"
    by (auto simp: close_theme_def bind_act_def reading_def ret_def split: option.splits if_splits)
  obtain p2 r where e: "next_evaluation ?t u now None True p = (p2, r)" by fastforce
  have p2: "mp_hysteresis p2 = mp_hysteresis p" "mp_event_store p2 = mp_event_store p"
    using e by (auto simp: next_evaluation_def bind_act_def changing_def reading_def pure_act_def)
  have "r = Inr x \<Longrightarrow> ae_market_closed x" for x using next_evaluation_closed e by blast
  with assms(1) found live e p2 assms(2) obtain x dec tr i where
      x: "r = Inr x" "ae_market_closed x"
      and dec: "evaluate_hysteresis H (mc_hysteresis_policy (mp_setup p2)) state x = Inr dec" "hd_transition dec = Some tr"
      and failed: "transition_theme_event H i (ht_to_status tr) (ht_reason tr) u now
        (p2\<lparr>mp_hysteresis := dset ?t (hd_state dec) (mp_hysteresis p2)\<rparr>) = (p1, Inl e)"
    by (auto simp: close_theme_def decide_def bind_act_def reading_def ret_def changing_def pure_act_def
        split: option.splits sum.splits)
  have "es_events (mp_event_store p1) = es_events (mp_event_store p)"
      "dget (mp_hysteresis p1) ?t = Some (hd_state dec)"
    using transition_theme_event_Inl [OF failed] p2 by simp_all
  then show ?thesis
    using terminal_close_returns closing_terminal [OF dec(1) x(2)] dec(2) by simp
qed

section \<open>Examples\<close>

text \<open>A day with one theme, and a pipeline that took up the ACTIVE Event of an earlier process.\<close>

fun market_hash :: hash where
  "market_hash (Plain s) = s"
| "market_hash (Dump v) = update_hash (Dump v)"

definition sample_setup :: market_setup where
  "sample_setup = \<lparr>mc_market_date = 8, mc_stream_id = ''s'', mc_schema_version = ''1'',
     mc_catalog = \<lparr>tc_snapshots = [\<lparr>ms_theme_id = ''t'', ms_version = ''m'', ms_effective_from = 7,
         ms_known_at = Aware 20 0, ms_members = [\<lparr>tm_stock_id = ''a'', tm_role = RELATED\<rparr>]\<rparr>],
       tc_theme_ids = [''t'']\<rparr>,
     mc_membership_version = ''m'', mc_theme_names = [], mc_stock_names = [],
     mc_historical_theme_ids = [], mc_hysteresis_policy = HYSTERESIS_POLICY_V1\<rparr>"

definition sample_day :: "pipeline_op list" where
  "sample_day = [Observe (sample_update ''m1'' 1 41 100), Publish (Aware 60 0) LIVE, Close (Aware 70 0)]"

definition sample_start :: "event_store \<Rightarrow> market_pipeline" where
  "sample_start s = (case market_pipeline_init sample_setup [] s empty_repository None of Inr p \<Rightarrow> p)"

lemma sample_day_returns:
  "case for_each (pipeline_step market_hash) sample_day (sample_start empty_store) of
     (p, r) \<Rightarrow> r = Inr () \<and> map (ce_lifecycle_status \<circ> snd) (es_events (mp_event_store p)) = [DISCARDED]"
  by code_simp

definition closing_metrics :: theme_metrics where
  "closing_metrics = \<lparr>mt_calculation_version = ''c'', mt_policy_maturity = ''p'', mt_membership_version = ''m'',
     mt_weighted_return = None, mt_median_return = None, mt_advancing_count = None, mt_valid_count = None,
     mt_advancing_ratio = None,
     mt_coverage = \<lparr>cov_status = INSUFFICIENT,
       cov_core = \<lparr>cp_observed_count = 0, cp_total_count = 0, cp_count_ratio = None, cp_observed_weight_ratio = None\<rparr>,
       cov_related = \<lparr>cp_observed_count = 0, cp_total_count = 0, cp_count_ratio = None, cp_observed_weight_ratio = None\<rparr>\<rparr>,
     mt_capped_weights = [], mt_quality_flags = [], mt_issues = [], mt_reference_versions = []\<rparr>"

definition sample_metric_update :: theme_metric_update where
  "sample_metric_update = \<lparr>tu_theme_id = ''t'', tu_market_date = 8, tu_as_of = Aware 50 0,
     tu_membership_version = ''m'', tu_metrics = closing_metrics\<rparr>"

definition restarted :: market_pipeline where
  "restarted = sample_start (run (store_step sample_hash) empty_store sample_ops)
     \<lparr>mp_event_ids := [(''t'', ''evt_eventkey_d'')],
      mp_hysteresis := [(''t'', case hysteresis_candidate ''t'' HYSTERESIS_POLICY_V1 of Inr h \<Rightarrow> h)]\<rparr>"

lemma sample_close_fails:
  "case close_theme sample_hash (Aware 70 0) sample_metric_update restarted of
     (p, r) \<Rightarrow> (case r of Inl (InvalidStateTransition m) \<Rightarrow> True | _ \<Rightarrow> False) \<and> mp_hysteresis p \<noteq> mp_hysteresis restarted
       \<and> map (ce_lifecycle_status \<circ> snd) (es_events (mp_event_store p)) = [ACTIVE]"
  by code_simp

text \<open>The examples meet the hypotheses of the theorems.\<close>

lemma sample_run:
  "\<exists>p. market_pipeline_init sample_setup [] empty_store empty_repository None = Inr (sample_start empty_store)
     \<and> unused_store market_hash sample_setup empty_store \<and> distinct_events market_hash sample_setup
     \<and> in_order 0 0 sample_day
     \<and> for_each (pipeline_step market_hash) sample_day (sample_start empty_store) = (p, Inr ())
     \<and> map (ce_lifecycle_status \<circ> snd) (es_events (mp_event_store p)) = [DISCARDED]"
proof -
  have "market_pipeline_init sample_setup [] empty_store empty_repository None = Inr (sample_start empty_store)"
    by (simp add: sample_start_def market_pipeline_init_def sample_setup_def blank_def ascii_space_def)
  moreover have "unused_store market_hash sample_setup empty_store"
    by (simp add: unused_store_def stream_fresh_def empty_store_def)
  moreover have "distinct_events market_hash sample_setup"
    by (simp add: distinct_events_def catalog_themes_def sample_setup_def)
  moreover have "in_order 0 0 sample_day"
    by (simp add: sample_day_def sample_update_def)
  ultimately show ?thesis using sample_day_returns by (auto split: prod.splits)
qed


theorem ranked_events_open_witness:
  "\<exists>p. for_each (pipeline_step market_hash) sample_day (sample_start empty_store) = (p, Inr ())
     \<and> list_all (\<lambda>c. theme_detail_document p (ce_event_id (rn_event c)) \<noteq> None) (rank_candidates p)"
proof -
  obtain p where p: "market_pipeline_init sample_setup [] empty_store empty_repository None = Inr (sample_start empty_store)"
      "unused_store market_hash sample_setup empty_store" "distinct_events market_hash sample_setup" "in_order 0 0 sample_day"
      "for_each (pipeline_step market_hash) sample_day (sample_start empty_store) = (p, Inr ())"
    by (rule exE [OF sample_run]) (elim conjE, rule that)
  from ranked_events_open [OF this] p(5) show ?thesis by (auto simp: list_all_iff)
qed

theorem failed_close_not_retried_witness:
  "\<exists>p e. close_theme sample_hash (Aware 70 0) sample_metric_update restarted = (p, Inl e)
     \<and> map (ce_lifecycle_status \<circ> snd) (es_events (mp_event_store p)) = [ACTIVE]
     \<and> close_theme sample_hash (Aware 80 0) sample_metric_update p = (p, Inr ())"
proof -
  obtain p e where p: "close_theme sample_hash (Aware 70 0) sample_metric_update restarted = (p, Inl e)"
      "mp_hysteresis p \<noteq> mp_hysteresis restarted"
      "map (ce_lifecycle_status \<circ> snd) (es_events (mp_event_store p)) = [ACTIVE]"
    using sample_close_fails by (auto split: prod.splits sum.splits)
  from failed_close_not_retried [OF p(1,2), of "Aware 80 0"] p(1,3) show ?thesis
    by (intro exI [of _ p] exI [of _ e]) simp
qed

end
