(* ===== verification/News_Store.thy ===== *)
theory News_Store
  imports Actions News_Text
begin

text \<open>
  The news items, their in-memory store and the ingestion into it: \<open>packages/news/models.py\<close>,
  \<open>store.py\<close> (\<open>InMemoryNewsStore\<close>) and \<open>ingestion.py\<close>.  What the store keeps: every stored item is
  found under its address and under its title, publisher and time, so one article is stored once.
\<close>

section \<open>Items\<close>

datatype news_source_type = RSS | NAVER_NEWS_SEARCH | SUPPLEMENTAL_SEARCH

datatype rights_scope = METADATA_ONLY | SUMMARY_ALLOWED | FULL_TEXT_ALLOWED

datatype ingestion_status = STORED | DUPLICATE | REJECTED

datatype rejection_reason =
  NOT_FEATURED_STOCK | NO_LISTED_STOCK | INVALID_URL | PUBLISHED_IN_FUTURE | PUBLISHED_BEFORE_WINDOW

record raw_news_item =
  rw_source_id :: string
  rw_source_type :: news_source_type
  rw_source_item_id :: string
  rw_publisher :: string
  rw_title :: string
  rw_description :: string
  rw_original_url :: string
  rw_published_at :: "datetime option"
  rw_retrieved_at :: datetime
  rw_rights_scope :: rights_scope
  rw_body :: string

definition raw_news_item_init :: "raw_news_item \<Rightarrow> raw_news_item result" where
  "raw_news_item_init r = validate
     [(\<not> blank (rw_source_id r), ValueError ''source_id''),
      (\<not> blank (rw_source_item_id r), ValueError ''source_item_id''),
      (\<not> blank (rw_publisher r), ValueError ''publisher''),
      (\<not> blank (rw_title r), ValueError ''title''),
      (\<not> blank (rw_original_url r), ValueError ''original_url''),
      (pred_option is_aware (rw_published_at r), ValueError ''published_at''),
      (is_aware (rw_retrieved_at r), ValueError ''retrieved_at''),
      (rw_rights_scope r = FULL_TEXT_ALLOWED \<or> rw_body r = [], ValueError ''body'')] r"

record news_item =
  nw_news_id :: string
  nw_source_id :: string
  nw_source_type :: news_source_type
  nw_source_item_id :: string
  nw_canonical_url :: string
  nw_original_url :: string
  nw_publisher :: string
  nw_title :: string
  nw_description :: string
  nw_published_at :: "datetime option"
  nw_retrieved_at :: datetime
  nw_normalized_title_hash :: string
  nw_content_hash :: string
  nw_rights_scope :: rights_scope
  nw_ingestion_status :: ingestion_status
  nw_stock_ids :: "string list"
  nw_entities :: "string list"
  nw_body :: string

definition news_item_init :: "news_item \<Rightarrow> news_item result" where
  "news_item_init x = validate
     [(\<not> blank (nw_news_id x), ValueError ''news_id''),
      (\<not> blank (nw_canonical_url x), ValueError ''canonical_url''),
      (distinct (nw_stock_ids x), ValueError ''stock_ids'')] x"

definition groundable_text :: "news_item \<Rightarrow> string" where
  "groundable_text x = join '' '' (filter (\<lambda>part. part \<noteq> []) [nw_title x, nw_description x, nw_body x])"

section \<open>Cursors of the sources\<close>

datatype source_status = HEALTHY | RETRYING | FAILED

record news_cursor =
  su_source_id :: string
  su_source_type :: news_source_type
  su_last_source_item_id :: "string option"
  su_last_published_at :: "datetime option"
  su_last_polled_at :: "datetime option"
  su_next_poll_at :: "datetime option"
  su_status :: source_status
  su_last_error :: "string option"
  su_consecutive_failures :: nat

definition cursor_degraded :: "news_cursor \<Rightarrow> bool" where
  "cursor_degraded c \<longleftrightarrow> su_status c \<noteq> HEALTHY"

section \<open>The store\<close>

type_synonym title_key = "string \<times> string \<times> datetime option"

text \<open>
  The ISO text of the time, with "" for none, stands for the time itself.
\<close>

definition title_key_of :: "(string \<Rightarrow> string) \<Rightarrow> news_item \<Rightarrow> title_key" where
  "title_key_of casefold x =
     (nw_normalized_title_hash x, casefold (stripped (nw_publisher x)), nw_published_at x)"

record news_store =
  nx_items :: "(string, news_item) dict"
  nx_by_canonical_url :: "(string, string) dict"
  nx_by_title_key :: "(title_key, string) dict"
  nx_cursors :: "(string, news_cursor) dict"

definition empty_news_store :: news_store where
  "empty_news_store = \<lparr>nx_items = [], nx_by_canonical_url = [], nx_by_title_key = [], nx_cursors = []\<rparr>"

definition news_upsert :: "(string \<Rightarrow> string) \<Rightarrow> news_item \<Rightarrow> news_store \<Rightarrow> news_store \<times> bool" where
  "news_upsert casefold x st =
     (if dget (nx_items st) (nw_news_id x) \<noteq> None then (st, False)
      else (st\<lparr>nx_items := dset (nw_news_id x) x (nx_items st),
               nx_by_canonical_url := dset (nw_canonical_url x) (nw_news_id x) (nx_by_canonical_url st),
               nx_by_title_key := dset (title_key_of casefold x) (nw_news_id x) (nx_by_title_key st)\<rparr>, True))"

definition news_get :: "news_store \<Rightarrow> string \<Rightarrow> news_item option" where
  "news_get st news_id = dget (nx_items st) news_id"

text \<open>The address is looked up first; an index entry without its item is a \<open>KeyError\<close>.\<close>

definition news_find_duplicate ::
  "(string \<Rightarrow> string) \<Rightarrow> news_store \<Rightarrow> news_item \<Rightarrow> news_item option result" where
  "news_find_duplicate casefold st x =
     (let existing_id = (case dget (nx_by_canonical_url st) (nw_canonical_url x) of Some i \<Rightarrow> Some i
        | None \<Rightarrow> dget (nx_by_title_key st) (title_key_of casefold x))
      in case existing_id of None \<Rightarrow> Inr None
         | Some i \<Rightarrow>
             if i = nw_news_id x then Inr (if i = [] then None else dget (nx_items st) i)
             else (case dget (nx_items st) i of None \<Rightarrow> Inl (KeyError i) | Some y \<Rightarrow> Inr (Some y)))"

definition news_within :: "datetime option \<Rightarrow> datetime option \<Rightarrow> news_item \<Rightarrow> bool" where
  "news_within since until x = (case nw_published_at x of
       None \<Rightarrow> pred_option (\<lambda>u. instant (nw_retrieved_at x) \<le> instant u) until
     | Some p \<Rightarrow> pred_option (\<lambda>s. instant s \<le> instant p) since \<and> pred_option (\<lambda>u. instant p \<le> instant u) until)"

definition haystack_of :: "news_item \<Rightarrow> string" where
  "haystack_of x = nw_title x @ '' '' @ nw_description x @ '' '' @ join '' '' (nw_entities x)"

definition news_ordering_key :: "news_item \<Rightarrow> int \<times> string" where
  "news_ordering_key x =
     (instant (case nw_published_at x of None \<Rightarrow> nw_retrieved_at x | Some p \<Rightarrow> p), nw_news_id x)"

text \<open>
  \<open>sorted(..., reverse=True)\<close> keeps equal keys in their order; keys hold the identifier, so no two
  are equal.
\<close>

definition news_search ::
  "(string \<Rightarrow> string) \<Rightarrow> string list \<Rightarrow> string list \<Rightarrow> datetime option \<Rightarrow> datetime option \<Rightarrow>
   news_store \<Rightarrow> news_item list" where
  "news_search casefold stock_ids keywords since until st =
     (let wanted = map casefold (filter (\<lambda>k. \<not> blank k) keywords)
      in rev (sort_key news_ordering_key (filter (\<lambda>x. news_within since until x
           \<and> (stock_ids = [] \<and> wanted = []
              \<or> (\<exists>s\<in>set stock_ids. s \<in> set (nw_stock_ids x))
              \<or> (\<exists>k\<in>set wanted. occurs k (casefold (haystack_of x)))))
           (map snd (nx_items st)))))"

definition news_get_cursor :: "news_store \<Rightarrow> string \<Rightarrow> news_cursor option" where
  "news_get_cursor st source_id = dget (nx_cursors st) source_id"

definition news_put_cursor :: "news_cursor \<Rightarrow> news_store \<Rightarrow> news_store" where
  "news_put_cursor c st = st\<lparr>nx_cursors := dset (su_source_id c) c (nx_cursors st)\<rparr>"

section \<open>Stocks named in a text\<close>

text \<open>\<open>re.finditer\<close> of a name: the matches from the left that do not overlap.\<close>

fun match_spans :: "string \<Rightarrow> nat \<Rightarrow> nat \<Rightarrow> string \<Rightarrow> (nat \<times> nat) list" where
  "match_spans name i skip [] = []"
| "match_spans name i skip (c # s) =
     (if 0 < skip then match_spans name (Suc i) (skip - 1) s
      else if starts_with name (c # s)
      then (i, i + length name) # match_spans name (Suc i) (length name - 1) s
      else match_spans name (Suc i) 0 s)"

definition name_spans :: "string list \<Rightarrow> string \<Rightarrow> (string \<times> (nat \<times> nat) list) list" where
  "name_spans names text =
     map (\<lambda>name. (name, match_spans name 0 0 text)) (filter (\<lambda>name. name \<noteq> [] \<and> occurs name text) names)"

definition stands_alone ::
  "(string \<times> (nat \<times> nat) list) list \<Rightarrow> string \<times> (nat \<times> nat) list \<Rightarrow> bool" where
  "stands_alone spans = (\<lambda>(name, own).
     let longer = concat (map snd (filter (\<lambda>(other, _).
           other \<noteq> name \<and> length name < length other \<and> occurs name other) spans))
     in list_ex (\<lambda>(start, end). \<not> list_ex (\<lambda>(a, b). a \<le> start \<and> end \<le> b) longer) own)"

definition resolve_stocks :: "(string, string) dict \<Rightarrow> string \<Rightarrow> string \<Rightarrow> string list" where
  "resolve_stocks directory title description =
     (let text = title @ '' '' @ description; spans = name_spans (dkeys directory) text
      in first_of_each (List.map_filter (\<lambda>(name, _). dget directory name) (filter (stands_alone spans) spans)))"

section \<open>Ingestion\<close>

record news_ingestor =
  ni_stock_directory :: "(string, string) dict"
  ni_entities :: "string list"

definition news_ingestor_init :: "(string, string) dict \<Rightarrow> string list \<Rightarrow> news_ingestor" where
  "news_ingestor_init directory vocabulary = \<lparr>ni_stock_directory = directory,
     ni_entities = sorted_set (filter (\<lambda>term. \<not> blank term) vocabulary)\<rparr>"

text \<open>The hash, \<open>casefold\<close> and the URL functions the ingestion uses.\<close>

record news_library =
  nl_hash :: hash
  nl_casefold :: "string \<Rightarrow> string"
  nl_urls :: url_library

datatype rejected_news = Rejected_News string string rejection_reason

record ingestion_report =
  ir_stored :: "news_item list"
  ir_duplicates :: "news_item list"
  ir_rejected :: "rejected_news list"

definition created_event_news_ids :: "ingestion_report \<Rightarrow> string list" where
  "created_event_news_ids r = map nw_news_id (ir_stored r)"

text \<open>Every source type is a featured one, so the title is checked for all of them.\<close>

definition reject_reason ::
  "news_library \<Rightarrow> news_ingestor \<Rightarrow> datetime \<Rightarrow> datetime \<Rightarrow> raw_news_item \<Rightarrow> rejection_reason option" where
  "reject_reason L g now window_start raw =
     (if \<not> is_featured_stock_title (rw_title raw) then Some NOT_FEATURED_STOCK
      else case canonical_url (nl_urls L) (rw_original_url raw) of Inl e \<Rightarrow> Some INVALID_URL
        | Inr url \<Rightarrow>
            if resolve_stocks (ni_stock_directory g) (rw_title raw) (rw_description raw) = []
            then Some NO_LISTED_STOCK
            else (case rw_published_at raw of None \<Rightarrow> None
              | Some p \<Rightarrow> if instant now < instant p then Some PUBLISHED_IN_FUTURE
                  else if instant p < instant window_start then Some PUBLISHED_BEFORE_WINDOW
                  else None))"

definition resolve_entities :: "news_ingestor \<Rightarrow> raw_news_item \<Rightarrow> string list" where
  "resolve_entities g raw = filter (\<lambda>term. occurs term
     (rw_title raw @ '' '' @ rw_description raw @ '' '' @ rw_body raw)) (ni_entities g)"

definition normalize_news :: "news_library \<Rightarrow> news_ingestor \<Rightarrow> raw_news_item \<Rightarrow> news_item result" where
  "normalize_news L g raw = bind_result (canonical_url (nl_urls L) (rw_original_url raw)) (\<lambda>url.
     news_item_init
       \<lparr>nw_news_id = news_id_of (nl_hash L) url, nw_source_id = rw_source_id raw,
        nw_source_type = rw_source_type raw, nw_source_item_id = rw_source_item_id raw,
        nw_canonical_url = url, nw_original_url = rw_original_url raw, nw_publisher = rw_publisher raw,
        nw_title = rw_title raw, nw_description = rw_description raw,
        nw_published_at = rw_published_at raw, nw_retrieved_at = rw_retrieved_at raw,
        nw_normalized_title_hash = title_hash (nl_hash L) (nl_casefold L) (rw_title raw),
        nw_content_hash = news_content_hash (nl_hash L) (nl_casefold L) (rw_title raw) (rw_description raw),
        nw_rights_scope = rw_rights_scope raw, nw_ingestion_status = STORED,
        nw_stock_ids = resolve_stocks (ni_stock_directory g) (rw_title raw) (rw_description raw),
        nw_entities = resolve_entities g raw, nw_body = rw_body raw\<rparr>)"

text \<open>One turn of the loop: what becomes of a raw item.\<close>

datatype ingested = As_Stored news_item | As_Duplicate news_item | As_Rejected rejected_news

definition ingest_one ::
  "news_library \<Rightarrow> news_ingestor \<Rightarrow> datetime \<Rightarrow> datetime \<Rightarrow> raw_news_item \<Rightarrow> (news_store, ingested) action" where
  "ingest_one L g now window_start raw =
     (case reject_reason L g now window_start raw of
        Some reason \<Rightarrow> ret (As_Rejected (Rejected_News (rw_source_id raw) (rw_source_item_id raw) reason))
      | None \<Rightarrow>
          bind_act (pure_act (normalize_news L g raw)) (\<lambda>x.
          bind_act (reading (\<lambda>st. news_find_duplicate (nl_casefold L) st x)) (\<lambda>found.
          bind_act (pure_act found) (\<lambda>existing. case existing of
              Some y \<Rightarrow> ret (As_Duplicate y)
            | None \<Rightarrow> (\<lambda>st. case news_upsert (nl_casefold L) x st of
                  (st1, True) \<Rightarrow> ret (As_Stored x) st1 | (st1, False) \<Rightarrow> ret (As_Duplicate x) st1)))))"

definition report_of :: "ingested list \<Rightarrow> ingestion_report" where
  "report_of ys =
     \<lparr>ir_stored = List.map_filter (\<lambda>y. case y of As_Stored x \<Rightarrow> Some x | _ \<Rightarrow> None) ys,
      ir_duplicates = List.map_filter (\<lambda>y. case y of As_Duplicate x \<Rightarrow> Some x | _ \<Rightarrow> None) ys,
      ir_rejected = List.map_filter (\<lambda>y. case y of As_Rejected r \<Rightarrow> Some r | _ \<Rightarrow> None) ys\<rparr>"

definition ingest_news ::
  "news_library \<Rightarrow> news_ingestor \<Rightarrow> datetime \<Rightarrow> datetime \<Rightarrow> raw_news_item list \<Rightarrow>
   (news_store, ingestion_report) action" where
  "ingest_news L g now window_start raws =
     bind_act (collecting (ingest_one L g now window_start) raws) (\<lambda>ys. ret (report_of ys))"

end
