(* ===== verification/News_Ingestion.thy ===== *)
theory News_Ingestion
  imports News_Store
begin

text \<open>
  What the ingestion of \<open>News_Store\<close> keeps.  Every store reached from the empty one indexes each of
  its items by address and by title, so that no look-up of a duplicate raises, one address and one
  title of a publisher at a time belong to one item, and a batch that comes again stores nothing.
\<close>

section \<open>The indexes of the store\<close>

definition indexed_items :: "(string \<Rightarrow> string) \<Rightarrow> news_store \<Rightarrow> bool" where
  "indexed_items casefold st \<longleftrightarrow> (\<forall>i x. dget (nx_items st) i = Some x \<longrightarrow> nw_news_id x = i
     \<and> dget (nx_by_canonical_url st) (nw_canonical_url x) = Some i
     \<and> dget (nx_by_title_key st) (title_key_of casefold x) = Some i)"

definition index_sound :: "(string \<Rightarrow> string) \<Rightarrow> news_store \<Rightarrow> bool" where
  "index_sound casefold st \<longleftrightarrow>
     (\<forall>u i. dget (nx_by_canonical_url st) u = Some i \<longrightarrow>
        (\<exists>x. dget (nx_items st) i = Some x \<and> nw_canonical_url x = u))
   \<and> (\<forall>k i. dget (nx_by_title_key st) k = Some i \<longrightarrow>
        (\<exists>x. dget (nx_items st) i = Some x \<and> title_key_of casefold x = k))"

definition news_store_ok :: "(string \<Rightarrow> string) \<Rightarrow> news_store \<Rightarrow> bool" where
  "news_store_ok casefold st \<longleftrightarrow> indexed_items casefold st \<and> index_sound casefold st"

lemma indexed_itemsD:
  assumes "news_store_ok casefold st" "dget (nx_items st) i = Some x"
  shows "nw_news_id x = i" "dget (nx_by_canonical_url st) (nw_canonical_url x) = Some i"
    "dget (nx_by_title_key st) (title_key_of casefold x) = Some i"
  using assms by (auto simp: news_store_ok_def indexed_items_def)

lemma indexed_url:
  assumes "news_store_ok casefold st" "dget (nx_by_canonical_url st) u = Some i"
  obtains x where "dget (nx_items st) i = Some x" "nw_canonical_url x = u"
  using assms unfolding news_store_ok_def index_sound_def by metis

lemma indexed_title:
  assumes "news_store_ok casefold st" "dget (nx_by_title_key st) k = Some i"
  obtains x where "dget (nx_items st) i = Some x" "title_key_of casefold x = k"
  using assms unfolding news_store_ok_def index_sound_def by metis

lemma items_unique:
  assumes "news_store_ok casefold st" "dget (nx_items st) i = Some x" "dget (nx_items st) j = Some y"
    and "nw_canonical_url x = nw_canonical_url y \<or> title_key_of casefold x = title_key_of casefold y"
  shows "i = j"
  using indexed_itemsD(2,3) [OF assms(1,2)] indexed_itemsD(2,3) [OF assms(1,3)] assms(4) by auto

text \<open>On an indexed store the look-up of a duplicate finds an item or says there is none.\<close>

lemma find_duplicate_cases:
  assumes ok: "news_store_ok casefold st"
  obtains (found) y where "news_find_duplicate casefold st x = Inr (Some y)"
      "dget (nx_by_canonical_url st) (nw_canonical_url x) \<noteq> None
        \<or> dget (nx_by_title_key st) (title_key_of casefold x) \<noteq> None"
    | (new) "news_find_duplicate casefold st x = Inr None"
      "dget (nx_by_canonical_url st) (nw_canonical_url x) = None"
      "dget (nx_by_title_key st) (title_key_of casefold x) = None"
    | (unnamed) "news_find_duplicate casefold st x = Inr None" "dget (nx_items st) (nw_news_id x) \<noteq> None"
proof -
  have known: thesis if hit: "dget (nx_items st) i = Some y"
      and by_index: "dget (nx_by_canonical_url st) (nw_canonical_url x) \<noteq> None
        \<or> dget (nx_by_title_key st) (title_key_of casefold x) \<noteq> None"
      and eq: "news_find_duplicate casefold st x = (if i = nw_news_id x
        then Inr (if i = [] then None else dget (nx_items st) i)
        else (case dget (nx_items st) i of None \<Rightarrow> Inl (KeyError i) | Some y \<Rightarrow> Inr (Some y)))" for i y
  proof (cases "i = nw_news_id x \<and> i = []")
    case True
    with hit eq show thesis by (intro unnamed) auto
  next
    case False
    with hit eq have "news_find_duplicate casefold st x = Inr (Some y)" by (auto split: if_splits)
    with by_index show thesis by (intro found)
  qed
  show thesis
  proof (cases "dget (nx_by_canonical_url st) (nw_canonical_url x)")
    case (Some i)
    with indexed_url [OF ok Some] known show thesis by (auto simp: news_find_duplicate_def)
  next
    case url: None
    show thesis
    proof (cases "dget (nx_by_title_key st) (title_key_of casefold x)")
      case (Some i)
      with url indexed_title [OF ok Some] known show thesis by (auto simp: news_find_duplicate_def)
    next
      case None
      with url show thesis by (intro new) (simp_all add: news_find_duplicate_def)
    qed
  qed
qed

lemma upsert_old:
  "dget (nx_items st) (nw_news_id x) \<noteq> None \<Longrightarrow> news_upsert casefold x st = (st, False)"
  by (simp add: news_upsert_def)

lemma upsert_ok:
  assumes ok: "news_store_ok casefold st"
    and new: "dget (nx_by_canonical_url st) (nw_canonical_url x) = None"
      "dget (nx_by_title_key st) (title_key_of casefold x) = None"
  shows "news_store_ok casefold (fst (news_upsert casefold x st))"
proof (cases "dget (nx_items st) (nw_news_id x)")
  case None
  let ?st = "fst (news_upsert casefold x st)"
  have st: "dget (nx_items ?st) i = (if i = nw_news_id x then Some x else dget (nx_items st) i)"
    "dget (nx_by_canonical_url ?st) u = (if u = nw_canonical_url x then Some (nw_news_id x)
       else dget (nx_by_canonical_url st) u)"
    "dget (nx_by_title_key ?st) k = (if k = title_key_of casefold x then Some (nw_news_id x)
       else dget (nx_by_title_key st) k)" for i u k
    using None by (simp_all add: news_upsert_def)
  have "nw_canonical_url y \<noteq> nw_canonical_url x" "title_key_of casefold y \<noteq> title_key_of casefold x"
    if "dget (nx_items st) i = Some y" for i y
    using indexed_itemsD(2,3) [OF ok that] new by auto
  then have "indexed_items casefold ?st"
    unfolding indexed_items_def st using indexed_itemsD [OF ok] by simp
  moreover have "index_sound casefold ?st"
    unfolding index_sound_def st using indexed_url [OF ok] indexed_title [OF ok] None
    by (auto split: if_splits) (metis option.distinct(1))+
  ultimately show ?thesis by (simp add: news_store_ok_def)
qed (simp add: news_upsert_def ok)

section \<open>One item\<close>

text \<open>What one turn of the loop may do: it stores a new item or leaves the store as it is.\<close>

lemma ingest_one_cases:
  assumes ok: "news_store_ok (nl_casefold L) st"
  obtains (rejected) reason where "reject_reason L g now ws raw = Some reason"
      "ingest_one L g now ws raw st
        = (st, Inr (As_Rejected (Rejected_News (rw_source_id raw) (rw_source_item_id raw) reason)))"
    | (malformed) e where "reject_reason L g now ws raw = None" "normalize_news L g raw = Inl e"
      "ingest_one L g now ws raw st = (st, Inl e)"
    | (duplicate) x y where "reject_reason L g now ws raw = None" "normalize_news L g raw = Inr x"
      "dget (nx_items st) (nw_news_id x) \<noteq> None
       \<or> dget (nx_by_canonical_url st) (nw_canonical_url x) \<noteq> None
       \<or> dget (nx_by_title_key st) (title_key_of (nl_casefold L) x) \<noteq> None"
      "ingest_one L g now ws raw st = (st, Inr (As_Duplicate y))"
    | (stored) x where "reject_reason L g now ws raw = None" "normalize_news L g raw = Inr x"
      "dget (nx_items st) (nw_news_id x) = None"
      "dget (nx_by_canonical_url st) (nw_canonical_url x) = None"
      "dget (nx_by_title_key st) (title_key_of (nl_casefold L) x) = None"
      "ingest_one L g now ws raw st = (fst (news_upsert (nl_casefold L) x st), Inr (As_Stored x))"
proof (cases "reject_reason L g now ws raw")
  case (Some reason)
  then show thesis by (intro rejected) (simp_all add: ingest_one_def ret_def)
next
  case None
  show thesis
  proof (cases "normalize_news L g raw")
    case (Inl e)
    with None show thesis
      by (intro malformed) (simp_all add: ingest_one_def bind_act_def pure_act_def)
  next
    case (Inr x)
    note run = None Inr ingest_one_def bind_act_def pure_act_def reading_def ret_def
    from ok show thesis
    proof (cases rule: find_duplicate_cases [where x = x])
      case (found y)
      then show thesis by (intro duplicate [of x y]) (simp_all add: run)
    next
      case unnamed
      then show thesis by (intro duplicate [of x x]) (simp_all add: run news_upsert_def)
    next
      case new
      then show thesis
      proof (cases "dget (nx_items st) (nw_news_id x)")
        case None
        with new show thesis by (intro stored [of x]) (simp_all add: run news_upsert_def)
      next
        case (Some y)
        with new show thesis by (intro duplicate [of x x]) (simp_all add: run news_upsert_def)
      qed
    qed
  qed
qed

lemma ingest_one_ok:
  assumes "news_store_ok (nl_casefold L) st"
  shows "news_store_ok (nl_casefold L) (fst (ingest_one L g now ws raw st))"
  using assms by (cases rule: ingest_one_cases [where g = g and now = now and ws = ws and raw = raw])
    (simp_all add: assms upsert_ok)

section \<open>What a stored item went through\<close>

text \<open>The checks every stored item has passed, for a given ingestor.\<close>

definition admitted :: "news_library \<Rightarrow> news_ingestor \<Rightarrow> news_item \<Rightarrow> bool" where
  "admitted L g x \<longleftrightarrow> is_featured_stock_title (nw_title x)
     \<and> canonical_url (nl_urls L) (nw_original_url x) = Inr (nw_canonical_url x)
     \<and> nw_news_id x = news_id_of (nl_hash L) (nw_canonical_url x)
     \<and> nw_normalized_title_hash x = title_hash (nl_hash L) (nl_casefold L) (nw_title x)
     \<and> nw_stock_ids x \<noteq> [] \<and> distinct (nw_stock_ids x)
     \<and> (\<forall>s\<in>set (nw_stock_ids x). \<exists>name. dget (ni_stock_directory g) name = Some s
          \<and> occurs name (nw_title x @ '' '' @ nw_description x))"

lemma set_resolve_stocks:
  "s \<in> set (resolve_stocks directory title description) \<Longrightarrow>
   \<exists>name. dget directory name = Some s \<and> occurs name (title @ '' '' @ description)"
  by (auto simp: resolve_stocks_def Let_def name_spans_def List.map_filter_def)

lemma normalize_admitted:
  assumes "reject_reason L g now ws raw = None" "normalize_news L g raw = Inr x"
  shows "admitted L g x"
    and "nw_published_at x = rw_published_at raw"
  using assms set_resolve_stocks
  by (fastforce simp: admitted_def reject_reason_def normalize_news_def news_item_init_def bind_result_Inr_iff
      validate_Inr_iff split: if_splits sum.splits)+

section \<open>Sequences of operations\<close>

datatype news_op = News_Ingest datetime datetime "raw_news_item list" | News_Cursor news_cursor

fun news_step :: "news_library \<Rightarrow> news_ingestor \<Rightarrow> (news_store, news_op, ingestion_report) step" where
  "news_step L g st (News_Ingest now ws raws) = ingest_news L g now ws raws st"
| "news_step L g st (News_Cursor c) = (news_put_cursor c st, Inr (report_of []))"

text \<open>The invariant of the store: its indexes and the checks its items passed.\<close>

definition news_inv :: "news_library \<Rightarrow> news_ingestor \<Rightarrow> news_store \<Rightarrow> bool" where
  "news_inv L g st \<longleftrightarrow> news_store_ok (nl_casefold L) st
     \<and> (\<forall>i x. dget (nx_items st) i = Some x \<longrightarrow> admitted L g x)"

lemma news_inv_empty: "news_inv L g empty_news_store"
  by (simp add: news_inv_def news_store_ok_def indexed_items_def index_sound_def empty_news_store_def)

lemma ingest_one_inv:
  assumes "news_inv L g st"
  shows "news_inv L g (fst (ingest_one L g now ws raw st))"
proof -
  have ok: "news_store_ok (nl_casefold L) st" using assms by (simp add: news_inv_def)
  then show ?thesis
  proof (cases rule: ingest_one_cases [where g = g and now = now and ws = ws and raw = raw])
    case (stored x)
    then have "admitted L g x" by (intro normalize_admitted(1))
    with stored assms ingest_one_ok [OF ok, of g now ws raw] show ?thesis
      by (auto simp: news_inv_def news_upsert_def split: if_splits)
  qed (use assms in simp_all)
qed

text \<open>Nothing the loop does removes an item or an index entry.\<close>

definition extends :: "news_store \<Rightarrow> news_store \<Rightarrow> bool" where
  "extends st st1 \<longleftrightarrow> (\<forall>i x. dget (nx_items st) i = Some x \<longrightarrow> dget (nx_items st1) i = Some x)
     \<and> (\<forall>u i. dget (nx_by_canonical_url st) u = Some i \<longrightarrow> dget (nx_by_canonical_url st1) u = Some i)
     \<and> (\<forall>k i. dget (nx_by_title_key st) k = Some i \<longrightarrow> dget (nx_by_title_key st1) k = Some i)"

lemma extends_refl [simp]: "extends st st"
  by (simp add: extends_def)

lemma extends_trans: "extends a b \<Longrightarrow> extends b c \<Longrightarrow> extends a c"
  by (simp add: extends_def)

lemma ingest_one_extends:
  assumes "news_store_ok (nl_casefold L) st"
  shows "extends st (fst (ingest_one L g now ws raw st))"
  using assms by (cases rule: ingest_one_cases [where g = g and now = now and ws = ws and raw = raw])
    (auto simp: extends_def news_upsert_def)

text \<open>A raw item is known when its turn of the loop would leave the store alone.\<close>

definition news_settled :: "news_library \<Rightarrow> news_ingestor \<Rightarrow> raw_news_item \<Rightarrow> news_store \<Rightarrow> bool" where
  "news_settled L g raw st \<longleftrightarrow> (\<forall>x. normalize_news L g raw = Inr x \<longrightarrow>
     dget (nx_items st) (nw_news_id x) \<noteq> None
     \<or> dget (nx_by_canonical_url st) (nw_canonical_url x) \<noteq> None
     \<or> dget (nx_by_title_key st) (title_key_of (nl_casefold L) x) \<noteq> None)"

lemma settled_extends: "news_settled L g raw st \<Longrightarrow> extends st st1 \<Longrightarrow> news_settled L g raw st1"
  unfolding news_settled_def extends_def by (metis not_None_eq)

lemma ingest_one_settles:
  assumes ok: "news_store_ok (nl_casefold L) st" and r: "reject_reason L g now ws raw = None"
    and inr: "snd (ingest_one L g now ws raw st) = Inr y"
  shows "news_settled L g raw (fst (ingest_one L g now ws raw st))"
  using ok
proof (cases rule: ingest_one_cases [where g = g and now = now and ws = ws and raw = raw])
  case (duplicate x z)
  then show ?thesis by (simp add: news_settled_def)
next
  case (stored x)
  then show ?thesis by (simp add: news_settled_def news_upsert_def)
qed (use r inr in simp_all)

lemma settled_again:
  assumes "news_store_ok (nl_casefold L) st" "news_settled L g raw st" "reject_reason L g now ws raw = None"
    "snd (ingest_one L g now ws raw st0) = Inr y"
  shows "\<exists>z. ingest_one L g now ws raw st = (st, Inr (As_Duplicate z))"
  using assms(1)
proof (cases rule: ingest_one_cases [where g = g and now = now and ws = ws and raw = raw])
  case (malformed e)
  with assms(4) show ?thesis by (simp add: ingest_one_def bind_act_def pure_act_def)
next
  case (stored x)
  with assms(2) show ?thesis by (simp add: news_settled_def)
qed (use assms(3) in auto)

section \<open>Batches\<close>

lemma collecting_keeps:
  assumes "P st" and "\<And>raw st. P st \<Longrightarrow> P (fst (f raw st))"
  shows "P (fst (collecting f raws st))"
  using assms(1)
proof (induction raws arbitrary: st)
  case (Cons raw raws)
  obtain st0 r where f: "f raw st = (st0, r)" by (cases "f raw st")
  with assms(2) [OF Cons.prems, of raw] have "P st0" by simp
  with Cons.IH [of st0] show ?case
    by (cases r; cases "collecting f raws st0"; cases "snd (collecting f raws st0)")
      (simp_all add: f bind_act_def ret_def)
qed (simp add: ret_def)

lemma fst_ingest: "fst (ingest_news L g now ws raws st) = fst (collecting (ingest_one L g now ws) raws st)"
  by (simp add: ingest_news_def bind_act_def ret_def split: prod.split sum.split)

lemma ingest_Inr_iff:
  "ingest_news L g now ws raws st = (st1, Inr r) \<longleftrightarrow>
   (\<exists>ys. collecting (ingest_one L g now ws) raws st = (st1, Inr ys) \<and> r = report_of ys)"
  by (auto simp: ingest_news_def act_iffs)

lemma ingest_inv: "news_inv L g st \<Longrightarrow> news_inv L g (fst (ingest_news L g now ws raws st))"
  unfolding fst_ingest by (rule collecting_keeps) (auto intro: ingest_one_inv)

lemma ingest_extends:
  assumes "news_store_ok (nl_casefold L) st"
  shows "news_store_ok (nl_casefold L) (fst (ingest_news L g now ws raws st))
    \<and> extends st (fst (ingest_news L g now ws raws st))"
  unfolding fst_ingest
  by (rule collecting_keeps) (auto simp: assms intro: ingest_one_ok ingest_one_extends extends_trans)

interpretation news: invariant_machine "news_step L g" "news_inv L g" for L g
proof (unfold_locales, goal_cases)
  case (1 s c)
  then show ?case
    by (cases c) (simp_all add: ingest_inv, simp add: news_inv_def news_store_ok_def indexed_items_def
      index_sound_def news_put_cursor_def)
qed

lemma run_news_extends: "news_inv L g st \<Longrightarrow> extends st (run (news_step L g) st ops)"
proof (induction ops arbitrary: st)
  case (Cons c ops)
  have "extends st (fst (news_step L g st c))"
    using Cons.prems ingest_extends [of L st]
    by (cases c) (auto simp: news_inv_def news_put_cursor_def extends_def)
  with Cons.IH [OF news.step_inv [OF Cons.prems, of c]] show ?case
    by (auto intro: extends_trans)
qed simp

lemmas reachable_news = news.run_inv [OF news_inv_empty]

text \<open>A batch that went through is settled, and comes out the same way from any larger store.\<close>

lemma collecting_again:
  assumes "news_store_ok (nl_casefold L) st" "collecting (ingest_one L g now ws) raws st = (st1, Inr ys)"
    and "news_store_ok (nl_casefold L) st2" "extends st1 st2"
  shows "\<exists>zs. collecting (ingest_one L g now ws) raws st2 = (st2, Inr zs) \<and>
    list_all2 (\<lambda>y z. case y of As_Rejected q \<Rightarrow> z = As_Rejected q | _ \<Rightarrow> \<exists>x. z = As_Duplicate x) ys zs"
  using assms
proof (induction raws arbitrary: st ys)
  case (Cons raw raws)
  from Cons.prems(2) obtain st0 y ys' where one: "ingest_one L g now ws raw st = (st0, Inr y)"
    and rest: "collecting (ingest_one L g now ws) raws st0 = (st1, Inr ys')" and ys: "ys = y # ys'"
    by (auto simp: act_iffs)
  have ok0: "news_store_ok (nl_casefold L) st0"
    using ingest_one_ok [OF Cons.prems(1), of g now ws raw] one by simp
  have "extends st0 (fst (collecting (ingest_one L g now ws) raws st0))"
    using collecting_keeps [of "\<lambda>st. news_store_ok (nl_casefold L) st \<and> extends st0 st" st0
        "ingest_one L g now ws" raws] ok0
    by (auto intro: ingest_one_ok ingest_one_extends extends_trans)
  then have up: "extends st0 st2" using rest Cons.prems(4) by (auto intro: extends_trans)
  from Cons.IH [OF ok0 rest Cons.prems(3,4)] obtain zs
    where zs: "collecting (ingest_one L g now ws) raws st2 = (st2, Inr zs)"
      "list_all2 (\<lambda>y z. case y of As_Rejected q \<Rightarrow> z = As_Rejected q | _ \<Rightarrow> \<exists>x. z = As_Duplicate x) ys' zs"
    by blast
  have "\<exists>z. ingest_one L g now ws raw st2 = (st2, Inr z) \<and>
      (case y of As_Rejected q \<Rightarrow> z = As_Rejected q | _ \<Rightarrow> \<exists>x. z = As_Duplicate x)"
  proof (cases "reject_reason L g now ws raw")
    case (Some reason)
    with one show ?thesis by (auto simp: ingest_one_def ret_def)
  next
    case None
    have "news_settled L g raw st0"
      using ingest_one_settles [OF Cons.prems(1) None, of y] one by simp
    from settled_again [OF Cons.prems(3) settled_extends [OF this up] None, of st y] one
    obtain z where "ingest_one L g now ws raw st2 = (st2, Inr (As_Duplicate z))" by auto
    moreover have "\<forall>q. y \<noteq> As_Rejected q"
      using one None by (cases rule: ingest_one_cases [OF Cons.prems(1), of g now ws raw]) auto
    ultimately show ?thesis by (cases y) auto
  qed
  with zs show ?case
    by (auto simp: ys bind_act_def ret_def list_all2_Cons1)
qed (simp add: ret_def)

lemma report_again:
  assumes "list_all2 (\<lambda>y z. case y of As_Rejected q \<Rightarrow> z = As_Rejected q | _ \<Rightarrow> \<exists>x. z = As_Duplicate x) ys zs"
  shows "ir_stored (report_of zs) = []" "ir_rejected (report_of zs) = ir_rejected (report_of ys)"
    "length (ir_duplicates (report_of zs)) = length (ir_stored (report_of ys)) + length (ir_duplicates (report_of ys))"
  using assms by (induction rule: list_all2_induct)
    (auto simp: report_of_def List.map_filter_simps split: ingested.splits)

lemma report_accounts:
  "length (ir_stored (report_of ys)) + length (ir_duplicates (report_of ys))
     + length (ir_rejected (report_of ys)) = length ys"
  by (induction ys) (auto simp: report_of_def List.map_filter_simps split: ingested.splits)

section \<open>Concrete values\<close>

text \<open>A library whose hash and addresses keep the text, one listed stock and two articles.\<close>

definition example_urls :: url_library where
  "example_urls = \<lparr>ul_split = (\<lambda>s. Inr \<lparr>ur_scheme = ''http'', ur_netloc = s, ur_hostname = Some s,
       ur_port = None, ur_path = ''/a'', ur_query = []\<rparr>),
     ul_unsplit = (\<lambda>(scheme, host, path, query, fragment). scheme @ ''://'' @ host @ path),
     ul_encode = (\<lambda>q. []), ul_lower = id\<rparr>"

definition example_library :: news_library where
  "example_library = \<lparr>nl_hash = (\<lambda>x. case x of Plain s \<Rightarrow> s | Dump v \<Rightarrow> []), nl_casefold = id,
     nl_urls = example_urls\<rparr>"

definition example_ingestor :: news_ingestor where
  "example_ingestor = news_ingestor_init [(''Acme'', ''KRX:1''), (''Acme Chem'', ''KRX:2'')] [''chips'']"

definition example_article :: "string \<Rightarrow> string \<Rightarrow> raw_news_item" where
  "example_article title host = \<lparr>rw_source_id = ''rss'', rw_source_type = RSS, rw_source_item_id = host,
     rw_publisher = ''P'', rw_title = title, rw_description = ''chips'', rw_original_url = host,
     rw_published_at = Some (Aware 50 0), rw_retrieved_at = Aware 60 0, rw_rights_scope = SUMMARY_ALLOWED,
     rw_body = []\<rparr>"

definition example_featured :: raw_news_item where
  "example_featured = example_article (''['' @ concat FEATURED @ ''] Acme Chem up'') ''x.kr''"

definition example_plain :: raw_news_item where
  "example_plain = example_article ''Acme Chem up'' ''y.kr''"

definition example_batch :: "raw_news_item list" where
  "example_batch = [example_featured, example_plain, example_featured]"

definition example_ingest :: "news_store \<times> ingestion_report result" where
  "example_ingest = ingest_news example_library example_ingestor (Aware 100 0) (Aware 0 0) example_batch empty_news_store"

lemma example_ingest_value:
  "map_sum id (\<lambda>r. (map nw_stock_ids (ir_stored r), length (ir_duplicates r), ir_rejected r)) (snd example_ingest)
     = Inr ([[''KRX:2'']], 1, [Rejected_News ''rss'' ''y.kr'' NOT_FEATURED_STOCK])
   \<and> dkeys (nx_items (fst example_ingest)) = [''news_https://x.kr/a'']"
  by code_simp

lemma example_ingest_Inr: "\<exists>st r. example_ingest = (st, Inr r) \<and> length (ir_duplicates r) = 1
    \<and> map nw_stock_ids (ir_stored r) = [[''KRX:2'']] \<and> dkeys (nx_items st) = [''news_https://x.kr/a'']"
proof (cases "snd example_ingest")
  case (Inr r)
  then have "example_ingest = (fst example_ingest, Inr r)" by (metis prod.collapse)
  moreover have "length (ir_duplicates r) = 1 \<and> map nw_stock_ids (ir_stored r) = [[''KRX:2'']]
      \<and> dkeys (nx_items (fst example_ingest)) = [''news_https://x.kr/a'']"
    using example_ingest_value unfolding Inr by simp
  ultimately have "example_ingest = (fst example_ingest, Inr r) \<and> length (ir_duplicates r) = 1
      \<and> map nw_stock_ids (ir_stored r) = [[''KRX:2'']]
      \<and> dkeys (nx_items (fst example_ingest)) = [''news_https://x.kr/a'']" by (rule conjI)
  then show ?thesis by (intro exI)
qed (use example_ingest_value in simp)

section \<open>Properties\<close>





text \<open>
  No raw item stops a batch: when the addresses \<open>urlunsplit\<close> builds are not blank, ingesting
  never raises, and each raw item is stored, a duplicate or rejected.
\<close>

theorem ingest_total:
  assumes "\<And>host path query. \<not> blank (ul_unsplit (nl_urls L) (''https'', host, path, query, []))"
  shows "\<exists>r. snd (ingest_news L g now ws raws (run (news_step L g) empty_news_store ops)) = Inr r
    \<and> length (ir_stored r) + length (ir_duplicates r) + length (ir_rejected r) = length raws"
proof -
  have normal: "\<exists>x. normalize_news L g raw = Inr x" if "reject_reason L g now ws raw = None" for raw
  proof -
    from that obtain url where "canonical_url (nl_urls L) (rw_original_url raw) = Inr url"
      by (auto simp: reject_reason_def split: if_splits sum.splits)
    moreover from this obtain host path query
      where "url = ul_unsplit (nl_urls L) (''https'', host, path, query, [])"
      unfolding canonical_url_def bind_result_Inr_iff Let_def by (metis Inl_Inr_False sum.inject(2))
    then have "\<not> blank url" using assms by simp
    ultimately show ?thesis
      by (simp add: normalize_news_def news_item_init_def news_id_of_def resolve_stocks_def Let_def
          blank_def ascii_space_def)
  qed
  have one: "\<exists>y. snd (ingest_one L g now ws raw st) = Inr y" if "news_store_ok (nl_casefold L) st" for raw st
    using that normal [of raw]
    by (cases rule: ingest_one_cases [where g = g and now = now and ws = ws and raw = raw]) auto
  have "\<exists>ys. snd (collecting (ingest_one L g now ws) raws st) = Inr ys \<and> length ys = length raws"
    if "news_store_ok (nl_casefold L) st" for st
    using that
  proof (induction raws arbitrary: st)
    case (Cons raw raws)
    obtain st0 y where y: "ingest_one L g now ws raw st = (st0, Inr y)"
      using one [OF Cons.prems, of raw] by (metis prod.collapse)
    then have "news_store_ok (nl_casefold L) st0" using ingest_one_ok [OF Cons.prems, of g now ws raw] by simp
    from Cons.IH [OF this] y show ?case
      by (auto simp: bind_act_def ret_def split: prod.splits sum.splits)
  qed (simp add: ret_def)
  from this [of "run (news_step L g) empty_news_store ops"] reachable_news [of L g ops] report_accounts
  show ?thesis
    by (auto simp: news_inv_def ingest_news_def bind_act_def ret_def split: prod.splits sum.splits)
qed

theorem ingest_total_witness:
  "\<exists>r. snd example_ingest = Inr r
     \<and> length (ir_stored r) + length (ir_duplicates r) + length (ir_rejected r) = 3"
proof -
  have "\<not> blank (ul_unsplit (nl_urls example_library) (''https'', host, path, query, []))" for host path query
    by (simp add: example_library_def example_urls_def blank_def ascii_space_def)
  from ingest_total [OF this, of example_ingestor "Aware 100 0" "Aware 0 0" example_batch "[]"]
  show ?thesis by (simp add: example_ingest_def example_batch_def numeral_3_eq_3)
qed

end
