(* ===== verification/News_Poller.thy ===== *)
theory News_Poller
  imports News_Store
begin

text \<open>
  The poller of the news sources, \<open>packages/news/sources.py\<close>.  Fetching is outside the program: a
  parameter gives, for a source and its cursor, the items or the message of the exception.  Each
  source is polled on its own, so a failing one only delays itself, by a delay that grows with its
  failures in a row.
\<close>

section \<open>The poller\<close>

record news_source =
  sc_source_id :: string
  sc_source_type :: news_source_type

type_synonym fetching = "string \<Rightarrow> news_cursor \<Rightarrow> string + raw_news_item list"

record source_poller =
  sl_sources :: "news_source list"
  sl_poll_interval :: timedelta
  sl_retry_backoff :: timedelta
  sl_failure_threshold :: int

definition default_poller :: "news_source list \<Rightarrow> source_poller" where
  "default_poller sources = \<lparr>sl_sources = sources, sl_poll_interval = 45 * 1000000,
     sl_retry_backoff = 60 * 1000000, sl_failure_threshold = 3\<rparr>"

definition poller_source_ids :: "source_poller \<Rightarrow> string list" where
  "poller_source_ids p = map sc_source_id (sl_sources p)"

datatype source_failure = Source_Failure string string source_status

record poll_result =
  pq_items :: "raw_news_item list"
  pq_cursors :: "news_cursor list"
  pq_failures :: "source_failure list"
  pq_skipped :: "string list"

definition degraded_source_ids :: "poll_result \<Rightarrow> string list" where
  "degraded_source_ids r = map su_source_id (filter cursor_degraded (pq_cursors r))"

definition initial_cursor :: "news_source \<Rightarrow> news_cursor" where
  "initial_cursor s = \<lparr>su_source_id = sc_source_id s, su_source_type = sc_source_type s,
     su_last_source_item_id = None, su_last_published_at = None, su_last_polled_at = None,
     su_next_poll_at = None, su_status = HEALTHY, su_last_error = None, su_consecutive_failures = 0\<rparr>"

definition poll_cursor_of :: "(string, news_cursor) dict \<Rightarrow> news_source \<Rightarrow> news_cursor" where
  "poll_cursor_of cursors s = (case dget cursors (sc_source_id s) of None \<Rightarrow> initial_cursor s | Some c \<Rightarrow> c)"

definition poll_due :: "datetime \<Rightarrow> news_cursor \<Rightarrow> bool" where
  "poll_due now c \<longleftrightarrow> \<not> pred_option (\<lambda>t. instant now < instant t) (su_next_poll_at c)
     \<or> su_next_poll_at c = None"

definition failed_cursor :: "source_poller \<Rightarrow> datetime \<Rightarrow> string \<Rightarrow> news_cursor \<Rightarrow> news_cursor" where
  "failed_cursor p now message c =
     (let n = Suc (su_consecutive_failures c)
      in c\<lparr>su_last_polled_at := Some now, su_next_poll_at := Some (shift now (sl_retry_backoff p * int n)),
           su_status := (if sl_failure_threshold p \<le> int n then FAILED else RETRYING),
           su_last_error := Some message, su_consecutive_failures := n\<rparr>)"

text \<open>\<open>max\<close> of the publication times keeps the first of equal ones.\<close>

definition polled_cursor :: "source_poller \<Rightarrow> datetime \<Rightarrow> raw_news_item list \<Rightarrow> news_cursor \<Rightarrow> news_cursor" where
  "polled_cursor p now fetched c =
     c\<lparr>su_last_source_item_id := (if fetched = [] then su_last_source_item_id c
           else Some (rw_source_item_id (last fetched))),
       su_last_published_at := (case List.map_filter rw_published_at fetched of
           [] \<Rightarrow> su_last_published_at c | t # ts \<Rightarrow> Some (foldl later t ts)),
       su_last_polled_at := Some now, su_next_poll_at := Some (shift now (sl_poll_interval p)),
       su_status := HEALTHY, su_last_error := None, su_consecutive_failures := 0\<rparr>"

definition poll_source ::
  "source_poller \<Rightarrow> fetching \<Rightarrow> (string, news_cursor) dict \<Rightarrow> datetime \<Rightarrow> poll_result \<Rightarrow> news_source \<Rightarrow> poll_result" where
  "poll_source p fetch cursors now r s =
     (let c = poll_cursor_of cursors s
      in if \<not> poll_due now c
         then r\<lparr>pq_skipped := pq_skipped r @ [sc_source_id s], pq_cursors := pq_cursors r @ [c]\<rparr>
         else (case fetch (sc_source_id s) c of
             Inl message \<Rightarrow>
               r\<lparr>pq_failures := pq_failures r @ [Source_Failure (sc_source_id s) message
                     (su_status (failed_cursor p now message c))],
                 pq_cursors := pq_cursors r @ [failed_cursor p now message c]\<rparr>
           | Inr fetched \<Rightarrow>
               r\<lparr>pq_items := pq_items r @ fetched, pq_cursors := pq_cursors r @ [polled_cursor p now fetched c]\<rparr>))"

definition poll :: "source_poller \<Rightarrow> fetching \<Rightarrow> (string, news_cursor) dict \<Rightarrow> datetime \<Rightarrow> poll_result" where
  "poll p fetch cursors now = foldl (poll_source p fetch cursors now)
     \<lparr>pq_items = [], pq_cursors = [], pq_failures = [], pq_skipped = []\<rparr> (sl_sources p)"

section \<open>Each source on its own\<close>

text \<open>What one poll means for one source.\<close>

definition next_cursor :: "source_poller \<Rightarrow> fetching \<Rightarrow> datetime \<Rightarrow> string \<Rightarrow> news_cursor \<Rightarrow> news_cursor" where
  "next_cursor p fetch now i c =
     (if \<not> poll_due now c then c
      else case fetch i c of Inl message \<Rightarrow> failed_cursor p now message c
        | Inr fetched \<Rightarrow> polled_cursor p now fetched c)"

definition items_of :: "fetching \<Rightarrow> datetime \<Rightarrow> string \<Rightarrow> news_cursor \<Rightarrow> raw_news_item list" where
  "items_of fetch now i c =
     (if \<not> poll_due now c then [] else case fetch i c of Inl message \<Rightarrow> [] | Inr fetched \<Rightarrow> fetched)"

lemma poll_foldl:
  "pq_cursors (foldl (poll_source p fetch cursors now) r ss)
     = pq_cursors r @ map (\<lambda>s. next_cursor p fetch now (sc_source_id s) (poll_cursor_of cursors s)) ss
   \<and> pq_items (foldl (poll_source p fetch cursors now) r ss)
     = pq_items r @ concat (map (\<lambda>s. items_of fetch now (sc_source_id s) (poll_cursor_of cursors s)) ss)"
  by (induction ss arbitrary: r)
    (auto simp: poll_source_def next_cursor_def items_of_def Let_def split: sum.splits)

lemma su_source_id_updates [simp]:
  "su_source_id (failed_cursor p now message c) = su_source_id c"
  "su_source_id (polled_cursor p now fetched c) = su_source_id c"
  by (simp_all add: failed_cursor_def polled_cursor_def Let_def)

lemma su_source_id_next_cursor [simp]: "su_source_id (next_cursor p fetch now i c) = su_source_id c"
  by (simp add: next_cursor_def split: sum.split)

lemma pq_cursors_poll:
  "pq_cursors (poll p fetch cursors now)
     = map (\<lambda>s. next_cursor p fetch now (sc_source_id s) (poll_cursor_of cursors s)) (sl_sources p)"
  by (simp add: poll_def poll_foldl)

section \<open>Polling again and again\<close>

text \<open>A round polls and stores the cursors, as the collector does.\<close>

definition poll_round ::
  "source_poller \<Rightarrow> (string, news_cursor) dict \<Rightarrow> datetime \<times> fetching \<Rightarrow> (string, news_cursor) dict" where
  "poll_round p cursors = (\<lambda>(now, fetch).
     foldl (\<lambda>d c. dset (su_source_id c) c d) cursors (pq_cursors (poll p fetch cursors now)))"

definition own_rounds ::
  "source_poller \<Rightarrow> string \<Rightarrow> news_cursor \<Rightarrow> (datetime \<times> fetching) list \<Rightarrow> news_cursor" where
  "own_rounds p i = foldl (\<lambda>c (now, fetch). next_cursor p fetch now i c)"

definition cursors_keyed :: "(string, news_cursor) dict \<Rightarrow> bool" where
  "cursors_keyed d \<longleftrightarrow> (\<forall>i c. dget d i = Some c \<longrightarrow> su_source_id c = i)"

lemma cursors_keyed_dset: "cursors_keyed d \<Longrightarrow> cursors_keyed (dset (su_source_id c) c d)"
  by (simp add: cursors_keyed_def)

lemma su_source_id_cursor_of: "cursors_keyed d \<Longrightarrow> su_source_id (poll_cursor_of d s) = sc_source_id s"
  by (auto simp: poll_cursor_of_def cursors_keyed_def initial_cursor_def split: option.split)

lemma dget_dset_cursors:
  assumes "distinct (map su_source_id cs)" "c \<in> set cs"
  shows "dget (foldl (\<lambda>d c. dset (su_source_id c) c d) d cs) (su_source_id c) = Some c"
  using assms
proof (induction cs rule: rev_induct)
  case (snoc x cs)
  then show ?case by (cases "c = x") (auto simp: image_iff)
qed simp

lemma keyed_dset_cursors: "cursors_keyed d \<Longrightarrow> cursors_keyed (foldl (\<lambda>d c. dset (su_source_id c) c d) d cs)"
  by (induction cs arbitrary: d) (simp_all add: cursors_keyed_dset)

lemma poll_round_keyed: "cursors_keyed d \<Longrightarrow> cursors_keyed (poll_round p d r)"
  by (cases r) (simp add: poll_round_def keyed_dset_cursors)

lemma cursor_of_poll_round:
  assumes "distinct (poller_source_ids p)" "s \<in> set (sl_sources p)" "cursors_keyed d"
  shows "poll_cursor_of (poll_round p d (now, fetch)) s = next_cursor p fetch now (sc_source_id s) (poll_cursor_of d s)"
proof -
  let ?cs = "pq_cursors (poll p fetch d now)" and ?c = "next_cursor p fetch now (sc_source_id s) (poll_cursor_of d s)"
  have "map su_source_id ?cs = poller_source_ids p"
    using assms(3) by (simp add: pq_cursors_poll poller_source_ids_def su_source_id_cursor_of)
  then have "distinct (map su_source_id ?cs)" using assms(1) by simp
  moreover have "?c \<in> set ?cs" using assms(2) by (auto simp: pq_cursors_poll)
  ultimately have "dget (poll_round p d (now, fetch)) (su_source_id ?c) = Some ?c"
    unfolding poll_round_def prod.case by (rule dget_dset_cursors)
  then show ?thesis using assms(3) by (simp add: poll_cursor_of_def [of "poll_round p d (now, fetch)"] su_source_id_cursor_of)
qed

lemma cursor_of_rounds:
  assumes "distinct (poller_source_ids p)" "s \<in> set (sl_sources p)" "cursors_keyed d"
  shows "poll_cursor_of (foldl (poll_round p) d rounds) s = own_rounds p (sc_source_id s) (poll_cursor_of d s) rounds"
  using assms(3)
proof (induction rounds arbitrary: d)
  case (Cons r rounds)
  obtain now fetch where r: "r = (now, fetch)" by (cases r)
  from Cons.IH [OF poll_round_keyed [OF Cons.prems, of p r]] show ?case
    by (simp add: r own_rounds_def cursor_of_poll_round [OF assms(1,2) Cons.prems])
qed (simp add: own_rounds_def)

text \<open>What the cursor of a source always says about its last polls.\<close>

definition poll_delay :: "source_poller \<Rightarrow> nat \<Rightarrow> timedelta" where
  "poll_delay p n = (if n = 0 then sl_poll_interval p else sl_retry_backoff p * int n)"

definition cursor_consistent :: "source_poller \<Rightarrow> news_cursor \<Rightarrow> bool" where
  "cursor_consistent p c \<longleftrightarrow>
     su_next_poll_at c = map_option (\<lambda>t. shift t (poll_delay p (su_consecutive_failures c))) (su_last_polled_at c)
   \<and> su_status c = (if su_consecutive_failures c = 0 then HEALTHY
        else if sl_failure_threshold p \<le> int (su_consecutive_failures c) then FAILED else RETRYING)
   \<and> (su_last_error c = None \<longleftrightarrow> su_consecutive_failures c = 0)
   \<and> (su_last_polled_at c = None \<longrightarrow> su_consecutive_failures c = 0)"

lemma next_cursor_consistent:
  "cursor_consistent p c \<Longrightarrow> cursor_consistent p (next_cursor p fetch now i c)"
  by (cases "poll_due now c"; cases "fetch i c")
    (simp_all add: cursor_consistent_def next_cursor_def failed_cursor_def polled_cursor_def poll_delay_def Let_def)

lemma own_rounds_consistent:
  "cursor_consistent p c \<Longrightarrow> cursor_consistent p (own_rounds p i c rounds)"
  by (induction rounds arbitrary: c) (auto simp: own_rounds_def next_cursor_consistent)

lemma initial_cursor_consistent: "cursor_consistent p (initial_cursor s)"
  by (simp add: cursor_consistent_def initial_cursor_def)

section \<open>Properties\<close>

text \<open>
  C37. One failing source never stops the others: after any rounds of polling, the cursor of a source
  is the one it would have had if it were the only source, and a poll collects from each source what
  that source alone gives.
\<close>

theorem poll_isolated:
  assumes "distinct (poller_source_ids p)" "s \<in> set (sl_sources p)"
  shows "poll_cursor_of (foldl (poll_round p) [] rounds) s
      = own_rounds p (sc_source_id s) (initial_cursor s) rounds
    \<and> pq_items (poll p fetch cursors now)
      = concat (map (\<lambda>s. items_of fetch now (sc_source_id s) (poll_cursor_of cursors s)) (sl_sources p))"
  using cursor_of_rounds [OF assms, of "[]" rounds]
  by (simp_all add: cursors_keyed_def poll_cursor_of_def poll_def poll_foldl)

text \<open>
  A source that failed \<open>n\<close> times in a row is fetched again only after \<open>n\<close> times the back-off,
  a healthy one after the interval; its state says \<open>FAILED\<close> from the threshold on.
\<close>

theorem poll_backoff:
  assumes "distinct (poller_source_ids p)" "s \<in> set (sl_sources p)"
    and "su_last_polled_at (poll_cursor_of (foldl (poll_round p) [] rounds) s) = Some t"
  shows "(poll_due now (poll_cursor_of (foldl (poll_round p) [] rounds) s) \<longleftrightarrow>
      instant t + (case su_consecutive_failures (poll_cursor_of (foldl (poll_round p) [] rounds) s) of
          0 \<Rightarrow> sl_poll_interval p | Suc n \<Rightarrow> sl_retry_backoff p * int (Suc n)) \<le> instant now)
    \<and> (cursor_degraded (poll_cursor_of (foldl (poll_round p) [] rounds) s) \<longleftrightarrow>
         0 < su_consecutive_failures (poll_cursor_of (foldl (poll_round p) [] rounds) s))"
proof -
  have "cursor_consistent p (poll_cursor_of (foldl (poll_round p) [] rounds) s)"
    using cursor_of_rounds [OF assms(1,2), of "[]" rounds] own_rounds_consistent [OF initial_cursor_consistent]
    by (simp add: cursors_keyed_def poll_cursor_of_def)
  with assms(3) show ?thesis
    by (auto simp: cursor_consistent_def poll_due_def poll_delay_def cursor_degraded_def split: nat.splits if_splits)
qed

definition example_poller :: source_poller where
  "example_poller = default_poller [\<lparr>sc_source_id = ''a'', sc_source_type = RSS\<rparr>,
     \<lparr>sc_source_id = ''b'', sc_source_type = RSS\<rparr>]"

text \<open>Source a fails twice, source b answers with nothing.\<close>

definition example_rounds :: "(datetime \<times> fetching) list" where
  "example_rounds = (let f = (\<lambda>i c. if i = ''a'' then Inl ''down'' else Inr [])
     in [(Aware 0 0, f), (Aware 60000000 0, f)])"

definition example_source :: news_source where
  "example_source = \<lparr>sc_source_id = ''a'', sc_source_type = RSS\<rparr>"

lemma example_cursor:
  "su_consecutive_failures (poll_cursor_of (foldl (poll_round example_poller) [] example_rounds) example_source) = 2
   \<and> su_last_polled_at (poll_cursor_of (foldl (poll_round example_poller) [] example_rounds) example_source)
     = Some (Aware 60000000 0)"
  by code_simp

lemma example_poller_values:
  "sl_poll_interval example_poller = 45000000" "sl_retry_backoff example_poller = 60000000"
  by (simp_all add: example_poller_def default_poller_def)

lemma example_poller_sources:
  "distinct (poller_source_ids example_poller)" "example_source \<in> set (sl_sources example_poller)"
  by (simp_all add: example_poller_def poller_source_ids_def default_poller_def example_source_def)

theorem poll_isolated_witness:
  "poll_cursor_of (foldl (poll_round example_poller) [] example_rounds) example_source
     = own_rounds example_poller ''a'' (initial_cursor example_source) example_rounds"
  using poll_isolated [OF example_poller_sources, of example_rounds] by (simp add: example_source_def)

theorem poll_backoff_witness:
  "\<not> poll_due (Aware 179999999 0) (poll_cursor_of (foldl (poll_round example_poller) [] example_rounds) example_source)
   \<and> poll_due (Aware 180000000 0) (poll_cursor_of (foldl (poll_round example_poller) [] example_rounds) example_source)"
  using poll_backoff [OF example_poller_sources conjunct2 [OF example_cursor], of "Aware 179999999 0"]
    poll_backoff [OF example_poller_sources conjunct2 [OF example_cursor], of "Aware 180000000 0"]
  by (simp add: example_cursor example_poller_values)

end
