(* ===== verification/Catalyst_Scores.thy ===== *)
theory Catalyst_Scores
  imports Public_Views
begin

text \<open>
  The scores of the matching of news and Events, \<open>packages/catalyst/matching.py\<close>, in doubles: every
  sum is rounded to the nearest one, so which signals reach the threshold is a matter of the exact
  values.
\<close>

section \<open>Weights and sums\<close>

definition THEME_WEIGHT :: rat where "THEME_WEIGHT = to_double (35 / 100)"
definition LEADER_WEIGHT :: rat where "LEADER_WEIGHT = to_double (30 / 100)"
definition RELATED_WEIGHT :: rat where "RELATED_WEIGHT = to_double (15 / 100)"
definition TIME_WEIGHT :: rat where "TIME_WEIGHT = to_double (20 / 100)"
definition BREADTH_WEIGHT :: rat where "BREADTH_WEIGHT = to_double (10 / 100)"
definition ENTITY_WEIGHT :: rat where "ENTITY_WEIGHT = to_double (5 / 100)"
definition RELEVANCE_THRESHOLD :: rat where "RELEVANCE_THRESHOLD = to_double (35 / 100)"

definition float_add :: "rat \<Rightarrow> rat \<Rightarrow> rat" where
  "float_add x y = to_double (x + y)"

text \<open>\<open>round(x, 4)\<close> of a double: the nearest multiple of 1/10000, as a double.\<close>

definition round4 :: "rat \<Rightarrow> rat" where
  "round4 x = to_double (of_int (round_half_even (x * 10000)) / 10000)"

text \<open>The score from the signals: theme, leader, any stock, time, then breadth and entity.\<close>

definition rule_score_of :: "bool \<Rightarrow> bool \<Rightarrow> bool \<Rightarrow> bool \<Rightarrow> rat" where
  "rule_score_of theme leader stock time =
     (let score = 0;
          score = (if theme then float_add score THEME_WEIGHT else score);
          score = (if leader then float_add score LEADER_WEIGHT
            else if stock then float_add score RELATED_WEIGHT else score)
      in if time then float_add score TIME_WEIGHT else score)"

definition relevance_of :: "rat \<Rightarrow> bool \<Rightarrow> bool \<Rightarrow> rat" where
  "relevance_of rule_score breadth entity =
     (let score = (if breadth then float_add rule_score BREADTH_WEIGHT else rule_score);
          score = (if entity then float_add score ENTITY_WEIGHT else score)
      in min score 1)"

section \<open>Which signals reach the threshold\<close>

text \<open>The signals that reach the default threshold, one of them a stock or the time.\<close>

definition signals_suffice :: "bool \<Rightarrow> bool \<Rightarrow> bool \<Rightarrow> bool \<Rightarrow> bool \<Rightarrow> bool \<Rightarrow> bool" where
  "signals_suffice theme leader stock time breadth entity \<longleftrightarrow>
     theme \<and> (stock \<or> time) \<or> leader \<and> (time \<or> breadth \<or> entity) \<or> stock \<and> time"

text \<open>The doubles of the weights and of every sum the scores go through.\<close>

lemma weight_doubles:
  "THEME_WEIGHT = 3152519739159347 / 9007199254740992"
  "LEADER_WEIGHT = 5404319552844595 / 18014398509481984"
  "RELATED_WEIGHT = 5404319552844595 / 36028797018963968"
  "TIME_WEIGHT = 3602879701896397 / 18014398509481984"
  "BREADTH_WEIGHT = 3602879701896397 / 36028797018963968"
  "ENTITY_WEIGHT = 3602879701896397 / 72057594037927936"
  "RELEVANCE_THRESHOLD = 3152519739159347 / 9007199254740992"
  by code_simp+

lemma float_sums_1:
  "float_add (0) (3602879701896397 / 72057594037927936) = 3602879701896397 / 72057594037927936"
  "float_add (0) (3602879701896397 / 18014398509481984) = 3602879701896397 / 18014398509481984"
  "float_add (3602879701896397 / 18014398509481984) (3602879701896397 / 72057594037927936) = 1 / 4"
  "float_add (0) (5404319552844595 / 36028797018963968) = 5404319552844595 / 36028797018963968"
  "float_add (5404319552844595 / 36028797018963968) (3602879701896397 / 72057594037927936) = 3602879701896397 / 18014398509481984"
  by code_simp+

lemma float_sums_2:
  "float_add (5404319552844595 / 36028797018963968) (3602879701896397 / 36028797018963968) = 1 / 4"
  "float_add (1 / 4) (3602879701896397 / 72057594037927936) = 5404319552844595 / 18014398509481984"
  "float_add (5404319552844595 / 36028797018963968) (3602879701896397 / 18014398509481984) = 3152519739159347 / 9007199254740992"
  "float_add (3152519739159347 / 9007199254740992) (3602879701896397 / 72057594037927936) = 7205759403792793 / 18014398509481984"
  "float_add (3152519739159347 / 9007199254740992) (3602879701896397 / 36028797018963968) = 2026619832316723 / 4503599627370496"
  "float_add (2026619832316723 / 4503599627370496) (3602879701896397 / 72057594037927936) = 9007199254740991 / 18014398509481984"
  by code_simp+

lemma float_sums_3:
  "float_add (0) (5404319552844595 / 18014398509481984) = 5404319552844595 / 18014398509481984"
  "float_add (5404319552844595 / 18014398509481984) (3602879701896397 / 72057594037927936) = 3152519739159347 / 9007199254740992"
  "float_add (5404319552844595 / 18014398509481984) (3602879701896397 / 36028797018963968) = 3602879701896397 / 9007199254740992"
  "float_add (3602879701896397 / 9007199254740992) (3602879701896397 / 72057594037927936) = 8106479329266893 / 18014398509481984"
  "float_add (5404319552844595 / 18014398509481984) (3602879701896397 / 18014398509481984) = 1 / 2"
  "float_add (1 / 2) (3602879701896397 / 72057594037927936) = 2476979795053773 / 4503599627370496"
  by code_simp+

lemma float_sums_4:
  "float_add (1 / 2) (3602879701896397 / 36028797018963968) = 5404319552844595 / 9007199254740992"
  "float_add (5404319552844595 / 9007199254740992) (3602879701896397 / 72057594037927936) = 5854679515581645 / 9007199254740992"
  "float_add (0) (3152519739159347 / 9007199254740992) = 3152519739159347 / 9007199254740992"
  "float_add (3152519739159347 / 9007199254740992) (3602879701896397 / 18014398509481984) = 2476979795053773 / 4503599627370496"
  "float_add (2476979795053773 / 4503599627370496) (3602879701896397 / 72057594037927936) = 1351079888211149 / 2251799813685248"
  "float_add (3152519739159347 / 9007199254740992) (5404319552844595 / 36028797018963968) = 1 / 2"
  by code_simp+

lemma float_sums_5:
  "float_add (1 / 2) (3602879701896397 / 18014398509481984) = 3152519739159347 / 4503599627370496"
  "float_add (3152519739159347 / 4503599627370496) (3602879701896397 / 72057594037927936) = 3 / 4"
  "float_add (3152519739159347 / 4503599627370496) (3602879701896397 / 36028797018963968) = 7205759403792793 / 9007199254740992"
  "float_add (7205759403792793 / 9007199254740992) (3602879701896397 / 72057594037927936) = 7656119366529843 / 9007199254740992"
  "float_add (3152519739159347 / 9007199254740992) (5404319552844595 / 18014398509481984) = 1463669878895411 / 2251799813685248"
  "float_add (1463669878895411 / 2251799813685248) (3602879701896397 / 72057594037927936) = 3152519739159347 / 4503599627370496"
  by code_simp+

lemma float_sums_6:
  "float_add (1463669878895411 / 2251799813685248) (3602879701896397 / 36028797018963968) = 6755399441055743 / 9007199254740992"
  "float_add (6755399441055743 / 9007199254740992) (3602879701896397 / 72057594037927936) = 7205759403792793 / 9007199254740992"
  "float_add (1463669878895411 / 2251799813685248) (3602879701896397 / 18014398509481984) = 3828059683264921 / 4503599627370496"
  "float_add (3828059683264921 / 4503599627370496) (3602879701896397 / 72057594037927936) = 2026619832316723 / 2251799813685248"
  "float_add (3828059683264921 / 4503599627370496) (3602879701896397 / 36028797018963968) = 8556839292003941 / 9007199254740992"
  "float_add (8556839292003941 / 9007199254740992) (3602879701896397 / 72057594037927936) = 9007199254740991 / 9007199254740992"
  by code_simp+

lemmas float_sums = float_sums_1 float_sums_2 float_sums_3 float_sums_4 float_sums_5 float_sums_6

lemma relevance_table:
  assumes "leader \<longrightarrow> stock" "breadth \<longrightarrow> stock"
  shows "(RELEVANCE_THRESHOLD \<le> relevance_of (rule_score_of theme leader stock time) breadth entity \<and> (stock \<or> time))
    \<longleftrightarrow> signals_suffice theme leader stock time breadth entity"
  using assms
  by (cases theme; cases leader; cases stock; cases time; cases breadth; cases entity)
    (simp_all add: relevance_of_def rule_score_of_def signals_suffice_def weight_doubles float_sums)

end
