(* ===== verification/Catalyst_Matching.thy ===== *)
theory Catalyst_Matching
  imports Catalyst_Scores Catalyst_Models News_Store
begin

text \<open>
  The matching of news with the active Events in both directions, \<open>packages/catalyst/matching.py\<close>.
  The scores are in \<open>Catalyst_Scores\<close>.
\<close>

section \<open>Signals\<close>

definition DEFAULT_LOOKBACK :: timedelta where "DEFAULT_LOOKBACK = 60 * 60 * 1000000"

record match_config =
  mf_lookback :: timedelta
  mf_threshold :: rat

definition default_match_config :: match_config where
  "default_match_config = \<lparr>mf_lookback = DEFAULT_LOOKBACK, mf_threshold = RELEVANCE_THRESHOLD\<rparr>"

definition theme_hit :: "(string \<Rightarrow> string) \<Rightarrow> news_item \<Rightarrow> theme_context \<Rightarrow> bool" where
  "theme_hit casefold x c \<longleftrightarrow>
     (\<exists>k\<in>set (theme_keywords c). k \<noteq> [] \<and> occurs (casefold k) (casefold (haystack_of x)))"

definition matched_stocks :: "news_item \<Rightarrow> theme_context \<Rightarrow> string list" where
  "matched_stocks x c = filter (\<lambda>s. s \<in> set (nw_stock_ids x)) (context_stock_ids c)"

definition leader_hit :: "news_item \<Rightarrow> theme_context \<Rightarrow> bool" where
  "leader_hit x c \<longleftrightarrow> (\<exists>s\<in>set (matched_stocks x c). s \<in> set (tx_leader_stock_ids c))"

definition time_hit :: "timedelta \<Rightarrow> news_item \<Rightarrow> theme_context \<Rightarrow> datetime \<Rightarrow> bool" where
  "time_hit lookback x c decision_at = (case nw_published_at x of None \<Rightarrow> False
     | Some t \<Rightarrow> min (instant (tx_activated_at c) - lookback) (instant decision_at) \<le> instant t
         \<and> instant t \<le> instant decision_at)"

definition entity_hit :: "news_item \<Rightarrow> theme_context \<Rightarrow> bool" where
  "entity_hit x c \<longleftrightarrow> (\<exists>e\<in>set (nw_entities x). e \<in> set (tx_entities c))"

definition match_score ::
  "(string \<Rightarrow> string) \<Rightarrow> news_item \<Rightarrow> theme_context \<Rightarrow> datetime \<Rightarrow> match_config \<Rightarrow>
   rat \<times> rat \<times> string list \<times> match_basis list" where
  "match_score casefold x c decision_at config =
     (let stocks = matched_stocks x c; theme = theme_hit casefold x c;
          time = time_hit (mf_lookback config) x c decision_at;
          rule_score = rule_score_of theme (leader_hit x c) (stocks \<noteq> []) time
      in (rule_score, relevance_of rule_score (2 \<le> length stocks) (entity_hit x c), stocks,
          (if theme then [MATCH_THEME] else []) @ (if stocks \<noteq> [] then [MATCH_STOCK] else [])
            @ (if time then [MATCH_TIME] else [])))"

section \<open>Matches\<close>

datatype match_trigger = THEME_TO_NEWS | NEWS_TO_EVENT

record news_theme_match =
  nm_news_id :: string
  nm_event_id :: string
  nm_theme_id :: string
  nm_matched_stock_ids :: "string list"
  nm_match_basis :: "match_basis list"
  nm_trigger :: match_trigger
  nm_rule_score :: rat
  nm_relevance_score :: rat
  nm_matched_at :: datetime

definition news_theme_match_init :: "news_theme_match \<Rightarrow> news_theme_match result" where
  "news_theme_match_init m = validate [(nm_match_basis m \<noteq> [], ValueError ''match_basis'')] m"

definition evaluate_match ::
  "(string \<Rightarrow> string) \<Rightarrow> news_item \<Rightarrow> theme_context \<Rightarrow> datetime \<Rightarrow> match_trigger \<Rightarrow> match_config \<Rightarrow>
   news_theme_match option result" where
  "evaluate_match casefold x c decision_at trigger config =
     (if pred_option (\<lambda>t. instant t \<le> instant decision_at) (nw_published_at x)
      then case match_score casefold x c decision_at config of (rule_score, relevance, stocks, basis) \<Rightarrow>
        if relevance < mf_threshold config \<or> basis = [] then Inr None
        else if MATCH_STOCK \<notin> set basis \<and> MATCH_TIME \<notin> set basis then Inr None
        else map_sum id Some (news_theme_match_init
          \<lparr>nm_news_id = nw_news_id x, nm_event_id = tx_event_id c, nm_theme_id = tx_theme_id c,
           nm_matched_stock_ids = stocks, nm_match_basis = basis, nm_trigger = trigger,
           nm_rule_score = round4 rule_score, nm_relevance_score = round4 relevance,
           nm_matched_at = decision_at\<rparr>)
      else Inr None)"

definition match_theme_to_news ::
  "(string \<Rightarrow> string) \<Rightarrow> theme_context \<Rightarrow> news_item list \<Rightarrow> datetime \<Rightarrow> match_config \<Rightarrow> news_theme_match list result" where
  "match_theme_to_news casefold c candidates decision_at config =
     map_sum id (\<lambda>ms. sort_key (\<lambda>m. (- nm_relevance_score m, nm_news_id m)) (List.map_filter id ms))
       (map_result (\<lambda>x. evaluate_match casefold x c decision_at THEME_TO_NEWS config) candidates)"

definition match_news_to_events ::
  "(string \<Rightarrow> string) \<Rightarrow> news_item \<Rightarrow> theme_context list \<Rightarrow> datetime \<Rightarrow> match_config \<Rightarrow> news_theme_match list result" where
  "match_news_to_events casefold x contexts decision_at config =
     map_sum id (\<lambda>ms. sort_key (\<lambda>m. (- nm_relevance_score m, nm_event_id m)) (List.map_filter id ms))
       (map_result (\<lambda>c. evaluate_match casefold x c decision_at NEWS_TO_EVENT config) contexts)"

section \<open>What matches\<close>

lemma matched_stocks_leader: "leader_hit x c \<Longrightarrow> matched_stocks x c \<noteq> []"
  by (auto simp: leader_hit_def)

text \<open>A match is never built without a basis, so evaluating never raises.\<close>

lemma evaluate_match_total: "\<exists>m. evaluate_match casefold x c t trigger config = Inr m"
  by (auto simp: evaluate_match_def news_theme_match_init_def split: prod.splits)

lemma evaluate_match_Some:
  "evaluate_match casefold x c t trigger config = Inr (Some m) \<Longrightarrow>
     nm_news_id m = nw_news_id x \<and> nm_event_id m = tx_event_id c \<and> nm_matched_at m = t
     \<and> nm_matched_stock_ids m = matched_stocks x c
     \<and> pred_option (\<lambda>p. instant p \<le> instant t) (nw_published_at x)"
  by (auto simp: evaluate_match_def news_theme_match_init_def match_score_def Let_def split: prod.splits if_splits)

text \<open>Both directions match the same pairs with the same scores.\<close>

lemma directions_agree:
  "evaluate_match casefold x c t NEWS_TO_EVENT config
   = map_sum id (map_option (\<lambda>m. m\<lparr>nm_trigger := NEWS_TO_EVENT\<rparr>)) (evaluate_match casefold x c t THEME_TO_NEWS config)"
  by (simp add: evaluate_match_def news_theme_match_init_def split: prod.split)

lemma set_map_filter_id: "set (List.map_filter id ys) = {m. Some m \<in> set ys}"
  by (induction ys) (auto simp: List.map_filter_simps split: option.splits)

lemma set_match_theme_to_news:
  assumes "match_theme_to_news casefold c xs t config = Inr ms"
  shows "set ms = {m. \<exists>x\<in>set xs. evaluate_match casefold x c t THEME_TO_NEWS config = Inr (Some m)}"
proof -
  from assms obtain ys where ys: "list_all2 (\<lambda>x y. evaluate_match casefold x c t THEME_TO_NEWS config = Inr y) xs ys"
    and "ms = sort_key (\<lambda>m. (- nm_relevance_score m, nm_news_id m)) (List.map_filter id ys)"
    by (cases "map_result (\<lambda>x. evaluate_match casefold x c t THEME_TO_NEWS config) xs")
      (auto simp: match_theme_to_news_def map_result_Inr_list_all2)
  moreover from ys have "{m. Some m \<in> set ys}
      = {m. \<exists>x\<in>set xs. evaluate_match casefold x c t THEME_TO_NEWS config = Inr (Some m)}"
    by (induction rule: list_all2_induct) auto
  ultimately show ?thesis by (simp add: set_map_filter_id)
qed

lemma match_theme_to_news_total: "\<exists>ms. match_theme_to_news casefold c xs t config = Inr ms"
proof -
  have "\<exists>ys. map_result (\<lambda>x. evaluate_match casefold x c t THEME_TO_NEWS config) xs = Inr ys"
    using evaluate_match_total [of casefold _ c t THEME_TO_NEWS config]
    by (induction xs) (auto simp: bind_result_Inr_iff)
  then show ?thesis by (auto simp: match_theme_to_news_def)
qed

section \<open>Properties\<close>

text \<open>
  C33. With the default configuration, an article that was not published after the decision matches an
  Event exactly when a stock or the time window supports it together with a second signal: the words of
  the theme with a stock or the time, a leading stock with the time, a second stock or an entity, or any
  stock with the time.  Words of the theme alone never match, and a later article never does.
\<close>

theorem match_decision:
  "(\<exists>m. evaluate_match casefold x c t trigger default_match_config = Inr (Some m)) \<longleftrightarrow>
   (case nw_published_at x of None \<Rightarrow> True | Some p \<Rightarrow> instant p \<le> instant t)
   \<and> signals_suffice (theme_hit casefold x c) (leader_hit x c) (matched_stocks x c \<noteq> [])
       (time_hit DEFAULT_LOOKBACK x c t) (2 \<le> length (matched_stocks x c)) (entity_hit x c)"
proof -
  have "leader_hit x c \<longrightarrow> matched_stocks x c \<noteq> []" "2 \<le> length (matched_stocks x c) \<longrightarrow> matched_stocks x c \<noteq> []"
    by (auto simp: matched_stocks_leader)
  from relevance_table [OF this, of "theme_hit casefold x c" "time_hit DEFAULT_LOOKBACK x c t" "entity_hit x c", symmetric]
  show ?thesis
    by (auto simp: evaluate_match_def match_score_def default_match_config_def news_theme_match_init_def Let_def
        not_le split: option.splits)
qed

end
