(* ===== verification/Catalyst_Policy.thy ===== *)
theory Catalyst_Policy
  imports Catalyst_Models Actions
begin

text \<open>
  The decision on the evidence of an Event, its append-only history and the gate of the
  supplemental search: \<open>packages/catalyst/policy.py\<close>, \<open>revisions.py\<close> and \<open>supplemental.py\<close>.  A
  revision is only ever recorded for what the evidence at hand supports, and a confirmed Event never
  goes back to searching.
\<close>

section \<open>Decisions\<close>

definition CATALYST_POLICY_VERSION :: string where
  "CATALYST_POLICY_VERSION = ''catalyst-policy-2026.08.1''"

definition NO_NEW_CATALYST_AFTER :: timedelta where
  "NO_NEW_CATALYST_AFTER = 20 * 60 * 1000000"

fun strength :: "evidence_status \<Rightarrow> nat" where
  "strength SEARCHING = 0"
| "strength NO_NEW_CATALYST = 0"
| "strength SINGLE_SOURCE = 1"
| "strength REEMERGENCE = 1"
| "strength MULTI_SOURCE_CONFIRMED = 2"
| "strength AFTER_CLOSE_CONFIRMED = 3"

record evidence_decision =
  ed_evidence_status :: evidence_status
  ed_summary :: "string option"
  ed_news_ids :: "string list"
  ed_catalyst_key :: "string option"
  ed_reason :: string
  ed_policy_version :: string

text \<open>The reasons are Korean sentences, in UTF-8.\<close>

definition REASON_AFTER_CLOSE :: string where
  "REASON_AFTER_CLOSE = utf8
     [236, 157, 184, 237, 143, 172, 236, 138, 164, 237, 131, 129, 32, 236, 158, 165, 237, 155, 132, 32,
     237, 153, 149, 236, 160, 149, 236, 157, 132, 32, 234, 176, 153, 236, 157, 128, 32, 69, 118, 101,
     110, 116, 236, 151, 144, 32, 235, 176, 152, 236, 152, 129, 237, 150, 136, 236, 138, 181, 235, 139,
     136, 235, 139, 164]"

definition REASON_KEPT :: string where
  "REASON_KEPT = utf8
     [236, 157, 180, 235, 175, 184, 32, 237, 153, 149, 236, 157, 184, 235, 144, 156, 32, 234, 183, 188,
     234, 177, 176, 235, 165, 188, 32, 236, 156, 160, 236, 167, 128, 237, 150, 136, 236, 138, 181, 235,
     139, 136, 235, 139, 164]"

definition REASON_DEGRADED :: string where
  "REASON_DEGRADED = utf8
     [234, 179, 181, 234, 184, 137, 236, 155, 144, 32, 236, 136, 152, 236, 167, 145, 236, 157, 180, 32,
     236, 167, 128, 236, 151, 176, 235, 143, 188, 32, 236, 134, 140, 236, 158, 172, 32, 236, 151, 134,
     236, 157, 140, 236, 156, 188, 235, 161, 156, 32, 237, 140, 144, 236, 160, 149, 237, 149, 152, 236,
     167, 128, 32, 236, 149, 138, 236, 149, 152, 236, 138, 181, 235, 139, 136, 235, 139, 164]"

definition REASON_NONE_FOUND :: string where
  "REASON_NONE_FOUND = utf8
     [236, 160, 149, 236, 131, 129, 32, 236, 136, 152, 236, 167, 145, 32, 236, 131, 129, 237, 131, 156,
     236, 151, 144, 236, 132, 156, 32, 234, 180, 128, 235, 160, 168, 32, 234, 184, 176, 236, 130, 172,
     235, 165, 188, 32, 236, 176, 190, 236, 167, 128, 32, 235, 170, 187, 237, 150, 136, 236, 138, 181,
     235, 139, 136, 235, 139, 164]"

definition REASON_SEARCHING :: string where
  "REASON_SEARCHING = utf8
     [234, 183, 188, 234, 177, 176, 235, 165, 188, 32, 234, 179, 132, 236, 134, 141, 32, 237, 153, 149,
     236, 157, 184, 237, 149, 152, 235, 138, 148, 32, 236, 164, 145, 236, 158, 133, 235, 139, 136, 235,
     139, 164]"

definition REASON_REEMERGED :: string where
  "REASON_REEMERGED = utf8
     [236, 157, 180, 236, 160, 132, 32, 234, 177, 176, 235, 158, 152, 236, 157, 188, 236, 151, 144, 32,
     237, 153, 149, 236, 157, 184, 235, 144, 156, 32, 236, 134, 140, 236, 158, 172, 234, 176, 128, 32,
     235, 139, 164, 236, 139, 156, 32, 235, 182, 128, 234, 176, 129, 235, 144, 144, 236, 138, 181, 235,
     139, 136, 235, 139, 164]"

definition REASON_SINGLE :: string where
  "REASON_SINGLE = utf8
     [235, 139, 168, 236, 157, 188, 32, 235, 167, 164, 236, 178, 180, 32, 235, 179, 180, 235, 143, 132,
     235, 161, 156, 32, 237, 153, 149, 236, 157, 184, 235, 144, 156, 32, 236, 182, 148, 236, 160, 149,
     236, 158, 133, 235, 139, 136, 235, 139, 164]"

definition REASON_MULTI :: "nat \<Rightarrow> string" where
  "REASON_MULTI n = utf8 [235, 143, 133, 235, 166, 189, 32, 235, 167, 164, 236, 178, 180, 32] @ digits_of n @ utf8
     [234, 179, 179, 236, 151, 144, 236, 132, 156, 32, 234, 176, 153, 236, 157, 128, 32, 236, 134, 140,
     236, 158, 172, 235, 165, 188, 32, 237, 153, 149, 236, 157, 184, 237, 150, 136, 236, 138, 181, 235,
     139, 136, 235, 139, 164]"

definition decision_key :: "hash \<Rightarrow> (string \<Rightarrow> string) \<Rightarrow> theme_context \<Rightarrow> catalyst_evidence list \<Rightarrow> string option" where
  "decision_key H casefold context evidence =
     (let entities = first_of_each (concat (map ca_entities evidence))
      in if entities = [] then None else Some (catalyst_key H casefold (tx_theme_id context) entities))"

definition without_evidence ::
  "theme_context \<Rightarrow> datetime \<Rightarrow> evidence_revision option \<Rightarrow> bool \<Rightarrow> timedelta \<Rightarrow> evidence_decision" where
  "without_evidence context now previous sources_degraded no_catalyst_after =
     (let plain = (\<lambda>status reason. \<lparr>ed_evidence_status = status, ed_summary = None, ed_news_ids = [],
            ed_catalyst_key = None, ed_reason = reason, ed_policy_version = CATALYST_POLICY_VERSION\<rparr>);
          fresh = (if sources_degraded then plain SEARCHING REASON_DEGRADED
            else if no_catalyst_after \<le> instant now - instant (tx_activated_at context)
            then plain NO_NEW_CATALYST REASON_NONE_FOUND
            else plain SEARCHING REASON_SEARCHING)
      in case previous of None \<Rightarrow> fresh
         | Some r \<Rightarrow>
             if 0 < strength (vr_evidence_status r)
             then \<lparr>ed_evidence_status = vr_evidence_status r, ed_summary = vr_summary r,
                   ed_news_ids = vr_news_ids r, ed_catalyst_key = vr_catalyst_key r,
                   ed_reason = REASON_KEPT, ed_policy_version = CATALYST_POLICY_VERSION\<rparr>
             else fresh)"

text \<open>Publishers and titles that count as independent: stripped, folded, white space joined.\<close>

definition evidence_publishers :: "(string \<Rightarrow> string) \<Rightarrow> catalyst_evidence list \<Rightarrow> string list" where
  "evidence_publishers casefold evidence =
     remdups (map (casefold \<circ> stripped \<circ> ca_publisher) (filter (\<lambda>x. \<not> blank (ca_publisher x)) evidence))"

definition evidence_titles :: "(string \<Rightarrow> string) \<Rightarrow> catalyst_evidence list \<Rightarrow> string list" where
  "evidence_titles casefold evidence =
     remdups (map (casefold \<circ> join '' '' \<circ> words_of \<circ> ca_title) (filter (\<lambda>x. \<not> blank (ca_title x)) evidence))"

definition decide_evidence ::
  "hash \<Rightarrow> (string \<Rightarrow> string) \<Rightarrow> theme_context \<Rightarrow> catalyst_evidence list \<Rightarrow> datetime \<Rightarrow>
   evidence_revision option \<Rightarrow> bool \<Rightarrow> string option \<Rightarrow> timedelta \<Rightarrow> evidence_decision" where
  "decide_evidence H casefold context evidence now previous sources_degraded after_close_summary no_catalyst_after =
     (case after_close_summary of
        Some summary \<Rightarrow>
          \<lparr>ed_evidence_status = AFTER_CLOSE_CONFIRMED, ed_summary = Some summary,
           ed_news_ids = map ca_news_id evidence, ed_catalyst_key = decision_key H casefold context evidence,
           ed_reason = REASON_AFTER_CLOSE, ed_policy_version = CATALYST_POLICY_VERSION\<rparr>
      | None \<Rightarrow>
          (case evidence of
             [] \<Rightarrow> without_evidence context now previous sources_degraded no_catalyst_after
           | first # others \<Rightarrow>
               (let publishers = evidence_publishers casefold evidence;
                    titles = evidence_titles casefold evidence;
                    key = decision_key H casefold context evidence;
                    (status, reason) =
                      (if 2 \<le> length publishers \<and> 2 \<le> length titles
                       then (MULTI_SOURCE_CONFIRMED, REASON_MULTI (length publishers))
                       else if pred_option (\<lambda>k. k \<in> set (tx_known_catalyst_keys context)) key \<and> key \<noteq> None
                       then (REEMERGENCE, REASON_REEMERGED)
                       else (SINGLE_SOURCE, REASON_SINGLE))
                in \<lparr>ed_evidence_status = status, ed_summary = Some (ca_summary first),
                    ed_news_ids = first_of_each (map ca_news_id evidence), ed_catalyst_key = key,
                    ed_reason = reason, ed_policy_version = CATALYST_POLICY_VERSION\<rparr>)))"

section \<open>Revisions\<close>

type_synonym revision_store = "(string, evidence_revision list) dict"

definition revision_history :: "revision_store \<Rightarrow> string \<Rightarrow> evidence_revision list" where
  "revision_history st event_id = (case dget st event_id of None \<Rightarrow> [] | Some h \<Rightarrow> h)"

definition current_revision :: "revision_store \<Rightarrow> string \<Rightarrow> evidence_revision option" where
  "current_revision st event_id =
     (case revision_history st event_id of [] \<Rightarrow> None | r # rs \<Rightarrow> Some (last (r # rs)))"

definition revision_unchanged :: "evidence_revision \<Rightarrow> evidence_decision \<Rightarrow> bool" where
  "revision_unchanged r d \<longleftrightarrow> vr_evidence_status r = ed_evidence_status d \<and> vr_summary r = ed_summary d
     \<and> vr_news_ids r = ed_news_ids d \<and> vr_catalyst_key r = ed_catalyst_key d"

definition confirmed_at :: "evidence_revision option \<Rightarrow> evidence_decision \<Rightarrow> datetime \<Rightarrow> datetime option" where
  "confirmed_at previous d now =
     (if ed_news_ids d \<noteq> [] \<and> (case previous of None \<Rightarrow> True | Some r \<Rightarrow> vr_news_ids r \<noteq> ed_news_ids d)
      then Some now else Option.bind previous vr_evidence_confirmed_at)"

definition record_revision ::
  "string \<Rightarrow> evidence_decision \<Rightarrow> datetime \<Rightarrow> (revision_store, evidence_revision) action" where
  "record_revision event_id d now st =
     (let history = revision_history st event_id; st = dset event_id history st;
          previous = current_revision st event_id
      in case (if pred_option (\<lambda>r. revision_unchanged r d) previous then previous else None) of
           Some r \<Rightarrow> (st, Inr r)
         | None \<Rightarrow>
             (case evidence_revision_init
                 \<lparr>vr_event_id = event_id, vr_revision = int (length history) + 1,
                  vr_evidence_status = ed_evidence_status d, vr_summary = ed_summary d,
                  vr_news_ids = ed_news_ids d, vr_catalyst_key = ed_catalyst_key d,
                  vr_reason = ed_reason d, vr_policy_version = ed_policy_version d,
                  vr_decided_at = now, vr_evidence_confirmed_at = confirmed_at previous d now\<rparr> of
                Inl e \<Rightarrow> (st, Inl e)
              | Inr r \<Rightarrow> (dset event_id (history @ [r]) st, Inr r)))"

section \<open>The gate of the supplemental search\<close>

definition SUPPLEMENTAL_COOLDOWN :: timedelta where
  "SUPPLEMENTAL_COOLDOWN = 10 * 60 * 1000000"

datatype supplemental_denial = LOCAL_EVIDENCE_EXISTS | COOLDOWN | QUOTA_EXHAUSTED

record search_request =
  sq_event_id :: string
  sq_theme_id :: string
  sq_query_terms :: "string list"
  sq_requested_at :: datetime

definition query_terms :: "theme_context \<Rightarrow> string list" where
  "query_terms c = first_of_each (map stripped (filter (\<lambda>t. \<not> blank t)
     (tx_display_name c # tx_synonyms c @ tx_leader_names c)))"

record search_gate =
  sg_cooldown :: timedelta
  sg_quota :: int
  sg_window :: timedelta
  sg_last_request :: "(string, datetime) dict"
  sg_calls :: "datetime list"

definition default_gate :: search_gate where
  "default_gate = \<lparr>sg_cooldown = SUPPLEMENTAL_COOLDOWN, sg_quota = 30, sg_window = 60 * 60 * 1000000,
     sg_last_request = [], sg_calls = []\<rparr>"

text \<open>A decision is a request or the reason it is denied.\<close>

definition request_search ::
  "theme_context \<Rightarrow> datetime \<Rightarrow> bool \<Rightarrow> search_gate \<Rightarrow> search_gate \<times> (supplemental_denial + search_request)" where
  "request_search context now has_local_evidence g =
     (if has_local_evidence then (g, Inl LOCAL_EVIDENCE_EXISTS)
      else if pred_option (\<lambda>t. instant now - instant t < sg_cooldown g)
                (dget (sg_last_request g) (tx_event_id context))
              \<and> dget (sg_last_request g) (tx_event_id context) \<noteq> None
      then (g, Inl COOLDOWN)
      else let g = g\<lparr>sg_calls := filter (\<lambda>t. instant now - instant t < sg_window g) (sg_calls g)\<rparr>
           in if sg_quota g \<le> int (length (sg_calls g)) then (g, Inl QUOTA_EXHAUSTED)
              else (g\<lparr>sg_last_request := dset (tx_event_id context) now (sg_last_request g),
                      sg_calls := sg_calls g @ [now]\<rparr>,
                    Inr \<lparr>sq_event_id = tx_event_id context, sq_theme_id = tx_theme_id context,
                         sq_query_terms = query_terms context, sq_requested_at = now\<rparr>))"

end
