(* ===== verification/Catalyst_History.thy ===== *)
theory Catalyst_History
  imports Catalyst_Policy
begin

text \<open>
  What the decisions and revisions of \<open>Catalyst_Policy\<close> keep over any sequence of decisions for any
  Events: each history is numbered and only grows, each revision is supported by the evidence of the
  decision that made it, and an Event with confirmed evidence never goes back to searching.
\<close>

section \<open>Histories\<close>

text \<open>One decision for an Event, and its recording against what was decided before.\<close>

datatype evidence_op = Evidence_Op theme_context "catalyst_evidence list" datetime bool "string option"

fun op_event_id :: "evidence_op \<Rightarrow> string" where
  "op_event_id (Evidence_Op c evidence now degraded after_close) = tx_event_id c"

fun decision_of :: "hash \<Rightarrow> (string \<Rightarrow> string) \<Rightarrow> revision_store \<Rightarrow> evidence_op \<Rightarrow> evidence_decision" where
  "decision_of H casefold st (Evidence_Op c evidence now degraded after_close) =
     decide_evidence H casefold c evidence now (current_revision st (tx_event_id c)) degraded after_close NO_NEW_CATALYST_AFTER"

fun op_now :: "evidence_op \<Rightarrow> datetime" where
  "op_now (Evidence_Op c evidence now degraded after_close) = now"

definition evidence_step ::
  "hash \<Rightarrow> (string \<Rightarrow> string) \<Rightarrow> (revision_store, evidence_op, evidence_revision) step" where
  "evidence_step H casefold st x = record_revision (op_event_id x) (decision_of H casefold st x) (op_now x) st"

lemma history_empty [simp]: "revision_history [] event_id = []"
  by (simp add: revision_history_def)

lemma history_dset [simp]:
  "revision_history (dset e h st) event_id = (if event_id = e then h else revision_history st event_id)"
  by (simp add: revision_history_def)

lemma current_revision_eq:
  "current_revision st event_id =
     (if revision_history st event_id = [] then None else Some (last (revision_history st event_id)))"
  by (simp add: current_revision_def split: list.split)

definition decided_revision ::
  "revision_store \<Rightarrow> string \<Rightarrow> evidence_decision \<Rightarrow> datetime \<Rightarrow> evidence_revision" where
  "decided_revision st event_id d now =
     \<lparr>vr_event_id = event_id, vr_revision = int (length (revision_history st event_id)) + 1,
      vr_evidence_status = ed_evidence_status d, vr_summary = ed_summary d, vr_news_ids = ed_news_ids d,
      vr_catalyst_key = ed_catalyst_key d, vr_reason = ed_reason d, vr_policy_version = ed_policy_version d,
      vr_decided_at = now, vr_evidence_confirmed_at = confirmed_at (current_revision st event_id) d now\<rparr>"

text \<open>A decision that changes nothing is not recorded; any other one is appended.\<close>

lemma record_revision_cases:
  obtains (same) r where "current_revision st event_id = Some r" "revision_unchanged r d"
      "\<And>i. revision_history (fst (record_revision event_id d now st)) i = revision_history st i"
      "snd (record_revision event_id d now st) = Inr r"
    | (new) "\<And>r. current_revision st event_id = Some r \<Longrightarrow> \<not> revision_unchanged r d"
      "\<And>i. revision_history (fst (record_revision event_id d now st)) i = (if i = event_id
         then revision_history st event_id @ [decided_revision st event_id d now] else revision_history st i)"
      "snd (record_revision event_id d now st) = Inr (decided_revision st event_id d now)"
proof (cases "\<exists>r. current_revision st event_id = Some r \<and> revision_unchanged r d")
  case True
  then obtain r where r: "current_revision st event_id = Some r" "revision_unchanged r d" by blast
  moreover have "current_revision (dset event_id (revision_history st event_id) st) event_id = Some r"
    using r(1) by (simp add: current_revision_eq split: if_splits)
  ultimately show thesis by (intro same [of r]) (simp_all add: record_revision_def Let_def)
next
  case False
  have cur: "current_revision (dset event_id (revision_history st event_id) st) event_id = current_revision st event_id"
    by (simp add: current_revision_eq)
  from False show thesis
    by (intro new) (auto simp: record_revision_def Let_def cur decided_revision_def evidence_revision_init_def
        split: option.splits)
qed

section \<open>What supports a decision\<close>

text \<open>What the evidence at hand must be for the status of a revision, its news and its summary.\<close>

fun supported_by :: "hash \<Rightarrow> (string \<Rightarrow> string) \<Rightarrow> evidence_revision \<Rightarrow> evidence_op \<Rightarrow> bool" where
  "supported_by H casefold r (Evidence_Op c evidence now degraded after_close) \<longleftrightarrow>
     tx_event_id c = vr_event_id r \<and> vr_decided_at r = now
   \<and> set (vr_news_ids r) = ca_news_id ` set evidence
   \<and> (case vr_evidence_status r of
        AFTER_CLOSE_CONFIRMED \<Rightarrow> after_close \<noteq> None \<and> vr_summary r = after_close
      | MULTI_SOURCE_CONFIRMED \<Rightarrow> evidence \<noteq> [] \<and> vr_summary r = Some (ca_summary (hd evidence))
          \<and> 2 \<le> length (evidence_publishers casefold evidence) \<and> 2 \<le> length (evidence_titles casefold evidence)
      | REEMERGENCE \<Rightarrow> evidence \<noteq> [] \<and> vr_summary r = Some (ca_summary (hd evidence))
          \<and> (\<exists>k. decision_key H casefold c evidence = Some k \<and> k \<in> set (tx_known_catalyst_keys c))
      | SINGLE_SOURCE \<Rightarrow> evidence \<noteq> [] \<and> vr_summary r = Some (ca_summary (hd evidence))
      | NO_NEW_CATALYST \<Rightarrow> evidence = [] \<and> vr_summary r = None \<and> \<not> degraded
          \<and> NO_NEW_CATALYST_AFTER \<le> instant now - instant (tx_activated_at c)
      | SEARCHING \<Rightarrow> evidence = [] \<and> vr_summary r = None)"

text \<open>Keeping the evidence of the last revision is a decision that changes nothing.\<close>

lemma decide_kept:
  assumes "current_revision st (tx_event_id c) = Some r" "0 < strength (vr_evidence_status r)"
  shows "revision_unchanged r (decision_of H casefold st (Evidence_Op c [] now degraded None))"
  using assms by (simp add: decide_evidence_def without_evidence_def revision_unchanged_def Let_def)

lemma new_revision_supported:
  assumes "\<And>r. current_revision st (op_event_id x) = Some r \<Longrightarrow> \<not> revision_unchanged r (decision_of H casefold st x)"
  shows "supported_by H casefold (decided_revision st (op_event_id x) (decision_of H casefold st x) (op_now x)) x"
proof (cases x)
  case (Evidence_Op c evidence now degraded after_close)
  show ?thesis
  proof (cases after_close)
    case (Some summary)
    then show ?thesis by (simp add: Evidence_Op decide_evidence_def decided_revision_def)
  next
    case None
    show ?thesis
    proof (cases evidence)
      case (Cons first others)
      then show ?thesis
        by (auto simp: Evidence_Op None decide_evidence_def decided_revision_def Let_def pred_option_def)
    next
      case Nil
      then have "\<not> 0 < strength (vr_evidence_status r)" if "current_revision st (tx_event_id c) = Some r" for r
        using assms decide_kept [OF that, of H casefold now degraded] that by (auto simp: Evidence_Op None)
      then show ?thesis
        by (auto simp: Evidence_Op None Nil decide_evidence_def without_evidence_def decided_revision_def Let_def
            split: option.splits)
    qed
  qed
qed

lemma new_revision_strength:
  assumes "\<And>r. current_revision st (op_event_id x) = Some r \<Longrightarrow> \<not> revision_unchanged r (decision_of H casefold st x)"
    and "current_revision st (op_event_id x) = Some r" "0 < strength (vr_evidence_status r)"
  shows "0 < strength (ed_evidence_status (decision_of H casefold st x))"
proof (cases x)
  case (Evidence_Op c evidence now degraded after_close)
  show ?thesis
  proof (cases "after_close = None \<and> evidence = []")
    case True
    with assms decide_kept [of st c r H casefold now degraded] show ?thesis by (auto simp: Evidence_Op)
  next
    case False
    then show ?thesis
      by (cases after_close; cases evidence) (auto simp: Evidence_Op decide_evidence_def Let_def)
  qed
qed

section \<open>The invariant\<close>

text \<open>Consecutive revisions differ in what they say and never fall back from a confirmed status.\<close>

definition says_the_same :: "evidence_revision \<Rightarrow> evidence_revision \<Rightarrow> bool" where
  "says_the_same r r' \<longleftrightarrow> vr_evidence_status r = vr_evidence_status r' \<and> vr_summary r = vr_summary r'
     \<and> vr_news_ids r = vr_news_ids r' \<and> vr_catalyst_key r = vr_catalyst_key r'"

fun linked :: "evidence_revision list \<Rightarrow> bool" where
  "linked (r # r' # rs) \<longleftrightarrow> \<not> says_the_same r r'
     \<and> (0 < strength (vr_evidence_status r) \<longrightarrow> 0 < strength (vr_evidence_status r')) \<and> linked (r' # rs)"
| "linked rs \<longleftrightarrow> True"

lemma linked_snoc:
  "linked (rs @ [r]) \<longleftrightarrow> linked rs \<and> (rs \<noteq> [] \<longrightarrow> \<not> says_the_same (last rs) r
     \<and> (0 < strength (vr_evidence_status (last rs)) \<longrightarrow> 0 < strength (vr_evidence_status r)))"
  by (induction rs rule: linked.induct) auto

text \<open>The history of one Event is numbered from 1, and its revisions are linked.\<close>

definition history_ok :: "string \<Rightarrow> evidence_revision list \<Rightarrow> bool" where
  "history_ok event_id rs \<longleftrightarrow> map vr_revision rs = map int [1..<Suc (length rs)]
     \<and> (\<forall>r\<in>set rs. vr_event_id r = event_id) \<and> linked rs"

definition histories_ok :: "revision_store \<Rightarrow> bool" where
  "histories_ok st \<longleftrightarrow> (\<forall>event_id. history_ok event_id (revision_history st event_id))"

lemma evidence_step_cases:
  obtains (same) "\<And>i. revision_history (fst (evidence_step H casefold st x)) i = revision_history st i"
    | (new) r where "supported_by H casefold r x"
      "\<And>i. revision_history (fst (evidence_step H casefold st x)) i
         = (if i = op_event_id x then revision_history st i @ [r] else revision_history st i)"
      "vr_event_id r = op_event_id x" "vr_revision r = int (length (revision_history st (op_event_id x))) + 1"
      "revision_history st (op_event_id x) \<noteq> [] \<longrightarrow>
         \<not> says_the_same (last (revision_history st (op_event_id x))) r
         \<and> (0 < strength (vr_evidence_status (last (revision_history st (op_event_id x))))
            \<longrightarrow> 0 < strength (vr_evidence_status r))"
proof (cases rule: record_revision_cases [where st = st and event_id = "op_event_id x"
      and d = "decision_of H casefold st x" and now = "op_now x"])
  case (same r)
  then show thesis by (intro that(1)) (simp add: evidence_step_def)
next
  case new
  show thesis
  proof (rule that(2) [of "decided_revision st (op_event_id x) (decision_of H casefold st x) (op_now x)"])
    show "supported_by H casefold (decided_revision st (op_event_id x) (decision_of H casefold st x) (op_now x)) x"
      by (rule new_revision_supported) (rule new(1))
  qed (use new new_revision_strength [OF new(1)] in
      \<open>auto simp: evidence_step_def decided_revision_def current_revision_eq revision_unchanged_def says_the_same_def\<close>)
qed

lemma history_ok_snoc:
  assumes "history_ok event_id rs" "vr_event_id r = event_id" "vr_revision r = int (length rs) + 1"
    and "rs \<noteq> [] \<longrightarrow> \<not> says_the_same (last rs) r
      \<and> (0 < strength (vr_evidence_status (last rs)) \<longrightarrow> 0 < strength (vr_evidence_status r))"
  shows "history_ok event_id (rs @ [r])"
  using assms by (auto simp: history_ok_def linked_snoc)

lemma evidence_step_ok: "histories_ok st \<Longrightarrow> histories_ok (fst (evidence_step H casefold st x))"
  by (cases rule: evidence_step_cases [where H = H and casefold = casefold and st = st and x = x])
    (auto simp: histories_ok_def intro: history_ok_snoc)

interpretation evidence: invariant_machine "evidence_step H casefold" histories_ok for H casefold
  by unfold_locales (rule evidence_step_ok)

lemma histories_ok_empty: "histories_ok []"
  by (simp add: histories_ok_def history_ok_def)

lemma run_evidence_history:
  "\<exists>rs. revision_history (run (evidence_step H casefold) st ops) e = revision_history st e @ rs
     \<and> (\<forall>r\<in>set rs. \<exists>x\<in>set ops. supported_by H casefold r x)"
proof (induction ops arbitrary: st)
  case (Cons x ops)
  let ?st = "fst (evidence_step H casefold st x)"
  from Cons.IH [of ?st] obtain rs where rs: "revision_history (run (evidence_step H casefold) ?st ops) e
      = revision_history ?st e @ rs" "\<forall>r\<in>set rs. \<exists>x\<in>set ops. supported_by H casefold r x" by blast
  show ?case
  proof (cases rule: evidence_step_cases [where H = H and casefold = casefold and st = st and x = x])
    case same
    with rs show ?thesis by auto
  next
    case (new r)
    with rs show ?thesis
      by (intro exI [of _ "(if e = op_event_id x then [r] else []) @ rs"]) auto
  qed
qed simp

section \<open>Properties\<close>

text \<open>
  C30. Every revision in the history of an Event was made by one of its decisions, at the time it
  says, and is supported by the evidence of that decision: its news are that evidence, two independent
  publishers and titles for a confirmation, a known key for a re-emergence, the confirmation after the
  close for that status, and for "no new catalyst" healthy sources and the full waiting time.
\<close>

theorem revisions_supported:
  assumes "r \<in> set (revision_history (run (evidence_step H casefold) [] ops) event_id)"
  shows "vr_event_id r = event_id \<and> (\<exists>x\<in>set ops. op_event_id x = event_id \<and> supported_by H casefold r x)"
proof -
  from assms run_evidence_history [of H casefold "[]" ops event_id]
  obtain x where "x \<in> set ops" "supported_by H casefold r x" by auto
  moreover have "vr_event_id r = event_id"
    using assms evidence.run_inv [OF histories_ok_empty, of H casefold ops]
    by (auto simp: histories_ok_def history_ok_def)
  moreover have "op_event_id x = vr_event_id r"
    using \<open>supported_by H casefold r x\<close> by (cases x) simp
  ultimately show ?thesis by blast
qed

definition example_context :: theme_context where
  "example_context = \<lparr>tx_event_id = ''e1'', tx_theme_id = ''t1'', tx_display_name = ''chips'',
     tx_market_date = 1, tx_activated_at = Aware 0 0, tx_synonyms = [], tx_leader_names = [''Acme''],
     tx_leader_stock_ids = [''KRX:1''], tx_related_stock_ids = [''KRX:2''], tx_entities = [],
     tx_known_catalyst_keys = []\<rparr>"

definition example_evidence :: "string \<Rightarrow> string \<Rightarrow> catalyst_evidence" where
  "example_evidence news_id publisher = \<lparr>ca_news_id = news_id, ca_event_id = ''e1'', ca_publisher = publisher,
     ca_title = news_id, ca_summary = ''order'', ca_match_basis = [MATCH_STOCK], ca_entities = [''Acme''],
     ca_published_at = None, ca_received_at = Aware 5 0, ca_original_url = ''u'', ca_quality_flags = [],
     ca_extraction_method = LLM_GROUNDED, ca_model_name = None, ca_prompt_version = None,
     ca_confidence = Some 1, ca_generated_at = Aware 5 0\<rparr>"

text \<open>Searching, then one article, then nothing new, then a second publisher.\<close>

definition example_ops :: "evidence_op list" where
  "example_ops = [Evidence_Op example_context [] (Aware 1 0) False None,
     Evidence_Op example_context [example_evidence ''n1'' ''P''] (Aware 2 0) False None,
     Evidence_Op example_context [] (Aware 2000000000 0) False None,
     Evidence_Op example_context [example_evidence ''n1'' ''P'', example_evidence ''n2'' ''Q''] (Aware 3000000000 0) False None]"

definition example_hash :: hash where
  "example_hash x = (case x of Plain s \<Rightarrow> s | Dump v \<Rightarrow> [])"

lemma example_history: "map (\<lambda>r. (vr_evidence_status r, vr_news_ids r))
    (revision_history (run (evidence_step example_hash id) [] example_ops) ''e1'')
  = [(SEARCHING, []), (SINGLE_SOURCE, [''n1'']), (MULTI_SOURCE_CONFIRMED, [''n1'', ''n2''])]"
  by code_simp

theorem revisions_supported_witness:
  "\<exists>r x. r = last (revision_history (run (evidence_step example_hash id) [] example_ops) ''e1'')
     \<and> vr_evidence_status r = MULTI_SOURCE_CONFIRMED
     \<and> x \<in> set example_ops \<and> supported_by example_hash id r x"
proof -
  let ?h = "revision_history (run (evidence_step example_hash id) [] example_ops) ''e1''"
  have ne: "?h \<noteq> []" using example_history by auto
  have "vr_evidence_status (last ?h) = fst (last (map (\<lambda>r. (vr_evidence_status r, vr_news_ids r)) ?h))"
    using ne by (simp add: last_map)
  then have "vr_evidence_status (last ?h) = MULTI_SOURCE_CONFIRMED" by (simp only: example_history) simp
  moreover from revisions_supported [OF last_in_set [OF ne]]
  obtain x where "x \<in> set example_ops" "supported_by example_hash id (last ?h) x" by blast
  ultimately show ?thesis by (intro exI conjI) auto
qed


end
