(* ===== verification/Grounding.thy ===== *)
theory Grounding
  imports Public_Views News_Text
begin

text \<open>
  The grounded structuring of articles, \<open>packages/llm/models.py\<close> and \<open>grounding.py\<close>.  The model
  behind \<open>LlmClient\<close> is a parameter: for a prompt version and a payload it gives an object or the
  message of an exception.  What it answers is only accepted when the articles support it.
\<close>

section \<open>Requests and answers\<close>

definition GROUNDING_PROMPT_VERSION :: string where
  "GROUNDING_PROMPT_VERSION = ''catalyst-grounding-2026.08.1''"

definition MIN_CONFIDENCE :: rat where
  "MIN_CONFIDENCE = to_double (6 / 10)"

definition VERBATIM_WINDOW :: nat where
  "VERBATIM_WINDOW = 30"

datatype grounding_rejection =
  NO_EVIDENCE | PROVIDER_ERROR | SCHEMA_INVALID | NOT_GROUNDED | UNKNOWN_STOCK | UNKNOWN_THEME
  | LOW_CONFIDENCE | UNSUPPORTED_ENTITY | VERBATIM_QUOTE

record grounding_article =
  gr_news_id :: string
  gr_publisher :: string
  gr_title :: string
  gr_text :: string
  gr_original_url :: string
  gr_published_at :: "datetime option"

definition article_payload :: "grounding_article \<Rightarrow> json" where
  "article_payload a = JObj
     [(''newsId'', JStr (gr_news_id a)), (''publisher'', JStr (gr_publisher a)),
      (''title'', JStr (gr_title a)), (''text'', JStr (gr_text a)),
      (''originalUrl'', JStr (gr_original_url a)), (''publishedAt'', json_opt JTime (gr_published_at a))]"

record grounding_request =
  gq_theme_id :: string
  gq_display_name :: string
  gq_candidate_stock_ids :: "string list"
  gq_reaction_started_at :: datetime
  gq_articles :: "grounding_article list"

definition request_payload :: "grounding_request \<Rightarrow> json" where
  "request_payload q = JObj
     [(''themeId'', JStr (gq_theme_id q)), (''displayName'', JStr (gq_display_name q)),
      (''candidateStockIds'', JList (map JStr (gq_candidate_stock_ids q))),
      (''reactionStartedAt'', JTime (gq_reaction_started_at q)),
      (''articles'', JList (map article_payload (gq_articles q)))]"

definition request_news_ids :: "grounding_request \<Rightarrow> string list" where
  "request_news_ids q = map gr_news_id (gq_articles q)"

definition source_text :: "grounding_request \<Rightarrow> string" where
  "source_text q = join '' '' (map (\<lambda>a. gr_title a @ '' '' @ gr_text a) (gq_articles q))"

definition request_fingerprint :: "hash \<Rightarrow> grounding_request \<Rightarrow> string" where
  "request_fingerprint H q = json_hash H (request_payload q)"

record grounded_catalyst =
  gd_stock_ids :: "string list"
  gd_candidate_theme_ids :: "string list"
  gd_catalyst_summary :: string
  gd_event_entities :: "string list"
  gd_confidence :: rat
  gd_grounded :: bool

text \<open>The raw output is kept as the object the answer is, not as its JSON text.\<close>

type_synonym llm_answer = "(string \<times> json) list"

record llm_call_record =
  lc_model_name :: string
  lc_prompt_version :: string
  lc_news_ids :: "string list"
  lc_request_fingerprint :: string
  lc_raw_output :: "llm_answer option"
  lc_accepted :: bool
  lc_rejection :: "grounding_rejection option"
  lc_called_at :: datetime

record grounding_outcome =
  go_called :: bool
  go_catalyst :: "grounded_catalyst option"
  go_record :: "llm_call_record option"
  go_rejection :: "grounding_rejection option"

section \<open>Validation\<close>

fun string_tuple :: "json option \<Rightarrow> string list option" where
  "string_tuple (Some (JList xs)) =
     (if list_all (\<lambda>x. case x of JStr s \<Rightarrow> True | _ \<Rightarrow> False) xs
      then Some (map (\<lambda>x. case x of JStr s \<Rightarrow> s | _ \<Rightarrow> []) xs) else None)"
| "string_tuple _ = None"

text \<open>
  \<open>float(confidence)\<close> of a number: a double stays, an integer is rounded, and one past the largest
  double raises \<open>OverflowError\<close>.  Anything else is not a number.
\<close>

fun confidence_value :: "json option \<Rightarrow> rat option result" where
  "confidence_value (Some (JInt n)) =
     (if \<bar>n\<bar> < 2 ^ 1024 - 2 ^ 970 then Inr (Some (to_double (of_int n)))
      else Inl (ArithmeticError ''OverflowError''))"
| "confidence_value (Some (JNum q)) = Inr (Some q)"
| "confidence_value _ = Inr None"

definition has_verbatim_run :: "string \<Rightarrow> string \<Rightarrow> bool" where
  "has_verbatim_run summary source =
     (let compact = code_points (join '' '' (words_of summary)); haystack = join '' '' (words_of source)
      in list_ex (\<lambda>start. occurs (concat (take VERBATIM_WINDOW (drop start compact))) haystack)
           [0..<length compact + 1 - VERBATIM_WINDOW])"

text \<open>The lists and the summary of an answer, when all of them have their types.\<close>

definition answer_fields :: "llm_answer \<Rightarrow> (string list \<times> string list \<times> string list \<times> string) option" where
  "answer_fields raw =
     (case (string_tuple (map_of raw ''stockIds''), string_tuple (map_of raw ''candidateThemeIds''),
            string_tuple (map_of raw ''eventEntities''), map_of raw ''catalystSummary'') of
        (Some stock_ids, Some theme_ids, Some entities, Some (JStr summary)) \<Rightarrow>
          if blank summary then None else Some (stock_ids, theme_ids, entities, summary)
      | _ \<Rightarrow> None)"

text \<open>The comparison of a well-formed answer with the request, check by check.\<close>

definition check_answer ::
  "grounding_request \<Rightarrow> rat \<Rightarrow> string list \<times> string list \<times> string list \<times> string \<Rightarrow> rat \<Rightarrow>
   grounding_rejection + grounded_catalyst" where
  "check_answer q min_confidence = (\<lambda>(stock_ids, theme_ids, entities, summary) confidence.
     if \<not> (0 \<le> confidence \<and> confidence \<le> 1) then Inl SCHEMA_INVALID
     else if \<not> set stock_ids \<subseteq> set (gq_candidate_stock_ids q) then Inl UNKNOWN_STOCK
     else if \<not> set theme_ids \<subseteq> {gq_theme_id q} then Inl UNKNOWN_THEME
     else if confidence < min_confidence then Inl LOW_CONFIDENCE
     else if list_ex (\<lambda>e. \<not> blank e \<and> \<not> occurs e (source_text q)) entities then Inl UNSUPPORTED_ENTITY
     else if has_verbatim_run summary (source_text q) then Inl VERBATIM_QUOTE
     else Inr \<lparr>gd_stock_ids = stock_ids, gd_candidate_theme_ids = theme_ids,
       gd_catalyst_summary = stripped summary, gd_event_entities = entities,
       gd_confidence = confidence, gd_grounded = True\<rparr>)"

definition validate_answer ::
  "llm_answer \<Rightarrow> grounding_request \<Rightarrow> rat \<Rightarrow> (grounding_rejection + grounded_catalyst) result" where
  "validate_answer raw q min_confidence =
     (case map_of raw ''grounded'' of
        Some (JBool grounded) \<Rightarrow>
          if \<not> grounded then Inr (Inl NOT_GROUNDED)
          else (case answer_fields raw of None \<Rightarrow> Inr (Inl SCHEMA_INVALID)
            | Some checked \<Rightarrow>
                bind_result (confidence_value (map_of raw ''confidence'')) (\<lambda>confidence.
                  Inr (case confidence of None \<Rightarrow> Inl SCHEMA_INVALID
                    | Some confidence \<Rightarrow> check_answer q min_confidence checked confidence)))
      | _ \<Rightarrow> Inr (Inl SCHEMA_INVALID))"

section \<open>The service\<close>

type_synonym llm_client = "string \<Rightarrow> json \<Rightarrow> string + llm_answer"

record grounding_service =
  gs_model_name :: string
  gs_prompt_version :: string
  gs_min_confidence :: rat

definition default_grounding :: "string \<Rightarrow> grounding_service" where
  "default_grounding model_name = \<lparr>gs_model_name = model_name,
     gs_prompt_version = GROUNDING_PROMPT_VERSION, gs_min_confidence = MIN_CONFIDENCE\<rparr>"

definition call_record ::
  "hash \<Rightarrow> grounding_service \<Rightarrow> grounding_request \<Rightarrow> llm_answer option \<Rightarrow> grounding_rejection option \<Rightarrow>
   datetime \<Rightarrow> llm_call_record" where
  "call_record H s q raw_output rejection now =
     \<lparr>lc_model_name = gs_model_name s, lc_prompt_version = gs_prompt_version s,
      lc_news_ids = request_news_ids q, lc_request_fingerprint = request_fingerprint H q,
      lc_raw_output = raw_output, lc_accepted = (rejection = None), lc_rejection = rejection,
      lc_called_at = now\<rparr>"

definition structure_articles ::
  "hash \<Rightarrow> grounding_service \<Rightarrow> llm_client \<Rightarrow> grounding_request \<Rightarrow> datetime \<Rightarrow> grounding_outcome result" where
  "structure_articles H s client q now =
     (if gq_articles q = []
      then Inr \<lparr>go_called = False, go_catalyst = None, go_record = None, go_rejection = Some NO_EVIDENCE\<rparr>
      else case client (gs_prompt_version s) (request_payload q) of
        Inl message \<Rightarrow> Inr \<lparr>go_called = True, go_catalyst = None,
          go_record = Some (call_record H s q None (Some PROVIDER_ERROR) now), go_rejection = Some PROVIDER_ERROR\<rparr>
      | Inr raw \<Rightarrow>
          bind_result (validate_answer raw q (gs_min_confidence s)) (\<lambda>verdict. case verdict of
              Inl rejection \<Rightarrow> Inr \<lparr>go_called = True, go_catalyst = None,
                go_record = Some (call_record H s q (Some raw) (Some rejection) now), go_rejection = Some rejection\<rparr>
            | Inr catalyst \<Rightarrow> Inr \<lparr>go_called = True, go_catalyst = Some catalyst,
                go_record = Some (call_record H s q (Some raw) None now), go_rejection = None\<rparr>))"

section \<open>Properties\<close>

text \<open>What an accepted answer went through.\<close>

definition grounded_in :: "grounding_request \<Rightarrow> rat \<Rightarrow> llm_answer \<Rightarrow> grounded_catalyst \<Rightarrow> bool" where
  "grounded_in q min_confidence raw g \<longleftrightarrow>
     set (gd_stock_ids g) \<subseteq> set (gq_candidate_stock_ids q)
   \<and> set (gd_candidate_theme_ids g) \<subseteq> {gq_theme_id q}
   \<and> min_confidence \<le> gd_confidence g \<and> 0 \<le> gd_confidence g \<and> gd_confidence g \<le> 1
   \<and> (\<forall>e\<in>set (gd_event_entities g). blank e \<or> occurs e (source_text q))
   \<and> (\<exists>summary. map_of raw ''catalystSummary'' = Some (JStr summary) \<and> gd_catalyst_summary g = stripped summary
        \<and> \<not> blank summary \<and> \<not> has_verbatim_run summary (source_text q))
   \<and> map_of raw ''grounded'' = Some (JBool True)"

lemma answer_fields_Some:
  "answer_fields raw = Some (stock_ids, theme_ids, entities, summary) \<Longrightarrow>
     map_of raw ''catalystSummary'' = Some (JStr summary) \<and> \<not> blank summary"
  by (auto simp: answer_fields_def split: option.splits json.splits if_splits)

lemma validate_answer_Inr:
  assumes "validate_answer raw q min_confidence = Inr (Inr g)"
  obtains checked confidence where "map_of raw ''grounded'' = Some (JBool True)" "answer_fields raw = Some checked"
    "check_answer q min_confidence checked confidence = Inr g"
  using assms by (auto simp: validate_answer_def bind_result_Inr_iff split: option.splits json.splits if_splits)

lemma validate_answer_accepts:
  assumes "validate_answer raw q min_confidence = Inr (Inr g)"
  shows "grounded_in q min_confidence raw g"
proof -
  from validate_answer_Inr [OF assms] obtain checked confidence
    where grounded: "map_of raw ''grounded'' = Some (JBool True)" and checked: "answer_fields raw = Some checked"
      and check: "check_answer q min_confidence checked confidence = Inr g" by blast
  obtain stock_ids theme_ids entities summary where f: "checked = (stock_ids, theme_ids, entities, summary)"
    by (cases checked)
  from check show ?thesis
    using answer_fields_Some [OF checked [unfolded f]] grounded
    by (auto simp: f check_answer_def grounded_in_def list_ex_iff not_less split: if_splits)
qed

lemma confidence_value_error:
  "confidence_value v = Inl e \<Longrightarrow> (\<exists>n. v = Some (JInt n) \<and> 2 ^ 1024 - 2 ^ 970 \<le> \<bar>n\<bar>)"
  by (cases v rule: confidence_value.cases) (auto split: if_splits)

lemma validate_answer_error:
  assumes "validate_answer raw q min_confidence = Inl e"
  shows "\<exists>n. map_of raw ''confidence'' = Some (JInt n) \<and> 2 ^ 1024 - 2 ^ 970 \<le> \<bar>n\<bar>"
proof -
  have "\<exists>e. confidence_value (map_of raw ''confidence'') = Inl e"
    using assms
    by (cases "confidence_value (map_of raw ''confidence'')")
      (auto simp: validate_answer_def split: option.splits json.splits if_splits)
  then show ?thesis using confidence_value_error by blast
qed


text \<open>A request with one article, and answers to it.\<close>

definition example_request :: grounding_request where
  "example_request = \<lparr>gq_theme_id = ''t1'', gq_display_name = ''chips'', gq_candidate_stock_ids = [''KRX:1''],
     gq_reaction_started_at = Aware 0 0,
     gq_articles = [\<lparr>gr_news_id = ''n1'', gr_publisher = ''P'', gr_title = ''Acme up'', gr_text = ''Acme chips order'',
        gr_original_url = ''u'', gr_published_at = None\<rparr>]\<rparr>"

definition example_answer :: "json \<Rightarrow> string \<Rightarrow> llm_answer" where
  "example_answer confidence entity = [(''grounded'', JBool True), (''stockIds'', JList [JStr ''KRX:1'']),
     (''candidateThemeIds'', JList [JStr ''t1'']), (''eventEntities'', JList [JStr entity]),
     (''catalystSummary'', JStr '' new order ''), (''confidence'', confidence)]"

lemma example_accepted:
  "validate_answer (example_answer (JNum (3 / 4)) ''Acme'') example_request MIN_CONFIDENCE = Inr (Inr
     \<lparr>gd_stock_ids = [''KRX:1''], gd_candidate_theme_ids = [''t1''], gd_catalyst_summary = ''new order'',
      gd_event_entities = [''Acme''], gd_confidence = 3 / 4, gd_grounded = True\<rparr>)"
  by code_simp

lemma example_answers:
  "validate_answer (example_answer (JNum (3 / 4)) ''Beta'') example_request (1 / 2) = Inr (Inl UNSUPPORTED_ENTITY)"
  "validate_answer (example_answer (JNum (1 / 4)) ''Acme'') example_request (1 / 2) = Inr (Inl LOW_CONFIDENCE)"
  "validate_answer (example_answer (JBool True) ''Acme'') example_request (1 / 2) = Inr (Inl SCHEMA_INVALID)"
  by code_simp+

lemma example_structured:
  "structure_articles (\<lambda>x. []) (default_grounding ''m'')
     (\<lambda>version payload. Inr (example_answer (JNum (3 / 4)) ''Acme'')) example_request (Aware 9 0) = Inr r \<Longrightarrow>
   go_called r \<and> go_rejection r = None \<and> (\<exists>g. go_catalyst r = Some g)"
  "\<exists>r. structure_articles (\<lambda>x. []) (default_grounding ''m'')
     (\<lambda>version payload. Inr (example_answer (JNum (3 / 4)) ''Acme'')) example_request (Aware 9 0) = Inr r"
  using example_accepted by (auto simp: structure_articles_def default_grounding_def example_request_def)


text \<open>
  An answer that is otherwise acceptable but whose confidence is the integer \<open>2 ^ 1024\<close> makes the
  structuring raise \<open>OverflowError\<close> instead of rejecting the answer as invalid.
\<close>

theorem huge_confidence_raises:
  "structure_articles H s (\<lambda>version payload. Inr (example_answer (JInt (2 ^ 1024)) ''Acme'')) example_request now
     = Inl (ArithmeticError ''OverflowError'')"
proof -
  have "validate_answer (example_answer (JInt (2 ^ 1024)) ''Acme'') example_request c
      = Inl (ArithmeticError ''OverflowError'')" for c
    by (simp add: validate_answer_def answer_fields_def example_answer_def blank_def ascii_space_def)
  then show ?thesis by (simp add: structure_articles_def example_request_def)
qed

end
