(* ===== verification/Evidence_Pipeline.thy ===== *)
theory Evidence_Pipeline
  imports News_Ingestion News_Poller Catalyst_Matching Catalyst_History Grounding
begin

text \<open>
  The evidence pipeline of \<open>apps/worker-news/pipeline.py\<close>: it composes the collection of news, their
  matching with an Event, the grounded structuring and the revision of the Event's evidence.  What
  lies outside the program is the argument \<open>evidence_world\<close> of each operation: the feeds, the language
  model and the supplemental search, which may raise.
\<close>

section \<open>State and environment\<close>

record evidence_pipeline =
  ep_store :: news_store
  ep_revisions :: revision_store
  ep_gate :: "search_gate option"

record evidence_setup =
  ew_library :: news_library
  ew_ingestor :: news_ingestor
  ew_poller :: "source_poller option"
  ew_grounding :: grounding_service
  ew_match_config :: match_config

record evidence_world =
  wo_fetch :: fetching
  wo_client :: llm_client
  wo_search :: "(search_request \<Rightarrow> raw_news_item list result) option"

type_synonym 'a evidence_action = "(evidence_pipeline, 'a) action"

definition empty_evidence_pipeline :: "search_gate option \<Rightarrow> evidence_pipeline" where
  "empty_evidence_pipeline gate = \<lparr>ep_store = empty_news_store, ep_revisions = [], ep_gate = gate\<rparr>"

definition on_store :: "(news_store, 'a) action \<Rightarrow> 'a evidence_action" where
  "on_store = zoom ep_store (\<lambda>st s. s\<lparr>ep_store := st\<rparr>)"

definition on_revisions :: "(revision_store, 'a) action \<Rightarrow> 'a evidence_action" where
  "on_revisions = zoom ep_revisions (\<lambda>st s. s\<lparr>ep_revisions := st\<rparr>)"

section \<open>Collection\<close>

record collection_result =
  cq_report :: ingestion_report
  cq_degraded_source_ids :: "string list"

definition sources_degraded :: "collection_result \<Rightarrow> bool" where
  "sources_degraded r \<longleftrightarrow> cq_degraded_source_ids r \<noteq> []"

definition stored_cursors :: "source_poller \<Rightarrow> news_store \<Rightarrow> (string, news_cursor) dict" where
  "stored_cursors p st = foldl (\<lambda>d i. case news_get_cursor st i of None \<Rightarrow> d | Some c \<Rightarrow> dset i c d) []
     (poller_source_ids p)"

definition put_cursors :: "news_cursor list \<Rightarrow> news_store \<Rightarrow> news_store" where
  "put_cursors cs st = foldl (\<lambda>st c. news_put_cursor c st) st cs"

definition collect_news ::
  "evidence_setup \<Rightarrow> evidence_world \<Rightarrow> datetime \<Rightarrow> datetime \<Rightarrow> collection_result evidence_action" where
  "collect_news S w now window_start = (case ew_poller S of
       None \<Rightarrow> raise_act (ValueError ''poller'')
     | Some p \<Rightarrow>
         bind_act (reading (\<lambda>s. poll p (wo_fetch w) (stored_cursors p (ep_store s)) now)) (\<lambda>r.
         seq_act (on_store (changing (put_cursors (pq_cursors r))))
         (bind_act (on_store (ingest_news (ew_library S) (ew_ingestor S) now window_start (pq_items r))) (\<lambda>report.
          ret \<lparr>cq_report = report, cq_degraded_source_ids = degraded_source_ids r\<rparr>))))"

section \<open>Evidence from matched news\<close>

record evidence_outcome =
  eo_event_id :: string
  eo_revision :: evidence_revision
  eo_matches :: "news_theme_match list"
  eo_evidence :: "catalyst_evidence list"
  eo_llm_called :: bool
  eo_llm_record :: "llm_call_record option"
  eo_rejection :: "grounding_rejection option"
  eo_supplemental :: "search_request option"

text \<open>Only articles with a featured title are candidates, also those stored long ago.\<close>

definition local_matches ::
  "evidence_setup \<Rightarrow> theme_context \<Rightarrow> datetime \<Rightarrow> datetime \<Rightarrow> news_store \<Rightarrow> news_theme_match list result" where
  "local_matches S c now window_start st =
     match_theme_to_news (nl_casefold (ew_library S)) c
       (filter (\<lambda>x. is_featured_stock_title (nw_title x))
          (news_search (nl_casefold (ew_library S)) (context_stock_ids c) (theme_keywords c)
             (Some window_start) (Some now) st))
       now (ew_match_config S)"

definition grounding_request_of :: "theme_context \<Rightarrow> news_item list \<Rightarrow> grounding_request" where
  "grounding_request_of c items =
     \<lparr>gq_theme_id = tx_theme_id c, gq_display_name = tx_display_name c,
      gq_candidate_stock_ids = context_stock_ids c, gq_reaction_started_at = tx_activated_at c,
      gq_articles = map (\<lambda>x. \<lparr>gr_news_id = nw_news_id x, gr_publisher = nw_publisher x, gr_title = nw_title x,
        gr_text = groundable_text x, gr_original_url = nw_original_url x,
        gr_published_at = nw_published_at x\<rparr>) items\<rparr>"

definition news_quality_flags :: "news_item \<Rightarrow> string list" where
  "news_quality_flags x =
     (if nw_published_at x = None then [''PUBLISHED_AT_MISSING''] else [])
     @ (if nw_rights_scope x = METADATA_ONLY then [''RIGHTS_LIMITED''] else [])"

text \<open>The entities of the structured catalyst that this article itself contains.\<close>

definition supported_entities :: "grounded_catalyst \<Rightarrow> news_item \<Rightarrow> string list" where
  "supported_entities g x = filter (\<lambda>e. \<not> blank e \<and> occurs e (groundable_text x)) (gd_event_entities g)"

definition evidence_row ::
  "theme_context \<Rightarrow> news_item list \<Rightarrow> grounded_catalyst \<Rightarrow> llm_call_record \<Rightarrow> datetime \<Rightarrow>
   news_theme_match \<Rightarrow> catalyst_evidence option" where
  "evidence_row c items g r now m =
     (case dget (foldl (\<lambda>d x. dset (nw_news_id x) x d) [] items) (nm_news_id m) of None \<Rightarrow> None
      | Some x \<Rightarrow>
          if supported_entities g x = [] then None
          else Some \<lparr>ca_news_id = nm_news_id m, ca_event_id = tx_event_id c, ca_publisher = nw_publisher x,
            ca_title = nw_title x, ca_summary = gd_catalyst_summary g, ca_match_basis = nm_match_basis m,
            ca_entities = supported_entities g x, ca_published_at = nw_published_at x,
            ca_received_at = nw_retrieved_at x, ca_original_url = nw_original_url x,
            ca_quality_flags = news_quality_flags x, ca_extraction_method = LLM_GROUNDED,
            ca_model_name = Some (lc_model_name r), ca_prompt_version = Some (lc_prompt_version r),
            ca_confidence = Some (gd_confidence g), ca_generated_at = now\<rparr>)"

definition evidence_rows ::
  "theme_context \<Rightarrow> news_theme_match list \<Rightarrow> news_item list \<Rightarrow> grounding_outcome \<Rightarrow> datetime \<Rightarrow> catalyst_evidence list" where
  "evidence_rows c matches items g now = (case (go_catalyst g, go_record g) of
       (Some catalyst, Some r) \<Rightarrow> List.map_filter (evidence_row c items catalyst r now) matches
     | _ \<Rightarrow> [])"

section \<open>One Event\<close>

definition submit_evidence ::
  "evidence_setup \<Rightarrow> evidence_world \<Rightarrow> theme_context \<Rightarrow> news_theme_match list \<Rightarrow> datetime \<Rightarrow> bool \<Rightarrow>
   string option \<Rightarrow> search_request option \<Rightarrow> evidence_outcome evidence_action" where
  "submit_evidence S w c matches now degraded after_close supplemental =
     bind_act (reading (\<lambda>s. List.map_filter (\<lambda>m. news_get (ep_store s) (nm_news_id m)) matches)) (\<lambda>items.
     bind_act (pure_act (structure_articles (nl_hash (ew_library S)) (ew_grounding S) (wo_client w)
         (grounding_request_of c items) now)) (\<lambda>g.
     bind_act (reading (\<lambda>s. decide_evidence (nl_hash (ew_library S)) (nl_casefold (ew_library S)) c
         (evidence_rows c matches items g now) now (current_revision (ep_revisions s) (tx_event_id c))
         degraded after_close NO_NEW_CATALYST_AFTER)) (\<lambda>d.
     bind_act (on_revisions (record_revision (tx_event_id c) d now)) (\<lambda>r.
     ret \<lparr>eo_event_id = tx_event_id c, eo_revision = r, eo_matches = matches,
          eo_evidence = evidence_rows c matches items g now, eo_llm_called = go_called g,
          eo_llm_record = go_record g, eo_rejection = go_rejection g, eo_supplemental = supplemental\<rparr>))))"

text \<open>Without a local match the gate may let one supplemental search through.\<close>

definition ask_gate :: "theme_context \<Rightarrow> datetime \<Rightarrow> search_request option evidence_action" where
  "ask_gate c now s = (case ep_gate s of None \<Rightarrow> (s, Inr None)
     | Some g \<Rightarrow> (case request_search c now False g of (g1, d) \<Rightarrow>
         (s\<lparr>ep_gate := Some g1\<rparr>, Inr (case d of Inl denial \<Rightarrow> None | Inr q \<Rightarrow> Some q))))"

definition refresh_event ::
  "evidence_setup \<Rightarrow> evidence_world \<Rightarrow> theme_context \<Rightarrow> datetime \<Rightarrow> datetime \<Rightarrow> bool \<Rightarrow> string option \<Rightarrow>
   evidence_outcome evidence_action" where
  "refresh_event S w c now window_start degraded after_close =
     bind_act (reading (\<lambda>s. local_matches S c now window_start (ep_store s))) (\<lambda>local.
     bind_act (pure_act local) (\<lambda>matches.
       if matches \<noteq> [] then submit_evidence S w c matches now degraded after_close None
       else bind_act (ask_gate c now) (\<lambda>supplemental. case (supplemental, wo_search w) of
           (Some q, Some search) \<Rightarrow>
             bind_act (pure_act (search q)) (\<lambda>raws.
             bind_act (on_store (ingest_news (ew_library S) (ew_ingestor S) now window_start raws)) (\<lambda>_.
             bind_act (reading (\<lambda>s. local_matches S c now window_start (ep_store s))) (\<lambda>again.
             bind_act (pure_act again) (\<lambda>matches.
               submit_evidence S w c matches now degraded after_close (Some q)))))
         | _ \<Rightarrow> submit_evidence S w c [] now degraded after_close supplemental)))"

section \<open>New articles\<close>

definition affected_events ::
  "evidence_setup \<Rightarrow> news_item list \<Rightarrow> theme_context list \<Rightarrow> datetime \<Rightarrow> string list result" where
  "affected_events S items contexts now = map_sum id (map nm_event_id \<circ> concat)
     (map_result (\<lambda>x. match_news_to_events (nl_casefold (ew_library S)) x contexts now (ew_match_config S)) items)"

definition on_news_created ::
  "evidence_setup \<Rightarrow> evidence_world \<Rightarrow> news_item list \<Rightarrow> theme_context list \<Rightarrow> datetime \<Rightarrow> datetime \<Rightarrow> bool \<Rightarrow>
   evidence_outcome list evidence_action" where
  "on_news_created S w items contexts now window_start degraded =
     bind_act (pure_act (affected_events S items contexts now)) (\<lambda>affected.
       collecting (\<lambda>c. refresh_event S w c now window_start degraded None)
         (filter (\<lambda>c. tx_event_id c \<in> set affected) contexts))"

section \<open>Sequences of operations\<close>

datatype evidence_call =
    Collect evidence_world datetime datetime
  | Refresh evidence_world theme_context datetime datetime bool "string option"
  | News_Created evidence_world "news_item list" "theme_context list" datetime datetime bool

fun evidence_call_step :: "evidence_setup \<Rightarrow> (evidence_pipeline, evidence_call, evidence_outcome list) step" where
  "evidence_call_step S s (Collect w now window_start) =
     bind_act (collect_news S w now window_start) (\<lambda>_. ret []) s"
| "evidence_call_step S s (Refresh w c now window_start degraded after_close) =
     bind_act (refresh_event S w c now window_start degraded after_close) (\<lambda>x. ret [x]) s"
| "evidence_call_step S s (News_Created w items contexts now window_start degraded) =
     on_news_created S w items contexts now window_start degraded s"

end
