(* ===== verification/Evidence_Safety.thy ===== *)
theory Evidence_Safety
  imports Evidence_Pipeline
begin

text \<open>
  What the evidence pipeline keeps over any sequence of its operations: its news store is one the
  ingestion builds, its revisions are one the decisions build, and the evidence of every decision ever
  taken is grounded in articles of the store.
\<close>

section \<open>Grounded rows\<close>

definition row_grounded ::
  "evidence_setup \<Rightarrow> news_store \<Rightarrow> theme_context \<Rightarrow> datetime \<Rightarrow> catalyst_evidence \<Rightarrow> bool" where
  "row_grounded S st c now e \<longleftrightarrow> ca_event_id e = tx_event_id c \<and>
     (\<exists>x m. dget (nx_items st) (ca_news_id e) = Some x \<and> is_featured_stock_title (nw_title x)
        \<and> evaluate_match (nl_casefold (ew_library S)) x c now THEME_TO_NEWS (ew_match_config S) = Inr (Some m)
        \<and> ca_match_basis e = nm_match_basis m \<and> ca_title e = nw_title x \<and> ca_publisher e = nw_publisher x
        \<and> ca_entities e \<noteq> [] \<and> (\<forall>t\<in>set (ca_entities e). \<not> blank t \<and> occurs t (groundable_text x)))"

fun op_grounded :: "evidence_setup \<Rightarrow> news_store \<Rightarrow> evidence_op \<Rightarrow> bool" where
  "op_grounded S st (Evidence_Op c evidence now degraded after_close) \<longleftrightarrow>
     (\<forall>e\<in>set evidence. row_grounded S st c now e)"

lemma op_grounded_extends: "op_grounded S st x \<Longrightarrow> extends st st1 \<Longrightarrow> op_grounded S st1 x"
  by (cases x) (fastforce simp: row_grounded_def extends_def)

lemma foldl_dset_Some:
  "dget (foldl (\<lambda>d x. dset (f x) x d) d xs) k = Some x \<Longrightarrow> dget d k = Some x \<or> (x \<in> set xs \<and> f x = k)"
  by (induction xs arbitrary: d) (fastforce split: if_splits)+

lemma set_map_filter: "set (List.map_filter f xs) = {y. \<exists>x\<in>set xs. f x = Some y}"
  by (force simp: List.map_filter_def image_iff)

text \<open>Searching the store gives stored items, found again under their identifiers.\<close>

lemma news_search_stored:
  assumes "news_store_ok casefold st" "distinct (dkeys (nx_items st))"
    and "x \<in> set (news_search cf stocks keywords since until st)"
  shows "dget (nx_items st) (nw_news_id x) = Some x"
proof -
  from assms(3) obtain i where "(i, x) \<in> set (nx_items st)" by (auto simp: news_search_def Let_def)
  then have "dget (nx_items st) i = Some x" using assms(2) by simp
  with indexed_itemsD(1) [OF assms(1) this] show ?thesis by simp
qed

lemma evidence_rows_grounded:
  assumes ok: "news_store_ok casefold st" "distinct (dkeys (nx_items st))"
    and ms: "local_matches S c now ws st = Inr ms"
    and e: "e \<in> set (evidence_rows c ms (List.map_filter (\<lambda>m. news_get st (nm_news_id m)) ms) g now)"
  shows "row_grounded S st c now e"
proof -
  let ?items = "List.map_filter (\<lambda>m. news_get st (nm_news_id m)) ms"
  from e obtain catalyst r m where m: "m \<in> set ms" and row: "evidence_row c ?items catalyst r now m = Some e"
    by (auto simp: evidence_rows_def set_map_filter split: option.splits)
  from row obtain y where y: "dget (foldl (\<lambda>d x. dset (nw_news_id x) x d) [] ?items) (nm_news_id m) = Some y"
    by (auto simp: evidence_row_def split: option.splits)
  from foldl_dset_Some [OF y] have "y \<in> set ?items" and "nw_news_id y = nm_news_id m" by auto
  then have "\<exists>m' :: news_theme_match. news_get st (nm_news_id m') = Some y" unfolding set_map_filter by blast
  then have st_y: "dget (nx_items st) (nm_news_id m) = Some y"
    using indexed_itemsD(1) [OF ok(1)] \<open>nw_news_id y = nm_news_id m\<close> by (auto simp: news_get_def)
  from m obtain x where x: "x \<in> set (news_search (nl_casefold (ew_library S)) (context_stock_ids c) (theme_keywords c)
        (Some ws) (Some now) st)" "is_featured_stock_title (nw_title x)"
      and match: "evaluate_match (nl_casefold (ew_library S)) x c now THEME_TO_NEWS (ew_match_config S) = Inr (Some m)"
    using set_match_theme_to_news [OF ms [unfolded local_matches_def]] by auto
  have "nm_news_id m = nw_news_id x" using evaluate_match_Some [OF match] by simp
  with news_search_stored [OF ok x(1)] st_y have "y = x" by simp
  with row y st_y x(2) match show ?thesis
    by (auto simp: evidence_row_def row_grounded_def supported_entities_def split: if_splits)
qed

section \<open>The invariant\<close>

definition pipeline_inv :: "evidence_setup \<Rightarrow> evidence_pipeline \<Rightarrow> bool" where
  "pipeline_inv S s \<longleftrightarrow> news_inv (ew_library S) (ew_ingestor S) (ep_store s)
     \<and> distinct (dkeys (nx_items (ep_store s)))
     \<and> (\<exists>ops. ep_revisions s = run (evidence_step (nl_hash (ew_library S)) (nl_casefold (ew_library S))) [] ops
          \<and> (\<forall>x\<in>set ops. op_grounded S (ep_store s) x))"

lemma pipeline_invD:
  assumes "pipeline_inv S s"
  shows "news_store_ok (nl_casefold (ew_library S)) (ep_store s)" "distinct (dkeys (nx_items (ep_store s)))"
    "news_inv (ew_library S) (ew_ingestor S) (ep_store s)"
  using assms by (auto simp: pipeline_inv_def news_inv_def)

lemma pipeline_inv_store:
  assumes "pipeline_inv S s" "news_inv (ew_library S) (ew_ingestor S) st" "distinct (dkeys (nx_items st))"
    "extends (ep_store s) st"
  shows "pipeline_inv S (s\<lparr>ep_store := st\<rparr>)"
  using assms by (auto simp: pipeline_inv_def intro: op_grounded_extends)

lemma ingest_distinct:
  assumes "distinct (dkeys (nx_items st))"
  shows "distinct (dkeys (nx_items (fst (ingest_news L g now ws raws st))))"
  unfolding fst_ingest
proof (rule collecting_keeps [where P = "\<lambda>st. distinct (dkeys (nx_items st))"])
  show "distinct (dkeys (nx_items (fst (ingest_one L g now ws raw st))))" if "distinct (dkeys (nx_items st))" for raw st
    using that
    by (auto simp: ingest_one_def bind_act_def pure_act_def reading_def ret_def news_upsert_def
        split: option.splits sum.splits prod.splits bool.splits if_splits)
qed (rule assms)

lemma triple_fst: "(\<And>s. P s \<Longrightarrow> Q (fst (m s))) \<Longrightarrow> triple P m (\<lambda>_. Q) (\<lambda>_. Q)"
  by (auto simp: triple_def split: prod.split sum.split) (metis fst_conv)+

lemma keeps_ingest: "keeps (pipeline_inv S) (on_store (ingest_news (ew_library S) (ew_ingestor S) now ws raws))"
proof -
  have "pipeline_inv S (s\<lparr>ep_store := fst (ingest_news (ew_library S) (ew_ingestor S) now ws raws (ep_store s))\<rparr>)"
    if "pipeline_inv S s" for s
    using pipeline_invD [OF that] ingest_extends [of "ew_library S" "ep_store s"]
    by (intro pipeline_inv_store [OF that]) (auto simp: ingest_inv ingest_distinct)
  then show ?thesis
    by (intro triple_fst) (simp add: on_store_def zoom_def case_prod_beta)
qed

lemma put_cursors_fields:
  "nx_items (put_cursors cs st) = nx_items st" "nx_by_canonical_url (put_cursors cs st) = nx_by_canonical_url st"
  "nx_by_title_key (put_cursors cs st) = nx_by_title_key st"
  by (induction cs arbitrary: st) (simp_all add: put_cursors_def news_put_cursor_def)

lemma keeps_put_cursors: "keeps (pipeline_inv S) (on_store (changing (put_cursors cs)))"
proof -
  have "pipeline_inv S (s\<lparr>ep_store := put_cursors cs (ep_store s)\<rparr>)" if "pipeline_inv S s" for s
    using pipeline_invD [OF that]
    by (intro pipeline_inv_store [OF that])
      (auto simp: news_inv_def news_store_ok_def indexed_items_def index_sound_def extends_def put_cursors_fields)
  then show ?thesis by (simp add: triple_def on_store_def zoom_def changing_def)
qed

lemma keeps_ask_gate: "keeps (pipeline_inv S) (ask_gate c now)"
  by (auto simp: triple_def ask_gate_def pipeline_inv_def split: option.splits prod.splits)

text \<open>Submitting is one step of the decisions, for the rows of the articles at hand.\<close>

lemma record_revision_Inr:
  obtains st r where "record_revision e d now st0 = (st, Inr r)" "current_revision st e = Some r"
    "vr_evidence_status r = ed_evidence_status d" "vr_summary r = ed_summary d" "vr_news_ids r = ed_news_ids d"
proof (cases rule: record_revision_cases [where st = st0 and event_id = e and d = d and now = now])
  case (same r)
  then show thesis
    by (intro that [of "fst (record_revision e d now st0)" r])
      (auto simp: prod_eq_iff current_revision_eq revision_unchanged_def)
next
  case new
  then show thesis
    by (intro that [of "fst (record_revision e d now st0)" "decided_revision st0 e d now"])
      (auto simp: prod_eq_iff current_revision_eq decided_revision_def)
qed

lemma submit_evidence_cases:
  fixes S c ms s now w
  defines "items \<equiv> List.map_filter (\<lambda>m. news_get (ep_store s) (nm_news_id m)) ms"
  obtains (raised) e where "submit_evidence S w c ms now degraded after_close q s = (s, Inl e)"
    | (decided) g st r where "evidence_step (nl_hash (ew_library S)) (nl_casefold (ew_library S)) (ep_revisions s)
          (Evidence_Op c (evidence_rows c ms items g now) now degraded after_close) = (st, Inr r)"
      "submit_evidence S w c ms now degraded after_close q s = (s\<lparr>ep_revisions := st\<rparr>,
         Inr \<lparr>eo_event_id = tx_event_id c, eo_revision = r, eo_matches = ms,
           eo_evidence = evidence_rows c ms items g now, eo_llm_called = go_called g,
           eo_llm_record = go_record g, eo_rejection = go_rejection g, eo_supplemental = q\<rparr>)"
      "current_revision st (tx_event_id c) = Some r"
proof (cases "structure_articles (nl_hash (ew_library S)) (ew_grounding S) (wo_client w) (grounding_request_of c items) now")
  case (Inl e)
  then show thesis
    by (intro raised) (simp add: submit_evidence_def items_def bind_act_def reading_def pure_act_def)
next
  case (Inr g)
  let ?x = "Evidence_Op c (evidence_rows c ms items g now) now degraded after_close"
  let ?d = "decision_of (nl_hash (ew_library S)) (nl_casefold (ew_library S)) (ep_revisions s) ?x"
  obtain st r where r: "record_revision (tx_event_id c) ?d now (ep_revisions s) = (st, Inr r)"
      "current_revision st (tx_event_id c) = Some r"
    by (rule record_revision_Inr)
  show thesis
    by (rule decided [of g st r])
      (use Inr r in \<open>simp_all add: submit_evidence_def items_def bind_act_def reading_def pure_act_def
        on_revisions_def zoom_def ret_def evidence_step_def\<close>)
qed

lemma submit_keeps:
  assumes "pipeline_inv S s" "local_matches S c now ws (ep_store s) = Inr ms"
  shows "pipeline_inv S (fst (submit_evidence S w c ms now degraded after_close q s))"
proof (cases rule: submit_evidence_cases [where S = S and w = w and c = c and ms = ms and now = now
      and degraded = degraded and after_close = after_close and q = q and s = s])
  case (raised e)
  with assms(1) show ?thesis by simp
next
  case (decided g st r)
  let ?step = "evidence_step (nl_hash (ew_library S)) (nl_casefold (ew_library S))"
  let ?x = "Evidence_Op c (evidence_rows c ms (List.map_filter (\<lambda>m. news_get (ep_store s) (nm_news_id m)) ms) g now)
    now degraded after_close"
  from assms(1) obtain ops where ops: "ep_revisions s = run ?step [] ops" "\<forall>x\<in>set ops. op_grounded S (ep_store s) x"
    by (auto simp: pipeline_inv_def)
  have "st = run ?step [] (ops @ [?x])" using decided(1) ops(1) by simp
  moreover have "op_grounded S (ep_store s) ?x"
    using evidence_rows_grounded [OF pipeline_invD(1,2) [OF assms(1)] assms(2)] by simp
  ultimately have "\<exists>ops. st = run ?step [] ops \<and> (\<forall>x\<in>set ops. op_grounded S (ep_store s) x)"
    using ops(2) by (intro exI [of _ "ops @ [?x]"]) auto
  then show ?thesis using assms(1) by (simp add: decided(2) pipeline_inv_def)
qed

lemma keeps_submit:
  "triple (\<lambda>s. pipeline_inv S s \<and> local_matches S c now ws (ep_store s) = Inr ms)
     (submit_evidence S w c ms now degraded after_close q) (\<lambda>_. pipeline_inv S) (\<lambda>_. pipeline_inv S)"
  by (rule triple_fst) (blast intro: submit_keeps)

text \<open>Reading the local matches and going on with them.\<close>

lemma keeps_local_matches:
  assumes "\<And>ms. triple (\<lambda>s. pipeline_inv S s \<and> local_matches S c now ws (ep_store s) = Inr ms) (f ms)
    (\<lambda>_. pipeline_inv S) (\<lambda>_. pipeline_inv S)"
  shows "keeps (pipeline_inv S)
    (bind_act (reading (\<lambda>s. local_matches S c now ws (ep_store s))) (\<lambda>r. bind_act (pure_act r) f))"
proof (rule triple_read_bind)
  fix r
  show "triple (\<lambda>s. pipeline_inv S s \<and> r = local_matches S c now ws (ep_store s)) (bind_act (pure_act r) f)
      (\<lambda>_. pipeline_inv S) (\<lambda>_. pipeline_inv S)"
    by (rule triple_bind [where R = "\<lambda>ms s. pipeline_inv S s \<and> local_matches S c now ws (ep_store s) = Inr ms"])
      (auto intro!: triple_pure assms)
qed

lemma keeps_weaken_pre:
  "triple P m Q E \<Longrightarrow> (\<And>s. P' s \<Longrightarrow> P s) \<Longrightarrow> triple P' m Q E"
  by (erule triple_weaken) auto

lemma ask_gate_store: "ep_store (fst (ask_gate c now s)) = ep_store s"
  by (simp add: ask_gate_def split: option.split prod.split)

lemma keeps_refresh: "keeps (pipeline_inv S) (refresh_event S w c now ws degraded after_close)"
  unfolding refresh_event_def
proof (rule keeps_local_matches)
  fix ms
  let ?local = "\<lambda>ms s. pipeline_inv S s \<and> local_matches S c now ws (ep_store s) = Inr ms"
  have gate: "triple (?local []) (ask_gate c now) (\<lambda>_. ?local []) (\<lambda>_. pipeline_inv S)"
    by (rule triple_weaken [OF triple_fst [where P = "?local []" and Q = "?local []"]])
      (auto simp: ask_gate_store intro: keeps_fst [OF keeps_ask_gate])
  have search: "keeps (pipeline_inv S)
      (bind_act (pure_act found) (\<lambda>raws.
       bind_act (on_store (ingest_news (ew_library S) (ew_ingestor S) now ws raws)) (\<lambda>_.
       bind_act (reading (\<lambda>s. local_matches S c now ws (ep_store s))) (\<lambda>again.
       bind_act (pure_act again) (\<lambda>matches. submit_evidence S w c matches now degraded after_close q)))))" for found q
    by (rule triple_bind [where R = "\<lambda>_. pipeline_inv S"], rule triple_pure, simp_all)
      (rule triple_bind [OF keeps_ingest], rule keeps_local_matches, rule keeps_submit)
  show "triple (?local ms) (if ms \<noteq> [] then submit_evidence S w c ms now degraded after_close None
      else bind_act (ask_gate c now) (\<lambda>supplemental. case (supplemental, wo_search w) of
           (Some q, Some search) \<Rightarrow>
             bind_act (pure_act (search q)) (\<lambda>raws.
             bind_act (on_store (ingest_news (ew_library S) (ew_ingestor S) now ws raws)) (\<lambda>_.
             bind_act (reading (\<lambda>s. local_matches S c now ws (ep_store s))) (\<lambda>again.
             bind_act (pure_act again) (\<lambda>matches.
               submit_evidence S w c matches now degraded after_close (Some q)))))
         | _ \<Rightarrow> submit_evidence S w c [] now degraded after_close supplemental))
      (\<lambda>_. pipeline_inv S) (\<lambda>_. pipeline_inv S)"
  proof (cases "ms = []")
    case True
    then show ?thesis
      by (simp, intro triple_bind [OF gate])
        (auto split: option.split intro: keeps_submit keeps_weaken_pre [OF search])
  qed (simp add: keeps_submit)
qed

lemma keeps_collect: "keeps (pipeline_inv S) (collect_news S w now ws)"
  unfolding collect_news_def
  by (cases "ew_poller S")
    (auto intro!: triple_raise triple_ret triple_bind [where R = "\<lambda>_. pipeline_inv S"] triple_reading
      keeps_put_cursors keeps_ingest)

lemma keeps_on_news_created: "keeps (pipeline_inv S) (on_news_created S w items contexts now ws degraded)"
  unfolding on_news_created_def
  by (rule triple_bind [where R = "\<lambda>_. pipeline_inv S"])
    (auto intro!: triple_pure triple_collecting keeps_refresh)

lemma keeps_call: "keeps (pipeline_inv S) (\<lambda>s. evidence_call_step S s c)"
  by (cases c)
    (auto intro!: keeps_on_news_created triple_bind [OF keeps_collect] triple_bind [OF keeps_refresh] triple_ret)

interpretation evidence_pipeline: invariant_machine "evidence_call_step S" "pipeline_inv S" for S
  by unfold_locales (rule keeps_fst [OF keeps_call])

lemma pipeline_inv_empty: "pipeline_inv S (empty_evidence_pipeline gate)"
  by (auto simp: pipeline_inv_def empty_evidence_pipeline_def news_inv_empty empty_news_store_def [symmetric]
      intro: exI [of _ "[]"]) (simp add: empty_news_store_def)

lemmas reachable_pipeline = evidence_pipeline.run_inv [OF pipeline_inv_empty]

section \<open>Collecting is polling\<close>

text \<open>A collection leaves the cursors of one round of polling, whatever the articles were.\<close>

lemma dget_stored_cursors:
  "dget (stored_cursors p st) i = (if i \<in> set (poller_source_ids p) then dget (nx_cursors st) i else None)"
proof -
  have "dget (foldl (\<lambda>d i. case news_get_cursor st i of None \<Rightarrow> d | Some c \<Rightarrow> dset i c d) d is) i
      = (if i \<in> set is \<and> dget (nx_cursors st) i \<noteq> None then dget (nx_cursors st) i else dget d i)" for d "is"
    by (induction "is" arbitrary: d) (auto simp: news_get_cursor_def split: option.splits)
  then show ?thesis by (auto simp: stored_cursors_def)
qed

lemma ingest_one_cursors: "nx_cursors (fst (ingest_one L g now ws raw st)) = nx_cursors st"
  by (auto simp: ingest_one_def bind_act_def pure_act_def reading_def ret_def news_upsert_def
      split: option.splits sum.splits prod.splits bool.splits if_splits)

lemma ingest_cursors: "nx_cursors (fst (ingest_news L g now ws raws st)) = nx_cursors st"
  unfolding fst_ingest
  by (rule collecting_keeps [where P = "\<lambda>st'. nx_cursors st' = nx_cursors st"]) (simp_all add: ingest_one_cursors)

lemma nx_cursors_put_cursors:
  "nx_cursors (put_cursors cs st) = foldl (\<lambda>d c. dset (su_source_id c) c d) (nx_cursors st) cs"
  by (induction cs arbitrary: st) (simp_all add: put_cursors_def news_put_cursor_def)

lemma pq_cursors_stored:
  "pq_cursors (poll p fetch (stored_cursors p st) now) = pq_cursors (poll p fetch (nx_cursors st) now)"
proof -
  have "poll_cursor_of (stored_cursors p st) s = poll_cursor_of (nx_cursors st) s" if "s \<in> set (sl_sources p)" for s
    using that by (simp add: poll_cursor_of_def dget_stored_cursors poller_source_ids_def)
  then show ?thesis by (simp add: pq_cursors_poll)
qed

lemma collect_round:
  assumes "ew_poller S = Some p"
  shows "nx_cursors (ep_store (fst (collect_news S w now ws s))) = poll_round p (nx_cursors (ep_store s)) (now, wo_fetch w)"
  by (simp add: collect_news_def assms bind_act_def reading_def on_store_def zoom_def changing_def ret_def
      poll_round_def pq_cursors_stored ingest_cursors nx_cursors_put_cursors
      prod.case_distrib [where h = fst] case_prod_beta split: sum.split)

section \<open>Properties\<close>


text \<open>A search that finds one featured article, for an Event without local evidence.\<close>

definition example_setup :: evidence_setup where
  "example_setup = \<lparr>ew_library = example_library, ew_ingestor = example_ingestor, ew_poller = None,
     ew_grounding = \<lparr>gs_model_name = ''m'', gs_prompt_version = ''v'', gs_min_confidence = 1 / 2\<rparr>,
     ew_match_config = default_match_config\<rparr>"

definition example_world :: evidence_world where
  "example_world = \<lparr>wo_fetch = (\<lambda>i c. Inl ''down''),
     wo_client = (\<lambda>version payload. Inr (example_answer (JNum (3 / 4)) ''Acme'')),
     wo_search = Some (\<lambda>q. Inr [example_featured])\<rparr>"

definition example_calls :: "evidence_call list" where
  "example_calls = [Refresh example_world example_context (Aware 100 0) (Aware 0 0) False None]"

lemma example_pipeline_history: "map (\<lambda>r. (vr_evidence_status r, vr_news_ids r, vr_decided_at r)) (revision_history (ep_revisions
    (run (evidence_call_step example_setup) (empty_evidence_pipeline (Some default_gate)) example_calls)) ''e1'')
  = [(SINGLE_SOURCE, [''news_https://x.kr/a''], Aware 100 0)]"
  by code_simp


end
