(* ===== verification/Market_Evidence.thy ===== *)
theory Market_Evidence
  imports Market_Lifecycle Evidence_Safety
begin

text \<open>
  The link of \<open>apps/worker-news/market_evidence.py\<close>: the active Events of the market pipeline are
  refreshed by the evidence pipeline, and what was decided is shown with them.
\<close>

record market_evidence =
  me_market :: market_pipeline
  me_evidence :: evidence_pipeline

definition on_market :: "'a pipeline_action \<Rightarrow> (market_evidence, 'a) action" where
  "on_market = zoom me_market (\<lambda>p s. s\<lparr>me_market := p\<rparr>)"

definition on_evidence :: "'a evidence_action \<Rightarrow> (market_evidence, 'a) action" where
  "on_evidence = zoom me_evidence (\<lambda>e s. s\<lparr>me_evidence := e\<rparr>)"

definition refresh_market_evidence ::
  "evidence_setup \<Rightarrow> evidence_world \<Rightarrow> datetime \<Rightarrow> datetime \<Rightarrow> bool \<Rightarrow> (market_evidence, evidence_outcome list) action" where
  "refresh_market_evidence S w now window_start degraded =
     bind_act (reading (active_theme_contexts \<circ> me_market)) (\<lambda>found.
     bind_act (pure_act found) (\<lambda>contexts.
     bind_act (on_evidence (collecting (\<lambda>c. refresh_event S w c now window_start degraded None) contexts)) (\<lambda>outcomes.
     seq_act (on_market (for_each (\<lambda>x. record_evidence (nl_casefold (ew_library S) \<circ> stripped) (eo_revision x) (eo_evidence x))
         outcomes))
       (ret outcomes))))"

section \<open>What a refresh leaves\<close>

lemma current_revision_event_id:
  assumes "histories_ok st" "current_revision st e = Some r"
  shows "vr_event_id r = e"
proof -
  have "r \<in> set (revision_history st e)" using assms(2) by (auto simp: current_revision_eq split: if_splits)
  with assms(1) show ?thesis unfolding histories_ok_def history_ok_def by blast
qed

lemma submit_evidence_Inr:
  assumes "histories_ok (ep_revisions s)"
    and "submit_evidence S w c ms now degraded after_close q s = (s1, Inr x)"
  shows "histories_ok (ep_revisions s1) \<and> vr_event_id (eo_revision x) = tx_event_id c
    \<and> current_revision (ep_revisions s1) (tx_event_id c) = Some (eo_revision x)
    \<and> (\<forall>e. e \<noteq> tx_event_id c \<longrightarrow> revision_history (ep_revisions s1) e = revision_history (ep_revisions s) e)"
proof (cases rule: submit_evidence_cases [where S = S and w = w and c = c and ms = ms and now = now
      and degraded = degraded and after_close = after_close and q = q and s = s])
  case (raised e)
  with assms(2) show ?thesis by simp
next
  case (decided g st r)
  with assms(2) have s1: "ep_revisions s1 = st" and x: "eo_revision x = r" by auto
  have ok: "histories_ok st"
    using evidence_step_ok [OF assms(1)] decided(1) by (metis fst_conv)
  moreover have "revision_history st e = revision_history (ep_revisions s) e" if "e \<noteq> tx_event_id c" for e
    using decided(1) that
    by (cases rule: evidence_step_cases [where H = "nl_hash (ew_library S)" and casefold = "nl_casefold (ew_library S)"
          and st = "ep_revisions s" and x = "Evidence_Op c (evidence_rows c ms (List.map_filter
            (\<lambda>m. news_get (ep_store s) (nm_news_id m)) ms) g now) now degraded after_close"]) (metis fst_conv op_event_id.simps)+
  moreover have "vr_event_id r = tx_event_id c"
    by (rule current_revision_event_id [OF ok decided(3)])
  ultimately show ?thesis using decided(3) by (simp add: s1 x)
qed

lemma refresh_event_Inr:
  assumes "histories_ok (ep_revisions s)" and "refresh_event S w c now ws degraded after_close s = (s1, Inr x)"
  shows "histories_ok (ep_revisions s1) \<and> vr_event_id (eo_revision x) = tx_event_id c
    \<and> current_revision (ep_revisions s1) (tx_event_id c) = Some (eo_revision x)
    \<and> (\<forall>e. e \<noteq> tx_event_id c \<longrightarrow> revision_history (ep_revisions s1) e = revision_history (ep_revisions s) e)"
proof -
  have gate: "ep_revisions s0 = ep_revisions s" if "ask_gate c now s = (s0, r)" for s0 r
    using that by (auto simp: ask_gate_def split: option.splits prod.splits)
  have store: "ep_revisions s0 = ep_revisions s'" if "on_store m s' = (s0, r)" for m s' s0 and r :: "'b result"
    using that by (auto simp: on_store_def zoom_def split: prod.splits)
  obtain s0 ms q where "submit_evidence S w c ms now degraded after_close q s0 = (s1, Inr x)"
      and "ep_revisions s0 = ep_revisions s"
  proof -
    from assms(2) consider ms where "submit_evidence S w c ms now degraded after_close None s = (s1, Inr x)"
      | s2 supplemental where "ask_gate c now s = (s2, Inr supplemental)"
        "(case (supplemental, wo_search w) of
           (Some q, Some search) \<Rightarrow>
             bind_act (pure_act (search q)) (\<lambda>raws.
             bind_act (on_store (ingest_news (ew_library S) (ew_ingestor S) now ws raws)) (\<lambda>_.
             bind_act (reading (\<lambda>s. local_matches S c now ws (ep_store s))) (\<lambda>again.
             bind_act (pure_act again) (\<lambda>matches.
               submit_evidence S w c matches now degraded after_close (Some q)))))
         | _ \<Rightarrow> submit_evidence S w c [] now degraded after_close supplemental) s2 = (s1, Inr x)"
      unfolding refresh_event_def bind_act_Inr_iff reading_Inr_iff pure_act_iff
      by (elim exE conjE) (simp split: if_splits add: bind_act_Inr_iff, blast)
    then show thesis
    proof cases
      case 1
      then show thesis by (rule that) simp
    next
      case (2 s2 supplemental)
      note same = gate [OF 2(1)]
      show thesis
      proof (cases "\<exists>q search. supplemental = Some q \<and> wo_search w = Some search")
        case True
        with 2(2) obtain q raws s3 u ms where "on_store (ingest_news (ew_library S) (ew_ingestor S) now ws raws) s2 = (s3, Inr u)"
            "submit_evidence S w c ms now degraded after_close (Some q) s3 = (s1, Inr x)"
          by (auto simp: act_iffs)
        from that [OF this(2)] store [OF this(1)] same show thesis by simp
      next
        case False
        with 2(2) have "submit_evidence S w c [] now degraded after_close supplemental s2 = (s1, Inr x)"
          by (cases supplemental; cases "wo_search w") auto
        then show thesis using same by (rule that)
      qed
    qed
  qed
  with submit_evidence_Inr [of s0] assms(1) show ?thesis by simp
qed

lemma refreshed_contexts:
  assumes "histories_ok (ep_revisions s)"
    and "collecting (\<lambda>c. refresh_event S w c now ws degraded None) cs s = (s1, Inr xs)"
  shows "(e \<in> tx_event_id ` set cs \<longrightarrow>
      (\<exists>x\<in>set xs. dget (foldl (\<lambda>d x. dset (vr_event_id (eo_revision x)) (f x) d) d xs) e = Some (f x)
         \<and> current_revision (ep_revisions s1) e = Some (eo_revision x)))
    \<and> (e \<notin> tx_event_id ` set cs \<longrightarrow> dget (foldl (\<lambda>d x. dset (vr_event_id (eo_revision x)) (f x) d) d xs) e = dget d e
         \<and> revision_history (ep_revisions s1) e = revision_history (ep_revisions s) e)"
  using assms
proof (induction cs arbitrary: s xs d)
  case Nil
  then show ?case by (simp add: ret_def)
next
  case (Cons c cs)
  from Cons.prems(2) obtain s0 x ys where x: "refresh_event S w c now ws degraded None s = (s0, Inr x)"
    and ys: "collecting (\<lambda>c. refresh_event S w c now ws degraded None) cs s0 = (s1, Inr ys)" and xs: "xs = x # ys"
    by (auto simp: act_iffs)
  note first = refresh_event_Inr [OF Cons.prems(1) x]
  have ok0: "histories_ok (ep_revisions s0)" using first by blast
  note rest = Cons.IH [OF ok0 ys, of "dset (vr_event_id (eo_revision x)) (f x) d"]
  show ?case
  proof (cases "e \<in> tx_event_id ` set cs")
    case True
    with rest show ?thesis by (auto simp: xs)
  next
    case False
    with rest have "current_revision (ep_revisions s1) e = current_revision (ep_revisions s0) e"
      by (simp add: current_revision_eq)
    with False rest first show ?thesis by (auto simp: xs)
  qed
qed

lemma mp_evidence_records:
  "for_each (\<lambda>x. record_evidence folded (eo_revision x) (eo_evidence x)) xs p = (p1, Inr u) \<Longrightarrow>
   mp_evidence p1 = foldl (\<lambda>d x. dset (vr_event_id (eo_revision x)) (evidence_summary folded (eo_revision x) (eo_evidence x)) d)
     (mp_evidence p) xs"
  by (induction xs arbitrary: p) (auto simp: act_iffs record_evidence_def)

section \<open>Properties\<close>

text \<open>
  C38. After a refresh that returns, every active Event of the market shows the status and the summary
  of the current revision of its evidence, and Events that are not active show what they showed.
\<close>

theorem market_evidence_current:
  assumes "active_theme_contexts (me_market s) = Inr contexts"
    and "me_evidence s = run (evidence_call_step S) (empty_evidence_pipeline gate) calls"
    and "refresh_market_evidence S w now ws degraded s = (s1, Inr outcomes)"
  shows "(\<forall>c\<in>set contexts. \<exists>r shown. current_revision (ep_revisions (me_evidence s1)) (tx_event_id c) = Some r
        \<and> dget (mp_evidence (me_market s1)) (tx_event_id c) = Some shown
        \<and> sy_evidence_status shown = vr_evidence_status r \<and> sy_summary shown = vr_summary r)
    \<and> (\<forall>e. e \<notin> tx_event_id ` set contexts \<longrightarrow>
         dget (mp_evidence (me_market s1)) e = dget (mp_evidence (me_market s)) e)"
proof -
  let ?folded = "nl_casefold (ew_library S) \<circ> stripped"
  let ?shown = "\<lambda>x. evidence_summary ?folded (eo_revision x) (eo_evidence x)"
  have inv: "pipeline_inv S (me_evidence s)" unfolding assms(2) by (rule reachable_pipeline)
  then have ok: "histories_ok (ep_revisions (me_evidence s))"
    unfolding pipeline_inv_def by (auto intro: evidence.run_inv [OF histories_ok_empty])
  from assms(1,3) obtain e1 p1 where
      run: "collecting (\<lambda>c. refresh_event S w c now ws degraded None) contexts (me_evidence s) = (e1, Inr outcomes)"
      and shown: "for_each (\<lambda>x. record_evidence ?folded (eo_revision x) (eo_evidence x)) outcomes (me_market s) = (p1, Inr ())"
      and s1: "me_evidence s1 = e1" "me_market s1 = p1"
    by (auto simp: refresh_market_evidence_def on_market_def on_evidence_def act_iffs)
  note facts = refreshed_contexts [OF ok run, of _ ?shown "mp_evidence (me_market s)"]
  have "\<exists>r shown. current_revision (ep_revisions e1) (tx_event_id c) = Some r
      \<and> dget (mp_evidence p1) (tx_event_id c) = Some shown
      \<and> sy_evidence_status shown = vr_evidence_status r \<and> sy_summary shown = vr_summary r" if "c \<in> set contexts" for c
    using facts [of "tx_event_id c"] that
    by (auto simp: mp_evidence_records [OF shown] evidence_summary_def Let_def)
  with facts show ?thesis by (simp add: s1 mp_evidence_records [OF shown])
qed

text \<open>The market after a restart, with the metrics and the activation of its theme, and no news.\<close>

definition active_market :: market_pipeline where
  "active_market = restarted\<lparr>mp_latest_metrics := [(''t'', sample_metric_update)],
     mp_activated_at := [(''t'', Aware 0 0)]\<rparr>"

definition quiet_setup :: evidence_setup where
  "quiet_setup = \<lparr>ew_library = example_library, ew_ingestor = example_ingestor, ew_poller = None,
     ew_grounding = default_grounding ''m'', ew_match_config = default_match_config\<rparr>"

definition example_refresh :: "market_evidence \<times> evidence_outcome list result" where
  "example_refresh = refresh_market_evidence quiet_setup example_world (Aware 100 0) (Aware 0 0) False
     \<lparr>me_market = active_market, me_evidence = empty_evidence_pipeline None\<rparr>"

lemma example_refresh_value:
  "map_sum id (map tx_event_id) (active_theme_contexts active_market) = Inr [''evt_eventkey_d'']
   \<and> map_sum id (map (vr_evidence_status \<circ> eo_revision)) (snd example_refresh) = Inr [SEARCHING]"
  by code_simp

theorem market_evidence_current_witness:
  "\<exists>s1 outcomes shown. example_refresh = (s1, Inr outcomes)
     \<and> dget (mp_evidence (me_market s1)) ''evt_eventkey_d'' = Some shown
     \<and> map (vr_evidence_status \<circ> eo_revision) outcomes = [SEARCHING]"
proof -
  obtain contexts where cs: "active_theme_contexts active_market = Inr contexts"
      "map tx_event_id contexts = [''evt_eventkey_d'']"
    using example_refresh_value by (cases "active_theme_contexts active_market") auto
  obtain s1 outcomes where run: "example_refresh = (s1, Inr outcomes)"
      and status: "map (vr_evidence_status \<circ> eo_revision) outcomes = [SEARCHING]"
  proof (cases "snd example_refresh")
    case (Inr xs)
    then show thesis
      using example_refresh_value by (intro that [of "fst example_refresh" xs]) (simp_all add: prod_eq_iff)
  qed (use example_refresh_value in simp)
  have "active_theme_contexts (me_market \<lparr>me_market = active_market, me_evidence = empty_evidence_pipeline None\<rparr>)
      = Inr contexts"
    "me_evidence \<lparr>me_market = active_market, me_evidence = empty_evidence_pipeline None\<rparr>
      = run (evidence_call_step quiet_setup) (empty_evidence_pipeline None) []"
    using cs(1) by simp_all
  from market_evidence_current [OF this run [unfolded example_refresh_def]] cs(2)
  obtain shown where "dget (mp_evidence (me_market s1)) ''evt_eventkey_d'' = Some shown" by auto
  with run status show ?thesis by (intro exI conjI)
qed

end
