(* ===== verification/Catalyst_Gate.thy ===== *)
theory Catalyst_Gate
  imports Catalyst_History
begin

text \<open>
  The quota and the cool-down of the supplemental search, \<open>SupplementalSearchGate\<close> of
  \<open>packages/catalyst/supplemental.py\<close>, over any sequence of requests.
\<close>

section \<open>The quota of the supplemental search\<close>

text \<open>A sequence of requests for contexts, with the requests the gate let through.\<close>

fun gate_run ::
  "search_gate \<Rightarrow> (theme_context \<times> datetime \<times> bool) list \<Rightarrow> search_gate \<times> search_request list" where
  "gate_run g [] = (g, [])"
| "gate_run g ((c, now, has_local) # rs) =
     (case request_search c now has_local g of (g1, d) \<Rightarrow>
        case gate_run g1 rs of (g2, granted) \<Rightarrow>
          (g2, (case d of Inl denial \<Rightarrow> granted | Inr request \<Rightarrow> request # granted)))"

abbreviation granted_at :: "search_request \<Rightarrow> int" where
  "granted_at q \<equiv> instant (sq_requested_at q)"

abbreviation in_window :: "int \<Rightarrow> timedelta \<Rightarrow> int \<Rightarrow> bool" where
  "in_window u w t \<equiv> u - t < w"

text \<open>
  The gate agrees with what it granted: from now on, the calls it counts in a window are those it let
  through, and it knows the last request of each Event.
\<close>

definition gate_agrees :: "search_gate \<Rightarrow> search_request list \<Rightarrow> int \<Rightarrow> bool" where
  "gate_agrees g granted now \<longleftrightarrow>
     (\<forall>u\<ge>now. filter (in_window u (sg_window g)) (map instant (sg_calls g))
        = filter (in_window u (sg_window g)) (map granted_at granted))
   \<and> (\<forall>q\<in>set granted. granted_at q \<le> now)
   \<and> (\<forall>q\<in>set granted. \<exists>t. dget (sg_last_request g) (sq_event_id q) = Some t \<and> granted_at q \<le> instant t)"

definition within_quota :: "search_gate \<Rightarrow> search_request list \<Rightarrow> bool" where
  "within_quota g granted \<longleftrightarrow>
     (\<forall>u. int (length (filter (\<lambda>q. granted_at q \<le> u \<and> u - granted_at q < sg_window g) granted)) \<le> max 0 (sg_quota g))
   \<and> sorted_wrt (\<lambda>q q'. sq_event_id q = sq_event_id q' \<longrightarrow> sg_cooldown g \<le> granted_at q' - granted_at q) granted"

lemma request_search_cases:
  obtains (denied) denial g1 where "request_search c now has_local g = (g1, Inl denial)"
      "sg_last_request g1 = sg_last_request g" "sg_window g1 = sg_window g" "sg_quota g1 = sg_quota g"
      "sg_cooldown g1 = sg_cooldown g"
      "\<And>u. instant now \<le> u \<Longrightarrow> filter (in_window u (sg_window g)) (map instant (sg_calls g1))
         = filter (in_window u (sg_window g)) (map instant (sg_calls g))"
    | (granted) g1 q where "request_search c now has_local g = (g1, Inr q)"
      "sg_last_request g1 = dset (tx_event_id c) now (sg_last_request g)" "sg_window g1 = sg_window g"
      "sg_quota g1 = sg_quota g" "sg_cooldown g1 = sg_cooldown g" "sq_event_id q = tx_event_id c"
      "sq_requested_at q = now" "\<not> has_local"
      "\<And>t. dget (sg_last_request g) (tx_event_id c) = Some t \<Longrightarrow> sg_cooldown g \<le> instant now - instant t"
      "int (length (filter (in_window (instant now) (sg_window g)) (map instant (sg_calls g)))) < sg_quota g"
      "\<And>u. instant now \<le> u \<Longrightarrow> filter (in_window u (sg_window g)) (map instant (sg_calls g1))
         = filter (in_window u (sg_window g)) (map instant (sg_calls g) @ [instant now])"
proof -
  let ?calls = "filter (\<lambda>t. instant now - instant t < sg_window g) (sg_calls g)"
  have trim: "filter (in_window u (sg_window g)) (map instant ?calls)
      = filter (in_window u (sg_window g)) (map instant (sg_calls g))" if "instant now \<le> u" for u
    using that by (induction "sg_calls g") (auto simp: filter_map intro!: arg_cong [where f = "map instant"] filter_cong)
  have len: "length (filter (in_window (instant now) (sg_window g)) (map instant (sg_calls g))) = length ?calls"
    by (simp add: filter_map comp_def)
  show thesis
  proof (cases "snd (request_search c now has_local g)")
    case (Inl denial)
    show thesis
      by (rule denied [of "fst (request_search c now has_local g)" denial])
        (use Inl trim in \<open>auto simp: request_search_def Let_def split: if_splits option.splits\<close>)
  next
    case (Inr q)
    show thesis
      by (rule granted [of "fst (request_search c now has_local g)" q])
        (use Inr trim len in \<open>auto simp: request_search_def Let_def not_le split: if_splits option.splits\<close>)
  qed
qed

lemma gate_step_granted:
  assumes agrees: "gate_agrees g granted t0" and quota: "within_quota g granted" and le: "t0 \<le> instant now"
    and r: "request_search c now has_local g = (g1, Inr q)"
  shows "gate_agrees g1 (granted @ [q]) (instant now) \<and> within_quota g1 (granted @ [q])"
  using r
proof (cases rule: request_search_cases [where c = c and now = now and has_local = has_local and g = g])
  case (granted g' q')
  have same: "g' = g1" "q' = q" using r granted(1) by simp_all
  note g1 = granted(2-) [unfolded same]
  have at_q: "granted_at q = instant now" by (simp add: g1(6))
  have past: "granted_at q' \<le> instant now" if "q' \<in> set granted" for q'
    using agrees that le by (fastforce simp: gate_agrees_def)
  have calls: "filter (in_window u (sg_window g)) (map instant (sg_calls g))
      = filter (in_window u (sg_window g)) (map granted_at granted)" if "instant now \<le> u" for u
    using agrees that le by (simp add: gate_agrees_def)
  have "filter (in_window u (sg_window g)) (map instant (sg_calls g1))
      = filter (in_window u (sg_window g)) (map granted_at (granted @ [q]))" if "instant now \<le> u" for u
    using g1(10) [OF that] calls [OF that] by (simp add: at_q)
  moreover have "\<exists>t. dget (sg_last_request g1) (sq_event_id q') = Some t \<and> granted_at q' \<le> instant t"
    if "q' \<in> set (granted @ [q])" for q'
    using that past agrees by (auto simp: g1(1,5,6) gate_agrees_def)
  ultimately have "gate_agrees g1 (granted @ [q]) (instant now)"
    using past by (auto simp: gate_agrees_def g1(2) at_q)
  moreover have "int (length (filter (\<lambda>x. granted_at x \<le> u \<and> u - granted_at x < sg_window g) (granted @ [q])))
      \<le> max 0 (sg_quota g)" for u
  proof (cases "instant now \<le> u")
    case False
    then show ?thesis using quota by (simp add: within_quota_def at_q)
  next
    case True
    have "length (filter (\<lambda>x. granted_at x \<le> u \<and> u - granted_at x < sg_window g) granted)
        \<le> length (filter (\<lambda>x. in_window (instant now) (sg_window g) (granted_at x)) granted)"
      by (rule length_filter_mono) (use True in auto)
    also have "\<dots> = length (filter (in_window (instant now) (sg_window g)) (map instant (sg_calls g)))"
      by (subst calls) (simp_all add: filter_map comp_def)
    finally show ?thesis using g1(9) by (auto split: if_splits)
  qed
  moreover have "sg_cooldown g \<le> granted_at q - granted_at q'"
    if "q' \<in> set granted" "sq_event_id q' = sq_event_id q" for q'
  proof -
    from agrees that obtain t where t: "dget (sg_last_request g) (tx_event_id c) = Some t" "granted_at q' \<le> instant t"
      by (auto simp: gate_agrees_def g1(5))
    with g1(8) [OF t(1)] show ?thesis by (simp add: at_q)
  qed
  ultimately show ?thesis
    using quota by (auto simp: within_quota_def g1(2-4) sorted_wrt_append)
qed (use r in simp)

lemma gate_step_denied:
  assumes "gate_agrees g granted t0" "within_quota g granted" "t0 \<le> instant now"
    and r: "request_search c now has_local g = (g1, Inl denial)"
  shows "gate_agrees g1 granted (instant now) \<and> within_quota g1 granted"
  using r
proof (cases rule: request_search_cases [where c = c and now = now and has_local = has_local and g = g])
  case (denied denial' g')
  with r have "g' = g1" by simp
  note g1 = denied(2-) [unfolded this]
  have "granted_at q \<le> instant now" if "q \<in> set granted" for q
    using assms(1,3) that by (fastforce simp: gate_agrees_def)
  with assms(1,3) g1(5) have "gate_agrees g1 granted (instant now)"
    by (simp add: gate_agrees_def g1(1,2))
  then show ?thesis using assms(2) by (simp add: within_quota_def g1(2-4))
qed (use r in simp)

lemma gate_run_quota:
  assumes "gate_agrees g granted t0" "within_quota g granted"
    and "sorted (t0 # map (\<lambda>(c, now, has_local). instant now) rs)"
  shows "within_quota (fst (gate_run g rs)) (granted @ snd (gate_run g rs))"
  using assms
proof (induction rs arbitrary: g granted t0)
  case (Cons r rs)
  obtain c now has_local where r: "r = (c, now, has_local)" by (cases r)
  obtain g1 d where d: "request_search c now has_local g = (g1, d)" by (cases "request_search c now has_local g")
  have "t0 \<le> instant now" and sorted: "sorted (instant now # map (\<lambda>(c, now, has_local). instant now) rs)"
    using Cons.prems(3) by (auto simp: r)
  show ?case
  proof (cases d)
    case (Inl denial)
    with gate_step_denied [OF Cons.prems(1,2) \<open>t0 \<le> instant now\<close>] d have
      "gate_agrees g1 granted (instant now)" "within_quota g1 granted" by auto
    from Cons.IH [OF this sorted] show ?thesis by (cases "gate_run g1 rs") (simp add: r d Inl)
  next
    case (Inr q)
    with gate_step_granted [OF Cons.prems(1,2) \<open>t0 \<le> instant now\<close>] d have
      "gate_agrees g1 (granted @ [q]) (instant now)" "within_quota g1 (granted @ [q])" by auto
    from Cons.IH [OF this sorted] show ?thesis by (cases "gate_run g1 rs") (simp add: r d Inr)
  qed
qed simp

lemma gate_run_settings:
  "sg_window (fst (gate_run g rs)) = sg_window g \<and> sg_quota (fst (gate_run g rs)) = sg_quota g
   \<and> sg_cooldown (fst (gate_run g rs)) = sg_cooldown g"
proof (induction g rs rule: gate_run.induct)
  case (2 g c now has_local rs)
  show ?case
    by (cases rule: request_search_cases [where c = c and now = now and has_local = has_local and g = g])
      (use 2 in \<open>auto split: prod.splits\<close>)
qed simp

text \<open>
  C34. With a clock that does not go back, no window ever holds more supplemental searches than the
  quota, two searches for the same Event are at least the cool-down apart, and none is made for an
  Event with local evidence.
\<close>

theorem supplemental_quota:
  assumes "sg_calls g = []" "sg_last_request g = []"
    and "sorted (map (\<lambda>(c, now, has_local). instant now) requests)"
  shows "within_quota g (snd (gate_run g requests))
    \<and> (\<forall>q\<in>set (snd (gate_run g requests)). \<exists>c now. (c, now, False) \<in> set requests
         \<and> sq_event_id q = tx_event_id c \<and> sq_requested_at q = now)"
proof
  show "within_quota g (snd (gate_run g requests))"
  proof (cases requests)
    case Nil
    then show ?thesis by (simp add: within_quota_def)
  next
    case (Cons r rs)
    define t0 where "t0 = (case r of (c, now, has_local) \<Rightarrow> instant now)"
    have "gate_agrees g [] t0" "within_quota g []"
      using assms(1,2) by (simp_all add: gate_agrees_def within_quota_def)
    from gate_run_quota [OF this, of requests] assms(3)
    have "within_quota (fst (gate_run g requests)) (snd (gate_run g requests))"
      by (auto simp: Cons t0_def)
    then show ?thesis using gate_run_settings [of g requests] by (simp add: within_quota_def)
  qed
  show "\<forall>q\<in>set (snd (gate_run g requests)). \<exists>c now. (c, now, False) \<in> set requests
      \<and> sq_event_id q = tx_event_id c \<and> sq_requested_at q = now"
  proof (induction g requests rule: gate_run.induct)
    case (2 g c now has_local rs)
    show ?case
      by (cases rule: request_search_cases [where c = c and now = now and has_local = has_local and g = g])
        (use 2 in \<open>fastforce split: prod.splits\<close>)+
  qed simp
qed

text \<open>A gate of one call per window, asked for two Events.\<close>

definition example_requests :: "(theme_context \<times> datetime \<times> bool) list" where
  "example_requests = [(example_context, Aware 0 0, False),
     (example_context\<lparr>tx_event_id := ''e2''\<rparr>, Aware 5 0, False), (example_context, Aware 3600000000 0, False)]"

theorem supplemental_quota_witness:
  "within_quota (default_gate\<lparr>sg_quota := 1\<rparr>) (snd (gate_run (default_gate\<lparr>sg_quota := 1\<rparr>) example_requests))
   \<and> map sq_event_id (snd (gate_run (default_gate\<lparr>sg_quota := 1\<rparr>) example_requests)) = [''e1'', ''e1'']"
proof
  show "within_quota (default_gate\<lparr>sg_quota := 1\<rparr>) (snd (gate_run (default_gate\<lparr>sg_quota := 1\<rparr>) example_requests))"
    by (rule conjunct1 [OF supplemental_quota]) (simp_all add: default_gate_def example_requests_def)
qed code_simp

end
