(* ===== verification/Spec2Isabelle.thy ===== *)
theory Spec2Isabelle
  imports Attention Hysteresis Reconciliation Aggregation Snapshots Live_Handover Day_Loop
    Market_Ranks Market_Evidence Catalyst_Gate Trading_Day
begin

text \<open>
  The live engine of dayjaview: from the messages of the Kiwoom market data service to the published
  rankings of themes and the record of their Events, and from news articles to the evidence shown
  with an Event.  Paths are under \<open>src/packages/\<close> unless they start with \<open>apps\<close>.

  \<^bold>\<open>The program.\<close>  \<open>adapters/kiwoom\<close> holds the connection: the gateway reads raw
  envelopes from a port, the normalizer turns them into canonical events, the order fence accepts or
  rejects them, and the state of the market and the subscriptions follow.  \<open>pipeline/live.py\<close>
  polls the gateway once per tick and hands accepted observations over.  \<open>pipeline/market.py\<close> is
  the pipeline of one day: an observation enters the hot state (\<open>realtime/hot_state.py\<close>) and
  marks its themes (\<open>realtime/aggregation.py\<close>); a publication recomputes the marked themes
  (\<open>calculations/\<close>), evaluates their lifecycle (\<open>realtime/hysteresis.py\<close>), writes Events
  (\<open>events/\<close>), keeps minute histories (\<open>pipeline/history.py\<close>) and publishes snapshots
  (\<open>realtime/snapshots.py\<close>).  \<open>pipeline/runner.py\<close> drives a day and goes from day to day.
  After the close \<open>events/reconciliation.py\<close> confirms Events by articles.  Beside it
  \<open>apps/worker-news/pipeline.py\<close> collects articles (\<open>news/\<close>), matches them with active
  Events (\<open>catalyst/matching.py\<close>), has a language model structure them and checks its answer
  (\<open>llm/grounding.py\<close>), decides the status of the evidence (\<open>catalyst/policy.py\<close>), appends a
  revision (\<open>catalyst/revisions.py\<close>), and \<open>market_evidence.py\<close> hands it to the market pipeline.

  \<^bold>\<open>The theories.\<close>
  \<^item> \<open>Prelude\<close>: results as sums, validation, dictionaries, timestamps, JSON, runs of a step
    function and the locale of machines with an invariant.  \<open>Actions\<close>: stateful methods as
    actions, with triples.  \<open>Decimal_Context\<close>: rounding of \<open>decimal\<close>.
  \<^item> \<open>Domain_State\<close>, \<open>Domain_Models\<close> (\<open>domain/\<close>): the three status axes and their
    transitions; value objects, point-in-time selection, coverage.
  \<^item> \<open>Weights\<close>, \<open>Theme_Metrics\<close>, \<open>Turnover\<close>, \<open>Attention\<close>
    (\<open>calculations/\<close>): capped weights, metrics, turnover against baselines, attention intervals.
  \<^item> \<open>Hysteresis\<close>: the reducer of activation decisions.
  \<^item> \<open>Event_Models\<close>, \<open>Event_Store\<close>, \<open>Event_Writer\<close>, \<open>Reconciliation\<close>
    (\<open>events/\<close>): commands, the in-memory store with its transactions and outbox, the writer, the
    reconciliation after the close.
  \<^item> \<open>Hot_State\<close>, \<open>Aggregation\<close>, \<open>Snapshots\<close> (\<open>realtime/\<close>).
  \<^item> \<open>Kiwoom_Contract\<close>, \<open>Normalizer\<close>, \<open>Subscriptions\<close>, \<open>Reconnect\<close>,
    \<open>Gateway\<close>, \<open>Gateway_Safety\<close>, \<open>Kiwoom_Fixture\<close> (\<open>adapters/kiwoom/\<close>).
  \<^item> \<open>Live_Runner\<close>, \<open>Live_Handover\<close> (\<open>pipeline/live.py\<close>).
  \<^item> \<open>Trading_Day\<close>, \<open>Publish_Loop\<close>, \<open>Day_Loop\<close>, \<open>Intraday_History\<close>,
    \<open>Public_Views\<close>, \<open>Market_Pipeline\<close>, \<open>Market_Reads\<close>, \<open>Market_Tracking\<close>,
    \<open>Market_Lifecycle\<close>, \<open>Market_Ranks\<close> (\<open>pipeline/\<close>, \<open>catalyst/projection.py\<close>).

  \<^item> \<open>News_Text\<close>, \<open>News_Store\<close>, \<open>News_Ingestion\<close>, \<open>News_Poller\<close> (\<open>news/\<close>):
    titles and addresses, the store and what ingestion keeps of it, the polling of the sources.
  \<^item> \<open>Catalyst_Models\<close>, \<open>Catalyst_Scores\<close>, \<open>Catalyst_Matching\<close>, \<open>Catalyst_Policy\<close>,
    \<open>Catalyst_History\<close>, \<open>Catalyst_Gate\<close> (\<open>catalyst/\<close>), \<open>Grounding\<close> (\<open>llm/\<close>).
  \<^item> \<open>Evidence_Pipeline\<close>, \<open>Evidence_Safety\<close>, \<open>Market_Evidence\<close>
    (\<open>apps/worker-news/\<close>): the composition of the two and its link to the market pipeline.

  A dataclass is a record with the fields of the source, prefixed per type; its validation
  \<open>__post_init__\<close> is a function \<open>_init\<close> to a result.  A class with state is a record of its
  state; a method is a function from the state (or an action) to the new state and a result.  An
  exception is a value of \<open>py_error\<close>, and keeps the changes made before it.

  \<^bold>\<open>What is shown.\<close>  Per component: the calculations are bounded, use nothing from the future
  and say exactly when they raise; attention intervals are sound and their gaps meet a
  specification; the hysteresis decides every evaluation of its policy and justifies every
  transition by its history; Events are the replay of their logs, writes are atomic, idempotent and
  announced; the hot state never goes back and is the latest update; marks and snapshots are not
  lost or reordered; subscriptions stay within the limit; the gateway accepts every key once and in
  order, and reports LIVE only on grounds; loops publish what their hours allow and run sessions on
  their own days; histories are read as recorded.  Across components: while the calls of a day
  return, the stored Events have the statuses the hysteresis decided, and ranked Events can be
  opened; every article a revision of evidence names is stored, matched and contains a named entity;
  and active Events show the current revision of their evidence.  Theorems of kind error show where the code loses what it should keep: a failed close is
  never repeated, observations accepted in a failed tick are lost, an interrupted recovery is never
  resumed, a stale reconciliation blocks later ones.

  \<^bold>\<open>Bounds and abstractions.\<close>
  \<^item> Decimals are exact rationals with the rounding of the context (28, 50 or 60 digits, ties to
    even) after each operation; exponents are unbounded.  Doubles are rationals; \<open>to_double\<close>
    rounds to 53 bits.
  \<^item> Timestamps are microseconds with an offset or naive; dates are day numbers.  The clock is an
    action or a sequence of readings, so that calls may see any times.
  \<^item> SHA-256 is a parameter \<open>H\<close>; where a theorem needs that two inputs do not collide, it is a
    named hypothesis on the inputs of the run.  Texts of values that the language formats are a
    parameter; messages of exceptions are tags.
  \<^item> The adapter is a record of functions, the world of the loops a type variable: their theorems
    hold for every such environment, and are instantiated on the fixture adapter.
  \<^item> The one loop without an obvious bound, the capping of the weights, terminates because every
    round fixes a stock; with its rounds counted, as many as there are stocks are enough.
  \<^item> Text is UTF-8; code points, white space and the patterns of the news packages are computed on
    it.  The Unicode tables of \<open>casefold\<close> and \<open>lower\<close> and the functions of
    \<open>urllib.parse\<close> are parameters.
  \<^item> Feeds, the language model and the supplemental search answer with any values or exceptions,
    which may change from call to call.

  \<^bold>\<open>Not modelled.\<close>  The PostgreSQL stores (SQL on a server; the in-memory stores state the
  same contracts), the network and thread code of the live adapter, the text of JSON files and of
  HTTP documents, readers of checkpoints from JSON (\<open>from_dict\<close>), the HTTP clients of the news
  sources and of the language model, the patterns over Korean text of \<open>infostock\<close>, the
  HTTP API with its logins (\<open>identity/\<close>), operator reviews (\<open>operator/\<close>) and similar days
  (\<open>historical_matching/\<close>), which the pipeline does not read, the batch jobs, scripts and the
  knowledge base of \<open>ontology\<close>, which are SQL, patterns over Korean text and command lines.
\<close>

end
